(* ===== verification/Prelude.thy ===== *)
theory Prelude
  imports Main "HOL-Library.Word"
begin

text \<open>
  Shared vocabulary of the development: identifiers, clocks, the shape of a fallible
  operation, and the few relational operators that every SQL statement of the crates under
  \<^verbatim>\<open>src/crates\<close> is translated to.

  A Postgres table is a list of rows in insertion order. A statement
  \<^verbatim>\<open>UPDATE t SET f WHERE p\<close> is \<open>sql_update p f t\<close>, \<^verbatim>\<open>DELETE FROM t WHERE p\<close> is
  \<open>sql_delete p t\<close>, \<^verbatim>\<open>rows_affected()\<close> is \<open>sql_affected p t\<close>,
  \<^verbatim>\<open>SELECT EXISTS\<close> is \<open>sql_exists p t\<close> and \<^verbatim>\<open>fetch_optional\<close> is \<open>sql_find p t\<close>.
\<close>

section \<open>Collections of rewrite rules\<close>

named_theorems sql_simps \<open>equations of the relational operators\<close>
named_theorems row_simps \<open>what an operation leaves unchanged\<close>
named_theorems wf_intros \<open>preservation of well-formedness\<close>

section \<open>Identifiers, clocks and results\<close>

text \<open>A UUID is its 128-bit value; Postgres orders UUIDs by it (\<^verbatim>\<open>LEAST\<close>, \<^verbatim>\<open>GREATEST\<close>).\<close>

type_synonym uuid = "128 word"

text \<open>Instants and durations count microseconds, the resolution of \<^verbatim>\<open>TIMESTAMPTZ\<close>.\<close>

type_synonym timestamp = int
type_synonym duration = int

definition seconds :: "int \<Rightarrow> duration" where
  "seconds n = n * 1000000"

definition days :: "int \<Rightarrow> duration" where
  "days n = n * 86400 * 1000000"

lemma seconds_mono [simp]: "seconds a \<le> seconds b \<longleftrightarrow> a \<le> b"
  by (simp add: seconds_def)

lemma seconds_pos [simp]: "0 < seconds a \<longleftrightarrow> 0 < a"
  by (simp add: seconds_def)

section \<open>Relational operators\<close>

definition sql_update :: "('r \<Rightarrow> bool) \<Rightarrow> ('r \<Rightarrow> 'r) \<Rightarrow> 'r list \<Rightarrow> 'r list" where
  "sql_update p f rs = map (\<lambda>r. if p r then f r else r) rs"

definition sql_delete :: "('r \<Rightarrow> bool) \<Rightarrow> 'r list \<Rightarrow> 'r list" where
  "sql_delete p rs = filter (\<lambda>r. \<not> p r) rs"

definition sql_affected :: "('r \<Rightarrow> bool) \<Rightarrow> 'r list \<Rightarrow> nat" where
  "sql_affected p rs = length (filter p rs)"

definition sql_exists :: "('r \<Rightarrow> bool) \<Rightarrow> 'r list \<Rightarrow> bool" where
  "sql_exists p rs = list_ex p rs"

definition sql_find :: "('r \<Rightarrow> bool) \<Rightarrow> 'r list \<Rightarrow> 'r option" where
  "sql_find p rs = List.find p rs"

text \<open>\<^verbatim>\<open>COALESCE(new, old)\<close> on nullable columns.\<close>

definition coalesce :: "'a option \<Rightarrow> 'a option \<Rightarrow> 'a option" where
  "coalesce new old = (case new of Some v \<Rightarrow> Some v | None \<Rightarrow> old)"

definition coalesce_or :: "'a option \<Rightarrow> 'a \<Rightarrow> 'a" where
  "coalesce_or new old = (case new of Some v \<Rightarrow> v | None \<Rightarrow> old)"

lemma coalesce_simps [simp]:
  "coalesce (Some v) old = Some v" "coalesce None old = old"
  "coalesce_or (Some v) x = v" "coalesce_or None x = x"
  by (simp_all add: coalesce_def coalesce_or_def)

lemma coalesce_fills [simp]: "old = Some v \<Longrightarrow> coalesce old new = Some v"
  by simp

lemma sql_exists_iff [sql_simps]: "sql_exists p rs \<longleftrightarrow> (\<exists>r \<in> set rs. p r)"
  by (simp add: sql_exists_def list_ex_iff)

lemma sql_affected_eq_0 [sql_simps]: "sql_affected p rs = 0 \<longleftrightarrow> (\<forall>r \<in> set rs. \<not> p r)"
  by (simp add: sql_affected_def filter_empty_conv)

lemma sql_affected_pos: "0 < sql_affected p rs \<longleftrightarrow> sql_exists p rs"
  by (simp add: sql_affected_def sql_exists_iff filter_empty_conv)

lemma sql_find_SomeD:
  assumes "sql_find p rs = Some r"
  shows "r \<in> set rs" and "p r"
  using assms by (auto simp: sql_find_def find_Some_iff)

lemma sql_find_None_iff [sql_simps]: "sql_find p rs = None \<longleftrightarrow> (\<forall>r \<in> set rs. \<not> p r)"
  by (auto simp: sql_find_def find_None_iff)

lemma sql_find_SomeI: "r \<in> set rs \<Longrightarrow> p r \<Longrightarrow> \<exists>r'. sql_find p rs = Some r'"
  using sql_find_None_iff [of p rs] by (cases "sql_find p rs") auto

lemma length_sql_update [simp]: "length (sql_update p f rs) = length rs"
  by (simp add: sql_update_def)

lemma set_sql_update: "set (sql_update p f rs) = (\<lambda>r. if p r then f r else r) ` set rs"
  by (simp add: sql_update_def)

lemma in_sql_updateE:
  assumes "r \<in> set (sql_update p f rs)"
  obtains (updated) r0 where "r0 \<in> set rs" "p r0" "r = f r0"
    | (kept) "r \<in> set rs" "\<not> p r"
  using assms by (auto simp: set_sql_update split: if_splits)

lemma ball_sql_updateI:
  assumes "\<And>r. r \<in> set rs \<Longrightarrow> p r \<Longrightarrow> Q (f r)" and "\<And>r. r \<in> set rs \<Longrightarrow> \<not> p r \<Longrightarrow> Q r"
  shows "\<forall>r \<in> set (sql_update p f rs). Q r"
  using assms by (auto simp: set_sql_update)

lemma set_sql_delete [simp]: "set (sql_delete p rs) = {r \<in> set rs. \<not> p r}"
  by (auto simp: sql_delete_def)

lemma sql_update_none: "(\<And>r. r \<in> set rs \<Longrightarrow> \<not> p r) \<Longrightarrow> sql_update p f rs = rs"
  by (simp add: sql_update_def map_idI)

lemma sql_update_append [simp]:
  "sql_update p f (rs @ qs) = sql_update p f rs @ sql_update p f qs"
  by (simp add: sql_update_def)

lemma sql_update_Cons [simp]:
  "sql_update p f (r # rs) = (if p r then f r else r) # sql_update p f rs"
  "sql_update p f [] = []"
  by (simp_all add: sql_update_def)

lemma map_sql_update: "(\<And>r. g (f r) = g r) \<Longrightarrow> map g (sql_update p f rs) = map g rs"
  by (simp add: sql_update_def)

lemma sql_delete_length_le: "length (sql_delete p rs) \<le> length rs"
  by (simp add: sql_delete_def)

lemma sql_delete_affected: "length (sql_delete p rs) + sql_affected p rs = length rs"
  using sum_length_filter_compl [of p rs] by (simp add: sql_delete_def sql_affected_def add.commute)

section \<open>Unique indexes\<close>

text \<open>
  \<^verbatim>\<open>CREATE UNIQUE INDEX ... ON t (k) WHERE p\<close>: among the rows that satisfy \<open>p\<close> no two
  agree on \<open>k\<close>. A primary key is the index with \<open>p\<close> always true. An \<^verbatim>\<open>INSERT\<close> of \<open>r\<close>
  violates the index exactly when \<open>unique_violation p k r t\<close>.
\<close>

definition unique_index :: "('r \<Rightarrow> bool) \<Rightarrow> ('r \<Rightarrow> 'k) \<Rightarrow> 'r list \<Rightarrow> bool" where
  "unique_index p k rs = distinct (map k (filter p rs))"

definition unique_violation :: "('r \<Rightarrow> bool) \<Rightarrow> ('r \<Rightarrow> 'k) \<Rightarrow> 'r \<Rightarrow> 'r list \<Rightarrow> bool" where
  "unique_violation p k r rs = (p r \<and> sql_exists (\<lambda>r'. p r' \<and> k r' = k r) rs)"

lemma unique_index_Nil [simp]: "unique_index p k []"
  by (simp add: unique_index_def)

lemma unique_index_Cons [simp]:
  "unique_index p k (r # rs) \<longleftrightarrow> \<not> unique_violation p k r rs \<and> unique_index p k rs"
  by (auto simp: unique_index_def unique_violation_def sql_exists_iff image_iff)

lemma unique_index_insert [simp]:
  "unique_index p k (rs @ [r]) \<longleftrightarrow> unique_index p k rs \<and> \<not> unique_violation p k r rs"
  by (induction rs) (auto simp: unique_violation_def sql_exists_iff)

lemma unique_index_delete [simp, intro]:
  "unique_index p k rs \<Longrightarrow> unique_index p k (sql_delete q rs)"
  by (induction rs) (auto simp: sql_delete_def unique_violation_def sql_exists_iff)

lemma unique_index_update:
  assumes "unique_index p k rs"
    and "\<And>r. r \<in> set rs \<Longrightarrow> q r \<Longrightarrow> p (f r) \<Longrightarrow> p r"
    and "\<And>r. r \<in> set rs \<Longrightarrow> q r \<Longrightarrow> k (f r) = k r"
  shows "unique_index p k (sql_update q f rs)"
  using assms
proof (induction rs)
  case (Cons r rs)
  have IH: "unique_index p k (sql_update q f rs)"
    using Cons by simp
  have "\<not> unique_violation p k (if q r then f r else r) (sql_update q f rs)"
  proof
    assume "unique_violation p k (if q r then f r else r) (sql_update q f rs)"
    then obtain r0 where "r0 \<in> set rs" "p (if q r then f r else r)"
      "p (if q r0 then f r0 else r0)"
      "k (if q r0 then f r0 else r0) = k (if q r then f r else r)"
      by (auto simp: unique_violation_def sql_exists_iff set_sql_update)
    then have "p r" "p r0" "k r0 = k r" "r0 \<in> set rs"
      using Cons.prems(2,3) by (auto split: if_splits)
    then have "unique_violation p k r rs"
      by (auto simp: unique_violation_def sql_exists_iff)
    with Cons.prems(1) show False by simp
  qed
  with IH show ?case by simp
qed simp

lemma unique_indexD:
  assumes "unique_index p k rs" "r \<in> set rs" "r' \<in> set rs" "p r" "p r'" "k r = k r'"
  shows "r = r'"
  using assms
  by (induction rs) (auto simp: unique_violation_def sql_exists_iff)

lemma unique_index_affected_le_1:
  assumes "unique_index (\<lambda>_. True) k rs"
  shows "sql_affected (\<lambda>r. k r = x \<and> q r) rs \<le> 1"
  using assms
  by (induction rs) (auto simp: sql_affected_def unique_violation_def sql_exists_iff
      filter_empty_conv)

text \<open>With a primary key, \<^verbatim>\<open>fetch_optional ... WHERE id = $1\<close> returns the row itself.\<close>

lemma sql_find_unique:
  assumes "unique_index (\<lambda>_. True) k rs" "r \<in> set rs" "k r = x"
  shows "sql_find (\<lambda>r. k r = x) rs = Some r"
proof -
  obtain r' where r': "sql_find (\<lambda>r. k r = x) rs = Some r'"
    using sql_find_SomeI [of r rs "\<lambda>r. k r = x"] assms(2,3) by auto
  then have "r' \<in> set rs" "k r' = x"
    by (auto dest: sql_find_SomeD)
  with assms have "r' = r"
    by (auto intro: unique_indexD)
  with r' show ?thesis by simp
qed

text \<open>A unique index selects at most one row per key.\<close>

lemma unique_index_filter:
  assumes "unique_index p k rs" "r \<in> set rs" "p r" "k r = x"
  shows "filter (\<lambda>r. k r = x \<and> p r) rs = [r]"
  using assms
proof (induction rs)
  case (Cons a rs)
  show ?case
  proof (cases "p a \<and> k a = x")
    case True
    then have "\<forall>r' \<in> set rs. \<not> (k r' = x \<and> p r')"
      using Cons.prems(1) by (auto simp: unique_violation_def sql_exists_iff)
    moreover from this Cons.prems True have "a = r" by auto
    ultimately show ?thesis using True by (simp add: filter_empty_conv)
  next
    case False
    with Cons show ?thesis by auto
  qed
qed simp

lemma sql_find_update:
  assumes "\<And>r. k (f r) = k r"
  shows "sql_find (\<lambda>r. k r = x) (sql_update q f rs) =
    map_option (\<lambda>r. if q r then f r else r) (sql_find (\<lambda>r. k r = x) rs)"
  using assms by (induction rs) (auto simp: sql_find_def)

lemma sql_find_update_self:
  assumes "\<And>r. k (f r) = k r"
  shows "sql_find (\<lambda>r. k r = x) (sql_update (\<lambda>r. k r = x) f rs) =
    map_option f (sql_find (\<lambda>r. k r = x) rs)"
  using assms by (induction rs) (auto simp: sql_find_def)

section \<open>Replacing one row of a table with a primary key\<close>

lemma unique_index_middle:
  "unique_index p k (as @ r # bs) \<longleftrightarrow>
     unique_index p k (as @ bs) \<and> \<not> unique_violation p k r (as @ bs)"
  by (induction as) (auto simp: unique_violation_def sql_exists_iff)

lemma primary_key_split:
  assumes "unique_index (\<lambda>_. True) i rs" "u \<in> set rs" "i u = x"
  obtains as bs where "rs = as @ u # bs"
    and "\<And>f. sql_update (\<lambda>v. i v = x) f rs = as @ f u # bs"
    and "sql_delete (\<lambda>v. i v = x) rs = as @ bs"
proof -
  from assms(2) obtain as bs where rs: "rs = as @ u # bs"
    by (auto dest: split_list)
  have ne: "i v \<noteq> x" if "v \<in> set (as @ bs)" for v
    using assms(1,3) that
    by (auto simp: rs unique_index_middle unique_violation_def sql_exists_iff)
  have "sql_update (\<lambda>v. i v = x) f rs = as @ f u # bs" for f
    using ne by (auto simp: rs assms(3) sql_update_none)
  moreover have "sql_delete (\<lambda>v. i v = x) rs = as @ bs"
    using ne assms(3) by (auto simp: rs sql_delete_def filter_id_conv)
  ultimately show thesis using rs that by blast
qed

lemma unique_index_replace:
  assumes "unique_index (\<lambda>_. True) i rs" "u \<in> set rs" "i u = x"
    and "unique_index p k rs" "\<not> unique_violation p k (f u) (sql_delete (\<lambda>v. i v = x) rs)"
  shows "unique_index p k (sql_update (\<lambda>v. i v = x) f rs)"
  using assms(1-3)
proof (rule primary_key_split)
  fix as bs
  assume "rs = as @ u # bs" "\<And>f. sql_update (\<lambda>v. i v = x) f rs = as @ f u # bs"
    "sql_delete (\<lambda>v. i v = x) rs = as @ bs"
  with assms(4,5) show ?thesis by (simp add: unique_index_middle)
qed

text \<open>A row already stored violates no index against the others.\<close>

lemma stored_not_violating:
  assumes "unique_index (\<lambda>_. True) i rs" "u \<in> set rs" "i u = x" "unique_index p k rs"
  shows "\<not> unique_violation p k u (sql_delete (\<lambda>v. i v = x) rs)"
  using assms(1-3)
proof (rule primary_key_split)
  fix as bs
  assume "rs = as @ u # bs" "sql_delete (\<lambda>v. i v = x) rs = as @ bs"
  with assms(4) show ?thesis by (simp add: unique_index_middle)
qed

lemma kept_not_violating:
  assumes "unique_index (\<lambda>_. True) i rs" "u \<in> set rs" "i u = x" "unique_index p k rs"
    and "p (f u) \<Longrightarrow> p u" "k (f u) = k u"
  shows "\<not> unique_violation p k (f u) (sql_delete (\<lambda>v. i v = x) rs)"
  using stored_not_violating [OF assms(1-4)] assms(5,6) by (auto simp: unique_violation_def)

section \<open>Loops that stop at the first error\<close>

text \<open>\<^verbatim>\<open>for x in xs { f(x)?; }\<close> on a state that an error discards, and on one that keeps its changes.\<close>

fun try_all :: "('a \<Rightarrow> 's \<Rightarrow> 'e + 's) \<Rightarrow> 'a list \<Rightarrow> 's \<Rightarrow> 'e + 's" where
  "try_all f [] s = Inr s"
| "try_all f (x # xs) s = (case f x s of Inl e \<Rightarrow> Inl e | Inr s' \<Rightarrow> try_all f xs s')"

fun run_all :: "('a \<Rightarrow> 's \<Rightarrow> ('e + unit) \<times> 's) \<Rightarrow> 'a list \<Rightarrow> 's \<Rightarrow> ('e + unit) \<times> 's" where
  "run_all f [] s = (Inr (), s)"
| "run_all f (x # xs) s = (case f x s of (Inl e, s') \<Rightarrow> (Inl e, s') | (Inr _, s') \<Rightarrow> run_all f xs s')"

lemma try_all_append:
  "try_all f (xs @ ys) s = (case try_all f xs s of Inl e \<Rightarrow> Inl e | Inr s' \<Rightarrow> try_all f ys s')"
  by (induction xs arbitrary: s) (auto split: sum.splits)

lemma try_all_invariant:
  "try_all f xs s = Inr s' \<Longrightarrow> P s \<Longrightarrow> (\<And>x s s'. x \<in> set xs \<Longrightarrow> P s \<Longrightarrow> f x s = Inr s' \<Longrightarrow> P s') \<Longrightarrow> P s'"
proof (induction xs arbitrary: s)
  case (Cons x xs)
  from Cons.prems(1) obtain s1 where s1: "f x s = Inr s1" "try_all f xs s1 = Inr s'"
    by (auto split: sum.splits)
  from Cons.IH [OF s1(2)] Cons.prems s1(1) show ?case by (metis list.set_intros)
qed simp

lemma run_all_invariant:
  "P s \<Longrightarrow> (\<And>x s. x \<in> set xs \<Longrightarrow> P s \<Longrightarrow> P (snd (f x s))) \<Longrightarrow> P (snd (run_all f xs s))"
proof (induction xs arbitrary: s)
  case (Cons x xs)
  obtain r s1 where fx: "f x s = (r, s1)" by fastforce
  with Cons.prems(2) [of x s] Cons.prems(1) have "P s1" by simp
  with Cons.IH [of s1] Cons.prems(2) show ?case by (cases r) (simp_all add: fx)
qed simp

section \<open>Paging\<close>

text \<open>An offset that fits 64 bits does not wrap, and consecutive pages tile a list.\<close>

lemma sint_small:
  assumes "- (2 ^ 63) \<le> n" "n < 2 ^ 63"
  shows "sint (word_of_int n :: 64 word) = n"
proof -
  have "signed_take_bit 63 n = n" using assms by (intro signed_take_bit_int_eq_self) simp_all
  moreover have "sint (word_of_int k :: 64 word) = signed_take_bit 63 k" for k by transfer simp
  ultimately show ?thesis by simp
qed

lemma concat_pages: "concat (map (\<lambda>k. take n (drop (k * n) xs)) [0..<m]) = take (m * n) xs"
proof (induction m)
  case (Suc m)
  have "take (Suc m * n) xs = take (m * n) xs @ take n (drop (m * n) xs)"
    unfolding mult_Suc add.commute [of n] by (rule take_add)
  with Suc show ?case by simp
qed simp

end
