(* ===== verification/Protocol_Uuid.thy ===== *)
theory Protocol_Uuid
  imports Text
begin

text \<open>
  \<^verbatim>\<open>yggdrasil-protocol/src/uuid.rs\<close>: the only sanctioned conversions between the dashed
  \<^verbatim>\<open>minecraft_uuid\<close> and the 32-digit \<^verbatim>\<open>profile_uuid\<close>, with their round trips. The ellipsis
  appended by \<^verbatim>\<open>truncated\<close> is the three bytes of U+2026 in UTF-8.
\<close>

section \<open>Definitions\<close>

datatype uuid_error = UuidInvalid string

definition truncated :: "string \<Rightarrow> string" where
  "truncated value =
     (if length value > 48 then take 48 value @ [CHR 0xE2, CHR 0x80, CHR 0xA6] else value)"

definition is_uuid_undashed :: "string \<Rightarrow> bool" where
  "is_uuid_undashed value \<longleftrightarrow> length value = 32 \<and> list_all is_ascii_hexdigit value"

text \<open>The loop over \<^verbatim>\<open>bytes.iter().enumerate()\<close>, from index \<open>i\<close> on.\<close>

fun dashed_from :: "nat \<Rightarrow> string \<Rightarrow> bool" where
  "dashed_from i [] = True"
| "dashed_from i (b # bs) =
     (if i \<in> {8, 13, 18, 23} then b = CHR ''-'' \<and> dashed_from (Suc i) bs
      else is_ascii_hexdigit b \<and> dashed_from (Suc i) bs)"

definition is_uuid_dashed :: "string \<Rightarrow> bool" where
  "is_uuid_dashed value \<longleftrightarrow> length value = 36 \<and> dashed_from 0 value"

definition undash_uuid :: "string \<Rightarrow> uuid_error + string" where
  "undash_uuid value =
     (if is_uuid_undashed value then Inr (to_ascii_lowercase value)
      else if is_uuid_dashed value then
        Inr (to_ascii_lowercase (filter (\<lambda>c. c \<noteq> CHR ''-'') value))
      else Inl (UuidInvalid (truncated value)))"

text \<open>\<^verbatim>\<open>&v[a..b]\<close>\<close>

definition slice :: "nat \<Rightarrow> nat \<Rightarrow> 'a list \<Rightarrow> 'a list" where
  "slice a b v = take (b - a) (drop a v)"

definition dash_uuid :: "string \<Rightarrow> uuid_error + string" where
  "dash_uuid value =
     (if is_uuid_dashed value then Inr (to_ascii_lowercase value)
      else if \<not> is_uuid_undashed value then Inl (UuidInvalid (truncated value))
      else let v = to_ascii_lowercase value in
        Inr (slice 0 8 v @ ''-'' @ slice 8 12 v @ ''-'' @ slice 12 16 v @ ''-''
             @ slice 16 20 v @ ''-'' @ slice 20 32 v))"

section \<open>The shape of the two forms\<close>

lemma undashed_lower [simp]: "is_uuid_undashed (to_ascii_lowercase v) = is_uuid_undashed v"
  by (simp add: is_uuid_undashed_def to_ascii_lowercase_def list_all_iff)

lemma dashed_from_lower [simp]: "dashed_from i (to_ascii_lowercase v) = dashed_from i v"
  by (induction i v rule: dashed_from.induct)
    (auto simp: to_ascii_lowercase_def lower_char_eq_dash)

lemma dashed_lower [simp]: "is_uuid_dashed (to_ascii_lowercase v) = is_uuid_dashed v"
  by (simp add: is_uuid_dashed_def)

lemma dashed_not_undashed: "is_uuid_dashed v \<Longrightarrow> \<not> is_uuid_undashed v"
  by (simp add: is_uuid_dashed_def is_uuid_undashed_def)

lemma dashed_from_append:
  "dashed_from i (xs @ ys) \<longleftrightarrow> dashed_from i xs \<and> dashed_from (i + length xs) ys"
  by (induction i xs rule: dashed_from.induct) auto

lemma dashed_from_hex:
  "list_all is_ascii_hexdigit xs \<Longrightarrow> \<forall>j \<in> {8, 13, 18, 23}. j < i \<or> i + length xs \<le> j
    \<Longrightarrow> dashed_from i xs"
  by (induction i xs rule: dashed_from.induct) auto

lemma dashed_from_hexD:
  "dashed_from i xs \<Longrightarrow> \<forall>j \<in> {8, 13, 18, 23}. j < i \<or> i + length xs \<le> j
    \<Longrightarrow> list_all is_ascii_hexdigit xs"
  by (induction i xs rule: dashed_from.induct) auto

text \<open>A dashed UUID is five runs of hexadecimal digits, of lengths 8, 4, 4, 4 and 12.\<close>

definition groups :: "string \<Rightarrow> string \<Rightarrow> string \<Rightarrow> string \<Rightarrow> string \<Rightarrow> bool" where
  "groups a b c d e \<longleftrightarrow> length a = 8 \<and> length b = 4 \<and> length c = 4 \<and> length d = 4
     \<and> length e = 12 \<and> list_all is_ascii_hexdigit (a @ b @ c @ d @ e)"

lemma append_of_length:
  assumes "length v = n + m"
  obtains a b where "v = a @ b" "length a = n" "length b = m"
  using that [of "take n v" "drop n v"] assms by simp

lemma undashed_groups:
  assumes "is_uuid_undashed v"
  obtains a b c d e where "groups a b c d e" "v = a @ b @ c @ d @ e"
proof -
  from assms have len: "length v = 8 + (4 + (4 + (4 + 12)))"
    by (simp add: is_uuid_undashed_def)
  obtain a v1 where 1: "v = a @ v1" "length a = 8" "length v1 = 4 + (4 + (4 + 12))"
    using len by (rule append_of_length)
  obtain b v2 where 2: "v1 = b @ v2" "length b = 4" "length v2 = 4 + (4 + 12)"
    using 1(3) by (rule append_of_length)
  obtain c v3 where 3: "v2 = c @ v3" "length c = 4" "length v3 = 4 + 12"
    using 2(3) by (rule append_of_length)
  obtain d e where 4: "v3 = d @ e" "length d = 4" "length e = 12"
    using 3(3) by (rule append_of_length)
  have "groups a b c d e"
    using 1 2 3 4 assms by (simp add: groups_def is_uuid_undashed_def)
  with 1 2 3 4 show thesis by (intro that) auto
qed

lemma groups_undashed: "groups a b c d e \<Longrightarrow> is_uuid_undashed (a @ b @ c @ d @ e)"
  by (simp add: groups_def is_uuid_undashed_def)

lemma groups_dashed:
  "groups a b c d e \<Longrightarrow> is_uuid_dashed (a @ ''-'' @ b @ ''-'' @ c @ ''-'' @ d @ ''-'' @ e)"
  by (auto simp: groups_def is_uuid_dashed_def dashed_from_append intro!: dashed_from_hex)

lemma hex_no_dash: "list_all is_ascii_hexdigit xs \<Longrightarrow> filter (\<lambda>c. c \<noteq> CHR ''-'') xs = xs"
  by (induction xs) auto

lemma groups_strip:
  "groups a b c d e \<Longrightarrow>
     filter (\<lambda>x. x \<noteq> CHR ''-'') (a @ ''-'' @ b @ ''-'' @ c @ ''-'' @ d @ ''-'' @ e)
       = a @ b @ c @ d @ e"
  by (simp add: groups_def hex_no_dash)

lemma dash_step:
  assumes "dashed_from i v" "length v = n + Suc m" "i + n \<in> {8, 13, 18, 23}"
    and "\<forall>j \<in> {8, 13, 18, 23}. j < i \<or> i + n \<le> j"
  obtains a w where "v = a @ ''-'' @ w" "length a = n" "list_all is_ascii_hexdigit a"
    "dashed_from (Suc (i + n)) w" "length w = m"
proof -
  obtain a u where au: "v = a @ u" "length a = n" "length u = Suc m"
    using assms(2) by (rule append_of_length)
  then obtain x w where u: "u = x # w" "length w = m"
    by (cases u) auto
  have "dashed_from i a" "dashed_from (i + n) u"
    using assms(1) au by (auto simp: dashed_from_append)
  with u assms(3) have "x = CHR ''-''" "dashed_from (Suc (i + n)) w"
    by auto
  moreover have "list_all is_ascii_hexdigit a"
    using \<open>dashed_from i a\<close> assms(4) au(2) by (auto intro: dashed_from_hexD)
  ultimately show thesis using au u by (intro that) auto
qed

lemma dashed_groups:
  assumes "is_uuid_dashed v"
  obtains a b c d e where "groups a b c d e" "v = a @ ''-'' @ b @ ''-'' @ c @ ''-'' @ d @ ''-'' @ e"
proof -
  from assms have len: "length v = 8 + Suc 27" and d0: "dashed_from 0 v"
    by (auto simp: is_uuid_dashed_def)
  obtain a v1 where 1: "v = a @ ''-'' @ v1" "length a = 8" "list_all is_ascii_hexdigit a"
      "dashed_from (Suc (0 + 8)) v1" "length v1 = 27"
    by (rule dash_step [OF d0 len]) auto
  have l1: "length v1 = 4 + Suc 22" using 1 by simp
  obtain b v2 where 2: "v1 = b @ ''-'' @ v2" "length b = 4" "list_all is_ascii_hexdigit b"
      "dashed_from (Suc (Suc (0 + 8) + 4)) v2" "length v2 = 22"
    by (rule dash_step [OF 1(4) l1]) auto
  have l2: "length v2 = 4 + Suc 17" using 2 by simp
  obtain c v3 where 3: "v2 = c @ ''-'' @ v3" "length c = 4" "list_all is_ascii_hexdigit c"
      "dashed_from (Suc (Suc (Suc (0 + 8) + 4) + 4)) v3" "length v3 = 17"
    by (rule dash_step [OF 2(4) l2]) auto
  have l3: "length v3 = 4 + Suc 12" using 3 by simp
  obtain d e where 4: "v3 = d @ ''-'' @ e" "length d = 4" "list_all is_ascii_hexdigit d"
      "dashed_from (Suc (Suc (Suc (Suc (0 + 8) + 4) + 4) + 4)) e" "length e = 12"
    by (rule dash_step [OF 3(4) l3]) auto
  have "list_all is_ascii_hexdigit e"
    using 4 by (auto intro: dashed_from_hexD)
  with 1 2 3 4 have "groups a b c d e" by (simp add: groups_def)
  with 1 2 3 4 show thesis by (intro that) auto
qed

lemma dash_groups:
  assumes "groups a b c d e"
  shows "dash_uuid (a @ b @ c @ d @ e) =
    Inr (to_ascii_lowercase (a @ ''-'' @ b @ ''-'' @ c @ ''-'' @ d @ ''-'' @ e))"
proof -
  have "is_uuid_undashed (a @ b @ c @ d @ e)"
    using assms by (rule groups_undashed)
  with assms show ?thesis
    using dashed_not_undashed [of "a @ b @ c @ d @ e"]
    by (auto simp: dash_uuid_def Let_def to_ascii_lowercase_def slice_def groups_def
        lower_char_def is_upper_def)
qed

lemma undash_groups:
  assumes "groups a b c d e"
  shows "undash_uuid (a @ ''-'' @ b @ ''-'' @ c @ ''-'' @ d @ ''-'' @ e) =
    Inr (to_ascii_lowercase (a @ b @ c @ d @ e))"
  using groups_dashed [OF assms] groups_strip [OF assms]
    dashed_not_undashed [OF groups_dashed [OF assms]]
  by (simp add: undash_uuid_def)

lemma undash_undashed: "is_uuid_undashed v \<Longrightarrow> undash_uuid v = Inr (to_ascii_lowercase v)"
  by (simp add: undash_uuid_def)

lemma groups_lower:
  "groups a b c d e \<Longrightarrow> groups (to_ascii_lowercase a) (to_ascii_lowercase b)
     (to_ascii_lowercase c) (to_ascii_lowercase d) (to_ascii_lowercase e)"
  by (auto simp: groups_def to_ascii_lowercase_def list_all_iff)

lemma lower_append [simp]:
  "to_ascii_lowercase (a @ b) = to_ascii_lowercase a @ to_ascii_lowercase b"
  "to_ascii_lowercase ''-'' = ''-''"
  "to_ascii_lowercase (CHR ''-'' # b) = CHR ''-'' # to_ascii_lowercase b"
  by (simp_all add: to_ascii_lowercase_def lower_char_def is_upper_def)

section \<open>Properties\<close>

text \<open>
  Undashing accepts exactly the dashed and the undashed forms, in either case, and always
  produces the canonical 32-digit lower-case form: the result is again accepted and is a fixed
  point of the conversion.
\<close>

theorem undash_canonical:
  "(\<exists>r. undash_uuid v = Inr r) = (is_uuid_undashed v \<or> is_uuid_dashed v) \<and>
   (\<forall>r. undash_uuid v = Inr r \<longrightarrow>
      is_uuid_undashed r \<and> to_ascii_lowercase r = r \<and> undash_uuid r = Inr r)"
proof (intro conjI allI impI)
  show "(\<exists>r. undash_uuid v = Inr r) = (is_uuid_undashed v \<or> is_uuid_dashed v)"
    by (auto simp: undash_uuid_def)
  fix r assume r: "undash_uuid v = Inr r"
  then consider "is_uuid_undashed v" | "is_uuid_dashed v"
    by (auto simp: undash_uuid_def split: if_splits)
  then have "is_uuid_undashed r \<and> to_ascii_lowercase r = r"
  proof cases
    case 2
    then obtain a b c d e where g: "groups a b c d e"
        and v: "v = a @ ''-'' @ b @ ''-'' @ c @ ''-'' @ d @ ''-'' @ e"
      by (rule dashed_groups)
    then have "r = to_ascii_lowercase (a @ b @ c @ d @ e)"
      using r undash_groups [OF g] by simp
    then show ?thesis using groups_undashed [OF g] by (metis to_ascii_lowercase_idem undashed_lower)
  qed (use r in \<open>auto simp: undash_uuid_def\<close>)
  then show "is_uuid_undashed r" "to_ascii_lowercase r = r" "undash_uuid r = Inr r"
    by (auto simp: undash_undashed)
qed

text \<open>
  The two conversions are inverse to each other up to letter case: dashing an undashed UUID
  and undashing the result gives the input in lower case, and undashing a dashed UUID and dashing
  the result gives the input in lower case.
\<close>

theorem dash_undash_roundtrip:
  "(is_uuid_undashed v \<longrightarrow>
      (\<exists>d. dash_uuid v = Inr d \<and> is_uuid_dashed d
           \<and> undash_uuid d = Inr (to_ascii_lowercase v))) \<and>
   (is_uuid_dashed v \<longrightarrow>
      (\<exists>u. undash_uuid v = Inr u \<and> is_uuid_undashed u
           \<and> dash_uuid u = Inr (to_ascii_lowercase v)))"
proof (intro conjI impI)
  assume "is_uuid_undashed v"
  then obtain a b c d e where g: "groups a b c d e" and v: "v = a @ b @ c @ d @ e"
    by (rule undashed_groups)
  then show "\<exists>d. dash_uuid v = Inr d \<and> is_uuid_dashed d
      \<and> undash_uuid d = Inr (to_ascii_lowercase v)"
    using dash_groups [OF g] groups_dashed [OF groups_lower [OF g]]
      undash_groups [OF groups_lower [OF g]] by simp
next
  assume "is_uuid_dashed v"
  then obtain a b c d e where g: "groups a b c d e"
      and v: "v = a @ ''-'' @ b @ ''-'' @ c @ ''-'' @ d @ ''-'' @ e"
    by (rule dashed_groups)
  then show "\<exists>u. undash_uuid v = Inr u \<and> is_uuid_undashed u
      \<and> dash_uuid u = Inr (to_ascii_lowercase v)"
    using undash_groups [OF g] groups_undashed [OF groups_lower [OF g]]
      dash_groups [OF groups_lower [OF g]] by simp
qed

end
