(* ===== verification/App_Error.thy ===== *)
theory App_Error
  imports Text
begin

text \<open>
  \<^verbatim>\<open>core/src/error.rs\<close>: the application error, its HTTP rendering and the helpers that turn a
  row count or a constraint violation into one.
\<close>

text \<open>
  What a failed statement reports. The statements of the model fail only through the
  constraints of the schema, so a database error names the constraint, or through a cast that
  leaves the range of its type (\<open>OutOfRange\<close>); a lookup that must return a row and finds none
  is \<open>RowNotFound\<close> (\<^verbatim>\<open>fetch_one\<close>); \<open>RepeatedRow\<close> is an \<^verbatim>\<open>ON CONFLICT DO UPDATE\<close> that would
  touch one row twice.
\<close>

datatype db_error =
    UniqueViolation string
  | ForeignKeyViolation string
  | CheckViolation string
  | OutOfRange
  | RowNotFound
  | RepeatedRow

datatype app_error =
    BadRequest string
  | Unauthorized
  | Forbidden
  | NotFound string
  | Conflict string
  | TooManyRequests
  | Database db_error
  | Internal string

type_synonym 'a app_result = "app_error + 'a"

definition app_error_parts :: "app_error \<Rightarrow> nat \<times> string \<times> string" where
  "app_error_parts e =
     (case e of
        BadRequest message \<Rightarrow> (400, ''bad_request'', message)
      | Unauthorized \<Rightarrow> (401, ''unauthorized'', ''missing or invalid authentication token'')
      | Forbidden \<Rightarrow> (403, ''forbidden'', ''you are not allowed to perform this action'')
      | NotFound message \<Rightarrow> (404, ''not_found'', message)
      | Conflict message \<Rightarrow> (409, ''conflict'', message)
      | TooManyRequests \<Rightarrow>
          (429, ''too_many_requests'', ''too many requests, please retry later'')
      | Database _ \<Rightarrow> (500, ''internal_error'', ''internal server error'')
      | Internal _ \<Rightarrow> (500, ''internal_error'', ''internal server error''))"

fun is_unique_violation :: "db_error \<Rightarrow> bool" where
  "is_unique_violation (UniqueViolation _) = True"
| "is_unique_violation _ = False"

fun is_foreign_key_violation :: "db_error \<Rightarrow> bool" where
  "is_foreign_key_violation (ForeignKeyViolation _) = True"
| "is_foreign_key_violation _ = False"

text \<open>\<^verbatim>\<open>db.constraint() == Some(name)\<close>.\<close>

fun violates :: "string \<Rightarrow> db_error \<Rightarrow> bool" where
  "violates name (UniqueViolation c) = (c = name)"
| "violates name (ForeignKeyViolation c) = (c = name)"
| "violates name (CheckViolation c) = (c = name)"
| "violates name _ = False"

definition slug_conflict :: "string \<Rightarrow> db_error \<Rightarrow> app_error" where
  "slug_conflict entity err =
     (if is_unique_violation err then Conflict (entity @ '' slug already exists'')
      else Database err)"

definition found :: "nat \<Rightarrow> string \<Rightarrow> unit app_result" where
  "found affected what =
     (if affected = 0 then Inl (NotFound (what @ '' not found'')) else Inr ())"

text \<open>\<^verbatim>\<open>row.ok_or_else(|| err)\<close>.\<close>

definition ok_or :: "app_error \<Rightarrow> 'a option \<Rightarrow> 'a app_result" where
  "ok_or e x = (case x of None \<Rightarrow> Inl e | Some v \<Rightarrow> Inr v)"

lemma ok_or_simps [simp]: "ok_or e None = Inl e" "ok_or e (Some v) = Inr v"
  by (simp_all add: ok_or_def)

lemma ok_or_eq_Inr [simp]: "ok_or e x = Inr v \<longleftrightarrow> x = Some v"
  by (cases x) auto

lemma ok_or_eq_Inl [simp]: "ok_or e x = Inl e' \<longleftrightarrow> x = None \<and> e' = e"
  by (cases x) auto

lemma found_simps [simp]:
  "found n what = Inr u \<longleftrightarrow> 0 < n"
  "found n what = Inl e \<longleftrightarrow> n = 0 \<and> e = NotFound (what @ '' not found'')"
  by (auto simp: found_def)

end
