(* ===== verification/Models.thy ===== *)
theory Models
  imports App_Error "HOL-Library.Sublist"
begin

text \<open>
  \<^verbatim>\<open>core/src/models.rs\<close>: the enumerations that live in text columns, their parsers, the
  user-name and email checks, and the escaping of \<^verbatim>\<open>LIKE\<close> needles, with a model of the
  \<^verbatim>\<open>LIKE ... ESCAPE '\'\<close> matcher it is written for.
\<close>

section \<open>Enumerations\<close>

datatype presence_status = Offline | Online | InWorld | Joinable

fun presence_as_str :: "presence_status \<Rightarrow> string" where
  "presence_as_str Offline = ''offline''"
| "presence_as_str Online = ''online''"
| "presence_as_str InWorld = ''inWorld''"
| "presence_as_str Joinable = ''joinable''"

definition presence_from_db :: "string \<Rightarrow> presence_status" where
  "presence_from_db value =
     (if value = ''online'' then Online
      else if value = ''inWorld'' then InWorld
      else if value = ''joinable'' then Joinable
      else Offline)"

definition presence_from_client :: "string \<Rightarrow> presence_status option" where
  "presence_from_client value =
     (if value = ''online'' then Some Online
      else if value = ''inWorld'' then Some InWorld
      else if value = ''joinable'' then Some Joinable
      else None)"

fun is_in_world :: "presence_status \<Rightarrow> bool" where
  "is_in_world InWorld = True"
| "is_in_world Joinable = True"
| "is_in_world _ = False"

datatype world_status = Open | Closed

definition world_status_parse :: "string \<Rightarrow> world_status app_result" where
  "world_status_parse value =
     (if value = ''open'' then Inr Open
      else if value = ''closed'' then Inr Closed
      else Inl (BadRequest ''status must be open or closed''))"

datatype invite_policy = HostOnly | FriendsOfFriends

definition invite_policy_parse :: "string \<Rightarrow> invite_policy app_result" where
  "invite_policy_parse value =
     (if value = ''host_only'' then Inr HostOnly
      else if value = ''friends_of_friends'' then Inr FriendsOfFriends
      else Inl (BadRequest ''invitePolicy must be host_only or friends_of_friends''))"

fun invite_policy_str :: "invite_policy \<Rightarrow> string" where
  "invite_policy_str HostOnly = ''host_only''"
| "invite_policy_str FriendsOfFriends = ''friends_of_friends''"

datatype request_status = Pending | PendingApproval | Accepted | Declined | Revoked | Expired

section \<open>User rows and the transferred subsets\<close>

record user =
  u_id :: uuid
  u_minecraft_uuid :: "string option"
  u_username :: string
  u_normalized_username :: string
  u_account_type :: "string option"
  u_xuid :: "string option"
  u_client_id :: "string option"
  u_first_seen_at :: timestamp
  u_last_seen_at :: timestamp
  u_created_at :: timestamp
  u_updated_at :: timestamp
  u_email :: "string option"
  u_password_hash :: "string option"
  u_origin :: string
  u_profile_uuid :: "string option"
  u_confirmed :: bool
  u_blocked :: bool
  u_is_admin :: bool

record user_dto =
  ud_id :: uuid
  ud_minecraft_uuid :: "string option"
  ud_username :: string

definition user_dto_from :: "user \<Rightarrow> user_dto" where
  "user_dto_from u =
     \<lparr>ud_id = u_id u, ud_minecraft_uuid = u_minecraft_uuid u, ud_username = u_username u\<rparr>"

record join_ticket_dto =
  jd_ticket :: string
  jd_relay_session_id :: uuid
  jd_world_session_id :: uuid
  jd_host_user_id :: uuid
  jd_expires_at :: timestamp
  jd_invite_policy :: string
  jd_host_minecraft_version :: "string option"
  jd_host_loader :: "string option"

section \<open>User names, emails and search needles\<close>

definition normalize_username :: "string \<Rightarrow> string" where
  "normalize_username username = to_ascii_lowercase (trim username)"

definition like_meta :: "char \<Rightarrow> bool" where
  "like_meta ch \<longleftrightarrow> ch = CHR 0x5C \<or> ch = CHR ''%'' \<or> ch = CHR ''_''"

fun escape_like_pattern :: "string \<Rightarrow> string" where
  "escape_like_pattern [] = []"
| "escape_like_pattern (ch # cs) =
     (if like_meta ch then CHR 0x5C # ch # escape_like_pattern cs
      else ch # escape_like_pattern cs)"

definition is_valid_email :: "string \<Rightarrow> bool" where
  "is_valid_email raw =
     (let email = trim raw in
      if email = [] \<or> length email > 254 \<or> list_ex is_whitespace email then False
      else case split_once (CHR ''@'') email of
        None \<Rightarrow> False
      | Some (local, domain) \<Rightarrow>
          if local = [] \<or> domain = [] \<or> CHR ''@'' \<in> set domain then False
          else case split_once (CHR ''.'') domain of
            Some (host, tld) \<Rightarrow> host \<noteq> [] \<and> tld \<noteq> [] \<and> \<not> starts_with ''.'' tld
          | None \<Rightarrow> False)"

section \<open>SQL LIKE\<close>

text \<open>
  \<^verbatim>\<open>text LIKE pattern ESCAPE '\'\<close>: a backslash makes the next character literal, a percent
  sign stands for any sequence, an underscore for any one character.
\<close>

function like :: "string \<Rightarrow> string \<Rightarrow> bool" where
  "like [] s = (s = [])"
| "like (c # p) s =
     (if c = CHR 0x5C then
        (case (p, s) of (d # p', x # xs) \<Rightarrow> x = d \<and> like p' xs | _ \<Rightarrow> False)
      else if c = CHR ''%'' then
        like p s \<or> (case s of [] \<Rightarrow> False | x # xs \<Rightarrow> like (c # p) xs)
      else
        (case s of [] \<Rightarrow> False | x # xs \<Rightarrow> (c = CHR ''_'' \<or> x = c) \<and> like p xs))"
  by pat_completeness auto
termination
  by (relation "measure (\<lambda>(p, s). length p + length s)") auto

declare like.simps [simp del]

lemma like_Nil [simp]: "like [] s \<longleftrightarrow> s = []"
  by (simp add: like.simps)

lemma like_percent: "like (CHR ''%'' # p) s \<longleftrightarrow> (\<exists>a b. s = a @ b \<and> like p b)"
proof (induction s)
  case Nil
  then show ?case by (simp add: like.simps)
next
  case (Cons x xs)
  have "like (CHR ''%'' # p) (x # xs) \<longleftrightarrow> like p (x # xs) \<or> like (CHR ''%'' # p) xs"
    by (subst like.simps) simp
  also have "\<dots> \<longleftrightarrow> (\<exists>a b. x # xs = a @ b \<and> like p b)"
    using Cons.IH by (auto simp: Cons_eq_append_conv)
  finally show ?case .
qed

lemma like_escaped:
  "like (escape_like_pattern n @ p) s \<longleftrightarrow> (\<exists>b. s = n @ b \<and> like p b)"
proof (induction n arbitrary: s)
  case (Cons c n)
  show ?case
  proof (cases s)
    case Nil
    then show ?thesis by (simp add: like.simps like_meta_def)
  next
    case (Cons x xs)
    have "like (escape_like_pattern (c # n) @ p) (x # xs) \<longleftrightarrow>
        x = c \<and> like (escape_like_pattern n @ p) xs"
      by (auto simp: like_meta_def like.simps(2))
    then show ?thesis using Cons Cons.IH by auto
  qed
qed simp

section \<open>Round trips and well-formedness of the text columns\<close>

lemma presence_from_db_as_str [simp]: "presence_from_db (presence_as_str p) = p"
  by (cases p) (simp_all add: presence_from_db_def)

lemma presence_from_client_never_offline:
  "presence_from_client v = Some p \<Longrightarrow> p \<noteq> Offline \<and> presence_as_str p = v"
  by (auto simp: presence_from_client_def split: if_splits)

lemma is_in_world_iff: "is_in_world p \<longleftrightarrow> p = InWorld \<or> p = Joinable"
  by (cases p) auto

lemma invite_policy_roundtrip: "invite_policy_parse (invite_policy_str p) = Inr p"
  by (cases p) (simp_all add: invite_policy_parse_def)

lemma normalize_username_idem [simp]:
  "normalize_username (normalize_username u) = normalize_username u"
proof -
  have "trimmed (to_ascii_lowercase (trim u))"
    using trimmed_trim [of u]
    by (cases "trim u") (auto simp: trimmed_def to_ascii_lowercase_def last_map)
  then show ?thesis by (simp add: normalize_username_def trim_trimmed)
qed

text \<open>
  The search needle is matched literally: the pattern \<^verbatim>\<open>%escape(needle)%\<close> built by the
  user search and the admin search selects exactly the strings that contain the needle, whatever
  metacharacters it holds.
\<close>

lemma escape_like_pattern_literal:
  "like (''%'' @ escape_like_pattern needle @ ''%'') s \<longleftrightarrow> sublist needle s"
proof -
  have "like (''%'' @ escape_like_pattern needle @ ''%'') s \<longleftrightarrow>
      (\<exists>a b. s = a @ b \<and> (\<exists>c. b = needle @ c \<and> like ''%'' c))"
    by (simp add: like_percent like_escaped)
  moreover have "like ''%'' c" for c
    by (simp add: like_percent)
  ultimately show ?thesis by (auto simp: sublist_def)
qed

end
