(* ===== verification/Realtime.thy ===== *)
theory Realtime
  imports Models "HOL-Library.AList"
begin

text \<open>
  \<^verbatim>\<open>core/src/realtime.rs\<close>: the events of the signaling channel, the fan-out hub
  (\<^verbatim>\<open>SignalingHub\<close>) and the relay rendezvous (\<^verbatim>\<open>RelayHub\<close>).

  A \<^verbatim>\<open>HashMap\<close> is an association list with distinct keys. The sender half of an unbounded
  channel is a connection with the events sent so far and a flag that says whether the receiver
  is still alive: \<^verbatim>\<open>tx.send(event)\<close> succeeds exactly when it is. Each method holds the mutex for
  its whole body, so it is one step on the hub.
\<close>

section \<open>Server events\<close>

datatype server_event =
    FriendRequest uuid user_dto
  | FriendRequestAccepted uuid user_dto
  | JoinRequest uuid uuid user_dto
  | JoinRequestAccepted uuid join_ticket_dto
  | JoinRequestDeclined uuid
  | GuestArriving uuid uuid user_dto
  | WorldInvite uuid uuid user_dto user_dto
  | InviteApprovalRequest uuid uuid user_dto user_dto
  | FriendRequestDeclined uuid
  | FriendRemoved uuid
  | PresenceUpdate uuid
  | WorldPolicyChanged uuid invite_policy

section \<open>The signaling hub\<close>

record connection =
  cn_id :: uuid
  cn_alive :: bool
  cn_sent :: "server_event list"

type_synonym signaling_hub = "(uuid \<times> connection list) list"

text \<open>\<open>conn_id\<close> is the value drawn by \<^verbatim>\<open>Uuid::new_v4()\<close>.\<close>

definition signaling_add :: "uuid \<Rightarrow> uuid \<Rightarrow> signaling_hub \<Rightarrow> uuid \<times> signaling_hub" where
  "signaling_add conn_id user_id hub =
     (let conns = (case map_of hub user_id of None \<Rightarrow> [] | Some cs \<Rightarrow> cs) in
      (conn_id,
       AList.update user_id (conns @ [\<lparr>cn_id = conn_id, cn_alive = True, cn_sent = []\<rparr>]) hub))"

definition put_conns :: "uuid \<Rightarrow> connection list \<Rightarrow> signaling_hub \<Rightarrow> signaling_hub" where
  "put_conns user_id conns hub =
     (if conns = [] then AList.delete user_id hub else AList.update user_id conns hub)"

definition signaling_remove :: "uuid \<Rightarrow> uuid \<Rightarrow> signaling_hub \<Rightarrow> signaling_hub" where
  "signaling_remove user_id conn_id hub =
     (case map_of hub user_id of
        None \<Rightarrow> hub
      | Some conns \<Rightarrow> put_conns user_id (filter (\<lambda>c. cn_id c \<noteq> conn_id) conns) hub)"

definition deliver :: "server_event \<Rightarrow> connection \<Rightarrow> connection" where
  "deliver event c = c\<lparr>cn_sent := cn_sent c @ [event]\<rparr>"

definition send_to :: "uuid \<Rightarrow> server_event \<Rightarrow> signaling_hub \<Rightarrow> signaling_hub" where
  "send_to user_id event hub =
     (case map_of hub user_id of
        None \<Rightarrow> hub
      | Some conns \<Rightarrow> put_conns user_id (map (deliver event) (filter cn_alive conns)) hub)"

definition connected_users :: "signaling_hub \<Rightarrow> nat" where
  "connected_users hub = length hub"

definition is_online :: "uuid \<Rightarrow> signaling_hub \<Rightarrow> bool" where
  "is_online user_id hub \<longleftrightarrow> map_of hub user_id \<noteq> None"

text \<open>The pump task ends and drops its receiver: the connection stays registered until pruned.\<close>

definition drop_receiver :: "uuid \<Rightarrow> uuid \<Rightarrow> signaling_hub \<Rightarrow> signaling_hub" where
  "drop_receiver user_id conn_id hub =
     AList.map_entry user_id
       (map (\<lambda>c. if cn_id c = conn_id then c\<lparr>cn_alive := False\<rparr> else c)) hub"

definition connections_of :: "uuid \<Rightarrow> signaling_hub \<Rightarrow> connection list" where
  "connections_of user_id hub = (case map_of hub user_id of None \<Rightarrow> [] | Some cs \<Rightarrow> cs)"

text \<open>No user is registered with an empty connection list, and no key occurs twice.\<close>

definition hub_wf :: "signaling_hub \<Rightarrow> bool" where
  "hub_wf hub \<longleftrightarrow> distinct (map fst hub) \<and> list_all (\<lambda>(_, cs). cs \<noteq> []) hub"

lemma map_of_put_conns:
  "distinct (map fst hub) \<Longrightarrow>
     map_of (put_conns u cs hub) = (map_of hub)(u := (if cs = [] then None else Some cs))"
  by (auto simp: put_conns_def update_conv' delete_conv')

lemma hub_wfD: "hub_wf hub \<Longrightarrow> map_of hub u = Some cs \<Longrightarrow> cs \<noteq> []"
  by (auto simp: hub_wf_def list_all_iff dest: map_of_SomeD)

lemma hub_wf_update: "hub_wf hub \<Longrightarrow> cs \<noteq> [] \<Longrightarrow> hub_wf (AList.update u cs hub)"
proof -
  assume wf: "hub_wf hub" and cs: "cs \<noteq> []"
  have d: "distinct (map fst (AList.update u cs hub))"
    using wf by (simp add: hub_wf_def distinct_update)
  have "list_all (\<lambda>(_, cs). cs \<noteq> []) (AList.update u cs hub)"
  proof (clarsimp simp: list_all_iff)
    fix v assume "(v, []) \<in> set (AList.update u cs hub)"
    then have "map_of (AList.update u cs hub) v = Some []"
      using d by (simp add: map_of_eq_Some_iff)
    then show False
      using cs hub_wfD [OF wf] by (auto simp: update_conv' split: if_splits)
  qed
  with d show ?thesis by (simp add: hub_wf_def)
qed

lemma hub_wf_put_conns [wf_intros]: "hub_wf hub \<Longrightarrow> hub_wf (put_conns u cs hub)"
  by (auto simp: put_conns_def hub_wf_update)
    (auto simp: hub_wf_def list_all_iff AList.delete_eq distinct_map_filter)

lemma hub_wf_empty [simp]: "hub_wf []"
  by (simp add: hub_wf_def)

lemma hub_wf_add [wf_intros]: "hub_wf hub \<Longrightarrow> hub_wf (snd (signaling_add c u hub))"
  by (simp add: signaling_add_def hub_wf_update)

lemma hub_wf_remove [wf_intros]: "hub_wf hub \<Longrightarrow> hub_wf (signaling_remove u c hub)"
  by (auto simp: signaling_remove_def intro: hub_wf_put_conns split: option.splits)

lemma hub_wf_send_to [simp, wf_intros]: "hub_wf hub \<Longrightarrow> hub_wf (send_to u ev hub)"
  by (auto simp: send_to_def intro: hub_wf_put_conns split: option.splits)

lemma connections_of_send_to:
  assumes "hub_wf hub"
  shows "connections_of v (send_to u ev hub) =
    (if v = u then map (deliver ev) (filter cn_alive (connections_of u hub))
     else connections_of v hub)"
  using assms
  by (auto simp: connections_of_def send_to_def map_of_put_conns hub_wf_def split: option.splits)

lemma is_online_iff: "hub_wf hub \<Longrightarrow> is_online u hub \<longleftrightarrow> connections_of u hub \<noteq> []"
  by (auto simp: is_online_def connections_of_def dest: hub_wfD split: option.splits)

lemma connections_of_add:
  "connections_of v (snd (signaling_add c u hub)) =
     (if v = u then connections_of u hub @ [\<lparr>cn_id = c, cn_alive = True, cn_sent = []\<rparr>]
      else connections_of v hub)"
  by (auto simp: signaling_add_def connections_of_def update_conv' Let_def split: option.splits)

lemma connections_of_remove:
  assumes "hub_wf hub"
  shows "connections_of v (signaling_remove u c hub) =
    (if v = u then filter (\<lambda>x. cn_id x \<noteq> c) (connections_of u hub) else connections_of v hub)"
  using assms
  by (auto simp: connections_of_def signaling_remove_def map_of_put_conns hub_wf_def
      split: option.splits)

section \<open>The relay rendezvous\<close>

datatype relay_role = Host | Guest

definition roles_pair :: "relay_role \<Rightarrow> relay_role \<Rightarrow> bool" where
  "roles_pair a b \<longleftrightarrow> a \<noteq> b"

text \<open>
  \<open>'p\<close> is the parked party (\<^verbatim>\<open>PendingPeer\<close>: its socket and the sender that tells it the pairing
  is over). The counter of active pairings is an \<^verbatim>\<open>AtomicUsize\<close>, 64 bits wide, and wraps.
\<close>

record 'p relay_hub =
  rh_waiting :: "(uuid \<times> (relay_role \<times> 'p)) list"
  rh_active :: "64 word"

definition relay_hub_new :: "'p relay_hub" where
  "relay_hub_new = \<lparr>rh_waiting = [], rh_active = 0\<rparr>"

definition park :: "uuid \<Rightarrow> relay_role \<Rightarrow> 'p \<Rightarrow> 'p relay_hub \<Rightarrow> 'p option \<times> 'p relay_hub" where
  "park rid role peer hub =
     (case map_of (rh_waiting hub) rid of
        Some _ \<Rightarrow> (Some peer, hub)
      | None \<Rightarrow> (None, hub\<lparr>rh_waiting := AList.update rid (role, peer) (rh_waiting hub)\<rparr>))"

definition relay_take :: "uuid \<Rightarrow> relay_role \<Rightarrow> 'p relay_hub \<Rightarrow> 'p option \<times> 'p relay_hub" where
  "relay_take rid incoming_role hub =
     (case map_of (rh_waiting hub) rid of
        Some (parked_role, peer) \<Rightarrow>
          if roles_pair parked_role incoming_role
          then (Some peer, hub\<lparr>rh_waiting := AList.delete rid (rh_waiting hub)\<rparr>)
          else (None, hub)
      | None \<Rightarrow> (None, hub))"

definition remove_waiting :: "uuid \<Rightarrow> 'p relay_hub \<Rightarrow> 'p option \<times> 'p relay_hub" where
  "remove_waiting rid hub =
     (map_option snd (map_of (rh_waiting hub) rid),
      hub\<lparr>rh_waiting := AList.delete rid (rh_waiting hub)\<rparr>)"

definition is_waiting :: "uuid \<Rightarrow> 'p relay_hub \<Rightarrow> bool" where
  "is_waiting rid hub \<longleftrightarrow> map_of (rh_waiting hub) rid \<noteq> None"

definition incr_active :: "'p relay_hub \<Rightarrow> 'p relay_hub" where
  "incr_active hub = hub\<lparr>rh_active := rh_active hub + 1\<rparr>"

definition decr_active :: "'p relay_hub \<Rightarrow> 'p relay_hub" where
  "decr_active hub = hub\<lparr>rh_active := rh_active hub - 1\<rparr>"

text \<open>Who waits for a pairing id, and in which role.\<close>

definition parked :: "'p relay_hub \<Rightarrow> uuid \<Rightarrow> (relay_role \<times> 'p) option" where
  "parked hub rid = map_of (rh_waiting hub) rid"

lemma parked_new [simp]: "parked relay_hub_new rid = None"
  by (simp add: parked_def relay_hub_new_def)

lemma parked_park:
  "parked (snd (park rid role peer hub)) =
     (case parked hub rid of Some _ \<Rightarrow> parked hub | None \<Rightarrow> (parked hub)(rid \<mapsto> (role, peer)))"
  by (auto simp: park_def parked_def update_conv' split: option.splits)

lemma fst_park: "fst (park rid role peer hub) = (if parked hub rid = None then None else Some peer)"
  by (auto simp: park_def parked_def split: option.splits)

lemma parked_take:
  "parked (snd (relay_take rid role hub)) =
     (case parked hub rid of
        Some (r, _) \<Rightarrow> if roles_pair r role then (parked hub)(rid := None) else parked hub
      | None \<Rightarrow> parked hub)"
  by (auto simp: relay_take_def parked_def delete_conv' split: option.splits)

lemma fst_take:
  "fst (relay_take rid role hub) =
     (case parked hub rid of
        Some (r, p) \<Rightarrow> if roles_pair r role then Some p else None | None \<Rightarrow> None)"
  by (auto simp: relay_take_def parked_def split: option.splits)

lemma parked_remove_waiting: "parked (snd (remove_waiting rid hub)) = (parked hub)(rid := None)"
  by (simp add: remove_waiting_def parked_def delete_conv' fun_eq_iff)

lemma fst_remove_waiting: "fst (remove_waiting rid hub) = map_option snd (parked hub rid)"
  by (simp add: remove_waiting_def parked_def)

lemma parked_active [simp]:
  "parked (incr_active hub) = parked hub" "parked (decr_active hub) = parked hub"
  by (simp_all add: incr_active_def decr_active_def parked_def fun_eq_iff)

section \<open>Rendezvous stores\<close>

text \<open>
  The contract the relay handler relies on: a store with at most one entry per key, whose insertion
  refuses an occupied key and hands the newcomer back, and whose withdrawal removes what it returns
  and returns only an entry the caller's tag is compatible with.
\<close>

locale rendezvous =
  fixes look :: "'h \<Rightarrow> 'k \<Rightarrow> ('t \<times> 'p) option"
    and put :: "'k \<Rightarrow> 't \<Rightarrow> 'p \<Rightarrow> 'h \<Rightarrow> 'p option \<times> 'h"
    and withdraw :: "'k \<Rightarrow> 't \<Rightarrow> 'h \<Rightarrow> 'p option \<times> 'h"
    and compatible :: "'t \<Rightarrow> 't \<Rightarrow> bool"
  assumes look_put: "look (snd (put k t p h)) =
      (case look h k of Some _ \<Rightarrow> look h | None \<Rightarrow> (look h)(k \<mapsto> (t, p)))"
    and fst_put: "fst (put k t p h) = (if look h k = None then None else Some p)"
    and look_withdraw: "look (snd (withdraw k t h)) =
      (case look h k of
         Some (t', _) \<Rightarrow> if compatible t' t then (look h)(k := None) else look h
       | None \<Rightarrow> look h)"
    and fst_withdraw: "fst (withdraw k t h) =
      (case look h k of Some (t', p) \<Rightarrow> if compatible t' t then Some p else None | None \<Rightarrow> None)"
begin

lemma put_keeps_waiter: "look h k = Some w \<Longrightarrow> put k t p h = (Some p, h') \<Longrightarrow> look h' k = Some w"
  using look_put [of k t p h] by simp

lemma put_refuses_iff: "fst (put k t p h) = Some p \<longleftrightarrow> look h k \<noteq> None"
  by (auto simp: fst_put)

lemma withdraw_once:
  assumes "withdraw k t h = (Some p, h')"
  shows "look h' k = None" and "fst (withdraw k t' h') = None"
proof -
  have "fst (withdraw k t h) = Some p" "snd (withdraw k t h) = h'"
    using assms by simp_all
  then show "look h' k = None"
    using look_withdraw [of k t h] by (auto simp: fst_withdraw split: option.splits if_splits)
  then show "fst (withdraw k t' h') = None"
    by (simp add: fst_withdraw)
qed

lemma put_then_withdraw:
  "look h k = None \<Longrightarrow> fst (withdraw k t' (snd (put k t p h))) = (if compatible t t' then Some p else None)"
  by (simp add: fst_withdraw look_put)

lemma withdraw_compatible:
  "fst (withdraw k t h) = Some p \<Longrightarrow> \<exists>t'. look h k = Some (t', p) \<and> compatible t' t"
  by (auto simp: fst_withdraw split: option.splits if_splits)

end

interpretation relay: rendezvous parked park relay_take roles_pair
  by unfold_locales (simp_all only: parked_park fst_park parked_take fst_take)

end
