(* ===== verification/Database.thy ===== *)
theory Database
  imports Realtime
begin

text \<open>
  The tables of \<^verbatim>\<open>migrations/*.sql\<close> that the network, the identity layer and the game handshake
  use, with their constraints: a record per row, one insertion per table that checks every primary
  key, unique index, \<^verbatim>\<open>CHECK\<close> and foreign key the way Postgres does, and the invariant
  \<open>db_wf\<close> that the constraints hold. Rows keep the column names behind a table prefix.

  The request environment carries what a handler draws from outside: the two clocks, random
  bytes, generated identifiers, the digest functions of \<^verbatim>\<open>sha2\<close> and \<^verbatim>\<open>hex\<close>, and the
  collation the database orders text by.
\<close>

section \<open>Rows\<close>

record session =
  se_id :: uuid
  se_user_id :: uuid
  se_token_hash :: string
  se_expires_at :: timestamp
  se_revoked_at :: "timestamp option"
  se_created_at :: timestamp

record yggdrasil_token =
  yt_id :: uuid
  yt_user_id :: uuid
  yt_access_token_hash :: string
  yt_client_token :: string
  yt_issued_at :: timestamp
  yt_expires_at :: timestamp

record friend_request =
  fr_id :: uuid
  fr_from_user_id :: uuid
  fr_to_user_id :: uuid
  fr_status :: request_status
  fr_created_at :: timestamp
  fr_updated_at :: timestamp

record friendship =
  fs_id :: uuid
  fs_user_a_id :: uuid
  fs_user_b_id :: uuid
  fs_created_at :: timestamp

record presence =
  pr_user_id :: uuid
  pr_status :: string
  pr_last_heartbeat_at :: timestamp
  pr_minecraft_version :: "string option"
  pr_mod_version :: "string option"
  pr_loader :: "string option"
  pr_current_world_session_id :: "uuid option"
  pr_updated_at :: timestamp

text \<open>\<^verbatim>\<open>INT\<close> columns are 32-bit signed.\<close>

record world_session =
  ws_id :: uuid
  ws_host_user_id :: uuid
  ws_status :: world_status
  ws_max_players :: int
  ws_current_players :: int
  ws_created_at :: timestamp
  ws_closed_at :: "timestamp option"
  ws_invite_policy :: invite_policy

record join_request =
  jr_id :: uuid
  jr_requester_user_id :: uuid
  jr_host_user_id :: uuid
  jr_world_session_id :: uuid
  jr_status :: request_status
  jr_expires_at :: timestamp
  jr_created_at :: timestamp
  jr_updated_at :: timestamp

record join_ticket =
  jt_id :: uuid
  jt_user_id :: uuid
  jt_world_session_id :: uuid
  jt_token_hash :: string
  jt_expires_at :: timestamp
  jt_consumed_at :: "timestamp option"
  jt_created_at :: timestamp

record relay_session =
  rs_id :: uuid
  rs_world_session_id :: uuid
  rs_host_user_id :: uuid
  rs_guest_user_id :: "uuid option"
  rs_join_ticket_id :: "uuid option"
  rs_status :: string
  rs_created_at :: timestamp
  rs_closed_at :: "timestamp option"

record world_invite =
  wi_id :: uuid
  wi_world_session_id :: uuid
  wi_host_user_id :: uuid
  wi_inviter_user_id :: uuid
  wi_invitee_user_id :: uuid
  wi_status :: request_status
  wi_expires_at :: timestamp
  wi_created_at :: timestamp
  wi_updated_at :: timestamp

text \<open>
  The JSON payload of an event is kept as its text; \<open>user_events_seq\<close> below is the last value of
  the \<^verbatim>\<open>BIGSERIAL\<close> sequence.
\<close>

record user_event =
  ue_id :: nat
  ue_user_id :: "uuid option"
  ue_event_type :: string
  ue_event_data :: "string option"
  ue_created_at :: timestamp

record db =
  users :: "user list"
  sessions :: "session list"
  yggdrasil_tokens :: "yggdrasil_token list"
  friend_requests :: "friend_request list"
  friendships :: "friendship list"
  presences :: "presence list"
  world_sessions :: "world_session list"
  join_requests :: "join_request list"
  join_tickets :: "join_ticket list"
  relay_sessions :: "relay_session list"
  world_invites :: "world_invite list"
  user_events :: "user_event list"
  user_events_seq :: nat

definition empty_db :: db where
  "empty_db = \<lparr>users = [], sessions = [], yggdrasil_tokens = [], friend_requests = [],
     friendships = [], presences = [], world_sessions = [], join_requests = [],
     join_tickets = [], relay_sessions = [], world_invites = [], user_events = [], user_events_seq = 0\<rparr>"

section \<open>The request environment and the shared application state\<close>

record env =
  e_now :: timestamp
  e_utc :: timestamp
  e_uuid :: "nat \<Rightarrow> uuid"
  e_random :: "nat \<Rightarrow> 8 word list"
  e_sha256 :: "string \<Rightarrow> 8 word list"
  e_hex :: "8 word list \<Rightarrow> string"
  e_collate_le :: "string \<Rightarrow> string \<Rightarrow> bool"

text \<open>The fields of \<^verbatim>\<open>Config\<close> the modelled handlers read; durations in microseconds.\<close>

record config =
  cf_session_ttl :: duration
  cf_heartbeat_timeout :: duration
  cf_max_players_per_world :: int
  cf_join_request_ttl :: duration
  cf_join_ticket_ttl :: duration
  cf_invite_ttl :: duration
  cf_search_min_query_length :: nat
  cf_search_max_results :: int
  cf_event_retention_days :: int
  cf_yggdrasil_token_ttl :: duration
  cf_max_tokens_per_user :: int
  cf_cookie_name :: string
  cf_admin_session_ttl :: duration
  cf_yggdrasil_public_url :: string

text \<open>
  \<^verbatim>\<open>chrono::Duration::from_std(ttl).unwrap_or(default)\<close>: the conversion fails beyond
  \<^verbatim>\<open>i64::MAX\<close> milliseconds.
\<close>

definition from_std_or :: "duration \<Rightarrow> duration \<Rightarrow> duration" where
  "from_std_or ttl fallback = (if ttl \<le> (2 ^ 63 - 1) * 1000 then ttl else fallback)"

record metrics =
  m_bootstraps :: "64 word"
  m_heartbeats :: "64 word"
  m_friend_requests_created :: "64 word"
  m_join_tickets_issued :: "64 word"
  m_relay_sessions_opened :: "64 word"
  m_relay_bytes_forwarded :: "64 word"
  m_signaling_connections :: "64 word"

record app_state =
  st_db :: db
  st_signaling :: signaling_hub
  st_metrics :: metrics

type_synonym 'a handler = "app_state \<Rightarrow> 'a app_result \<times> app_state"

section \<open>Constraints\<close>

definition fk :: "('r \<Rightarrow> 'k) \<Rightarrow> 'k list \<Rightarrow> 'r list \<Rightarrow> bool" where
  "fk f ks rs = list_all (\<lambda>r. f r \<in> set ks) rs"

definition fk_opt :: "('r \<Rightarrow> 'k option) \<Rightarrow> 'k list \<Rightarrow> 'r list \<Rightarrow> bool" where
  "fk_opt f ks rs = list_all (\<lambda>r. set_option (f r) \<subseteq> set ks) rs"

abbreviation user_ids :: "db \<Rightarrow> uuid list" where
  "user_ids d \<equiv> map u_id (users d)"

abbreviation world_ids :: "db \<Rightarrow> uuid list" where
  "world_ids d \<equiv> map ws_id (world_sessions d)"

abbreviation ticket_ids :: "db \<Rightarrow> uuid list" where
  "ticket_ids d \<equiv> map jt_id (join_tickets d)"

abbreviation always :: "'a \<Rightarrow> bool" where
  "always \<equiv> (\<lambda>_. True)"

text \<open>The functional index on \<^verbatim>\<open>lower(email)\<close> of migration 0011.\<close>

definition u_email_key :: "user \<Rightarrow> string option" where
  "u_email_key u = map_option to_ascii_lowercase (u_email u)"

definition users_wf :: "user list \<Rightarrow> bool" where
  "users_wf rs \<longleftrightarrow> unique_index always u_id rs
     \<and> unique_index (\<lambda>u. u_minecraft_uuid u \<noteq> None) u_minecraft_uuid rs
     \<and> unique_index (\<lambda>u. u_email u \<noteq> None) u_email_key rs
     \<and> unique_index (\<lambda>u. u_profile_uuid u \<noteq> None) u_profile_uuid rs
     \<and> unique_index always u_normalized_username rs"

definition sessions_wf :: "uuid list \<Rightarrow> session list \<Rightarrow> bool" where
  "sessions_wf us rs \<longleftrightarrow> unique_index always se_id rs
     \<and> unique_index always se_token_hash rs \<and> fk se_user_id us rs"

definition yggdrasil_tokens_wf :: "uuid list \<Rightarrow> yggdrasil_token list \<Rightarrow> bool" where
  "yggdrasil_tokens_wf us rs \<longleftrightarrow> unique_index always yt_id rs
     \<and> unique_index always yt_access_token_hash rs \<and> fk yt_user_id us rs"

definition fr_pending :: "friend_request \<Rightarrow> bool" where
  "fr_pending r \<longleftrightarrow> fr_status r = Pending"

definition friend_requests_wf :: "uuid list \<Rightarrow> friend_request list \<Rightarrow> bool" where
  "friend_requests_wf us rs \<longleftrightarrow> unique_index always fr_id rs
     \<and> unique_index fr_pending (\<lambda>r. (fr_from_user_id r, fr_to_user_id r)) rs
     \<and> list_all (\<lambda>r. fr_from_user_id r \<noteq> fr_to_user_id r) rs
     \<and> fk fr_from_user_id us rs \<and> fk fr_to_user_id us rs"

definition friendships_wf :: "uuid list \<Rightarrow> friendship list \<Rightarrow> bool" where
  "friendships_wf us rs \<longleftrightarrow> unique_index always fs_id rs
     \<and> unique_index always (\<lambda>r. (fs_user_a_id r, fs_user_b_id r)) rs
     \<and> list_all (\<lambda>r. fs_user_a_id r < fs_user_b_id r) rs
     \<and> fk fs_user_a_id us rs \<and> fk fs_user_b_id us rs"

definition presences_wf :: "uuid list \<Rightarrow> uuid list \<Rightarrow> presence list \<Rightarrow> bool" where
  "presences_wf us ws rs \<longleftrightarrow> unique_index always pr_user_id rs
     \<and> fk pr_user_id us rs \<and> fk_opt pr_current_world_session_id ws rs"

definition ws_open :: "world_session \<Rightarrow> bool" where
  "ws_open r \<longleftrightarrow> ws_status r = Open"

definition world_sessions_wf :: "uuid list \<Rightarrow> world_session list \<Rightarrow> bool" where
  "world_sessions_wf us rs \<longleftrightarrow> unique_index always ws_id rs
     \<and> unique_index ws_open ws_host_user_id rs \<and> fk ws_host_user_id us rs"

definition jr_pending :: "join_request \<Rightarrow> bool" where
  "jr_pending r \<longleftrightarrow> jr_status r = Pending"

definition join_requests_wf :: "uuid list \<Rightarrow> uuid list \<Rightarrow> join_request list \<Rightarrow> bool" where
  "join_requests_wf us ws rs \<longleftrightarrow> unique_index always jr_id rs
     \<and> unique_index jr_pending (\<lambda>r. (jr_world_session_id r, jr_requester_user_id r)) rs
     \<and> fk jr_requester_user_id us rs \<and> fk jr_host_user_id us rs
     \<and> fk jr_world_session_id ws rs"

definition join_tickets_wf :: "uuid list \<Rightarrow> uuid list \<Rightarrow> join_ticket list \<Rightarrow> bool" where
  "join_tickets_wf us ws rs \<longleftrightarrow> unique_index always jt_id rs
     \<and> unique_index always jt_token_hash rs
     \<and> fk jt_user_id us rs \<and> fk jt_world_session_id ws rs"

definition relay_sessions_wf ::
  "uuid list \<Rightarrow> uuid list \<Rightarrow> uuid list \<Rightarrow> relay_session list \<Rightarrow> bool" where
  "relay_sessions_wf us ws ts rs \<longleftrightarrow> unique_index always rs_id rs
     \<and> fk rs_host_user_id us rs \<and> fk rs_world_session_id ws rs
     \<and> fk_opt rs_guest_user_id us rs \<and> fk_opt rs_join_ticket_id ts rs"

definition wi_active :: "world_invite \<Rightarrow> bool" where
  "wi_active r \<longleftrightarrow> wi_status r = Pending \<or> wi_status r = PendingApproval"

definition world_invites_wf :: "uuid list \<Rightarrow> uuid list \<Rightarrow> world_invite list \<Rightarrow> bool" where
  "world_invites_wf us ws rs \<longleftrightarrow> unique_index always wi_id rs
     \<and> unique_index wi_active (\<lambda>r. (wi_world_session_id r, wi_invitee_user_id r)) rs
     \<and> list_all (\<lambda>r. wi_inviter_user_id r \<noteq> wi_invitee_user_id r) rs
     \<and> fk wi_host_user_id us rs \<and> fk wi_inviter_user_id us rs
     \<and> fk wi_invitee_user_id us rs \<and> fk wi_world_session_id ws rs"

definition user_events_wf :: "uuid list \<Rightarrow> nat \<Rightarrow> user_event list \<Rightarrow> bool" where
  "user_events_wf us n rs \<longleftrightarrow> unique_index always ue_id rs \<and> fk_opt ue_user_id us rs
     \<and> list_all (\<lambda>r. ue_id r \<le> n) rs"

definition db_wf :: "db \<Rightarrow> bool" where
  "db_wf d \<longleftrightarrow> users_wf (users d)
     \<and> sessions_wf (user_ids d) (sessions d)
     \<and> yggdrasil_tokens_wf (user_ids d) (yggdrasil_tokens d)
     \<and> friend_requests_wf (user_ids d) (friend_requests d)
     \<and> friendships_wf (user_ids d) (friendships d)
     \<and> presences_wf (user_ids d) (world_ids d) (presences d)
     \<and> world_sessions_wf (user_ids d) (world_sessions d)
     \<and> join_requests_wf (user_ids d) (world_ids d) (join_requests d)
     \<and> join_tickets_wf (user_ids d) (world_ids d) (join_tickets d)
     \<and> relay_sessions_wf (user_ids d) (world_ids d) (ticket_ids d) (relay_sessions d)
     \<and> world_invites_wf (user_ids d) (world_ids d) (world_invites d)
     \<and> user_events_wf (user_ids d) (user_events_seq d) (user_events d)"

end
