(* ===== verification/Schema.thy ===== *)
theory Schema
  imports Database
begin

text \<open>
  \<^verbatim>\<open>INSERT\<close> statements against the schema of \<^verbatim>\<open>migrations/*.sql\<close>. Each returns the violated
  constraint under its Postgres name, or the database with the row appended; so every successful
  insertion preserves \<open>db_wf\<close> by construction, and the lemmas below show that the \<^verbatim>\<open>UPDATE\<close>
  and \<^verbatim>\<open>DELETE\<close> statements of the handlers preserve it too.
\<close>

section \<open>Insertion\<close>

fun first_violation :: "(bool \<times> db_error) list \<Rightarrow> db_error option" where
  "first_violation [] = None"
| "first_violation ((violated, err) # cs) = (if violated then Some err else first_violation cs)"

definition guarded :: "(bool \<times> db_error) list \<Rightarrow> db \<Rightarrow> db_error + db" where
  "guarded cs d = (case first_violation cs of Some e \<Rightarrow> Inl e | None \<Rightarrow> Inr d)"

definition users_violation :: "user \<Rightarrow> user list \<Rightarrow> (bool \<times> db_error) list" where
  "users_violation r rs =
     [(unique_violation always u_id r rs, UniqueViolation ''users_pkey''),
      (unique_violation (\<lambda>u. u_minecraft_uuid u \<noteq> None) u_minecraft_uuid r rs,
         UniqueViolation ''users_minecraft_uuid_key''),
      (unique_violation (\<lambda>u. u_email u \<noteq> None) u_email_key r rs,
         UniqueViolation ''users_email_uniq''),
      (unique_violation (\<lambda>u. u_profile_uuid u \<noteq> None) u_profile_uuid r rs,
         UniqueViolation ''users_profile_uuid_uniq''),
      (unique_violation always u_normalized_username r rs,
         UniqueViolation ''users_normalized_username_uniq'')]"

definition insert_user :: "user \<Rightarrow> db \<Rightarrow> db_error + db" where
  "insert_user r d = guarded (users_violation r (users d)) (d\<lparr>users := users d @ [r]\<rparr>)"

text \<open>
  \<^verbatim>\<open>UPDATE users SET f WHERE id = uid\<close>: the new row is checked against every other row.
\<close>

definition update_user :: "uuid \<Rightarrow> (user \<Rightarrow> user) \<Rightarrow> db \<Rightarrow> db_error + db" where
  "update_user uid f d =
     (case sql_find (\<lambda>u. u_id u = uid) (users d) of
        None \<Rightarrow> Inr d
      | Some u \<Rightarrow>
          guarded (users_violation (f u) (sql_delete (\<lambda>v. u_id v = uid) (users d)))
            (d\<lparr>users := sql_update (\<lambda>v. u_id v = uid) f (users d)\<rparr>))"

definition insert_session :: "session \<Rightarrow> db \<Rightarrow> db_error + db" where
  "insert_session r d = guarded
     [(unique_violation always se_id r (sessions d), UniqueViolation ''network_sessions_pkey''),
      (unique_violation always se_token_hash r (sessions d),
         UniqueViolation ''network_sessions_token_hash_key''),
      (se_user_id r \<notin> set (user_ids d),
         ForeignKeyViolation ''network_sessions_user_id_fkey'')]
     (d\<lparr>sessions := sessions d @ [r]\<rparr>)"

definition insert_yggdrasil_token :: "yggdrasil_token \<Rightarrow> db \<Rightarrow> db_error + db" where
  "insert_yggdrasil_token r d = guarded
     [(unique_violation always yt_id r (yggdrasil_tokens d),
         UniqueViolation ''yggdrasil_tokens_pkey''),
      (unique_violation always yt_access_token_hash r (yggdrasil_tokens d),
         UniqueViolation ''yggdrasil_tokens_access_token_key''),
      (yt_user_id r \<notin> set (user_ids d),
         ForeignKeyViolation ''yggdrasil_tokens_user_id_fkey'')]
     (d\<lparr>yggdrasil_tokens := yggdrasil_tokens d @ [r]\<rparr>)"

definition insert_friend_request :: "friend_request \<Rightarrow> db \<Rightarrow> db_error + db" where
  "insert_friend_request r d = guarded
     [(fr_from_user_id r = fr_to_user_id r, CheckViolation ''friend_requests_not_self''),
      (unique_violation always fr_id r (friend_requests d),
         UniqueViolation ''friend_requests_pkey''),
      (unique_violation fr_pending (\<lambda>r. (fr_from_user_id r, fr_to_user_id r)) r
         (friend_requests d), UniqueViolation ''friend_requests_pending_unique''),
      (fr_from_user_id r \<notin> set (user_ids d),
         ForeignKeyViolation ''friend_requests_from_user_id_fkey''),
      (fr_to_user_id r \<notin> set (user_ids d),
         ForeignKeyViolation ''friend_requests_to_user_id_fkey'')]
     (d\<lparr>friend_requests := friend_requests d @ [r]\<rparr>)"

definition insert_friendship :: "friendship \<Rightarrow> db \<Rightarrow> db_error + db" where
  "insert_friendship r d = guarded
     [(\<not> fs_user_a_id r < fs_user_b_id r, CheckViolation ''friendships_ordered''),
      (unique_violation always fs_id r (friendships d), UniqueViolation ''friendships_pkey''),
      (unique_violation always (\<lambda>r. (fs_user_a_id r, fs_user_b_id r)) r (friendships d),
         UniqueViolation ''friendships_pair_unique''),
      (fs_user_a_id r \<notin> set (user_ids d), ForeignKeyViolation ''friendships_user_a_id_fkey''),
      (fs_user_b_id r \<notin> set (user_ids d), ForeignKeyViolation ''friendships_user_b_id_fkey'')]
     (d\<lparr>friendships := friendships d @ [r]\<rparr>)"

definition insert_presence :: "presence \<Rightarrow> db \<Rightarrow> db_error + db" where
  "insert_presence r d = guarded
     [(unique_violation always pr_user_id r (presences d), UniqueViolation ''presence_pkey''),
      (pr_user_id r \<notin> set (user_ids d), ForeignKeyViolation ''presence_user_id_fkey''),
      (\<not> set_option (pr_current_world_session_id r) \<subseteq> set (world_ids d),
         ForeignKeyViolation ''presence_world_fk'')]
     (d\<lparr>presences := presences d @ [r]\<rparr>)"

definition insert_world_session :: "world_session \<Rightarrow> db \<Rightarrow> db_error + db" where
  "insert_world_session r d = guarded
     [(unique_violation always ws_id r (world_sessions d),
         UniqueViolation ''world_sessions_pkey''),
      (unique_violation ws_open ws_host_user_id r (world_sessions d),
         UniqueViolation ''world_sessions_one_open_per_host''),
      (ws_host_user_id r \<notin> set (user_ids d),
         ForeignKeyViolation ''world_sessions_host_user_id_fkey'')]
     (d\<lparr>world_sessions := world_sessions d @ [r]\<rparr>)"

definition insert_join_request :: "join_request \<Rightarrow> db \<Rightarrow> db_error + db" where
  "insert_join_request r d = guarded
     [(unique_violation always jr_id r (join_requests d), UniqueViolation ''join_requests_pkey''),
      (unique_violation jr_pending (\<lambda>r. (jr_world_session_id r, jr_requester_user_id r)) r
         (join_requests d), UniqueViolation ''join_requests_pending_unique''),
      (jr_requester_user_id r \<notin> set (user_ids d),
         ForeignKeyViolation ''join_requests_requester_user_id_fkey''),
      (jr_host_user_id r \<notin> set (user_ids d),
         ForeignKeyViolation ''join_requests_host_user_id_fkey''),
      (jr_world_session_id r \<notin> set (world_ids d),
         ForeignKeyViolation ''join_requests_world_session_id_fkey'')]
     (d\<lparr>join_requests := join_requests d @ [r]\<rparr>)"

definition insert_join_ticket :: "join_ticket \<Rightarrow> db \<Rightarrow> db_error + db" where
  "insert_join_ticket r d = guarded
     [(unique_violation always jt_id r (join_tickets d), UniqueViolation ''join_tickets_pkey''),
      (unique_violation always jt_token_hash r (join_tickets d),
         UniqueViolation ''join_tickets_token_hash_key''),
      (jt_user_id r \<notin> set (user_ids d), ForeignKeyViolation ''join_tickets_user_id_fkey''),
      (jt_world_session_id r \<notin> set (world_ids d),
         ForeignKeyViolation ''join_tickets_world_session_id_fkey'')]
     (d\<lparr>join_tickets := join_tickets d @ [r]\<rparr>)"

definition insert_relay_session :: "relay_session \<Rightarrow> db \<Rightarrow> db_error + db" where
  "insert_relay_session r d = guarded
     [(unique_violation always rs_id r (relay_sessions d),
         UniqueViolation ''relay_sessions_pkey''),
      (rs_world_session_id r \<notin> set (world_ids d),
         ForeignKeyViolation ''relay_sessions_world_session_id_fkey''),
      (rs_host_user_id r \<notin> set (user_ids d),
         ForeignKeyViolation ''relay_sessions_host_user_id_fkey''),
      (\<not> set_option (rs_guest_user_id r) \<subseteq> set (user_ids d),
         ForeignKeyViolation ''relay_sessions_guest_user_id_fkey''),
      (\<not> set_option (rs_join_ticket_id r) \<subseteq> set (ticket_ids d),
         ForeignKeyViolation ''relay_sessions_join_ticket_id_fkey'')]
     (d\<lparr>relay_sessions := relay_sessions d @ [r]\<rparr>)"

definition insert_world_invite :: "world_invite \<Rightarrow> db \<Rightarrow> db_error + db" where
  "insert_world_invite r d = guarded
     [(wi_inviter_user_id r = wi_invitee_user_id r, CheckViolation ''world_invites_not_self''),
      (unique_violation always wi_id r (world_invites d), UniqueViolation ''world_invites_pkey''),
      (unique_violation wi_active (\<lambda>r. (wi_world_session_id r, wi_invitee_user_id r)) r
         (world_invites d), UniqueViolation ''world_invites_active_unique''),
      (wi_host_user_id r \<notin> set (user_ids d),
         ForeignKeyViolation ''world_invites_host_user_id_fkey''),
      (wi_inviter_user_id r \<notin> set (user_ids d),
         ForeignKeyViolation ''world_invites_inviter_user_id_fkey''),
      (wi_invitee_user_id r \<notin> set (user_ids d),
         ForeignKeyViolation ''world_invites_invitee_user_id_fkey''),
      (wi_world_session_id r \<notin> set (world_ids d),
         ForeignKeyViolation ''world_invites_world_session_id_fkey'')]
     (d\<lparr>world_invites := world_invites d @ [r]\<rparr>)"

text \<open>The identifier of an event is drawn from the table's sequence.\<close>

definition insert_user_event ::
  "uuid option \<Rightarrow> string \<Rightarrow> string option \<Rightarrow> timestamp \<Rightarrow> db \<Rightarrow> db_error + db" where
  "insert_user_event uid event_type event_data now d =
     (let n = Suc (user_events_seq d);
          r = \<lparr>ue_id = n, ue_user_id = uid, ue_event_type = event_type,
               ue_event_data = event_data, ue_created_at = now\<rparr> in
      guarded
        [(\<not> set_option uid \<subseteq> set (user_ids d),
            ForeignKeyViolation ''user_events_user_id_fkey'')]
        (d\<lparr>user_events := user_events d @ [r], user_events_seq := n\<rparr>))"

section \<open>Foreign keys under changes\<close>

lemma guarded_Inr [simp]: "guarded cs d = Inr d' \<longleftrightarrow> first_violation cs = None \<and> d' = d"
  by (auto simp: guarded_def split: option.splits)

lemma guarded_Inl [simp]: "guarded cs d = Inl e \<longleftrightarrow> first_violation cs = Some e"
  by (auto simp: guarded_def split: option.splits)

lemma fk_simps [simp]:
  "fk f ks []" "fk f ks (rs @ [r]) \<longleftrightarrow> fk f ks rs \<and> f r \<in> set ks"
  "fk_opt g ks []" "fk_opt g ks (rs @ [r]) \<longleftrightarrow> fk_opt g ks rs \<and> set_option (g r) \<subseteq> set ks"
  by (auto simp: fk_def fk_opt_def)

lemma fk_delete [simp, intro]:
  "fk f ks rs \<Longrightarrow> fk f ks (sql_delete p rs)" "fk_opt g ks rs \<Longrightarrow> fk_opt g ks (sql_delete p rs)"
  by (auto simp: fk_def fk_opt_def list_all_iff)

lemma fk_mono:
  "fk f ks rs \<Longrightarrow> set ks \<subseteq> set ks' \<Longrightarrow> fk f ks' rs"
  "fk_opt g ks rs \<Longrightarrow> set ks \<subseteq> set ks' \<Longrightarrow> fk_opt g ks' rs"
  by (auto simp: fk_def fk_opt_def list_all_iff)

lemma fk_update:
  "fk f ks rs \<Longrightarrow> (\<And>r. f (u r) = f r) \<Longrightarrow> fk f ks (sql_update p u rs)"
  by (auto simp: fk_def list_all_iff set_sql_update)

lemma fk_opt_update:
  "fk_opt g ks rs
     \<Longrightarrow> (\<And>r. r \<in> set rs \<Longrightarrow> p r \<Longrightarrow> set_option (g (u r)) \<subseteq> set_option (g r) \<union> set ks)
     \<Longrightarrow> fk_opt g ks (sql_update p u rs)"
  by (fastforce simp: fk_opt_def list_all_iff set_sql_update)

lemma list_all_delete [simp, intro]: "list_all q rs \<Longrightarrow> list_all q (sql_delete p rs)"
  by (auto simp: list_all_iff)

lemma list_all_update:
  "list_all q rs \<Longrightarrow> (\<And>r. q r \<Longrightarrow> q (u r)) \<Longrightarrow> list_all q (sql_update p u rs)"
  by (auto simp: list_all_iff set_sql_update)

lemmas wf_defs = users_wf_def sessions_wf_def yggdrasil_tokens_wf_def friend_requests_wf_def
  friendships_wf_def presences_wf_def world_sessions_wf_def join_requests_wf_def
  join_tickets_wf_def relay_sessions_wf_def world_invites_wf_def user_events_wf_def

lemmas insert_defs = insert_user_def insert_session_def insert_yggdrasil_token_def
  insert_friend_request_def insert_friendship_def insert_presence_def insert_world_session_def
  insert_join_request_def insert_join_ticket_def insert_relay_session_def
  insert_world_invite_def insert_user_event_def


section \<open>Insertions preserve the constraints\<close>

lemma sessions_wf_mono: "sessions_wf us rs \<Longrightarrow> set us \<subseteq> set us' \<Longrightarrow> sessions_wf us' rs"
  by (auto simp: sessions_wf_def intro: fk_mono)

lemma yggdrasil_tokens_wf_mono:
  "yggdrasil_tokens_wf us rs \<Longrightarrow> set us \<subseteq> set us' \<Longrightarrow> yggdrasil_tokens_wf us' rs"
  by (auto simp: yggdrasil_tokens_wf_def intro: fk_mono)

lemma friend_requests_wf_mono:
  "friend_requests_wf us rs \<Longrightarrow> set us \<subseteq> set us' \<Longrightarrow> friend_requests_wf us' rs"
  by (auto simp: friend_requests_wf_def intro: fk_mono)

lemma friendships_wf_mono: "friendships_wf us rs \<Longrightarrow> set us \<subseteq> set us' \<Longrightarrow> friendships_wf us' rs"
  by (auto simp: friendships_wf_def intro: fk_mono)

lemma presences_wf_mono:
  "presences_wf us ws rs \<Longrightarrow> set us \<subseteq> set us' \<Longrightarrow> set ws \<subseteq> set ws' \<Longrightarrow> presences_wf us' ws' rs"
  by (auto simp: presences_wf_def intro: fk_mono)

lemma world_sessions_wf_mono:
  "world_sessions_wf us rs \<Longrightarrow> set us \<subseteq> set us' \<Longrightarrow> world_sessions_wf us' rs"
  by (auto simp: world_sessions_wf_def intro: fk_mono)

lemma join_requests_wf_mono:
  "join_requests_wf us ws rs \<Longrightarrow> set us \<subseteq> set us' \<Longrightarrow> set ws \<subseteq> set ws'
     \<Longrightarrow> join_requests_wf us' ws' rs"
  by (auto simp: join_requests_wf_def intro: fk_mono)

lemma join_tickets_wf_mono:
  "join_tickets_wf us ws rs \<Longrightarrow> set us \<subseteq> set us' \<Longrightarrow> set ws \<subseteq> set ws'
     \<Longrightarrow> join_tickets_wf us' ws' rs"
  by (auto simp: join_tickets_wf_def intro: fk_mono)

lemma relay_sessions_wf_mono:
  "relay_sessions_wf us ws ts rs \<Longrightarrow> set us \<subseteq> set us' \<Longrightarrow> set ws \<subseteq> set ws' \<Longrightarrow> set ts \<subseteq> set ts'
     \<Longrightarrow> relay_sessions_wf us' ws' ts' rs"
  by (auto simp: relay_sessions_wf_def intro: fk_mono)

lemma world_invites_wf_mono:
  "world_invites_wf us ws rs \<Longrightarrow> set us \<subseteq> set us' \<Longrightarrow> set ws \<subseteq> set ws'
     \<Longrightarrow> world_invites_wf us' ws' rs"
  by (auto simp: world_invites_wf_def intro: fk_mono)

lemma user_events_wf_mono:
  "user_events_wf us n rs \<Longrightarrow> set us \<subseteq> set us' \<Longrightarrow> user_events_wf us' n rs"
  by (auto simp: user_events_wf_def intro: fk_mono)

text \<open>The projections of \<open>db_wf\<close>.\<close>

lemma db_wfD:
  assumes "db_wf d"
  shows "users_wf (users d)" "sessions_wf (user_ids d) (sessions d)"
    "yggdrasil_tokens_wf (user_ids d) (yggdrasil_tokens d)"
    "friend_requests_wf (user_ids d) (friend_requests d)"
    "friendships_wf (user_ids d) (friendships d)"
    "presences_wf (user_ids d) (world_ids d) (presences d)"
    "world_sessions_wf (user_ids d) (world_sessions d)"
    "join_requests_wf (user_ids d) (world_ids d) (join_requests d)"
    "join_tickets_wf (user_ids d) (world_ids d) (join_tickets d)"
    "relay_sessions_wf (user_ids d) (world_ids d) (ticket_ids d) (relay_sessions d)"
    "world_invites_wf (user_ids d) (world_ids d) (world_invites d)"
    "user_events_wf (user_ids d) (user_events_seq d) (user_events d)"
  using assms by (simp_all add: db_wf_def)

text \<open>Adding rows to a referenced table keeps the constraints of the tables that reference it.\<close>

lemma db_wf_grow:
  assumes "db_wf d" and "set (user_ids d) \<subseteq> set us" and "set (world_ids d) \<subseteq> set ws"
    and "set (ticket_ids d) \<subseteq> set ts"
  shows "sessions_wf us (sessions d)" "yggdrasil_tokens_wf us (yggdrasil_tokens d)"
    "friend_requests_wf us (friend_requests d)" "friendships_wf us (friendships d)"
    "presences_wf us ws (presences d)" "world_sessions_wf us (world_sessions d)"
    "join_requests_wf us ws (join_requests d)" "join_tickets_wf us ws (join_tickets d)"
    "relay_sessions_wf us ws ts (relay_sessions d)" "world_invites_wf us ws (world_invites d)"
    "user_events_wf us (user_events_seq d) (user_events d)"
  using sessions_wf_mono [OF db_wfD(2) [OF assms(1)] assms(2)]
    yggdrasil_tokens_wf_mono [OF db_wfD(3) [OF assms(1)] assms(2)]
    friend_requests_wf_mono [OF db_wfD(4) [OF assms(1)] assms(2)]
    friendships_wf_mono [OF db_wfD(5) [OF assms(1)] assms(2)]
    presences_wf_mono [OF db_wfD(6) [OF assms(1)] assms(2,3)]
    world_sessions_wf_mono [OF db_wfD(7) [OF assms(1)] assms(2)]
    join_requests_wf_mono [OF db_wfD(8) [OF assms(1)] assms(2,3)]
    join_tickets_wf_mono [OF db_wfD(9) [OF assms(1)] assms(2,3)]
    relay_sessions_wf_mono [OF db_wfD(10) [OF assms(1)] assms(2,3,4)]
    world_invites_wf_mono [OF db_wfD(11) [OF assms(1)] assms(2,3)]
    user_events_wf_mono [OF db_wfD(12) [OF assms(1)] assms(2)]
  by simp_all

lemma db_wf_users:
  assumes "db_wf d" "users_wf rs" "set (user_ids d) \<subseteq> u_id ` set rs"
  shows "db_wf (d\<lparr>users := rs\<rparr>)"
  using assms db_wf_grow [OF assms(1), of "map u_id rs" "world_ids d" "ticket_ids d"]
  by (simp add: db_wf_def)

lemma db_wf_world_sessions:
  assumes "db_wf d" "world_sessions_wf (user_ids d) rs" "set (world_ids d) \<subseteq> ws_id ` set rs"
  shows "db_wf (d\<lparr>world_sessions := rs\<rparr>)"
  using assms db_wf_grow [OF assms(1), of "user_ids d" "map ws_id rs" "ticket_ids d"]
  by (simp add: db_wf_def)

lemma db_wf_join_tickets:
  assumes "db_wf d" "join_tickets_wf (user_ids d) (world_ids d) rs"
    and "set (ticket_ids d) \<subseteq> jt_id ` set rs"
  shows "db_wf (d\<lparr>join_tickets := rs\<rparr>)"
  using assms db_wf_grow [OF assms(1), of "user_ids d" "world_ids d" "map jt_id rs"]
  by (simp add: db_wf_def)

lemma db_wf_empty [simp]: "db_wf empty_db"
  by (simp add: db_wf_def empty_db_def wf_defs)

lemma db_wf_insert_user [wf_intros]: "insert_user r d = Inr d' \<Longrightarrow> db_wf d \<Longrightarrow> db_wf d'"
  using db_wfD(1) [of d]
  by (auto simp: insert_user_def users_violation_def users_wf_def
      intro!: db_wf_users split: if_splits)

lemma db_wf_insert_session [wf_intros]: "insert_session r d = Inr d' \<Longrightarrow> db_wf d \<Longrightarrow> db_wf d'"
  by (auto simp: insert_session_def db_wf_def sessions_wf_def split: if_splits)

lemma db_wf_insert_yggdrasil_token [wf_intros]:
  "insert_yggdrasil_token r d = Inr d' \<Longrightarrow> db_wf d \<Longrightarrow> db_wf d'"
  by (auto simp: insert_yggdrasil_token_def db_wf_def yggdrasil_tokens_wf_def split: if_splits)

lemma db_wf_insert_friend_request [wf_intros]:
  "insert_friend_request r d = Inr d' \<Longrightarrow> db_wf d \<Longrightarrow> db_wf d'"
  by (auto simp: insert_friend_request_def db_wf_def friend_requests_wf_def split: if_splits)

lemma db_wf_insert_friendship [wf_intros]:
  "insert_friendship r d = Inr d' \<Longrightarrow> db_wf d \<Longrightarrow> db_wf d'"
  by (auto simp: insert_friendship_def db_wf_def friendships_wf_def split: if_splits)

lemma db_wf_insert_presence [wf_intros]: "insert_presence r d = Inr d' \<Longrightarrow> db_wf d \<Longrightarrow> db_wf d'"
  by (auto simp: insert_presence_def db_wf_def presences_wf_def split: if_splits)

lemma db_wf_insert_world_session [wf_intros]:
  "insert_world_session r d = Inr d' \<Longrightarrow> db_wf d \<Longrightarrow> db_wf d'"
  using db_wfD(7) [of d]
  by (auto simp: insert_world_session_def world_sessions_wf_def
      intro!: db_wf_world_sessions split: if_splits)

lemma db_wf_insert_join_request [wf_intros]:
  "insert_join_request r d = Inr d' \<Longrightarrow> db_wf d \<Longrightarrow> db_wf d'"
  by (auto simp: insert_join_request_def db_wf_def join_requests_wf_def split: if_splits)

lemma db_wf_insert_join_ticket [wf_intros]:
  "insert_join_ticket r d = Inr d' \<Longrightarrow> db_wf d \<Longrightarrow> db_wf d'"
  using db_wfD(9) [of d]
  by (auto simp: insert_join_ticket_def join_tickets_wf_def
      intro!: db_wf_join_tickets split: if_splits)

lemma db_wf_insert_relay_session [wf_intros]:
  "insert_relay_session r d = Inr d' \<Longrightarrow> db_wf d \<Longrightarrow> db_wf d'"
  by (auto simp: insert_relay_session_def db_wf_def relay_sessions_wf_def split: if_splits)

lemma db_wf_insert_world_invite [wf_intros]:
  "insert_world_invite r d = Inr d' \<Longrightarrow> db_wf d \<Longrightarrow> db_wf d'"
  by (auto simp: insert_world_invite_def db_wf_def world_invites_wf_def split: if_splits)

lemma db_wf_insert_user_event [wf_intros]:
  "insert_user_event uid ty ev now d = Inr d' \<Longrightarrow> db_wf d \<Longrightarrow> db_wf d'"
  by (auto simp: insert_user_event_def db_wf_def user_events_wf_def unique_violation_def
      sql_exists_iff list_all_iff Let_def split: if_splits)

section \<open>Updates and deletions preserve the constraints\<close>

lemmas update_intros = unique_index_update fk_update fk_opt_update list_all_update

lemma set_map_sql_update: "(\<And>r. g (f r) = g r) \<Longrightarrow> g ` set (sql_update p f rs) = g ` set rs"
  using map_sql_update [of g f p rs] by (metis list.set_map)

lemma db_wf_update_sessions [wf_intros]:
  assumes "db_wf d"
    and "\<And>r. se_id (f r) = se_id r \<and> se_token_hash (f r) = se_token_hash r
           \<and> se_user_id (f r) = se_user_id r"
  shows "db_wf (d\<lparr>sessions := sql_update p f (sessions d)\<rparr>)"
  using assms by (auto simp: db_wf_def sessions_wf_def intro!: update_intros)

lemma db_wf_update_friend_requests [wf_intros]:
  assumes "db_wf d"
    and "\<And>r. fr_id (f r) = fr_id r \<and> fr_from_user_id (f r) = fr_from_user_id r
           \<and> fr_to_user_id (f r) = fr_to_user_id r \<and> \<not> fr_pending (f r)"
  shows "db_wf (d\<lparr>friend_requests := sql_update p f (friend_requests d)\<rparr>)"
  using assms by (auto simp: db_wf_def friend_requests_wf_def intro!: update_intros)

lemma db_wf_update_presences [wf_intros]:
  assumes "db_wf d"
    and "\<And>r. pr_user_id (f r) = pr_user_id r"
    and "\<And>r. r \<in> set (presences d) \<Longrightarrow> p r \<Longrightarrow> set_option (pr_current_world_session_id (f r))
           \<subseteq> set_option (pr_current_world_session_id r) \<union> set (world_ids d)"
  shows "db_wf (d\<lparr>presences := sql_update p f (presences d)\<rparr>)"
proof -
  have "fk_opt pr_current_world_session_id (world_ids d) (sql_update p f (presences d))"
    using assms(3) db_wfD(6) [OF assms(1)]
    by (simp only: presences_wf_def fk_opt_update)
  then show ?thesis
    using assms(1,2) by (auto simp: db_wf_def presences_wf_def intro!: unique_index_update fk_update)
qed

lemma db_wf_update_world_sessions [wf_intros]:
  assumes "db_wf d"
    and "\<And>r. ws_id (f r) = ws_id r \<and> ws_host_user_id (f r) = ws_host_user_id r
           \<and> (ws_open (f r) \<longrightarrow> ws_open r)"
  shows "db_wf (d\<lparr>world_sessions := sql_update p f (world_sessions d)\<rparr>)"
proof (rule db_wf_world_sessions [OF assms(1)])
  show "world_sessions_wf (user_ids d) (sql_update p f (world_sessions d))"
    using assms(2) db_wfD(7) [OF assms(1)]
    by (auto simp: world_sessions_wf_def intro!: update_intros)
  show "set (world_ids d) \<subseteq> ws_id ` set (sql_update p f (world_sessions d))"
    using assms(2) by (simp add: set_map_sql_update)
qed

lemma db_wf_update_join_requests [wf_intros]:
  assumes "db_wf d"
    and "\<And>r. jr_id (f r) = jr_id r \<and> jr_requester_user_id (f r) = jr_requester_user_id r
           \<and> jr_host_user_id (f r) = jr_host_user_id r
           \<and> jr_world_session_id (f r) = jr_world_session_id r \<and> \<not> jr_pending (f r)"
  shows "db_wf (d\<lparr>join_requests := sql_update p f (join_requests d)\<rparr>)"
  using assms by (auto simp: db_wf_def join_requests_wf_def intro!: update_intros)

lemma db_wf_update_join_tickets [wf_intros]:
  assumes "db_wf d"
    and "\<And>r. jt_id (f r) = jt_id r \<and> jt_user_id (f r) = jt_user_id r
           \<and> jt_world_session_id (f r) = jt_world_session_id r
           \<and> jt_token_hash (f r) = jt_token_hash r"
  shows "db_wf (d\<lparr>join_tickets := sql_update p f (join_tickets d)\<rparr>)"
proof (rule db_wf_join_tickets [OF assms(1)])
  show "join_tickets_wf (user_ids d) (world_ids d) (sql_update p f (join_tickets d))"
    using assms(2) db_wfD(9) [OF assms(1)]
    by (auto simp: join_tickets_wf_def intro!: update_intros)
  show "set (ticket_ids d) \<subseteq> jt_id ` set (sql_update p f (join_tickets d))"
    using assms(2) by (simp add: set_map_sql_update)
qed

lemma db_wf_update_relay_sessions [wf_intros]:
  assumes "db_wf d"
    and "\<And>r. rs_id (f r) = rs_id r \<and> rs_host_user_id (f r) = rs_host_user_id r
           \<and> rs_world_session_id (f r) = rs_world_session_id r
           \<and> set_option (rs_guest_user_id (f r)) \<subseteq> set_option (rs_guest_user_id r)
           \<and> set_option (rs_join_ticket_id (f r)) \<subseteq> set_option (rs_join_ticket_id r)"
  shows "db_wf (d\<lparr>relay_sessions := sql_update p f (relay_sessions d)\<rparr>)"
proof -
  have "fk_opt rs_guest_user_id (user_ids d) (sql_update p f (relay_sessions d))"
    "fk_opt rs_join_ticket_id (ticket_ids d) (sql_update p f (relay_sessions d))"
    using assms(2) db_wfD(10) [OF assms(1)]
    by (auto simp only: relay_sessions_wf_def intro!: fk_opt_update)
  then show ?thesis
    using assms by (auto simp: db_wf_def relay_sessions_wf_def intro!: unique_index_update fk_update)
qed

lemma db_wf_update_world_invites [wf_intros]:
  assumes "db_wf d"
    and "\<And>r. wi_id (f r) = wi_id r \<and> wi_host_user_id (f r) = wi_host_user_id r
           \<and> wi_inviter_user_id (f r) = wi_inviter_user_id r
           \<and> wi_invitee_user_id (f r) = wi_invitee_user_id r
           \<and> wi_world_session_id (f r) = wi_world_session_id r"
    and "\<And>r. r \<in> set (world_invites d) \<Longrightarrow> p r \<Longrightarrow> wi_active (f r) \<Longrightarrow> wi_active r"
  shows "db_wf (d\<lparr>world_invites := sql_update p f (world_invites d)\<rparr>)"
  using assms by (auto simp: db_wf_def world_invites_wf_def intro!: update_intros)

lemma db_wf_delete_simple [wf_intros]:
  assumes "db_wf d"
  shows "db_wf (d\<lparr>sessions := sql_delete p1 (sessions d)\<rparr>)"
    "db_wf (d\<lparr>yggdrasil_tokens := sql_delete p2 (yggdrasil_tokens d)\<rparr>)"
    "db_wf (d\<lparr>friendships := sql_delete p3 (friendships d)\<rparr>)"
    "db_wf (d\<lparr>presences := sql_delete p4 (presences d)\<rparr>)"
    "db_wf (d\<lparr>join_requests := sql_delete p5 (join_requests d)\<rparr>)"
    "db_wf (d\<lparr>relay_sessions := sql_delete p6 (relay_sessions d)\<rparr>)"
    "db_wf (d\<lparr>world_invites := sql_delete p7 (world_invites d)\<rparr>)"
    "db_wf (d\<lparr>user_events := sql_delete p8 (user_events d)\<rparr>)"
    "db_wf (d\<lparr>friend_requests := sql_delete p9 (friend_requests d)\<rparr>)"
  using assms by (simp_all add: db_wf_def wf_defs unique_index_delete fk_delete list_all_delete)

text \<open>
  \<^verbatim>\<open>DELETE FROM join_tickets\<close> sets \<^verbatim>\<open>relay_sessions.join_ticket_id\<close> of the referencing rows to
  \<^verbatim>\<open>NULL\<close> (\<^verbatim>\<open>ON DELETE SET NULL\<close>).
\<close>

definition delete_join_tickets :: "(join_ticket \<Rightarrow> bool) \<Rightarrow> db \<Rightarrow> db" where
  "delete_join_tickets p d =
     (let gone = map jt_id (filter p (join_tickets d)) in
      d\<lparr>join_tickets := sql_delete p (join_tickets d),
        relay_sessions := sql_update (\<lambda>r. set_option (rs_join_ticket_id r) \<inter> set gone \<noteq> {})
          (\<lambda>r. r\<lparr>rs_join_ticket_id := None\<rparr>) (relay_sessions d)\<rparr>)"

lemma db_wf_delete_join_tickets [wf_intros]:
  assumes "db_wf d"
  shows "db_wf (delete_join_tickets p d)"
proof -
  let ?q = "\<lambda>r. set_option (rs_join_ticket_id r) \<inter> set (map jt_id (filter p (join_tickets d))) \<noteq> {}"
  let ?rs = "sql_update ?q (\<lambda>r. r\<lparr>rs_join_ticket_id := None\<rparr>) (relay_sessions d)"
  have "fk_opt rs_join_ticket_id (map jt_id (sql_delete p (join_tickets d))) ?rs"
    using db_wfD(10) [OF assms]
    by (auto simp: fk_opt_def relay_sessions_wf_def list_all_iff set_sql_update split: if_splits)
      fastforce
  then have "relay_sessions_wf (user_ids d) (world_ids d)
      (map jt_id (sql_delete p (join_tickets d))) ?rs"
    using db_wfD(10) [OF assms]
    by (auto simp: relay_sessions_wf_def intro!: update_intros)
  then show ?thesis
    using assms by (simp add: delete_join_tickets_def Let_def db_wf_def join_tickets_wf_def)
qed

section \<open>Upserts\<close>

text \<open>
  \<^verbatim>\<open>INSERT INTO presence ... ON CONFLICT (user_id) DO UPDATE SET f\<close>: \<open>fresh\<close> is the row inserted
  when the user has none, \<open>f\<close> the assignment applied to the existing one.
\<close>

definition upsert_presence :: "presence \<Rightarrow> (presence \<Rightarrow> presence) \<Rightarrow> db \<Rightarrow> db_error + db" where
  "upsert_presence fresh f d =
     (case sql_find (\<lambda>p. pr_user_id p = pr_user_id fresh) (presences d) of
        None \<Rightarrow> insert_presence fresh d
      | Some old \<Rightarrow> guarded
          [(\<not> set_option (pr_current_world_session_id (f old)) \<subseteq> set (world_ids d),
              ForeignKeyViolation ''presence_world_fk'')]
          (d\<lparr>presences := sql_update (\<lambda>p. pr_user_id p = pr_user_id fresh) f (presences d)\<rparr>))"

lemma db_wf_upsert_presence [wf_intros]:
  assumes "upsert_presence fresh f d = Inr d'" "db_wf d" "\<And>r. pr_user_id (f r) = pr_user_id r"
  shows "db_wf d'"
proof (cases "sql_find (\<lambda>p. pr_user_id p = pr_user_id fresh) (presences d)")
  case None
  with assms show ?thesis by (auto simp: upsert_presence_def intro: wf_intros)
next
  case (Some old)
  have "set_option (pr_current_world_session_id (f r)) \<subseteq> set (world_ids d)"
    if "r \<in> set (presences d)" "pr_user_id r = pr_user_id fresh" for r
  proof -
    have "r = old"
      using sql_find_SomeD [OF Some] that db_wfD(6) [OF assms(2)]
      by (auto simp: presences_wf_def intro: unique_indexD)
    then show ?thesis
      using assms(1) Some by (simp add: upsert_presence_def split: if_splits)
  qed
  then have "db_wf (d\<lparr>presences := sql_update (\<lambda>p. pr_user_id p = pr_user_id fresh) f (presences d)\<rparr>)"
    using assms by (intro db_wf_update_presences) blast+
  with assms Some show ?thesis by (simp add: upsert_presence_def split: if_splits)
qed

text \<open>An upsert leaves exactly one row for the user: the updated old one or the fresh one.\<close>

lemma upsert_presence_find:
  assumes "upsert_presence fresh f d = Inr d'" "db_wf d" "\<And>r. pr_user_id (f r) = pr_user_id r"
  shows "sql_find (\<lambda>p. pr_user_id p = pr_user_id fresh) (presences d') =
    Some (case sql_find (\<lambda>p. pr_user_id p = pr_user_id fresh) (presences d) of
            None \<Rightarrow> fresh | Some old \<Rightarrow> f old)"
proof -
  have wf': "unique_index always pr_user_id (presences d')"
    using db_wf_upsert_presence [OF assms] by (simp add: db_wf_def presences_wf_def)
  show ?thesis
  proof (cases "sql_find (\<lambda>p. pr_user_id p = pr_user_id fresh) (presences d)")
    case None
    then have "fresh \<in> set (presences d')"
      using assms(1) by (auto simp: upsert_presence_def insert_presence_def split: if_splits)
    with wf' None show ?thesis by (simp add: sql_find_unique)
  next
    case (Some old)
    then have "f old \<in> set (presences d')"
      using assms(1) sql_find_SomeD [OF Some]
      by (auto simp: upsert_presence_def set_sql_update split: if_splits)
    moreover have "pr_user_id (f old) = pr_user_id fresh"
      using assms(3) sql_find_SomeD(2) [OF Some] by simp
    ultimately show ?thesis using wf' Some by (simp add: sql_find_unique)
  qed
qed

lemma upsert_presence_keeps:
  assumes "upsert_presence fresh f d = Inr d'"
  shows "users d' = users d" "sessions d' = sessions d" "yggdrasil_tokens d' = yggdrasil_tokens d"
    "friend_requests d' = friend_requests d" "friendships d' = friendships d"
    "world_sessions d' = world_sessions d" "join_requests d' = join_requests d"
    "join_tickets d' = join_tickets d" "relay_sessions d' = relay_sessions d"
    "world_invites d' = world_invites d" "user_events d' = user_events d"
  using assms
  by (auto simp: upsert_presence_def insert_presence_def split: option.splits if_splits)

end
