(* ===== verification/Queries.thy ===== *)
theory Queries
  imports Schema
begin

text \<open>
  The predicates and primitives every network handler shares: \<^verbatim>\<open>network/src/queries.rs\<close>
  (\<open>are_friends\<close>, \<open>user_exists\<close>), \<^verbatim>\<open>core/src/analytics.rs\<close> (\<open>record_event\<close>),
  \<^verbatim>\<open>core/src/metrics.rs\<close>, and \<^verbatim>\<open>ORDER BY\<close>.
\<close>

section \<open>Ordering\<close>

fun insert_by :: "('a \<Rightarrow> 'a \<Rightarrow> bool) \<Rightarrow> 'a \<Rightarrow> 'a list \<Rightarrow> 'a list" where
  "insert_by le x [] = [x]"
| "insert_by le x (y # ys) = (if le x y then x # y # ys else y # insert_by le x ys)"

text \<open>\<^verbatim>\<open>ORDER BY\<close> a column compared with \<open>le\<close>; rows that tie keep their order.\<close>

fun order_by :: "('a \<Rightarrow> 'a \<Rightarrow> bool) \<Rightarrow> 'a list \<Rightarrow> 'a list" where
  "order_by le [] = []"
| "order_by le (x # xs) = insert_by le x (order_by le xs)"

lemma set_insert_by [simp]: "set (insert_by le x ys) = insert x (set ys)"
  by (induction ys) auto

lemma set_order_by [simp]: "set (order_by le xs) = set xs"
  by (induction xs) auto

lemma distinct_insert_by: "distinct (insert_by le x xs) \<longleftrightarrow> distinct (x # xs)"
  by (induction xs) auto

lemma distinct_order_by [simp]: "distinct (order_by le xs) \<longleftrightarrow> distinct xs"
  by (induction xs) (auto simp: distinct_insert_by)

lemma length_insert_by [simp]: "length (insert_by le x ys) = Suc (length ys)"
  by (induction ys) auto

lemma length_order_by [simp]: "length (order_by le xs) = length xs"
  by (induction xs) auto

definition newest_first :: "('a \<Rightarrow> timestamp) \<Rightarrow> 'a list \<Rightarrow> 'a list" where
  "newest_first created rs = order_by (\<lambda>a b. created b \<le> created a) rs"

lemma set_newest_first [simp]: "set (newest_first f rs) = set rs"
  by (simp add: newest_first_def)

text \<open>\<^verbatim>\<open>LIMIT n\<close> with a signed bound; Postgres refuses a negative one, \<open>nat\<close> reads it as 0.\<close>

definition limit :: "int \<Rightarrow> 'a list \<Rightarrow> 'a list" where
  "limit n rs = take (nat n) rs"

section \<open>Membership predicates\<close>

definition is_pair :: "uuid \<Rightarrow> uuid \<Rightarrow> friendship \<Rightarrow> bool" where
  "is_pair a b f \<longleftrightarrow> fs_user_a_id f = min a b \<and> fs_user_b_id f = max a b"

definition are_friends :: "db \<Rightarrow> uuid \<Rightarrow> uuid \<Rightarrow> bool" where
  "are_friends d a b = sql_exists (is_pair a b) (friendships d)"

definition user_exists :: "db \<Rightarrow> uuid \<Rightarrow> bool" where
  "user_exists d uid = sql_exists (\<lambda>u. u_id u = uid) (users d)"

definition find_user :: "db \<Rightarrow> uuid \<Rightarrow> user option" where
  "find_user d uid = sql_find (\<lambda>u. u_id u = uid) (users d)"

lemma is_pair_commute: "is_pair a b = is_pair b a"
  by (auto simp: is_pair_def fun_eq_iff min.commute max.commute)

lemma are_friends_commute: "are_friends d a b = are_friends d b a"
  by (simp add: are_friends_def is_pair_commute [of a b])

lemma user_exists_iff: "user_exists d uid \<longleftrightarrow> uid \<in> set (user_ids d)"
  by (auto simp: user_exists_def sql_exists_iff)

lemma find_user_Some:
  assumes "find_user d uid = Some u"
  shows "u \<in> set (users d)" "u_id u = uid" "user_exists d uid"
  using sql_find_SomeD [OF assms [unfolded find_user_def]]
  by (auto simp: user_exists_iff)

lemma find_user_unique: "db_wf d \<Longrightarrow> u \<in> set (users d) \<Longrightarrow> find_user d (u_id u) = Some u"
  unfolding find_user_def by (rule sql_find_unique) (auto simp: db_wf_def users_wf_def)

lemma find_user_exists: "user_exists d uid \<Longrightarrow> \<exists>u. find_user d uid = Some u"
  unfolding find_user_def user_exists_def sql_exists_iff by (blast intro: sql_find_SomeI)

lemma not_friends_self: "db_wf d \<Longrightarrow> \<not> are_friends d a a"
  by (auto simp: are_friends_def sql_exists_iff is_pair_def db_wf_def friendships_wf_def
      list_all_iff)

lemma are_friends_exist: "db_wf d \<Longrightarrow> are_friends d a b \<Longrightarrow> user_exists d a \<and> user_exists d b"
  by (auto simp: are_friends_def sql_exists_iff is_pair_def db_wf_def friendships_wf_def
      fk_def list_all_iff user_exists_iff min_def max_def split: if_splits)

section \<open>Analytics and metrics\<close>

definition record_event ::
  "env \<Rightarrow> string \<Rightarrow> uuid option \<Rightarrow> string option \<Rightarrow> db \<Rightarrow> db_error + db" where
  "record_event env event_type user_id event_data d =
     insert_user_event user_id event_type event_data (e_now env) d"

text \<open>
  The detached task logs a failed insertion and drops it. It is run at the point where it is
  spawned, one of the schedules the runtime may choose.
\<close>

definition spawn_event ::
  "env \<Rightarrow> string \<Rightarrow> uuid option \<Rightarrow> string option \<Rightarrow> app_state \<Rightarrow> app_state" where
  "spawn_event env event_type user_id event_data s =
     (case record_event env event_type user_id event_data (st_db s) of
        Inl _ \<Rightarrow> s | Inr d \<Rightarrow> s\<lparr>st_db := d\<rparr>)"

definition metrics_incr :: "64 word \<Rightarrow> 64 word" where
  "metrics_incr counter = counter + 1"

definition metrics_add :: "64 word \<Rightarrow> 64 word \<Rightarrow> 64 word" where
  "metrics_add counter value = counter + value"

text \<open>The invariant of the shared state.\<close>

definition state_wf :: "app_state \<Rightarrow> bool" where
  "state_wf s \<longleftrightarrow> db_wf (st_db s) \<and> hub_wf (st_signaling s)"

lemma state_wf_simps [simp]:
  "state_wf (s\<lparr>st_db := d\<rparr>) \<longleftrightarrow> db_wf d \<and> hub_wf (st_signaling s)"
  "state_wf (s\<lparr>st_signaling := h\<rparr>) \<longleftrightarrow> db_wf (st_db s) \<and> hub_wf h"
  "state_wf (s\<lparr>st_metrics := m\<rparr>) \<longleftrightarrow> state_wf s"
  by (auto simp: state_wf_def)

lemma state_wfD: "state_wf s \<Longrightarrow> db_wf (st_db s)" "state_wf s \<Longrightarrow> hub_wf (st_signaling s)"
  by (auto simp: state_wf_def)

lemma state_wf_spawn_event [wf_intros]: "state_wf s \<Longrightarrow> state_wf (spawn_event env ty uid dt s)"
  by (auto simp: spawn_event_def record_event_def state_wf_def intro: wf_intros
      split: sum.splits)

lemma spawn_event_keeps [simp]:
  "st_signaling (spawn_event env ty uid dt s) = st_signaling s"
  "st_metrics (spawn_event env ty uid dt s) = st_metrics s"
  "users (st_db (spawn_event env ty uid dt s)) = users (st_db s)"
  "friendships (st_db (spawn_event env ty uid dt s)) = friendships (st_db s)"
  "presences (st_db (spawn_event env ty uid dt s)) = presences (st_db s)"
  "sessions (st_db (spawn_event env ty uid dt s)) = sessions (st_db s)"
  "world_sessions (st_db (spawn_event env ty uid dt s)) = world_sessions (st_db s)"
  "join_tickets (st_db (spawn_event env ty uid dt s)) = join_tickets (st_db s)"
  by (auto simp: spawn_event_def record_event_def insert_user_event_def Let_def
      split: sum.splits if_splits)

end
