(* ===== verification/Sample.thy ===== *)
theory Sample
  imports Queries
begin

text \<open>
  A small concrete deployment on which the properties are instantiated: four accounts, two
  friendships (alice and bob, bob and carol), alice hosting an open friends-of-friends world in
  which bob is an active guest. The digest functions are instantiated by an injective encoding.
\<close>

definition sample_user :: "uuid \<Rightarrow> string \<Rightarrow> user" where
  "sample_user uid name =
     \<lparr>u_id = uid, u_minecraft_uuid = Some name, u_username = name, u_normalized_username = name,
      u_account_type = None, u_xuid = None, u_client_id = None,
      u_first_seen_at = 0, u_last_seen_at = 0, u_created_at = 0, u_updated_at = 0,
      u_email = None, u_password_hash = None, u_origin = ''yggdrasil'',
      u_profile_uuid = Some name, u_confirmed = True, u_blocked = False, u_is_admin = False\<rparr>"

definition alice :: user where "alice = sample_user 1 ''alice''"
definition bob :: user where "bob = sample_user 2 ''bob''"
definition carol :: user where "carol = sample_user 3 ''carol''"
definition dave :: user where "dave = sample_user 4 ''dave''"

definition sample_env :: env where
  "sample_env =
     \<lparr>e_now = 1000000, e_utc = 1000000, e_uuid = (\<lambda>n. of_nat (100 + n)),
      e_random = (\<lambda>n. [of_nat n]), e_sha256 = map of_char,
      e_hex = map (\<lambda>b. char_of (unat b)), e_collate_le = (\<lambda>a b. length a \<le> length b)\<rparr>"

definition sample_cfg :: config where
  "sample_cfg =
     \<lparr>cf_session_ttl = days 30, cf_heartbeat_timeout = seconds 60, cf_max_players_per_world = 5,
      cf_join_request_ttl = seconds 60, cf_join_ticket_ttl = seconds 120,
      cf_invite_ttl = seconds 300, cf_search_min_query_length = 2, cf_search_max_results = 20,
      cf_event_retention_days = 90, cf_yggdrasil_token_ttl = days 15,
      cf_max_tokens_per_user = 10, cf_cookie_name = ''loontail_session'',
      cf_admin_session_ttl = days 7, cf_yggdrasil_public_url = ''https://h/ygg''\<rparr>"

definition sample_world :: world_session where
  "sample_world =
     \<lparr>ws_id = 10, ws_host_user_id = 1, ws_status = Open, ws_max_players = 3,
      ws_current_players = 1, ws_created_at = 0, ws_closed_at = None,
      ws_invite_policy = FriendsOfFriends\<rparr>"

definition sample_db :: db where
  "sample_db = empty_db
     \<lparr>users := [alice, bob, carol, dave],
      friendships :=
        [\<lparr>fs_id = 20, fs_user_a_id = 1, fs_user_b_id = 2, fs_created_at = 0\<rparr>,
         \<lparr>fs_id = 21, fs_user_a_id = 2, fs_user_b_id = 3, fs_created_at = 0\<rparr>],
      world_sessions := [sample_world],
      presences :=
        [\<lparr>pr_user_id = 1, pr_status = ''joinable'', pr_last_heartbeat_at = 900000,
          pr_minecraft_version = Some ''1.21'', pr_mod_version = None, pr_loader = Some ''fabric'',
          pr_current_world_session_id = Some 10, pr_updated_at = 0\<rparr>,
         \<lparr>pr_user_id = 2, pr_status = ''online'', pr_last_heartbeat_at = 900000,
          pr_minecraft_version = None, pr_mod_version = None, pr_loader = None,
          pr_current_world_session_id = None, pr_updated_at = 0\<rparr>],
      relay_sessions :=
        [\<lparr>rs_id = 30, rs_world_session_id = 10, rs_host_user_id = 1, rs_guest_user_id = Some 2,
          rs_join_ticket_id = None, rs_status = ''active'', rs_created_at = 0,
          rs_closed_at = None\<rparr>]\<rparr>"

definition sample_metrics :: metrics where
  "sample_metrics =
     \<lparr>m_bootstraps = 0, m_heartbeats = 0, m_friend_requests_created = 0,
      m_join_tickets_issued = 0, m_relay_sessions_opened = 0, m_relay_bytes_forwarded = 0,
      m_signaling_connections = 0\<rparr>"

definition sample_state :: app_state where
  "sample_state =
     \<lparr>st_db = sample_db,
      st_signaling = [(1, [\<lparr>cn_id = 40, cn_alive = True, cn_sent = []\<rparr>]),
                      (2, [\<lparr>cn_id = 41, cn_alive = True, cn_sent = []\<rparr>,
                           \<lparr>cn_id = 42, cn_alive = False, cn_sent = []\<rparr>])],
      st_metrics = sample_metrics\<rparr>"

lemma sample_db_wf [simp]: "db_wf sample_db"
  by code_simp

lemma sample_state_wf [simp]: "state_wf sample_state"
  by code_simp

end
