(* ===== verification/User_Rows.thy ===== *)
theory User_Rows
  imports Sample
begin

text \<open>
  Updating one row of the \<^verbatim>\<open>users\<close> table under its five unique indexes, and printing numbers
  into error messages: what the account operations of the network, the identity layer and the
  admin panel share.
\<close>

section \<open>Updating a user\<close>

lemma users_wf_replace:
  assumes "users_wf rs" "u \<in> set rs" "u_id u = x"
    and "first_violation (users_violation (f u) (sql_delete (\<lambda>v. u_id v = x) rs)) = None"
  shows "users_wf (sql_update (\<lambda>v. u_id v = x) f rs)"
  using assms
  by (auto simp: users_wf_def users_violation_def simp del: not_None_eq split: if_splits
      intro!: unique_index_replace [where u = u])

lemma update_user_Inr:
  assumes "update_user x f d = Inr d'" "find_user d x = Some u"
  shows "d' = d\<lparr>users := sql_update (\<lambda>v. u_id v = x) f (users d)\<rparr>"
    and "first_violation (users_violation (f u) (sql_delete (\<lambda>v. u_id v = x) (users d))) = None"
  using assms by (simp_all add: update_user_def find_user_def)

lemma db_wf_update_user [wf_intros]:
  assumes "update_user x f d = Inr d'" "db_wf d" "\<And>v. u_id (f v) = u_id v"
  shows "db_wf d'"
proof (cases "find_user d x")
  case None
  with assms show ?thesis by (simp add: update_user_def find_user_def)
next
  case (Some u)
  note d' = update_user_Inr [OF assms(1) Some]
  have "users_wf (sql_update (\<lambda>v. u_id v = x) f (users d))"
    using find_user_Some [OF Some] db_wfD(1) [OF assms(2)] d'(2) by (intro users_wf_replace)
  moreover have "set (user_ids d) \<subseteq> u_id ` set (sql_update (\<lambda>v. u_id v = x) f (users d))"
    using assms(3) by (simp add: set_map_sql_update)
  ultimately show ?thesis
    using assms(2) by (simp add: d'(1) db_wf_users)
qed

lemma update_user_find:
  assumes "update_user x f d = Inr d'" "\<And>v. u_id (f v) = u_id v"
  shows "find_user d' y = map_option (\<lambda>v. if u_id v = x then f v else v) (find_user d y)"
proof (cases "find_user d x")
  case None
  with assms have "d' = d" by (simp add: update_user_def find_user_def)
  moreover have "u_id v \<noteq> x" if "find_user d y = Some v" for v
    using None find_user_Some [OF that] that by auto
  ultimately show ?thesis by (cases "find_user d y") auto
next
  case (Some u)
  then show ?thesis
    using update_user_Inr(1) [OF assms(1) Some] assms(2)
    by (simp add: find_user_def sql_find_update)
qed

text \<open>
  An update that leaves the indexed columns of the row alone, or clears none of them, can only
  fail on an index whose column it changes.
\<close>

lemma update_user_violation:
  assumes "update_user x f d = Inl e" "find_user d x = Some u"
  shows "first_violation (users_violation (f u) (sql_delete (\<lambda>v. u_id v = x) (users d))) = Some e"
  using assms by (simp add: update_user_def find_user_def)

section \<open>Numbers in messages\<close>

definition digit_char :: "nat \<Rightarrow> char" where
  "digit_char n = char_of (48 + n mod 10)"

fun decimal :: "nat \<Rightarrow> string" where
  "decimal n = (if n < 10 then [digit_char n] else decimal (n div 10) @ [digit_char n])"

declare decimal.simps [simp del]

lemma decimal_nonempty: "decimal n \<noteq> []"
  by (subst decimal.simps) simp

end
