(* ===== verification/Presence.thy ===== *)
theory Presence
  imports Sample
begin

text \<open>
  \<^verbatim>\<open>network/src/presence.rs\<close>: liveness derived from heartbeats, the explicit status, the
  broadcast to friends, and the friends list with presence.
\<close>

section \<open>Effective status\<close>

definition effective_status ::
  "timestamp \<Rightarrow> presence_status \<Rightarrow> timestamp \<Rightarrow> duration \<Rightarrow> presence_status" where
  "effective_status utc_now stored last_heartbeat timeout =
     (if utc_now - last_heartbeat > from_std_or timeout (seconds 60) then Offline else stored)"

definition derive_friend_status ::
  "presence_status \<Rightarrow> uuid option \<Rightarrow> uuid option \<Rightarrow> presence_status \<times> uuid option" where
  "derive_friend_status base guest_world_id current_world_session_id =
     (case guest_world_id of
        Some world \<Rightarrow>
          if base \<noteq> Offline then (InWorld, Some world)
          else if is_in_world base then (base, current_world_session_id)
          else (base, None)
      | None \<Rightarrow>
          if is_in_world base then (base, current_world_session_id) else (base, None))"

definition find_presence :: "db \<Rightarrow> uuid \<Rightarrow> presence option" where
  "find_presence d uid = sql_find (\<lambda>p. pr_user_id p = uid) (presences d)"

definition effective_status_for :: "env \<Rightarrow> config \<Rightarrow> db \<Rightarrow> uuid \<Rightarrow> presence_status" where
  "effective_status_for env cfg d user_id =
     (case find_presence d user_id of
        Some row \<Rightarrow>
          effective_status (e_utc env) (presence_from_db (pr_status row))
            (pr_last_heartbeat_at row) (cf_heartbeat_timeout cfg)
      | None \<Rightarrow> Offline)"

section \<open>Heartbeats and status changes\<close>

text \<open>The row inserted for a user that has none; \<^verbatim>\<open>DEFAULT\<close> columns filled in.\<close>

definition fresh_presence :: "env \<Rightarrow> uuid \<Rightarrow> string \<Rightarrow> uuid option \<Rightarrow> presence" where
  "fresh_presence env uid status world =
     \<lparr>pr_user_id = uid, pr_status = status, pr_last_heartbeat_at = e_now env,
      pr_minecraft_version = None, pr_mod_version = None, pr_loader = None,
      pr_current_world_session_id = world, pr_updated_at = e_now env\<rparr>"

definition touch_presence :: "env \<Rightarrow> presence \<Rightarrow> presence" where
  "touch_presence env p = p\<lparr>pr_last_heartbeat_at := e_now env,
     pr_status := (if pr_status p = ''offline'' then ''online'' else pr_status p),
     pr_updated_at := e_now env\<rparr>"

definition mark_online :: "env \<Rightarrow> uuid \<Rightarrow> unit handler" where
  "mark_online env user_id s =
     (case upsert_presence (fresh_presence env user_id ''online'' None) (touch_presence env)
             (st_db s) of
        Inl e \<Rightarrow> (Inl (Database e), s)
      | Inr d \<Rightarrow> (Inr (), s\<lparr>st_db := d\<rparr>))"

definition heartbeat :: "env \<Rightarrow> config \<Rightarrow> user \<Rightarrow> presence_status handler" where
  "heartbeat env cfg auth s =
     (case upsert_presence (fresh_presence env (u_id auth) ''online'' None) (touch_presence env)
             (st_db s) of
        Inl e \<Rightarrow> (Inl (Database e), s)
      | Inr d \<Rightarrow>
          let m = st_metrics s;
              s1 = s\<lparr>st_db := d, st_metrics := m\<lparr>m_heartbeats := metrics_incr (m_heartbeats m)\<rparr>\<rparr>
          in (Inr (effective_status_for env cfg d (u_id auth)), s1))"

definition mark_offline :: "env \<Rightarrow> uuid \<Rightarrow> unit handler" where
  "mark_offline env user_id s =
     (Inr (), s\<lparr>st_db := (st_db s)\<lparr>presences :=
        sql_update (\<lambda>p. pr_user_id p = user_id)
          (\<lambda>p. p\<lparr>pr_status := ''offline'', pr_current_world_session_id := None,
                 pr_updated_at := e_now env\<rparr>) (presences (st_db s))\<rparr>\<rparr>)"

definition friend_ids :: "db \<Rightarrow> uuid \<Rightarrow> uuid list" where
  "friend_ids d user_id =
     map (\<lambda>f. if fs_user_a_id f = user_id then fs_user_b_id f else fs_user_a_id f)
       (filter (\<lambda>f. fs_user_a_id f = user_id \<or> fs_user_b_id f = user_id) (friendships d))"

definition broadcast_presence :: "uuid \<Rightarrow> app_state \<Rightarrow> app_state" where
  "broadcast_presence user_id s =
     s\<lparr>st_signaling :=
        fold (\<lambda>friend_id. send_to friend_id (PresenceUpdate user_id))
          (friend_ids (st_db s) user_id) (st_signaling s)\<rparr>"

definition owns_open_world :: "db \<Rightarrow> uuid \<Rightarrow> uuid \<Rightarrow> bool" where
  "owns_open_world d world_id uid =
     sql_exists (\<lambda>w. ws_id w = world_id \<and> ws_host_user_id w = uid \<and> ws_status w = Open)
       (world_sessions d)"

definition set_status ::
  "env \<Rightarrow> user \<Rightarrow> string \<Rightarrow> uuid option \<Rightarrow> presence_status handler" where
  "set_status env auth body_status body_world s =
     (case presence_from_client body_status of
        None \<Rightarrow> (Inl (BadRequest ''status must be online, inWorld or joinable''), s)
      | Some status \<Rightarrow>
          if is_in_world status
             \<and> (case body_world of Some w \<Rightarrow> \<not> owns_open_world (st_db s) w (u_id auth)
                 | None \<Rightarrow> False)
          then (Inl (BadRequest ''currentWorldSessionId must be your own open world session''), s)
          else
            let world_id = (if is_in_world status then body_world else None) in
            (case upsert_presence
                    (fresh_presence env (u_id auth) (presence_as_str status) world_id)
                    (\<lambda>p. p\<lparr>pr_status := presence_as_str status, pr_last_heartbeat_at := e_now env,
                           pr_current_world_session_id := world_id,
                           pr_updated_at := e_now env\<rparr>)
                    (st_db s) of
               Inl e \<Rightarrow> (Inl (Database e), s)
             | Inr d \<Rightarrow> (Inr status, broadcast_presence (u_id auth) (s\<lparr>st_db := d\<rparr>))))"

section \<open>The friends list\<close>

record friend_presence =
  fp_user :: user_dto
  fp_status :: presence_status
  fp_current_world_session_id :: "uuid option"
  fp_minecraft_version :: "string option"
  fp_loader :: "string option"

text \<open>The lateral join: the newest active relay of the friend into an open world of that policy.\<close>

definition fof_world :: "db \<Rightarrow> uuid \<Rightarrow> bool" where
  "fof_world d w = sql_exists (\<lambda>ws. ws_id ws = w \<and> ws_status ws = Open
     \<and> ws_invite_policy ws = FriendsOfFriends) (world_sessions d)"

definition guest_world :: "db \<Rightarrow> uuid \<Rightarrow> uuid option" where
  "guest_world d uid =
     (case newest_first rs_created_at
        (filter (\<lambda>r. rs_guest_user_id r = Some uid \<and> rs_status r = ''active''
                     \<and> fof_world d (rs_world_session_id r)) (relay_sessions d)) of
        [] \<Rightarrow> None | r # _ \<Rightarrow> Some (rs_world_session_id r))"

definition friend_presence_row :: "env \<Rightarrow> config \<Rightarrow> db \<Rightarrow> user \<Rightarrow> friend_presence" where
  "friend_presence_row env cfg d u =
     (let p = find_presence d (u_id u);
          base = (case p of
                    Some row \<Rightarrow> effective_status (e_utc env) (presence_from_db (pr_status row))
                      (pr_last_heartbeat_at row) (cf_heartbeat_timeout cfg)
                  | None \<Rightarrow> Offline);
          (status, world) = derive_friend_status base (guest_world d (u_id u))
             (case p of Some row \<Rightarrow> pr_current_world_session_id row | None \<Rightarrow> None)
      in \<lparr>fp_user = user_dto_from u, fp_status = status, fp_current_world_session_id = world,
          fp_minecraft_version = Option.bind p pr_minecraft_version,
          fp_loader = Option.bind p pr_loader\<rparr>)"

definition friends_with_presence :: "env \<Rightarrow> config \<Rightarrow> db \<Rightarrow> uuid \<Rightarrow> friend_presence list" where
  "friends_with_presence env cfg d user_id =
     map (friend_presence_row env cfg d)
       (order_by (\<lambda>u v. e_collate_le env (u_normalized_username u) (u_normalized_username v))
          (concat (map (\<lambda>fid. filter (\<lambda>u. u_id u = fid) (users d)) (friend_ids d user_id))))"

definition friends_presence :: "env \<Rightarrow> config \<Rightarrow> user \<Rightarrow> friend_presence list handler" where
  "friends_presence env cfg auth s =
     (Inr (friends_with_presence env cfg (st_db s) (u_id auth)), s)"

section \<open>Friends\<close>

lemma in_friend_ids: "db_wf d \<Longrightarrow> v \<in> set (friend_ids d u) \<longleftrightarrow> are_friends d u v"
  by (fastforce simp: friend_ids_def are_friends_def sql_exists_iff is_pair_def db_wf_def
      friendships_wf_def list_all_iff min_def max_def split: if_splits)

lemma distinct_friend_ids: "friendships_wf us fs \<Longrightarrow> friendships d = fs \<Longrightarrow> distinct (friend_ids d u)"
proof (induction fs arbitrary: d)
  case (Cons f fs)
  let ?other = "\<lambda>f. if fs_user_a_id f = u then fs_user_b_id f else fs_user_a_id f"
  let ?d = "d\<lparr>friendships := fs\<rparr>"
  have "friendships_wf us fs"
    using Cons.prems(1) by (simp add: friendships_wf_def fk_def)
  then have IH: "distinct (friend_ids ?d u)"
    by (rule Cons.IH) simp
  show ?case
  proof (cases "fs_user_a_id f = u \<or> fs_user_b_id f = u")
    case True
    have "?other f \<notin> set (friend_ids ?d u)"
    proof
      assume "?other f \<in> set (friend_ids ?d u)"
      then obtain g where g: "g \<in> set fs" "fs_user_a_id g = u \<or> fs_user_b_id g = u"
          "?other g = ?other f"
        by (auto simp: friend_ids_def)
      have "fs_user_a_id f < fs_user_b_id f" "fs_user_a_id g < fs_user_b_id g"
        using Cons.prems(1) g(1) by (auto simp: friendships_wf_def list_all_iff)
      with True g have "(fs_user_a_id g, fs_user_b_id g) = (fs_user_a_id f, fs_user_b_id f)"
        by (auto split: if_splits)
      with Cons.prems(1) g(1) show False
        by (auto simp: friendships_wf_def unique_violation_def sql_exists_iff)
    qed
    with IH True Cons.prems(2) show ?thesis by (auto simp: friend_ids_def)
  next
    case False
    with IH Cons.prems(2) show ?thesis by (auto simp: friend_ids_def)
  qed
qed (simp add: friend_ids_def)

lemma hub_wf_fold_send [wf_intros]: "hub_wf hub \<Longrightarrow> hub_wf (fold (\<lambda>v. send_to v ev) vs hub)"
  by (induction vs arbitrary: hub) (auto intro: wf_intros)

lemma connections_of_fold_send:
  assumes "hub_wf hub" "distinct vs"
  shows "connections_of v (fold (\<lambda>v. send_to v ev) vs hub) =
    (if v \<in> set vs then map (deliver ev) (filter cn_alive (connections_of v hub))
     else connections_of v hub)"
  using assms
  by (induction vs arbitrary: hub) (auto simp: connections_of_send_to hub_wf_send_to)

lemma hub_wf_broadcast_presence [simp, wf_intros]:
  "hub_wf (st_signaling s) \<Longrightarrow> hub_wf (st_signaling (broadcast_presence u s))"
  by (auto simp: broadcast_presence_def intro: wf_intros)

lemma state_wf_broadcast_presence [wf_intros]: "state_wf s \<Longrightarrow> state_wf (broadcast_presence u s)"
  by (auto simp: broadcast_presence_def state_wf_def intro: wf_intros)

lemma broadcast_presence_keeps [simp]:
  "st_db (broadcast_presence u s) = st_db s" "st_metrics (broadcast_presence u s) = st_metrics s"
  by (simp_all add: broadcast_presence_def)

lemma state_wf_mark_online [wf_intros]: "state_wf s \<Longrightarrow> state_wf (snd (mark_online env u s))"
  by (auto simp: mark_online_def state_wf_def touch_presence_def split: sum.splits
      intro: db_wf_upsert_presence)

lemma state_wf_heartbeat [wf_intros]: "state_wf s \<Longrightarrow> state_wf (snd (heartbeat env cfg u s))"
  by (auto simp: heartbeat_def state_wf_def touch_presence_def Let_def split: sum.splits
      intro: db_wf_upsert_presence)

lemma state_wf_mark_offline [wf_intros]: "state_wf s \<Longrightarrow> state_wf (snd (mark_offline env u s))"
  by (auto simp: mark_offline_def state_wf_def intro!: db_wf_update_presences)

lemma state_wf_set_status [wf_intros]:
  "state_wf s \<Longrightarrow> state_wf (snd (set_status env u st w s))"
  by (auto simp: set_status_def state_wf_def Let_def split: sum.splits option.splits
      intro: db_wf_upsert_presence hub_wf_broadcast_presence)

lemma guest_world_Some:
  assumes "guest_world d u = Some w"
  shows "fof_world d w \<and> sql_exists (\<lambda>r. rs_guest_user_id r = Some u \<and> rs_status r = ''active''
           \<and> rs_world_session_id r = w) (relay_sessions d)"
proof -
  let ?rs = "filter (\<lambda>r. rs_guest_user_id r = Some u \<and> rs_status r = ''active''
    \<and> fof_world d (rs_world_session_id r)) (relay_sessions d)"
  obtain r rest where r: "newest_first rs_created_at ?rs = r # rest" and w: "w = rs_world_session_id r"
    using assms by (auto simp: guest_world_def split: list.splits)
  have "r \<in> set (newest_first rs_created_at ?rs)"
    by (simp only: r list.set_intros)
  then have "r \<in> set ?rs"
    by (simp only: set_newest_first)
  with w show ?thesis by (auto simp: sql_exists_iff)
qed

lemma derive_friend_status_world:
  assumes "derive_friend_status base g c = (st, Some w)"
  shows "base \<noteq> Offline \<and> (g = Some w \<and> st = InWorld \<or> c = Some w \<and> is_in_world base \<and> st = base)"
  using assms by (cases base; cases g) (auto simp: derive_friend_status_def split: if_splits)

lemma friend_presence_row_id [simp]: "fp_user (friend_presence_row env cfg d u) = user_dto_from u"
  by (simp add: friend_presence_row_def Let_def split: prod.splits)

lemma friends_with_presence_users:
  "fp \<in> set (friends_with_presence env cfg d v) \<longleftrightarrow>
     (\<exists>u \<in> set (users d). u_id u \<in> set (friend_ids d v) \<and> fp = friend_presence_row env cfg d u)"
  by (auto simp: friends_with_presence_def)

section \<open>Properties\<close>

text \<open>
  A heartbeat keeps a user visible: when it succeeds and no more than the configured timeout
  separates the application clock from the database clock, the effective status is the stored one,
  or online where the stored one was offline or missing; it is never offline for one of the four
  statuses the column holds.
\<close>

theorem heartbeat_alive:
  assumes "state_wf s" and "heartbeat env cfg auth s = (Inr status, s')"
    and "e_utc env - e_now env \<le> cf_heartbeat_timeout cfg"
    and "cf_heartbeat_timeout cfg \<le> (2 ^ 63 - 1) * 1000"
  shows "status = (case find_presence (st_db s) (u_id auth) of
      None \<Rightarrow> Online
    | Some p \<Rightarrow> if pr_status p = ''offline'' then Online else presence_from_db (pr_status p))
    \<and> m_heartbeats (st_metrics s') = m_heartbeats (st_metrics s) + 1"
proof -
  let ?fresh = "fresh_presence env (u_id auth) ''online'' None"
  obtain d where d: "upsert_presence ?fresh (touch_presence env) (st_db s) = Inr d"
    and st: "status = effective_status_for env cfg d (u_id auth)"
    and m: "m_heartbeats (st_metrics s') = m_heartbeats (st_metrics s) + 1"
    using assms(2) by (auto simp: heartbeat_def Let_def metrics_incr_def split: sum.splits)
  have "find_presence d (u_id auth) = Some (case find_presence (st_db s) (u_id auth) of
      None \<Rightarrow> ?fresh | Some old \<Rightarrow> touch_presence env old)"
    using upsert_presence_find [OF d] state_wfD(1) [OF assms(1)]
    by (simp add: find_presence_def fresh_presence_def touch_presence_def)
  with st assms(3,4) show ?thesis
    by (auto simp: m effective_status_for_def effective_status_def from_std_or_def
        fresh_presence_def touch_presence_def presence_from_db_def split: option.splits)
qed

text \<open>
  Setting a status succeeds only with one of the three client statuses, stores exactly it, and
  points the row at a world only when the user is in world and owns that world while it is open;
  any other status clears the pointer. Every refusal leaves the whole state as it was.
\<close>

theorem set_status_effect:
  assumes "state_wf s"
  shows "case set_status env auth body_status body_world s of
      (Inl e, s') \<Rightarrow> s' = s
    | (Inr status, s') \<Rightarrow>
        presence_from_client body_status = Some status \<and>
        (\<exists>p. find_presence (st_db s') (u_id auth) = Some p \<and> pr_status p = presence_as_str status
           \<and> pr_last_heartbeat_at p = e_now env
           \<and> pr_current_world_session_id p = (if is_in_world status then body_world else None)
           \<and> (\<forall>w \<in> set_option (pr_current_world_session_id p).
                owns_open_world (st_db s') w (u_id auth)))"
proof (cases "set_status env auth body_status body_world s")
  case (Pair res s')
  show ?thesis
  proof (cases res)
    case (Inl e)
    with Pair show ?thesis
      by (auto simp: set_status_def Let_def split: option.splits if_splits sum.splits)
  next
    case (Inr status)
    let ?w = "if is_in_world status then body_world else None"
    let ?f = "\<lambda>p. p\<lparr>pr_status := presence_as_str status, pr_last_heartbeat_at := e_now env,
      pr_current_world_session_id := ?w, pr_updated_at := e_now env\<rparr>"
    let ?fresh = "fresh_presence env (u_id auth) (presence_as_str status) ?w"
    obtain d where c: "presence_from_client body_status = Some status"
      and own: "is_in_world status \<Longrightarrow> \<forall>w \<in> set_option body_world.
                  owns_open_world (st_db s) w (u_id auth)"
      and d: "upsert_presence ?fresh ?f (st_db s) = Inr d"
      and s': "s' = broadcast_presence (u_id auth) (s\<lparr>st_db := d\<rparr>)"
      using Pair Inr
      by (auto simp: set_status_def Let_def split: option.splits if_splits sum.splits)
    have "find_presence d (u_id auth) = Some (case find_presence (st_db s) (u_id auth) of
        None \<Rightarrow> ?fresh | Some old \<Rightarrow> ?f old)"
      using upsert_presence_find [OF d] state_wfD(1) [OF assms]
      by (simp add: find_presence_def fresh_presence_def)
    moreover have "world_sessions d = world_sessions (st_db s)"
      using upsert_presence_keeps [OF d] by simp
    ultimately show ?thesis
      using Pair Inr c own s'
      by (auto simp: owns_open_world_def fresh_presence_def split: option.splits)
  qed
qed

text \<open>
  The friends list names exactly the user's friends, and what it discloses about a world is
  limited: an entry shown offline names no world, and a named world is either the one the friend
  reported while live in it, or an open friends-of-friends world in which the friend is an active
  guest. A guest of a host-only world is never shown in that world.
\<close>

theorem friends_with_presence_discloses:
  assumes "db_wf d"
  shows "(ud_id \<circ> fp_user) ` set (friends_with_presence env cfg d v) = {u. are_friends d v u} \<and>
    (\<forall>fp \<in> set (friends_with_presence env cfg d v).
       (fp_status fp = Offline \<longrightarrow> fp_current_world_session_id fp = None) \<and>
       (\<forall>w. fp_current_world_session_id fp = Some w \<longrightarrow>
          effective_status_for env cfg d (ud_id (fp_user fp)) \<noteq> Offline \<and>
          ((\<exists>p. find_presence d (ud_id (fp_user fp)) = Some p
               \<and> pr_current_world_session_id p = Some w
               \<and> is_in_world (effective_status_for env cfg d (ud_id (fp_user fp)))
               \<and> fp_status fp = effective_status_for env cfg d (ud_id (fp_user fp)))
           \<or> fof_world d w \<and> sql_exists (\<lambda>r. rs_guest_user_id r = Some (ud_id (fp_user fp))
               \<and> rs_status r = ''active'' \<and> rs_world_session_id r = w) (relay_sessions d))))"
proof (intro conjI ballI)
  have "u \<in> u_id ` set (users d)" if "are_friends d v u" for u
    using are_friends_exist [OF assms that] by (simp add: user_exists_iff)
  then show "(ud_id \<circ> fp_user) ` set (friends_with_presence env cfg d v) = {u. are_friends d v u}"
    by (force simp: friends_with_presence_users in_friend_ids [OF assms] user_dto_from_def
        image_iff)
next
  fix fp assume "fp \<in> set (friends_with_presence env cfg d v)"
  then obtain u where fp: "fp = friend_presence_row env cfg d u"
    by (auto simp: friends_with_presence_users)
  let ?base = "effective_status_for env cfg d (u_id u)"
  let ?cur = "case find_presence d (u_id u) of Some r \<Rightarrow> pr_current_world_session_id r | None \<Rightarrow> None"
  obtain st w where dv: "derive_friend_status ?base (guest_world d (u_id u)) ?cur = (st, w)"
    by fastforce
  have st: "fp_status fp = st" and w: "fp_current_world_session_id fp = w"
    and uid: "ud_id (fp_user fp) = u_id u"
    using dv fp by (auto simp: friend_presence_row_def effective_status_for_def Let_def
        user_dto_from_def split: prod.splits)
  show "fp_status fp = Offline \<longrightarrow> fp_current_world_session_id fp = None"
    using dv st w by (cases ?base; cases "guest_world d (u_id u)")
      (auto simp: derive_friend_status_def)
  show "\<forall>w. fp_current_world_session_id fp = Some w \<longrightarrow>
          effective_status_for env cfg d (ud_id (fp_user fp)) \<noteq> Offline \<and>
          ((\<exists>p. find_presence d (ud_id (fp_user fp)) = Some p
               \<and> pr_current_world_session_id p = Some w
               \<and> is_in_world (effective_status_for env cfg d (ud_id (fp_user fp)))
               \<and> fp_status fp = effective_status_for env cfg d (ud_id (fp_user fp)))
           \<or> fof_world d w \<and> sql_exists (\<lambda>r. rs_guest_user_id r = Some (ud_id (fp_user fp))
               \<and> rs_status r = ''active'' \<and> rs_world_session_id r = w) (relay_sessions d))"
  proof (intro allI impI)
    fix x assume "fp_current_world_session_id fp = Some x"
    with dv w have d2: "derive_friend_status ?base (guest_world d (u_id u)) ?cur = (st, Some x)"
      by simp
    from derive_friend_status_world [OF d2]
    show "effective_status_for env cfg d (ud_id (fp_user fp)) \<noteq> Offline \<and>
          ((\<exists>p. find_presence d (ud_id (fp_user fp)) = Some p
               \<and> pr_current_world_session_id p = Some x
               \<and> is_in_world (effective_status_for env cfg d (ud_id (fp_user fp)))
               \<and> fp_status fp = effective_status_for env cfg d (ud_id (fp_user fp)))
           \<or> fof_world d x \<and> sql_exists (\<lambda>r. rs_guest_user_id r = Some (ud_id (fp_user fp))
               \<and> rs_status r = ''active'' \<and> rs_world_session_id r = x) (relay_sessions d))"
      using guest_world_Some [of d "u_id u" x] st uid by (auto split: option.splits)
  qed
qed

text \<open>
  A presence broadcast reaches the friends and nobody else: every live connection of a friend
  receives the update exactly once, dead ones are pruned, and the connections of any other user
  are untouched.
\<close>

theorem broadcast_presence_delivery:
  assumes "state_wf s"
  shows "connections_of v (st_signaling (broadcast_presence u s)) =
    (if are_friends (st_db s) u v
     then map (deliver (PresenceUpdate u)) (filter cn_alive (connections_of v (st_signaling s)))
     else connections_of v (st_signaling s))"
  using distinct_friend_ids [OF db_wfD(5) [OF state_wfD(1) [OF assms]] refl]
    in_friend_ids [OF state_wfD(1) [OF assms]] state_wfD(2) [OF assms]
  by (simp add: broadcast_presence_def connections_of_fold_send)

end
