(* ===== verification/Users.thy ===== *)
theory Users
  imports User_Rows Presence
begin

text \<open>
  \<^verbatim>\<open>network/src/users.rs\<close>: the bootstrap of a network session by the in-game agent, the caller's
  own profile, and the search by user name.
\<close>

section \<open>Bootstrap\<close>

record bootstrap_request =
  br_minecraft_uuid :: string
  br_username :: string
  br_account_type :: "string option"
  br_xuid :: "string option"
  br_client_id :: "string option"
  br_minecraft_version :: "string option"
  br_mod_version :: "string option"
  br_loader :: "string option"

text \<open>\<^verbatim>\<open>NULLIF(s, '')\<close>.\<close>

definition nullif_empty :: "string \<Rightarrow> string option" where
  "nullif_empty s = (if s = [] then None else Some s)"

definition bootstrap_user :: "env \<Rightarrow> bootstrap_request \<Rightarrow> user \<Rightarrow> user" where
  "bootstrap_user env body u = u
     \<lparr>u_minecraft_uuid := coalesce (u_minecraft_uuid u) (nullif_empty (trim (br_minecraft_uuid body))),
      u_account_type := coalesce (br_account_type body) (u_account_type u),
      u_xuid := coalesce (br_xuid body) (u_xuid u),
      u_client_id := coalesce (br_client_id body) (u_client_id u),
      u_last_seen_at := e_now env, u_updated_at := e_now env\<rparr>"

definition bootstrap_fresh :: "env \<Rightarrow> uuid \<Rightarrow> bootstrap_request \<Rightarrow> presence" where
  "bootstrap_fresh env uid body =
     \<lparr>pr_user_id = uid, pr_status = ''online'', pr_last_heartbeat_at = e_now env,
      pr_minecraft_version = br_minecraft_version body, pr_mod_version = br_mod_version body,
      pr_loader = br_loader body, pr_current_world_session_id = None, pr_updated_at = e_now env\<rparr>"

definition bootstrap_presence :: "env \<Rightarrow> bootstrap_request \<Rightarrow> presence \<Rightarrow> presence" where
  "bootstrap_presence env body p = p
     \<lparr>pr_status := ''online'', pr_last_heartbeat_at := e_now env,
      pr_minecraft_version := coalesce (br_minecraft_version body) (pr_minecraft_version p),
      pr_mod_version := coalesce (br_mod_version body) (pr_mod_version p),
      pr_loader := coalesce (br_loader body) (pr_loader p), pr_updated_at := e_now env\<rparr>"

definition map_bootstrap_conflict :: "db_error \<Rightarrow> app_error" where
  "map_bootstrap_conflict err =
     (if violates ''users_minecraft_uuid_key'' err
      then Conflict ''this Minecraft account is already linked to another user''
      else Database err)"

text \<open>
  Two statements outside a transaction: when the second fails the first stays. An \<^verbatim>\<open>UPDATE\<close>
  that matches no row fails \<^verbatim>\<open>fetch_one\<close>.
\<close>

definition bootstrap :: "env \<Rightarrow> user \<Rightarrow> bootstrap_request \<Rightarrow> user_dto handler" where
  "bootstrap env auth body s =
     (case update_user (u_id auth) (bootstrap_user env body) (st_db s) of
        Inl e \<Rightarrow> (Inl (map_bootstrap_conflict e), s)
      | Inr d1 \<Rightarrow>
          (case find_user d1 (u_id auth) of
             None \<Rightarrow> (Inl (map_bootstrap_conflict RowNotFound), s)
           | Some u \<Rightarrow>
               (case upsert_presence (bootstrap_fresh env (u_id u) body)
                       (bootstrap_presence env body) d1 of
                  Inl e \<Rightarrow> (Inl (Database e), s\<lparr>st_db := d1\<rparr>)
                | Inr d2 \<Rightarrow>
                    let m = st_metrics s;
                        s1 = s\<lparr>st_db := d2,
                               st_metrics := m\<lparr>m_bootstraps := metrics_incr (m_bootstraps m)\<rparr>\<rparr>;
                        s2 = spawn_event env ''bootstrap'' (Some (u_id u)) None s1
                    in (Inr (user_dto_from u), s2))))"

section \<open>The caller and the search\<close>

definition me :: "env \<Rightarrow> config \<Rightarrow> user \<Rightarrow> app_state \<Rightarrow> user_dto \<times> presence_status" where
  "me env cfg auth s =
     (user_dto_from auth, effective_status_for env cfg (st_db s) (u_id auth))"

record search_result =
  sr_user :: user_dto
  sr_is_friend :: bool
  sr_has_incoming_request :: bool
  sr_has_outgoing_request :: bool

definition pending_between :: "db \<Rightarrow> uuid \<Rightarrow> uuid \<Rightarrow> bool" where
  "pending_between d sender receiver =
     sql_exists (\<lambda>r. fr_from_user_id r = sender \<and> fr_to_user_id r = receiver
                     \<and> fr_status r = Pending) (friend_requests d)"

definition search_row :: "db \<Rightarrow> uuid \<Rightarrow> user \<Rightarrow> search_result" where
  "search_row d me_id u =
     \<lparr>sr_user = \<lparr>ud_id = u_id u, ud_minecraft_uuid = u_minecraft_uuid u, ud_username = u_username u\<rparr>,
      sr_is_friend = are_friends d me_id (u_id u),
      sr_has_incoming_request = pending_between d (u_id u) me_id,
      sr_has_outgoing_request = pending_between d me_id (u_id u)\<rparr>"

definition search_pattern :: "string \<Rightarrow> string" where
  "search_pattern needle = ''%'' @ escape_like_pattern (normalize_username needle) @ ''%''"

definition users_search :: "env \<Rightarrow> config \<Rightarrow> user \<Rightarrow> string \<Rightarrow> db \<Rightarrow> search_result list app_result" where
  "users_search env cfg auth q d =
     (let needle = trim q in
      if length needle < cf_search_min_query_length cfg
      then Inl (BadRequest (''query must be at least '' @ decimal (cf_search_min_query_length cfg)
                              @ '' characters''))
      else
        let pattern = search_pattern needle; me_id = u_id auth in
        Inr (map (search_row d me_id)
          (limit (cf_search_max_results cfg)
            (order_by (\<lambda>a b. e_collate_le env (u_normalized_username a) (u_normalized_username b))
              (filter (\<lambda>u. like pattern (u_normalized_username u) \<and> u_id u \<noteq> me_id) (users d))))))"

section \<open>Well-formedness\<close>

lemma u_id_bootstrap_user [simp]: "u_id (bootstrap_user env body u) = u_id u"
  by (simp add: bootstrap_user_def)

lemma pr_user_id_bootstrap [simp]:
  "pr_user_id (bootstrap_presence env body p) = pr_user_id p"
  "pr_user_id (bootstrap_fresh env uid body) = uid"
  by (simp_all add: bootstrap_presence_def bootstrap_fresh_def)

lemma state_wf_bootstrap [wf_intros]:
  assumes "state_wf s"
  shows "state_wf (snd (bootstrap env auth body s))"
proof (cases "update_user (u_id auth) (bootstrap_user env body) (st_db s)")
  case (Inl e)
  with assms show ?thesis by (simp add: bootstrap_def)
next
  case (Inr d1)
  have d1: "db_wf d1"
    using db_wf_update_user [OF Inr] state_wfD(1) [OF assms] by simp
  show ?thesis
  proof (cases "find_user d1 (u_id auth)")
    case None
    with Inr assms show ?thesis by (simp add: bootstrap_def)
  next
    case (Some u)
    show ?thesis
    proof (cases "upsert_presence (bootstrap_fresh env (u_id u) body) (bootstrap_presence env body) d1")
      case (Inl e)
      with Inr Some d1 state_wfD(2) [OF assms] show ?thesis by (simp add: bootstrap_def)
    next
      case up: (Inr d2)
      have "db_wf d2"
        using db_wf_upsert_presence [OF up d1] by simp
      with Inr Some up state_wfD(2) [OF assms] show ?thesis
        by (simp add: bootstrap_def Let_def state_wf_spawn_event)
    qed
  qed
qed

section \<open>What a bootstrap does\<close>

text \<open>An upsert of an existing user that introduces no world succeeds.\<close>

lemma upsert_presence_succeeds:
  assumes "db_wf d" "user_exists d (pr_user_id fresh)" "pr_current_world_session_id fresh = None"
    and "\<And>p. pr_current_world_session_id (f p) = pr_current_world_session_id p"
  shows "\<exists>d'. upsert_presence fresh f d = Inr d'"
proof (cases "sql_find (\<lambda>p. pr_user_id p = pr_user_id fresh) (presences d)")
  case None
  then have "\<not> unique_violation always pr_user_id fresh (presences d)"
    by (simp add: sql_find_None_iff unique_violation_def sql_exists_iff)
  with None assms(2,3) show ?thesis
    by (simp add: upsert_presence_def insert_presence_def user_exists_iff)
next
  case (Some old)
  then have "set_option (pr_current_world_session_id old) \<subseteq> set (world_ids d)"
    using sql_find_SomeD(1) [OF Some] db_wfD(6) [OF assms(1)]
    by (simp add: presences_wf_def fk_opt_def list_all_iff)
  with Some assms(4) show ?thesis by (simp add: upsert_presence_def)
qed

text \<open>The only index a bootstrap can run into is the one on the Minecraft identity.\<close>

lemma bootstrap_violation:
  assumes "db_wf d" "find_user d x = Some u"
    and "update_user x (bootstrap_user env body) d = Inl e"
  shows "e = UniqueViolation ''users_minecraft_uuid_key'' \<and> u_minecraft_uuid u = None
    \<and> trim (br_minecraft_uuid body) \<noteq> []
    \<and> (\<exists>v \<in> set (users d). u_id v \<noteq> x
         \<and> u_minecraft_uuid v = Some (trim (br_minecraft_uuid body)))"
proof -
  let ?f = "bootstrap_user env body" and ?rest = "sql_delete (\<lambda>v. u_id v = x) (users d)"
  note u = find_user_Some(1,2) [OF assms(2)]
  have wf: "unique_index always u_id (users d)"
    "unique_index (\<lambda>u. u_minecraft_uuid u \<noteq> None) u_minecraft_uuid (users d)"
    "unique_index (\<lambda>u. u_email u \<noteq> None) u_email_key (users d)"
    "unique_index (\<lambda>u. u_profile_uuid u \<noteq> None) u_profile_uuid (users d)"
    "unique_index always u_normalized_username (users d)"
    using db_wfD(1) [OF assms(1)] by (simp_all only: users_wf_def)
  note kept = kept_not_violating [OF wf(1) u, where f = ?f]
  have ok: "\<not> unique_violation always u_id (?f u) ?rest"
    "\<not> unique_violation (\<lambda>u. u_email u \<noteq> None) u_email_key (?f u) ?rest"
    "\<not> unique_violation (\<lambda>u. u_profile_uuid u \<noteq> None) u_profile_uuid (?f u) ?rest"
    "\<not> unique_violation always u_normalized_username (?f u) ?rest"
    using kept [OF wf(1)] kept [OF wf(3)] kept [OF wf(4)] kept [OF wf(5)]
    by (simp_all add: bootstrap_user_def u_email_key_def)
  have e: "e = UniqueViolation ''users_minecraft_uuid_key''"
    and viol: "unique_violation (\<lambda>u. u_minecraft_uuid u \<noteq> None) u_minecraft_uuid (?f u) ?rest"
    using update_user_violation [OF assms(3,2)] ok
    by (simp_all add: users_violation_def del: not_None_eq split: if_splits)
  have none: "u_minecraft_uuid u = None"
  proof (rule ccontr)
    assume "u_minecraft_uuid u \<noteq> None"
    then have "u_minecraft_uuid (?f u) = u_minecraft_uuid u"
      by (auto simp: bootstrap_user_def)
    with viol kept [OF wf(2)] show False by auto
  qed
  with viol e show ?thesis
    by (auto simp: unique_violation_def sql_exists_iff bootstrap_user_def nullif_empty_def
        split: if_splits)
qed

text \<open>
  Bootstrapping an existing account either binds or refreshes it, or is refused with a
  conflict and changes nothing; it is refused exactly when the account has no Minecraft identity
  yet and the requested one belongs to another account. When it succeeds the account keeps the
  identity it had, no other account changes, the account is stored as online with a heartbeat of
  now, and the answer describes the stored row.
\<close>

theorem bootstrap_effect:
  assumes "state_wf s" "find_user (st_db s) (u_id auth) = Some u"
  shows "case bootstrap env auth body s of
      (Inl e, s') \<Rightarrow> e = Conflict ''this Minecraft account is already linked to another user''
        \<and> s' = s \<and> u_minecraft_uuid u = None
        \<and> (\<exists>v \<in> set (users (st_db s)). u_id v \<noteq> u_id auth
             \<and> u_minecraft_uuid v = Some (trim (br_minecraft_uuid body)))
    | (Inr dto, s') \<Rightarrow>
        (\<exists>u'. find_user (st_db s') (u_id auth) = Some u' \<and> dto = user_dto_from u'
           \<and> u_minecraft_uuid u' = coalesce (u_minecraft_uuid u)
                (nullif_empty (trim (br_minecraft_uuid body)))
           \<and> u_username u' = u_username u \<and> u_last_seen_at u' = e_now env)
        \<and> (\<forall>x. x \<noteq> u_id auth \<longrightarrow> find_user (st_db s') x = find_user (st_db s) x)
        \<and> (\<exists>p. find_presence (st_db s') (u_id auth) = Some p \<and> pr_status p = ''online''
             \<and> pr_last_heartbeat_at p = e_now env)"
proof (cases "update_user (u_id auth) (bootstrap_user env body) (st_db s)")
  case (Inl e)
  with bootstrap_violation [OF state_wfD(1) [OF assms(1)] assms(2) Inl] show ?thesis
    by (auto simp: bootstrap_def map_bootstrap_conflict_def)
next
  case (Inr d1)
  let ?f = "bootstrap_user env body"
  have wf1: "db_wf d1"
    using db_wf_update_user [OF Inr] state_wfD(1) [OF assms(1)] by simp
  have find1: "find_user d1 y = map_option (\<lambda>v. if u_id v = u_id auth then ?f v else v)
      (find_user (st_db s) y)" for y
    using update_user_find [OF Inr] by simp
  have other: "find_user d1 x = find_user (st_db s) x" if "x \<noteq> u_id auth" for x
    using that find1 [of x] find_user_Some(2) [of "st_db s" x]
    by (cases "find_user (st_db s) x") auto
  have fu: "find_user d1 (u_id auth) = Some (?f u)" and id: "u_id (?f u) = u_id auth"
    using find1 [of "u_id auth"] assms(2) find_user_Some(2) [OF assms(2)] by simp_all
  let ?fresh = "bootstrap_fresh env (u_id auth) body"
  show ?thesis
  proof (cases "upsert_presence ?fresh (bootstrap_presence env body) d1")
    case (Inl e)
    have "user_exists d1 (u_id auth)"
      by (rule find_user_Some(3) [OF fu])
    then have False
      using Inl upsert_presence_succeeds [OF wf1, of ?fresh "bootstrap_presence env body"]
      by (auto simp: bootstrap_fresh_def bootstrap_presence_def)
    then show ?thesis ..
  next
    case up: (Inr d2)
    have p: "find_presence d2 (u_id auth) = Some (case find_presence d1 (u_id auth) of
        None \<Rightarrow> ?fresh | Some old \<Rightarrow> bootstrap_presence env body old)"
      using upsert_presence_find [OF up wf1] by (simp add: find_presence_def)
    have keeps: "find_user d2 = find_user d1"
      using upsert_presence_keeps(1) [OF up] by (simp add: fun_eq_iff find_user_def)
    let ?s1 = "s\<lparr>st_db := d2,
      st_metrics := (st_metrics s)\<lparr>m_bootstraps := metrics_incr (m_bootstraps (st_metrics s))\<rparr>\<rparr>"
    let ?s' = "spawn_event env ''bootstrap'' (Some (u_id auth)) None ?s1"
    have res: "bootstrap env auth body s = (Inr (user_dto_from (?f u)), ?s')"
      using Inr fu id up by (simp add: bootstrap_def Let_def)
    have fin: "find_user (st_db ?s') = find_user d1" "find_presence (st_db ?s') = find_presence d2"
      using keeps by (simp_all add: fun_eq_iff find_user_def find_presence_def)
    show ?thesis
      using fu other p
      by (auto simp: res fin bootstrap_user_def bootstrap_fresh_def bootstrap_presence_def
          split: option.splits)
  qed
qed

definition sample_bootstrap :: bootstrap_request where
  "sample_bootstrap =
     \<lparr>br_minecraft_uuid = '' other '', br_username = ''alice'', br_account_type = None,
      br_xuid = Some ''x'', br_client_id = None, br_minecraft_version = Some ''1.21.4'',
      br_mod_version = None, br_loader = None\<rparr>"

section \<open>What a search returns\<close>

definition search_hit :: "user \<Rightarrow> string \<Rightarrow> user \<Rightarrow> bool" where
  "search_hit auth q u \<longleftrightarrow> u_id u \<noteq> u_id auth
     \<and> sublist (normalize_username q) (u_normalized_username u)"

lemma like_search_pattern: "like (search_pattern n) s \<longleftrightarrow> sublist (normalize_username n) s"
  unfolding search_pattern_def by (rule escape_like_pattern_literal)

lemma normalize_username_trim [simp]: "normalize_username (trim q) = normalize_username q"
  by (simp add: normalize_username_def trim_trimmed trimmed_trim)

lemma set_limit_subset: "set (limit n rs) \<subseteq> set rs"
  by (simp add: limit_def set_take_subset)

lemma limit_all: "int (length rs) \<le> n \<Longrightarrow> limit n rs = rs"
  by (simp add: limit_def)

text \<open>
  A search that is not too short answers only with accounts, other than the caller's, whose
  normalised name contains the normalised needle literally, whatever metacharacters it holds;
  each answer carries the true friendship and pending-request flags, there are never more
  answers than the configured maximum, and no hit is left out unless that maximum is reached.
\<close>

theorem users_search_exact:
  assumes "users_search env cfg auth q d = Inr rs"
  shows "cf_search_min_query_length cfg \<le> length (trim q)
    \<and> int (length rs) \<le> max 0 (cf_search_max_results cfg)
    \<and> set rs \<subseteq> search_row d (u_id auth) ` {u \<in> set (users d). search_hit auth q u}
    \<and> (int (length (filter (search_hit auth q) (users d))) \<le> cf_search_max_results cfg
         \<longrightarrow> set rs = search_row d (u_id auth) ` {u \<in> set (users d). search_hit auth q u})"
proof -
  let ?le = "\<lambda>a b. e_collate_le env (u_normalized_username a) (u_normalized_username b)"
  let ?hits = "filter (search_hit auth q) (users d)"
  have flt: "filter (\<lambda>u. like (search_pattern (trim q)) (u_normalized_username u)
      \<and> u_id u \<noteq> u_id auth) (users d) = ?hits"
    by (rule filter_cong) (auto simp: like_search_pattern search_hit_def)
  have min: "cf_search_min_query_length cfg \<le> length (trim q)"
    and rs: "rs = map (search_row d (u_id auth)) (limit (cf_search_max_results cfg) (order_by ?le ?hits))"
    using assms by (auto simp: users_search_def Let_def flt split: if_splits)
  have "set rs \<subseteq> search_row d (u_id auth) ` set ?hits"
    using set_limit_subset [of "cf_search_max_results cfg" "order_by ?le ?hits"] by (auto simp: rs)
  moreover have "int (length rs) \<le> max 0 (cf_search_max_results cfg)"
    by (simp add: rs limit_def)
  moreover have "set rs = search_row d (u_id auth) ` set ?hits"
    if "int (length ?hits) \<le> cf_search_max_results cfg"
    using that by (simp add: rs limit_all)
  ultimately show ?thesis using min by auto
qed

end
