(* ===== verification/Lifecycle.thy ===== *)
theory Lifecycle
  imports Presence
begin

text \<open>
  Friend requests, join requests and world invites share one life cycle
  (\<^verbatim>\<open>RequestStatus\<close>) and one way to move through it: an \<^verbatim>\<open>UPDATE ... SET status = new WHERE id = $1
  AND status IN (...)\<close> whose row count is the gate. \<open>transition\<close> is that statement; the locale
  \<open>lifecycle\<close> is what the gate promises, and each of the three tables is an instance of it.
\<close>

definition transition ::
  "('r \<Rightarrow> uuid) \<Rightarrow> ('r \<Rightarrow> request_status) \<Rightarrow> (timestamp \<Rightarrow> request_status \<Rightarrow> 'r \<Rightarrow> 'r)
   \<Rightarrow> request_status list \<Rightarrow> request_status \<Rightarrow> timestamp \<Rightarrow> uuid \<Rightarrow> 'r list \<Rightarrow> nat \<times> 'r list" where
  "transition key status assign src new now rid rs =
     (let p = (\<lambda>r. key r = rid \<and> status r \<in> set src) in
      (sql_affected p rs, sql_update p (assign now new) rs))"

text \<open>Statuses that no handler leaves.\<close>

definition terminal :: "request_status \<Rightarrow> bool" where
  "terminal st \<longleftrightarrow> st \<noteq> Pending \<and> st \<noteq> PendingApproval"

locale lifecycle =
  fixes key :: "'r \<Rightarrow> uuid"
    and status :: "'r \<Rightarrow> request_status"
    and assign :: "timestamp \<Rightarrow> request_status \<Rightarrow> 'r \<Rightarrow> 'r"
  assumes key_assign [simp]: "key (assign now st r) = key r"
    and status_assign [simp]: "status (assign now st r) = st"
begin

abbreviation gate :: "request_status list \<Rightarrow> request_status \<Rightarrow> timestamp \<Rightarrow> uuid \<Rightarrow> 'r list \<Rightarrow> nat \<times> 'r list"
  where "gate \<equiv> transition key status assign"

lemma gate_le_1: "unique_index (\<lambda>_. True) key rs \<Longrightarrow> fst (gate src new now rid rs) \<le> 1"
  using unique_index_affected_le_1 [of key rs rid "\<lambda>r. status r \<in> set src"]
  by (simp add: transition_def Let_def)

lemma gate_opens:
  "unique_index (\<lambda>_. True) key rs \<Longrightarrow> r \<in> set rs \<Longrightarrow> status r \<in> set src
     \<Longrightarrow> fst (gate src new now (key r) rs) = 1"
  using gate_le_1 [of rs src new now "key r"]
  by (auto simp: transition_def Let_def sql_affected_def filter_empty_conv le_Suc_eq)

lemma gate_shut:
  "(\<And>r. r \<in> set rs \<Longrightarrow> key r = rid \<Longrightarrow> status r \<notin> set src)
     \<Longrightarrow> gate src new now rid rs = (0, rs)"
  by (auto simp: transition_def Let_def sql_affected_eq_0 intro!: sql_update_none)

text \<open>Passing the gate closes it: a second passage with the same origin finds no row.\<close>

lemma gate_once:
  assumes "new \<notin> set src"
  shows "fst (gate src new' now' rid (snd (gate src new now rid rs))) = 0"
  by (induction rs) (simp_all add: transition_def Let_def sql_affected_def assms)

lemma gate_other:
  "r \<in> set (snd (gate src new now rid rs)) \<Longrightarrow> key r \<noteq> rid \<Longrightarrow> r \<in> set rs"
  by (auto simp: transition_def Let_def set_sql_update split: if_splits)

lemma gate_find:
  "sql_find (\<lambda>r. key r = rid') (snd (gate src new now rid rs)) =
     map_option (\<lambda>r. if key r = rid \<and> status r \<in> set src then assign now new r else r)
       (sql_find (\<lambda>r. key r = rid') rs)"
  by (induction rs) (auto simp: transition_def Let_def sql_find_def)

lemma gate_keys: "map key (snd (gate src new now rid rs)) = map key rs"
  by (simp add: transition_def Let_def map_sql_update)

text \<open>A row that has reached a terminal status keeps it through every gate that starts elsewhere.\<close>

lemma gate_terminal:
  "sql_find (\<lambda>r. key r = rid') rs = Some r \<Longrightarrow> terminal (status r) \<Longrightarrow> list_all (\<lambda>st. \<not> terminal st) src
     \<Longrightarrow> sql_find (\<lambda>r. key r = rid') (snd (gate src new now rid rs)) = Some r"
  by (auto simp: gate_find list_all_iff)

end

section \<open>The three tables\<close>

definition fr_set_status :: "timestamp \<Rightarrow> request_status \<Rightarrow> friend_request \<Rightarrow> friend_request" where
  "fr_set_status now st r = r\<lparr>fr_status := st, fr_updated_at := now\<rparr>"

definition jr_set_status :: "timestamp \<Rightarrow> request_status \<Rightarrow> join_request \<Rightarrow> join_request" where
  "jr_set_status now st r = r\<lparr>jr_status := st, jr_updated_at := now\<rparr>"

definition wi_set_status :: "timestamp \<Rightarrow> request_status \<Rightarrow> world_invite \<Rightarrow> world_invite" where
  "wi_set_status now st r = r\<lparr>wi_status := st, wi_updated_at := now\<rparr>"

interpretation fr: lifecycle fr_id fr_status fr_set_status
  by unfold_locales (simp_all add: fr_set_status_def)

interpretation jr: lifecycle jr_id jr_status jr_set_status
  by unfold_locales (simp_all add: jr_set_status_def)

interpretation wi: lifecycle wi_id wi_status wi_set_status
  by unfold_locales (simp_all add: wi_set_status_def)

text \<open>The gates preserve the constraints of their tables.\<close>

lemma db_wf_jr_transition [wf_intros]:
  assumes "db_wf d" "new \<noteq> Pending"
  shows "db_wf (d\<lparr>join_requests := snd (transition jr_id jr_status jr_set_status src new now rid
           (join_requests d))\<rparr>)"
  using assms
  by (auto simp: transition_def Let_def jr_set_status_def jr_pending_def
      intro!: db_wf_update_join_requests)

lemma db_wf_wi_transition [wf_intros]:
  assumes "db_wf d" "set src \<subseteq> {Pending, PendingApproval}"
  shows "db_wf (d\<lparr>world_invites := snd (transition wi_id wi_status wi_set_status src new now rid
           (world_invites d))\<rparr>)"
  using assms
  by (auto simp: transition_def Let_def wi_set_status_def wi_active_def
      intro!: db_wf_update_world_invites)

lemma db_wf_fr_update [wf_intros]:
  assumes "db_wf d" "new \<noteq> Pending"
  shows "db_wf (d\<lparr>friend_requests := sql_update p (fr_set_status now new) (friend_requests d)\<rparr>)"
  using assms by (auto simp: fr_set_status_def fr_pending_def intro!: db_wf_update_friend_requests)

end
