(* ===== verification/Friends.thy ===== *)
theory Friends
  imports Lifecycle
begin

text \<open>
  \<^verbatim>\<open>network/src/friends.rs\<close>: friend requests, their acceptance (which creates the friendship row in
  the same transaction), refusal, and the removal of a friendship.
\<close>

section \<open>Requests as transferred\<close>

record friend_request_dto =
  frd_id :: uuid
  frd_status :: request_status
  frd_created_at :: timestamp
  frd_from_user :: user_dto
  frd_to_user :: user_dto

text \<open>The two inner joins of \<^verbatim>\<open>FRIEND_REQUEST_SELECT\<close> on one row.\<close>

definition friend_request_join :: "db \<Rightarrow> friend_request \<Rightarrow> friend_request_dto option" where
  "friend_request_join d r =
     (case (find_user d (fr_from_user_id r), find_user d (fr_to_user_id r)) of
        (Some fu, Some tu) \<Rightarrow>
          Some \<lparr>frd_id = fr_id r, frd_status = fr_status r, frd_created_at = fr_created_at r,
                frd_from_user = user_dto_from fu, frd_to_user = user_dto_from tu\<rparr>
      | _ \<Rightarrow> None)"

definition friends_load_request :: "db \<Rightarrow> uuid \<Rightarrow> friend_request_dto app_result" where
  "friends_load_request d rid =
     ok_or (NotFound ''friend request not found'')
       (Option.bind (sql_find (\<lambda>r. fr_id r = rid) (friend_requests d)) (friend_request_join d))"

definition friends_incoming :: "user \<Rightarrow> friend_request_dto list handler" where
  "friends_incoming auth s =
     (Inr (List.map_filter (friend_request_join (st_db s))
        (newest_first fr_created_at
          (filter (\<lambda>r. fr_to_user_id r = u_id auth \<and> fr_status r = Pending)
             (friend_requests (st_db s))))), s)"

definition friends_outgoing :: "user \<Rightarrow> friend_request_dto list handler" where
  "friends_outgoing auth s =
     (Inr (List.map_filter (friend_request_join (st_db s))
        (newest_first fr_created_at
          (filter (\<lambda>r. fr_from_user_id r = u_id auth \<and> fr_status r = Pending)
             (friend_requests (st_db s))))), s)"

definition list_friends :: "env \<Rightarrow> config \<Rightarrow> user \<Rightarrow> friend_presence list handler" where
  "list_friends env cfg auth s = (Inr (friends_with_presence env cfg (st_db s) (u_id auth)), s)"

section \<open>Accepting\<close>

definition new_friendship :: "env \<Rightarrow> nat \<Rightarrow> uuid \<Rightarrow> uuid \<Rightarrow> friendship" where
  "new_friendship env k a b =
     \<lparr>fs_id = e_uuid env k, fs_user_a_id = min a b, fs_user_b_id = max a b,
      fs_created_at = e_now env\<rparr>"

text \<open>\<^verbatim>\<open>INSERT INTO friendships ... ON CONFLICT (user_a_id, user_b_id) DO NOTHING\<close>.\<close>

definition befriend :: "env \<Rightarrow> nat \<Rightarrow> uuid \<Rightarrow> uuid \<Rightarrow> db \<Rightarrow> db_error + db" where
  "befriend env k a b d =
     (if are_friends d a b then Inr d else insert_friendship (new_friendship env k a b) d)"

text \<open>The transaction of \<^verbatim>\<open>accept_internal\<close>: the parties, and the database to commit.\<close>

definition accept_internal_tx :: "env \<Rightarrow> uuid \<Rightarrow> uuid \<Rightarrow> db \<Rightarrow> (uuid \<times> uuid \<times> db) app_result" where
  "accept_internal_tx env me rid d =
     (case sql_find (\<lambda>r. fr_id r = rid) (friend_requests d) of
        None \<Rightarrow> Inl (NotFound ''friend request not found'')
      | Some r \<Rightarrow>
          if fr_to_user_id r \<noteq> me then Inl Forbidden
          else if fr_status r \<noteq> Pending then Inl (Conflict ''request is not pending'')
          else
            let d1 = d\<lparr>friend_requests := sql_update (\<lambda>r. fr_id r = rid)
                        (fr_set_status (e_now env) Accepted) (friend_requests d)\<rparr> in
            (case befriend env 0 (fr_from_user_id r) (fr_to_user_id r) d1 of
               Inl e \<Rightarrow> Inl (Database e)
             | Inr d2 \<Rightarrow> Inr (fr_from_user_id r, fr_to_user_id r, d2)))"

definition accept_internal :: "env \<Rightarrow> uuid \<Rightarrow> uuid \<Rightarrow> friend_request_dto handler" where
  "accept_internal env me rid s =
     (case accept_internal_tx env me rid (st_db s) of
        Inl e \<Rightarrow> (Inl e, s)
      | Inr (from_user_id, to_user_id, d) \<Rightarrow>
          let s1 = s\<lparr>st_db := d\<rparr> in
          (case friends_load_request d rid of
             Inl e \<Rightarrow> (Inl e, s1)
           | Inr dto \<Rightarrow>
               let s2 = s1\<lparr>st_signaling := send_to from_user_id
                           (FriendRequestAccepted rid (frd_to_user dto)) (st_signaling s1)\<rparr>
               in (Inr dto, broadcast_presence to_user_id (broadcast_presence from_user_id s2))))"

definition friends_accept :: "env \<Rightarrow> user \<Rightarrow> uuid \<Rightarrow> friend_request_dto handler" where
  "friends_accept env auth rid s = accept_internal env (u_id auth) rid s"

section \<open>Asking\<close>

definition new_friend_request :: "env \<Rightarrow> uuid \<Rightarrow> uuid \<Rightarrow> friend_request" where
  "new_friend_request env a b =
     \<lparr>fr_id = e_uuid env 0, fr_from_user_id = a, fr_to_user_id = b, fr_status = Pending,
      fr_created_at = e_now env, fr_updated_at = e_now env\<rparr>"

definition create_request :: "env \<Rightarrow> user \<Rightarrow> uuid \<Rightarrow> friend_request_dto handler" where
  "create_request env auth target s =
     (let me = u_id auth; d = st_db s in
      if me = target then (Inl (BadRequest ''you cannot add yourself''), s)
      else if \<not> user_exists d target then (Inl (NotFound ''user not found''), s)
      else if are_friends d me target then (Inl (Conflict ''you are already friends''), s)
      else
        (case sql_find (\<lambda>r. fr_from_user_id r = target \<and> fr_to_user_id r = me
                            \<and> fr_status r = Pending) (friend_requests d) of
           Some reverse \<Rightarrow> accept_internal env me (fr_id reverse) s
         | None \<Rightarrow>
             (case insert_friend_request (new_friend_request env me target) d of
                Inl e \<Rightarrow>
                  (Inl (if is_unique_violation e then Conflict ''a request is already pending''
                        else Database e), s)
              | Inr d1 \<Rightarrow>
                  let m = st_metrics s;
                      s1 = s\<lparr>st_db := d1, st_metrics :=
                              m\<lparr>m_friend_requests_created :=
                                  metrics_incr (m_friend_requests_created m)\<rparr>\<rparr>;
                      rid = e_uuid env 0 in
                  (case friends_load_request d1 rid of
                     Inl e \<Rightarrow> (Inl e, s1)
                   | Inr dto \<Rightarrow>
                       (Inr dto, s1\<lparr>st_signaling :=
                          send_to target (FriendRequest rid (frd_from_user dto))
                            (st_signaling s1)\<rparr>)))))"

section \<open>Declining and removing\<close>

text \<open>
  \<^verbatim>\<open>decline\<close> is not a transaction: it reads the request, then updates it by id alone. The two
  halves are separate steps of the database.
\<close>

definition friends_decline_check :: "user \<Rightarrow> uuid \<Rightarrow> db \<Rightarrow> friend_request_dto app_result" where
  "friends_decline_check auth rid d =
     (case friends_load_request d rid of
        Inl e \<Rightarrow> Inl e
      | Inr req \<Rightarrow>
          if ud_id (frd_to_user req) \<noteq> u_id auth then Inl Forbidden
          else if frd_status req \<noteq> Pending then Inl (Conflict ''request is not pending'')
          else Inr req)"

definition friends_decline_commit ::
  "env \<Rightarrow> uuid \<Rightarrow> friend_request_dto \<Rightarrow> friend_request_dto handler" where
  "friends_decline_commit env rid req s =
     (let d = (st_db s)\<lparr>friend_requests := sql_update (\<lambda>r. fr_id r = rid)
                (fr_set_status (e_now env) Declined) (friend_requests (st_db s))\<rparr>;
          s1 = s\<lparr>st_db := d, st_signaling :=
                  send_to (ud_id (frd_from_user req)) (FriendRequestDeclined rid)
                    (st_signaling s)\<rparr>
      in (friends_load_request d rid, s1))"

definition friends_decline :: "env \<Rightarrow> user \<Rightarrow> uuid \<Rightarrow> friend_request_dto handler" where
  "friends_decline env auth rid s =
     (case friends_decline_check auth rid (st_db s) of
        Inl e \<Rightarrow> (Inl e, s)
      | Inr req \<Rightarrow> friends_decline_commit env rid req s)"

definition remove_friend :: "user \<Rightarrow> uuid \<Rightarrow> unit handler" where
  "remove_friend auth other s =
     (let d = st_db s;
          n = sql_affected (is_pair (u_id auth) other) (friendships d);
          s1 = s\<lparr>st_db := d\<lparr>friendships :=
                  sql_delete (is_pair (u_id auth) other) (friendships d)\<rparr>\<rparr> in
      (case found n ''friendship'' of
         Inl e \<Rightarrow> (Inl e, s1)
       | Inr _ \<Rightarrow> (Inr (), s1\<lparr>st_signaling :=
                     send_to other (FriendRemoved (u_id auth)) (st_signaling s1)\<rparr>)))"

section \<open>Preservation of the invariant\<close>

lemma db_wf_befriend: "befriend env k a b d = Inr d' \<Longrightarrow> db_wf d \<Longrightarrow> db_wf d'"
  by (auto simp: befriend_def intro: db_wf_insert_friendship split: if_splits)

lemma db_wf_accept_internal_tx:
  "accept_internal_tx env me rid d = Inr (a, b, d') \<Longrightarrow> db_wf d \<Longrightarrow> db_wf d'"
  by (auto simp: accept_internal_tx_def Let_def intro: db_wf_befriend db_wf_fr_update
      split: option.splits if_splits sum.splits)

lemma state_wf_accept_internal [wf_intros]:
  "state_wf s \<Longrightarrow> state_wf (snd (accept_internal env me rid s))"
  by (auto simp: accept_internal_def Let_def state_wf_def split: sum.splits
      intro: db_wf_accept_internal_tx)

lemma state_wf_create_request [wf_intros]:
  "state_wf s \<Longrightarrow> state_wf (snd (create_request env auth target s))"
  using state_wf_accept_internal [of s env "u_id auth"]
  by (auto simp: create_request_def Let_def state_wf_def split: sum.splits option.splits
      intro: db_wf_insert_friend_request hub_wf_send_to)

lemma state_wf_friends_decline [wf_intros]:
  "state_wf s \<Longrightarrow> state_wf (snd (friends_decline env auth rid s))"
  by (auto simp: friends_decline_def friends_decline_commit_def Let_def state_wf_def
      split: sum.splits intro: db_wf_fr_update hub_wf_send_to)

lemma state_wf_remove_friend [wf_intros]:
  "state_wf s \<Longrightarrow> state_wf (snd (remove_friend auth other s))"
  by (auto simp: remove_friend_def Let_def state_wf_def split: sum.splits
      intro: db_wf_delete_simple hub_wf_send_to)

section \<open>Who is friends with whom\<close>

lemma min_max_eq_iff:
  fixes a b x y :: "'a :: linorder"
  shows "min a b = min x y \<and> max a b = max x y \<longleftrightarrow> {a, b} = {x, y}"
  by (auto simp: min_def max_def doubleton_eq_iff split: if_splits)

lemma is_pair_new_friendship: "is_pair x y (new_friendship env k a b) \<longleftrightarrow> {x, y} = {a, b}"
  using min_max_eq_iff [of a b x y] by (auto simp: is_pair_def new_friendship_def)

lemma are_friends_iff_set: "{x, y} = {a, b} \<Longrightarrow> are_friends d x y = are_friends d a b"
  by (auto simp: doubleton_eq_iff are_friends_commute)

lemma are_friends_befriend:
  assumes "befriend env k a b d = Inr d'"
  shows "are_friends d' x y \<longleftrightarrow> are_friends d x y \<or> {x, y} = {a, b}"
proof (cases "are_friends d a b")
  case True
  with assms show ?thesis
    using are_friends_iff_set [of x y a b d] by (auto simp: befriend_def)
next
  case False
  then have "friendships d' = friendships d @ [new_friendship env k a b]"
    using assms by (auto simp: befriend_def insert_friendship_def split: if_splits)
  then show ?thesis
    by (auto simp: are_friends_def sql_exists_iff is_pair_new_friendship)
qed

lemma befriend_keeps:
  assumes "befriend env k a b d = Inr d'"
  shows "friend_requests d' = friend_requests d" "users d' = users d"
  using assms by (auto simp: befriend_def insert_friendship_def split: if_splits)

lemma friend_request_join_total:
  assumes "db_wf d" "r \<in> set (friend_requests d)"
  shows "\<exists>fu tu. find_user d (fr_from_user_id r) = Some fu \<and> find_user d (fr_to_user_id r) = Some tu
    \<and> friend_request_join d r =
        Some \<lparr>frd_id = fr_id r, frd_status = fr_status r, frd_created_at = fr_created_at r,
              frd_from_user = user_dto_from fu, frd_to_user = user_dto_from tu\<rparr>"
proof -
  have "user_exists d (fr_from_user_id r)" "user_exists d (fr_to_user_id r)"
    using assms by (auto simp: db_wf_def friend_requests_wf_def fk_def list_all_iff user_exists_iff)
  then obtain fu tu where "find_user d (fr_from_user_id r) = Some fu"
      "find_user d (fr_to_user_id r) = Some tu"
    using find_user_exists by blast
  then show ?thesis by (simp add: friend_request_join_def)
qed

lemma friends_load_request_total:
  assumes "db_wf d" "sql_find (\<lambda>r. fr_id r = rid) (friend_requests d) = Some r"
  shows "\<exists>dto. friends_load_request d rid = Inr dto \<and> frd_id dto = rid
    \<and> frd_status dto = fr_status r \<and> ud_id (frd_from_user dto) = fr_from_user_id r
    \<and> ud_id (frd_to_user dto) = fr_to_user_id r"
  using friend_request_join_total [OF assms(1) sql_find_SomeD(1) [OF assms(2)]]
    sql_find_SomeD(2) [OF assms(2)]
  by (auto simp: friends_load_request_def assms(2) user_dto_from_def dest: find_user_Some(2))

lemma fr_accept_find:
  "sql_find (\<lambda>r. fr_id r = rid) rs = Some r \<Longrightarrow>
     sql_find (\<lambda>r. fr_id r = rid) (sql_update (\<lambda>r. fr_id r = rid) (fr_set_status now st) rs)
       = Some (fr_set_status now st r)"
  by (induction rs) (auto simp: sql_find_def fr_set_status_def split: if_splits)

lemma accept_internal_txD:
  assumes "accept_internal_tx env me rid d = Inr (a, b, d')" "db_wf d"
  obtains r where "sql_find (\<lambda>r. fr_id r = rid) (friend_requests d) = Some r"
    "fr_from_user_id r = a" "fr_to_user_id r = me" "b = me" "fr_status r = Pending"
    "sql_find (\<lambda>r. fr_id r = rid) (friend_requests d') = Some (fr_set_status (e_now env) Accepted r)"
    "friend_requests d' = sql_update (\<lambda>r. fr_id r = rid) (fr_set_status (e_now env) Accepted)
       (friend_requests d)"
    "\<And>x y. are_friends d' x y \<longleftrightarrow> are_friends d x y \<or> {x, y} = {a, me}"
proof -
  obtain r where r: "sql_find (\<lambda>r. fr_id r = rid) (friend_requests d) = Some r"
      "fr_to_user_id r = me" "fr_status r = Pending" "a = fr_from_user_id r" "b = me"
    and bf: "befriend env 0 (fr_from_user_id r) (fr_to_user_id r)
        (d\<lparr>friend_requests := sql_update (\<lambda>r. fr_id r = rid)
           (fr_set_status (e_now env) Accepted) (friend_requests d)\<rparr>) = Inr d'"
    using assms(1)
    by (auto simp: accept_internal_tx_def Let_def split: option.splits if_splits sum.splits)
  show thesis
    using that [OF r(1) r(4) [symmetric] r(2,5,3)] befriend_keeps(1) [OF bf] fr_accept_find [OF r(1)]
      are_friends_befriend [OF bf] r(2,4)
    by (auto simp: are_friends_def)
qed

section \<open>Properties\<close>

text \<open>
  C37. Accepting a friend request is atomic and guarded: every refusal leaves the whole state as it
  was; on success the request was pending and addressed to the caller, it is accepted afterwards,
  and the friendship relation has grown by exactly that pair, in both directions.
\<close>

theorem friends_accept_effect:
  assumes "state_wf s"
  shows "case friends_accept env auth rid s of
      (Inl e, s') \<Rightarrow> s' = s
    | (Inr dto, s') \<Rightarrow>
        (\<exists>r. sql_find (\<lambda>r. fr_id r = rid) (friend_requests (st_db s)) = Some r
           \<and> fr_to_user_id r = u_id auth \<and> fr_status r = Pending
           \<and> frd_id dto = rid \<and> frd_status dto = Accepted
           \<and> sql_find (\<lambda>r. fr_id r = rid) (friend_requests (st_db s')) =
               Some (fr_set_status (e_now env) Accepted r)
           \<and> (\<forall>x y. are_friends (st_db s') x y \<longleftrightarrow>
                 are_friends (st_db s) x y \<or> {x, y} = {fr_from_user_id r, u_id auth}))"
proof (cases "accept_internal_tx env (u_id auth) rid (st_db s)")
  case (Inl e)
  then show ?thesis by (simp add: friends_accept_def accept_internal_def)
next
  case (Inr abd)
  then obtain a b d' where tx: "accept_internal_tx env (u_id auth) rid (st_db s) = Inr (a, b, d')"
    by (cases abd) auto
  from accept_internal_txD [OF tx state_wfD(1) [OF assms]] obtain r
    where r: "sql_find (\<lambda>r. fr_id r = rid) (friend_requests (st_db s)) = Some r"
        "fr_from_user_id r = a" "fr_to_user_id r = u_id auth" "fr_status r = Pending"
      and r': "sql_find (\<lambda>r. fr_id r = rid) (friend_requests d') =
          Some (fr_set_status (e_now env) Accepted r)"
      and fr: "\<And>x y. are_friends d' x y \<longleftrightarrow> are_friends (st_db s) x y \<or> {x, y} = {a, u_id auth}"
    by metis
  obtain dto where "friends_load_request d' rid = Inr dto" "frd_id dto = rid"
      "frd_status dto = Accepted"
    using friends_load_request_total [OF db_wf_accept_internal_tx [OF tx state_wfD(1) [OF assms]] r']
    by (auto simp: fr_set_status_def)
  then show ?thesis
    using tx r r' fr by (simp add: friends_accept_def accept_internal_def Let_def)
qed

theorem friends_accept_effect_witness:
  "fst (friends_accept sample_env bob 50
     (sample_state\<lparr>st_db := sample_db\<lparr>friend_requests := [\<lparr>fr_id = 50, fr_from_user_id = 4,
        fr_to_user_id = 2, fr_status = Pending, fr_created_at = 0, fr_updated_at = 0\<rparr>]\<rparr>\<rparr>)) =
     Inr \<lparr>frd_id = 50, frd_status = Accepted, frd_created_at = 0,
          frd_from_user = user_dto_from dave, frd_to_user = user_dto_from bob\<rparr> \<and>
   are_friends (st_db (snd (friends_accept sample_env bob 50
     (sample_state\<lparr>st_db := sample_db\<lparr>friend_requests := [\<lparr>fr_id = 50, fr_from_user_id = 4,
        fr_to_user_id = 2, fr_status = Pending, fr_created_at = 0, fr_updated_at = 0\<rparr>]\<rparr>\<rparr>)))) 2 4"
proof -
  let ?s = "sample_state\<lparr>st_db := sample_db\<lparr>friend_requests := [\<lparr>fr_id = 50, fr_from_user_id = 4,
        fr_to_user_id = 2, fr_status = Pending, fr_created_at = 0, fr_updated_at = 0\<rparr>]\<rparr>\<rparr>"
  have wf: "state_wf ?s" by code_simp
  have res: "fst (friends_accept sample_env bob 50 ?s) =
      Inr \<lparr>frd_id = 50, frd_status = Accepted, frd_created_at = 0,
          frd_from_user = user_dto_from dave, frd_to_user = user_dto_from bob\<rparr>"
    by code_simp
  have fr: "sql_find (\<lambda>r. fr_id r = 50) (friend_requests (st_db ?s)) = Some \<lparr>fr_id = 50,
      fr_from_user_id = 4, fr_to_user_id = 2, fr_status = Pending, fr_created_at = 0,
      fr_updated_at = 0\<rparr>"
    by code_simp
  have "are_friends (st_db (snd (friends_accept sample_env bob 50 ?s))) 2 4"
    using friends_accept_effect [where s = ?s and env = sample_env and auth = bob and rid = 50]
      wf res fr
    by (auto split: prod.splits simp: bob_def sample_user_def insert_commute)
  with res show ?thesis by blast
qed

text \<open>
  Asking for a friendship, on every branch: a refusal changes nothing; success requires another
  existing account that is not yet a friend. If that account had already asked the caller, the two
  are friends afterwards and no request row was added; otherwise the friendships are unchanged and
  the one row added is the pending request from the caller to it.
\<close>

theorem create_request_effect:
  assumes "state_wf s"
  shows "case create_request env auth target s of
      (Inl e, s') \<Rightarrow> s' = s
    | (Inr dto, s') \<Rightarrow>
        u_id auth \<noteq> target \<and> user_exists (st_db s) target
        \<and> \<not> are_friends (st_db s) (u_id auth) target
        \<and> (if sql_exists (\<lambda>r. fr_from_user_id r = target \<and> fr_to_user_id r = u_id auth
                 \<and> fr_status r = Pending) (friend_requests (st_db s))
            then are_friends (st_db s') (u_id auth) target
                 \<and> map fr_id (friend_requests (st_db s')) = map fr_id (friend_requests (st_db s))
            else friendships (st_db s') = friendships (st_db s)
                 \<and> friend_requests (st_db s') =
                     friend_requests (st_db s) @ [new_friend_request env (u_id auth) target])"
proof (cases "sql_find (\<lambda>r. fr_from_user_id r = target \<and> fr_to_user_id r = u_id auth
    \<and> fr_status r = Pending) (friend_requests (st_db s))")
  case None
  then have no: "\<not> sql_exists (\<lambda>r. fr_from_user_id r = target \<and> fr_to_user_id r = u_id auth
      \<and> fr_status r = Pending) (friend_requests (st_db s))"
    by (auto simp: sql_find_None_iff sql_exists_iff)
  show ?thesis
  proof (cases "insert_friend_request (new_friend_request env (u_id auth) target) (st_db s)")
    case (Inl e)
    with None show ?thesis by (simp add: create_request_def Let_def)
  next
    case (Inr d1)
    have wf1: "db_wf d1"
      using Inr state_wfD(1) [OF assms] by (rule db_wf_insert_friend_request)
    have d1: "friend_requests d1 = friend_requests (st_db s) @ [new_friend_request env (u_id auth) target]"
      "friendships d1 = friendships (st_db s)"
      using Inr by (auto simp: insert_friend_request_def split: if_splits)
    have "sql_find (\<lambda>r. fr_id r = e_uuid env 0) (friend_requests d1) =
        Some (new_friend_request env (u_id auth) target)"
      using wf1 d1 by (intro sql_find_unique) (auto simp: db_wf_def friend_requests_wf_def
          new_friend_request_def)
    then obtain dto where "friends_load_request d1 (e_uuid env 0) = Inr dto"
      using friends_load_request_total [OF wf1] by blast
    with None Inr d1 no show ?thesis
      by (auto simp: create_request_def Let_def)
  qed
next
  case (Some r)
  have rin: "r \<in> set (friend_requests (st_db s))" and rp: "fr_from_user_id r = target"
      "fr_to_user_id r = u_id auth" "fr_status r = Pending"
    using sql_find_SomeD [OF Some] by auto
  have yes: "sql_exists (\<lambda>r. fr_from_user_id r = target \<and> fr_to_user_id r = u_id auth
      \<and> fr_status r = Pending) (friend_requests (st_db s))"
    using rin rp by (auto simp: sql_exists_iff)
  have fnd: "sql_find (\<lambda>x. fr_id x = fr_id r) (friend_requests (st_db s)) = Some r"
    using rin state_wfD(1) [OF assms]
    by (intro sql_find_unique) (auto simp: db_wf_def friend_requests_wf_def)
  show ?thesis
  proof (cases "accept_internal_tx env (u_id auth) (fr_id r) (st_db s)")
    case (Inl e)
    with Some show ?thesis by (simp add: create_request_def accept_internal_def Let_def)
  next
    case (Inr abd)
    then obtain a b d' where tx: "accept_internal_tx env (u_id auth) (fr_id r) (st_db s) = Inr (a, b, d')"
      by (cases abd) auto
    obtain r0 where r0: "sql_find (\<lambda>x. fr_id x = fr_id r) (friend_requests (st_db s)) = Some r0"
        "fr_from_user_id r0 = a"
      and r': "sql_find (\<lambda>x. fr_id x = fr_id r) (friend_requests d') =
          Some (fr_set_status (e_now env) Accepted r0)"
      and upd: "friend_requests d' = sql_update (\<lambda>x. fr_id x = fr_id r)
          (fr_set_status (e_now env) Accepted) (friend_requests (st_db s))"
      and af: "\<And>x y. are_friends d' x y \<longleftrightarrow> are_friends (st_db s) x y \<or> {x, y} = {a, u_id auth}"
      by (rule accept_internal_txD [OF tx state_wfD(1) [OF assms]]) (rule that)
    have fr: "are_friends d' (u_id auth) target"
      using af [of "u_id auth" target] r0 fnd rp by (simp add: insert_commute)
    have ids: "map fr_id (friend_requests d') = map fr_id (friend_requests (st_db s))"
      using upd by (simp add: map_sql_update fr_set_status_def)
    obtain dto where "friends_load_request d' (fr_id r) = Inr dto"
      using friends_load_request_total [OF db_wf_accept_internal_tx [OF tx state_wfD(1) [OF assms]] r']
      by blast
    with Some tx fr ids yes show ?thesis
      by (auto simp: create_request_def accept_internal_def Let_def)
  qed
qed

text \<open>
  Removing a friend removes exactly that pair, in both directions, and reports it missing exactly
  when the two were not friends, in which case nothing changes.
\<close>

theorem remove_friend_effect:
  "(\<forall>x y. are_friends (st_db (snd (remove_friend auth other s))) x y \<longleftrightarrow>
      are_friends (st_db s) x y \<and> {x, y} \<noteq> {u_id auth, other})
   \<and> (fst (remove_friend auth other s) = Inr () \<longleftrightarrow> are_friends (st_db s) (u_id auth) other)
   \<and> (\<not> are_friends (st_db s) (u_id auth) other \<longrightarrow>
        remove_friend auth other s = (Inl (NotFound ''friendship not found''), s))"
proof (intro conjI allI)
  fix x y
  have pair: "is_pair (u_id auth) other f \<and> is_pair x y f \<longleftrightarrow>
      is_pair x y f \<and> {x, y} = {u_id auth, other}" for f
    using min_max_eq_iff [of x y "u_id auth" other] by (auto simp: is_pair_def)
  have "are_friends (st_db (snd (remove_friend auth other s))) x y \<longleftrightarrow>
      (\<exists>f \<in> set (friendships (st_db s)). is_pair x y f \<and> \<not> is_pair (u_id auth) other f)"
    by (auto simp: remove_friend_def Let_def are_friends_def sql_exists_iff split: sum.splits)
  then show "are_friends (st_db (snd (remove_friend auth other s))) x y \<longleftrightarrow>
      are_friends (st_db s) x y \<and> {x, y} \<noteq> {u_id auth, other}"
    using pair by (auto simp: are_friends_def sql_exists_iff)
next
  show "(fst (remove_friend auth other s) = Inr ()) = are_friends (st_db s) (u_id auth) other"
    by (auto simp: remove_friend_def Let_def are_friends_def sql_affected_pos [symmetric]
        split: sum.splits)
next
  show "\<not> are_friends (st_db s) (u_id auth) other \<longrightarrow>
      remove_friend auth other s = (Inl (NotFound ''friendship not found''), s)"
  proof
    assume "\<not> are_friends (st_db s) (u_id auth) other"
    then have none: "\<forall>f \<in> set (friendships (st_db s)). \<not> is_pair (u_id auth) other f"
      by (auto simp: are_friends_def sql_exists_iff)
    then have "sql_delete (is_pair (u_id auth) other) (friendships (st_db s)) = friendships (st_db s)"
      "sql_affected (is_pair (u_id auth) other) (friendships (st_db s)) = 0"
      by (simp_all add: sql_delete_def filter_id_conv sql_affected_eq_0)
    then show "remove_friend auth other s = (Inl (NotFound ''friendship not found''), s)"
      by (simp add: remove_friend_def Let_def found_def)
  qed
qed

text \<open>
  A decline that read the request before a concurrent accept committed still updates it by id alone:
  it ends up declined although the friendship it created stays.
\<close>

lemma friends_decline_race:
  assumes "state_wf s" and "friends_decline_check auth rid (st_db s) = Inr req"
    and "accept_internal_tx env (u_id auth) rid (st_db s) = Inr (a, b, d')"
  shows "\<exists>dto. fst (friends_decline_commit env' rid req (s\<lparr>st_db := d'\<rparr>)) = Inr dto
      \<and> frd_status dto = Declined
      \<and> are_friends (st_db (snd (friends_decline_commit env' rid req (s\<lparr>st_db := d'\<rparr>))))
          (u_id auth) (ud_id (frd_from_user dto))"
proof -
  obtain r where a: "fr_from_user_id r = a"
    and r': "sql_find (\<lambda>r. fr_id r = rid) (friend_requests d') =
      Some (fr_set_status (e_now env) Accepted r)"
    and af: "\<And>x y. are_friends d' x y \<longleftrightarrow> are_friends (st_db s) x y \<or> {x, y} = {a, u_id auth}"
    by (rule accept_internal_txD [OF assms(3) state_wfD(1) [OF assms(1)]]) (rule that)
  have fr: "are_friends d' (u_id auth) a"
    using af [of "u_id auth" a] by (simp add: insert_commute)
  let ?d = "d'\<lparr>friend_requests := sql_update (\<lambda>r. fr_id r = rid)
    (fr_set_status (e_now env') Declined) (friend_requests d')\<rparr>"
  have wf: "db_wf ?d"
    using db_wf_accept_internal_tx [OF assms(3) state_wfD(1) [OF assms(1)]]
    by (intro db_wf_fr_update) auto
  have "sql_find (\<lambda>r. fr_id r = rid) (friend_requests ?d) =
      Some (fr_set_status (e_now env') Declined (fr_set_status (e_now env) Accepted r))"
    using fr_accept_find [OF r'] by simp
  from friends_load_request_total [OF wf this] obtain dto where
    "friends_load_request ?d rid = Inr dto" "frd_status dto = Declined"
    "ud_id (frd_from_user dto) = a"
    using a by (auto simp: fr_set_status_def)
  then show ?thesis
    using fr by (simp add: friends_decline_commit_def Let_def are_friends_def)
qed

end
