(* ===== verification/Worlds.thy ===== *)
theory Worlds
  imports Lifecycle
begin

text \<open>
  \<^verbatim>\<open>network/src/worlds.rs\<close>: opening, changing and closing a hosted world, with the clean-up both
  closing paths share.
\<close>

section \<open>Definitions\<close>

text \<open>
  \<^verbatim>\<open>Ord::clamp\<close>; it panics when the bounds cross, which a cap of at least one player excludes.
\<close>

definition clamp :: "int \<Rightarrow> int \<Rightarrow> int \<Rightarrow> int" where
  "clamp lo hi v = (if v < lo then lo else if v > hi then hi else v)"

definition find_world :: "db \<Rightarrow> uuid \<Rightarrow> world_session option" where
  "find_world d wid = sql_find (\<lambda>w. ws_id w = wid) (world_sessions d)"

definition load_open_world_session :: "db \<Rightarrow> uuid \<Rightarrow> world_session app_result" where
  "load_open_world_session d wid =
     ok_or (NotFound ''world session not found or closed'')
       (sql_find (\<lambda>w. ws_id w = wid \<and> ws_status w = Open) (world_sessions d))"

definition new_world :: "env \<Rightarrow> uuid \<Rightarrow> int \<Rightarrow> world_session" where
  "new_world env host max_players =
     \<lparr>ws_id = e_uuid env 0, ws_host_user_id = host, ws_status = Open,
      ws_max_players = max_players, ws_current_players = 0, ws_created_at = e_now env,
      ws_closed_at = None, ws_invite_policy = HostOnly\<rparr>"

text \<open>
  \<^verbatim>\<open>INSERT ... ON CONFLICT (host_user_id) WHERE status = 'open' DO UPDATE ... RETURNING\<close>.
\<close>

definition worlds_create :: "env \<Rightarrow> config \<Rightarrow> user \<Rightarrow> int option \<Rightarrow> world_session handler" where
  "worlds_create env cfg auth body_max_players s =
     (let cap = cf_max_players_per_world cfg;
          requested = clamp 1 cap (coalesce_or body_max_players cap);
          d = st_db s;
          mine = (\<lambda>w. ws_host_user_id w = u_id auth \<and> ws_status w = Open);
          reset = (\<lambda>w. w\<lparr>ws_max_players := requested, ws_current_players := 0\<rparr>) in
      (case sql_find mine (world_sessions d) of
         Some w \<Rightarrow>
           (Inr (reset w),
            s\<lparr>st_db := d\<lparr>world_sessions := sql_update mine reset (world_sessions d)\<rparr>\<rparr>)
       | None \<Rightarrow>
           (case insert_world_session (new_world env (u_id auth) requested) d of
              Inl e \<Rightarrow> (Inl (Database e), s)
            | Inr d' \<Rightarrow> (Inr (new_world env (u_id auth) requested), s\<lparr>st_db := d'\<rparr>))))"

text \<open>
  The three statements that end a world: close its relays, clear the host's presence, zero the
  player count and return the row.
\<close>

definition close_relays :: "env \<Rightarrow> uuid \<Rightarrow> db \<Rightarrow> db" where
  "close_relays env world_id d =
     d\<lparr>relay_sessions :=
        sql_update (\<lambda>r. rs_world_session_id r = world_id \<and> rs_status r \<noteq> ''closed'')
          (\<lambda>r. r\<lparr>rs_status := ''closed'', rs_closed_at := Some (e_now env)\<rparr>)
          (relay_sessions d)\<rparr>"

definition leave_world :: "env \<Rightarrow> uuid \<Rightarrow> db \<Rightarrow> db" where
  "leave_world env host_id d =
     d\<lparr>presences :=
        sql_update (\<lambda>p. pr_user_id p = host_id)
          (\<lambda>p. p\<lparr>pr_status := ''online'', pr_current_world_session_id := None,
                 pr_updated_at := e_now env\<rparr>) (presences d)\<rparr>"

definition close_world_cleanup ::
  "env \<Rightarrow> uuid \<Rightarrow> uuid \<Rightarrow> db \<Rightarrow> (world_session \<times> db) app_result" where
  "close_world_cleanup env world_id host_id d =
     (let d1 = leave_world env host_id (close_relays env world_id d);
          d2 = d1\<lparr>world_sessions := sql_update (\<lambda>w. ws_id w = world_id)
                   (\<lambda>w. w\<lparr>ws_current_players := 0\<rparr>) (world_sessions d1)\<rparr> in
      (case find_world d2 world_id of
         None \<Rightarrow> Inl (Database RowNotFound)
       | Some w \<Rightarrow> Inr (w, d2)))"

text \<open>\<^verbatim>\<open>UPDATE world_sessions SET f WHERE id = wid\<close>, under the one-open-world-per-host index.\<close>

definition update_world_session ::
  "uuid \<Rightarrow> (world_session \<Rightarrow> world_session) \<Rightarrow> db \<Rightarrow> db_error + db" where
  "update_world_session wid f d =
     (case find_world d wid of
        None \<Rightarrow> Inr d
      | Some w \<Rightarrow> guarded
          [(unique_violation ws_open ws_host_user_id (f w)
              (sql_delete (\<lambda>v. ws_id v = wid) (world_sessions d)),
            UniqueViolation ''world_sessions_one_open_per_host'')]
          (d\<lparr>world_sessions := sql_update (\<lambda>v. ws_id v = wid) f (world_sessions d)\<rparr>))"

definition patch_world ::
  "env \<Rightarrow> int \<Rightarrow> world_status \<Rightarrow> invite_policy \<Rightarrow> world_session \<Rightarrow> world_session" where
  "patch_world env max_players status policy w =
     w\<lparr>ws_max_players := max_players, ws_status := status, ws_invite_policy := policy,
       ws_closed_at := (if status = Closed then Some (e_now env) else None)\<rparr>"

definition active_guests :: "db \<Rightarrow> uuid \<Rightarrow> uuid list" where
  "active_guests d wid =
     List.map_filter rs_guest_user_id
       (filter (\<lambda>r. rs_world_session_id r = wid \<and> rs_status r = ''active'') (relay_sessions d))"

definition announce_policy :: "uuid \<Rightarrow> invite_policy \<Rightarrow> uuid \<Rightarrow> app_state \<Rightarrow> app_state" where
  "announce_policy wid policy guest s =
     broadcast_presence guest
       (s\<lparr>st_signaling := send_to guest (WorldPolicyChanged wid policy) (st_signaling s)\<rparr>)"

text \<open>The transaction of \<^verbatim>\<open>PATCH\<close>: the row returned and the database to commit.\<close>

definition worlds_update_tx ::
  "env \<Rightarrow> world_session \<Rightarrow> int \<Rightarrow> world_status \<Rightarrow> invite_policy \<Rightarrow> db
    \<Rightarrow> (world_session \<times> db) app_result" where
  "worlds_update_tx env world max_players status policy d =
     (case update_world_session (ws_id world) (patch_world env max_players status policy) d of
        Inl e \<Rightarrow> Inl (Database e)
      | Inr d1 \<Rightarrow>
          (case find_world d1 (ws_id world) of
             None \<Rightarrow> Inl (Database RowNotFound)
           | Some updated \<Rightarrow>
               if status = Closed \<and> ws_status world = Open
               then close_world_cleanup env (ws_id world) (ws_host_user_id world) d1
               else Inr (updated, d1)))"

definition worlds_update ::
  "env \<Rightarrow> config \<Rightarrow> user \<Rightarrow> uuid \<Rightarrow> int option \<Rightarrow> string option \<Rightarrow> string option
    \<Rightarrow> world_session handler" where
  "worlds_update env cfg auth wid body_max_players body_status body_invite_policy s =
     (case find_world (st_db s) wid of
        None \<Rightarrow> (Inl (NotFound ''world session not found''), s)
      | Some world \<Rightarrow>
          if ws_host_user_id world \<noteq> u_id auth then (Inl Forbidden, s)
          else
            let max_players =
                  coalesce_or (map_option (clamp 1 (cf_max_players_per_world cfg)) body_max_players)
                    (ws_max_players world) in
            (case (case body_status of Some v \<Rightarrow> world_status_parse v
                   | None \<Rightarrow> Inr (ws_status world)) of
               Inl e \<Rightarrow> (Inl e, s)
             | Inr status \<Rightarrow>
                 (case (case body_invite_policy of Some v \<Rightarrow> invite_policy_parse v
                        | None \<Rightarrow> Inr (ws_invite_policy world)) of
                    Inl e \<Rightarrow> (Inl e, s)
                  | Inr policy \<Rightarrow>
                      (case worlds_update_tx env world max_players status policy (st_db s) of
                         Inl e \<Rightarrow> (Inl e, s)
                       | Inr (updated, d) \<Rightarrow>
                           let s1 = s\<lparr>st_db := d\<rparr> in
                           (Inr updated,
                            if policy \<noteq> ws_invite_policy world
                            then broadcast_presence (ws_host_user_id world)
                                   (fold (announce_policy wid policy) (active_guests d wid) s1)
                            else s1)))))"

definition worlds_close :: "env \<Rightarrow> user \<Rightarrow> uuid \<Rightarrow> unit handler" where
  "worlds_close env auth wid s =
     (case find_world (st_db s) wid of
        None \<Rightarrow> (Inl (NotFound ''world session not found''), s)
      | Some w \<Rightarrow>
          if ws_host_user_id w \<noteq> u_id auth then (Inl Forbidden, s)
          else
            let d1 = (st_db s)\<lparr>world_sessions :=
                  sql_update (\<lambda>w. ws_id w = wid \<and> ws_status w = Open)
                    (\<lambda>w. w\<lparr>ws_status := Closed, ws_closed_at := Some (e_now env)\<rparr>)
                    (world_sessions (st_db s))\<rparr> in
            (case close_world_cleanup env wid (u_id auth) d1 of
               Inl e \<Rightarrow> (Inl e, s)
             | Inr (_, d2) \<Rightarrow> (Inr (), s\<lparr>st_db := d2\<rparr>)))"

section \<open>Preservation of the invariant\<close>

lemma find_world_SomeD:
  assumes "find_world d wid = Some w"
  shows "w \<in> set (world_sessions d)" "ws_id w = wid"
  using sql_find_SomeD [OF assms [unfolded find_world_def]] by auto

lemma find_world_unique: "db_wf d \<Longrightarrow> w \<in> set (world_sessions d) \<Longrightarrow> find_world d (ws_id w) = Some w"
  unfolding find_world_def by (rule sql_find_unique) (auto simp: db_wf_def world_sessions_wf_def)

lemma load_open_world_sessionD:
  assumes "load_open_world_session d wid = Inr w" "db_wf d"
  shows "find_world d wid = Some w" "ws_status w = Open" "ws_id w = wid"
proof -
  have *: "w \<in> set (world_sessions d)" "ws_id w = wid \<and> ws_status w = Open"
    using assms(1) by (auto simp: load_open_world_session_def dest: sql_find_SomeD)
  then show "find_world d wid = Some w" "ws_status w = Open" "ws_id w = wid"
    using find_world_unique [OF assms(2)] by auto
qed

lemma db_wf_close_relays: "db_wf d \<Longrightarrow> db_wf (close_relays env wid d)"
  unfolding close_relays_def by (rule db_wf_update_relay_sessions) auto

lemma db_wf_leave_world: "db_wf d \<Longrightarrow> db_wf (leave_world env h d)"
  unfolding leave_world_def by (rule db_wf_update_presences) auto

lemma db_wf_close_world_cleanup:
  assumes "close_world_cleanup env wid h d = Inr (w, d')" "db_wf d"
  shows "db_wf d'"
proof -
  let ?d1 = "leave_world env h (close_relays env wid d)"
  have "db_wf ?d1"
    using assms(2) by (intro db_wf_leave_world db_wf_close_relays)
  then have "db_wf (?d1\<lparr>world_sessions := sql_update (\<lambda>w. ws_id w = wid)
      (\<lambda>w. w\<lparr>ws_current_players := 0\<rparr>) (world_sessions ?d1)\<rparr>)"
    by (rule db_wf_update_world_sessions) (auto simp: ws_open_def)
  with assms(1) show ?thesis
    by (auto simp: close_world_cleanup_def Let_def split: option.splits)
qed

lemma db_wf_update_world_session:
  assumes "update_world_session wid f d = Inr d'" "db_wf d"
    and "\<And>w. ws_id (f w) = ws_id w \<and> ws_host_user_id (f w) = ws_host_user_id w"
  shows "db_wf d'"
proof (cases "find_world d wid")
  case None
  with assms show ?thesis by (simp add: update_world_session_def)
next
  case (Some w)
  let ?ws = "sql_update (\<lambda>v. ws_id v = wid) f (world_sessions d)"
  have wf: "world_sessions_wf (user_ids d) (world_sessions d)"
    using db_wfD(7) [OF assms(2)] .
  have "unique_index ws_open ws_host_user_id ?ws"
    using wf find_world_SomeD [OF Some] assms(1) Some
    by (intro unique_index_replace [where u = w])
      (auto simp: world_sessions_wf_def update_world_session_def split: if_splits)
  then have "world_sessions_wf (user_ids d) ?ws"
    using wf assms(3) by (auto simp: world_sessions_wf_def intro!: unique_index_update fk_update)
  then have "db_wf (d\<lparr>world_sessions := ?ws\<rparr>)"
    using assms(2,3) by (intro db_wf_world_sessions) (auto simp: set_map_sql_update)
  with assms(1) Some show ?thesis by (simp add: update_world_session_def split: if_splits)
qed

lemma db_wf_patch_world:
  "update_world_session wid (patch_world env m st p) d = Inr d' \<Longrightarrow> db_wf d \<Longrightarrow> db_wf d'"
  by (erule db_wf_update_world_session) (auto simp: patch_world_def)

lemma db_wf_worlds_update_tx:
  "worlds_update_tx env w m st p d = Inr (w', d') \<Longrightarrow> db_wf d \<Longrightarrow> db_wf d'"
  by (auto simp: worlds_update_tx_def split: sum.splits option.splits if_splits
      dest: db_wf_patch_world db_wf_close_world_cleanup)

lemma state_wf_announce_policy: "state_wf s \<Longrightarrow> state_wf (announce_policy wid p g s)"
  by (simp add: announce_policy_def state_wf_def)

lemma state_wf_fold_announce: "state_wf s \<Longrightarrow> state_wf (fold (announce_policy wid p) gs s)"
  by (induction gs arbitrary: s) (auto simp: state_wf_announce_policy)

lemma state_wf_worlds_update [wf_intros]:
  "state_wf s \<Longrightarrow> state_wf (snd (worlds_update env cfg auth wid m st p s))"
  by (auto simp: worlds_update_def Let_def split: option.splits sum.splits
      intro!: state_wf_broadcast_presence state_wf_fold_announce
      intro: db_wf_worlds_update_tx [OF _ state_wfD(1)] state_wfD(2))

lemma state_wf_worlds_create [wf_intros]:
  "state_wf s \<Longrightarrow> state_wf (snd (worlds_create env cfg auth m s))"
  by (auto simp: worlds_create_def Let_def ws_open_def dest: state_wfD split: option.splits sum.splits
      intro: db_wf_insert_world_session db_wf_update_world_sessions)

lemma state_wf_worlds_close [wf_intros]:
  "state_wf s \<Longrightarrow> state_wf (snd (worlds_close env auth wid s))"
proof -
  assume wf: "state_wf s"
  have "db_wf ((st_db s)\<lparr>world_sessions :=
      sql_update (\<lambda>w. ws_id w = wid \<and> ws_status w = Open)
        (\<lambda>w. w\<lparr>ws_status := Closed, ws_closed_at := Some (e_now env)\<rparr>)
        (world_sessions (st_db s))\<rparr>)"
    by (rule db_wf_update_world_sessions [OF state_wfD(1) [OF wf]]) (simp add: ws_open_def)
  from db_wf_close_world_cleanup [OF _ this] wf show ?thesis
    by (auto simp: worlds_close_def Let_def split: option.splits sum.splits intro: state_wfD)
qed

section \<open>Properties\<close>

lemma clamp_bounds: "1 \<le> cap \<Longrightarrow> 1 \<le> clamp 1 cap v \<and> clamp 1 cap v \<le> cap"
  by (auto simp: clamp_def)

text \<open>
  Opening a world is idempotent: a refusal changes nothing; otherwise the caller hosts exactly
  one open world afterwards, the one returned, with no players and a capacity between one and the
  configured cap. A host who already had an open world gets that one back and no row is added.
\<close>

theorem worlds_create_effect:
  assumes "state_wf s" "1 \<le> cf_max_players_per_world cfg"
  shows "case worlds_create env cfg auth m s of
      (Inl e, s') \<Rightarrow> s' = s
    | (Inr w, s') \<Rightarrow>
        filter (\<lambda>x. ws_host_user_id x = u_id auth \<and> ws_open x) (world_sessions (st_db s')) = [w]
        \<and> ws_current_players w = 0
        \<and> 1 \<le> ws_max_players w \<and> ws_max_players w \<le> cf_max_players_per_world cfg
        \<and> (\<forall>w0 \<in> set (world_sessions (st_db s)).
              ws_host_user_id w0 = u_id auth \<and> ws_open w0 \<longrightarrow>
              ws_id w = ws_id w0 \<and>
              map ws_id (world_sessions (st_db s')) = map ws_id (world_sessions (st_db s)))"
proof -
  have wf': "world_sessions_wf (user_ids (st_db (snd (worlds_create env cfg auth m s))))
      (world_sessions (st_db (snd (worlds_create env cfg auth m s))))"
    using db_wfD(7) [OF state_wfD(1) [OF state_wf_worlds_create [OF assms(1)]]] .
  have idx: "unique_index ws_open ws_host_user_id (world_sessions (st_db s))"
    using db_wfD(7) [OF state_wfD(1) [OF assms(1)]] by (simp add: world_sessions_wf_def)
  let ?cap = "cf_max_players_per_world cfg"
  let ?m = "clamp 1 ?cap (coalesce_or m ?cap)"
  let ?mine = "\<lambda>w. ws_host_user_id w = u_id auth \<and> ws_status w = Open"
  let ?reset = "\<lambda>w. w\<lparr>ws_max_players := ?m, ws_current_players := 0\<rparr>"
  show ?thesis
  proof (cases "sql_find ?mine (world_sessions (st_db s))")
    case None
    show ?thesis
    proof (cases "insert_world_session (new_world env (u_id auth) ?m) (st_db s)")
      case (Inl e)
      with None show ?thesis by (simp add: worlds_create_def Let_def)
    next
      case (Inr d')
      then have "new_world env (u_id auth) ?m \<in> set (world_sessions d')"
        by (auto simp: insert_world_session_def split: if_splits)
      moreover have "unique_index ws_open ws_host_user_id (world_sessions d')"
        using wf' None Inr by (simp add: worlds_create_def Let_def world_sessions_wf_def)
      ultimately have "filter (\<lambda>x. ws_host_user_id x = u_id auth \<and> ws_open x) (world_sessions d') =
          [new_world env (u_id auth) ?m]"
        by (intro unique_index_filter [where p = ws_open]) (auto simp: new_world_def ws_open_def)
      moreover have "\<forall>w \<in> set (world_sessions (st_db s)). \<not> (ws_host_user_id w = u_id auth \<and> ws_open w)"
        using None by (auto simp: sql_find_None_iff ws_open_def)
      moreover have "ws_max_players (new_world env (u_id auth) ?m) = ?m"
        "ws_current_players (new_world env (u_id auth) ?m) = 0"
        by (simp_all add: new_world_def)
      ultimately show ?thesis
        using None Inr clamp_bounds [OF assms(2)] by (auto simp: worlds_create_def Let_def)
    qed
  next
    case (Some w)
    have w: "w \<in> set (world_sessions (st_db s))" "?mine w"
      using sql_find_SomeD [OF Some] by auto
    have "?reset w \<in> set (sql_update ?mine ?reset (world_sessions (st_db s)))"
      using w by (auto simp: set_sql_update)
    moreover have "unique_index ws_open ws_host_user_id
        (sql_update ?mine ?reset (world_sessions (st_db s)))"
      using wf' Some by (simp add: worlds_create_def Let_def world_sessions_wf_def)
    ultimately have "filter (\<lambda>x. ws_host_user_id x = u_id auth \<and> ws_open x)
        (sql_update ?mine ?reset (world_sessions (st_db s))) = [?reset w]"
      using w(2) by (intro unique_index_filter [where p = ws_open]) (auto simp: ws_open_def)
    moreover have "\<forall>w0 \<in> set (world_sessions (st_db s)). ws_host_user_id w0 = u_id auth \<and> ws_open w0
        \<longrightarrow> ws_id w = ws_id w0"
      using w idx unique_indexD [OF idx w(1)] by (auto simp: ws_open_def)
    ultimately show ?thesis
      using Some clamp_bounds [OF assms(2)] by (simp add: worlds_create_def Let_def map_sql_update)
  qed
qed

lemma close_relays_closed:
  "\<forall>r \<in> set (relay_sessions (close_relays env wid d)).
     rs_world_session_id r = wid \<longrightarrow> rs_status r = ''closed''"
  unfolding close_relays_def by (simp, rule ball_sql_updateI, simp_all)

lemma close_world_cleanup_total:
  assumes "find_world d wid = Some w"
  shows "\<exists>d'. close_world_cleanup env wid h d = Inr (w\<lparr>ws_current_players := 0\<rparr>, d')
    \<and> world_sessions d' = sql_update (\<lambda>w. ws_id w = wid) (\<lambda>w. w\<lparr>ws_current_players := 0\<rparr>)
         (world_sessions d)
    \<and> relay_sessions d' = relay_sessions (close_relays env wid d)
    \<and> presences d' = presences (leave_world env h d)"
  using assms sql_find_update [of ws_id "\<lambda>w. w\<lparr>ws_current_players := 0\<rparr>" wid "\<lambda>w. ws_id w = wid"
      "world_sessions d"] find_world_SomeD [OF assms]
  by (auto simp: close_world_cleanup_def Let_def find_world_def close_relays_def leave_world_def)

text \<open>
  C36. A world its host closed is over: the row is closed with no players, every relay of the world
  is closed, and the host's presence no longer points at any world. Only the host can do it, and
  a refusal changes nothing.
\<close>

theorem worlds_close_effect:
  assumes "state_wf s"
  shows "case worlds_close env auth wid s of
      (Inl e, s') \<Rightarrow> s' = s
    | (Inr _, s') \<Rightarrow>
        (\<exists>w. find_world (st_db s) wid = Some w \<and> ws_host_user_id w = u_id auth
           \<and> find_world (st_db s') wid = Some (w\<lparr>ws_status := Closed, ws_current_players := 0,
                 ws_closed_at := (if ws_open w then Some (e_now env) else ws_closed_at w)\<rparr>))
        \<and> (\<forall>r \<in> set (relay_sessions (st_db s')).
              rs_world_session_id r = wid \<longrightarrow> rs_status r = ''closed'')
        \<and> (\<forall>p. find_presence (st_db s') (u_id auth) = Some p \<longrightarrow>
              pr_current_world_session_id p = None \<and> pr_status p = ''online'')"
proof (cases "find_world (st_db s) wid")
  case None
  then show ?thesis by (simp add: worlds_close_def)
next
  case (Some w)
  show ?thesis
  proof (cases "ws_host_user_id w = u_id auth")
    case False
    with Some show ?thesis by (simp add: worlds_close_def)
  next
    case True
    let ?d1 = "(st_db s)\<lparr>world_sessions := sql_update (\<lambda>w. ws_id w = wid \<and> ws_status w = Open)
        (\<lambda>w. w\<lparr>ws_status := Closed, ws_closed_at := Some (e_now env)\<rparr>) (world_sessions (st_db s))\<rparr>"
    let ?w1 = "w\<lparr>ws_status := Closed, ws_closed_at := (if ws_open w then Some (e_now env)
        else ws_closed_at w)\<rparr>"
    have f1: "find_world ?d1 wid = Some ?w1"
      using Some find_world_SomeD(2) [OF Some]
        sql_find_update [of ws_id "\<lambda>w. w\<lparr>ws_status := Closed, ws_closed_at := Some (e_now env)\<rparr>"
          wid "\<lambda>w. ws_id w = wid \<and> ws_status w = Open" "world_sessions (st_db s)"]
      by (cases "ws_status w") (auto simp: find_world_def ws_open_def)
    obtain d' where d': "close_world_cleanup env wid (u_id auth) ?d1 =
          Inr (?w1\<lparr>ws_current_players := 0\<rparr>, d')"
        "world_sessions d' = sql_update (\<lambda>w. ws_id w = wid) (\<lambda>w. w\<lparr>ws_current_players := 0\<rparr>)
           (world_sessions ?d1)"
        "relay_sessions d' = relay_sessions (close_relays env wid ?d1)"
        "presences d' = presences (leave_world env (u_id auth) ?d1)"
      using close_world_cleanup_total [OF f1] by blast
    have f2: "find_world d' wid = Some (?w1\<lparr>ws_current_players := 0\<rparr>)"
      using f1 d'(2) find_world_SomeD(2) [OF f1]
        sql_find_update [of ws_id "\<lambda>w. w\<lparr>ws_current_players := 0\<rparr>" wid "\<lambda>w. ws_id w = wid"
          "world_sessions ?d1"]
      by (auto simp: find_world_def)
    have rel: "\<forall>r \<in> set (relay_sessions d'). rs_world_session_id r = wid \<longrightarrow> rs_status r = ''closed''"
      unfolding d'(3) by (rule close_relays_closed)
    have pre: "\<forall>p. find_presence d' (u_id auth) = Some p \<longrightarrow>
        pr_current_world_session_id p = None \<and> pr_status p = ''online''"
      using d'(4) by (auto simp: find_presence_def leave_world_def sql_find_update_self)
    from Some True d'(1) f2 rel pre show ?thesis
      by (simp add: worlds_close_def Let_def)
  qed
qed

theorem worlds_close_effect_witness:
  "fst (worlds_close sample_env alice 10 sample_state) = Inr () \<and>
   filter (\<lambda>r. rs_world_session_id r = 10 \<and> rs_status r \<noteq> ''closed'')
     (relay_sessions (st_db (snd (worlds_close sample_env alice 10 sample_state)))) = [] \<and>
   snd (worlds_close sample_env bob 10 sample_state) = sample_state"
proof -
  have a: "fst (worlds_close sample_env alice 10 sample_state) = Inr ()"
    and b: "fst (worlds_close sample_env bob 10 sample_state) = Inl Forbidden"
    by code_simp+
  show ?thesis
    using worlds_close_effect [where s = sample_state and env = sample_env and auth = alice and wid = 10]
      worlds_close_effect [where s = sample_state and env = sample_env and auth = bob and wid = 10] a b
    by (auto simp: filter_empty_conv split: prod.splits)
qed

text \<open>
  The two ways to close a world agree: a PATCH that sets the status of an open world to closed
  leaves exactly the state that the DELETE leaves.
\<close>

theorem patch_close_is_close:
  assumes "state_wf s" and "find_world (st_db s) wid = Some w"
    and "ws_host_user_id w = u_id auth" and "ws_open w"
  shows "snd (worlds_update env cfg auth wid None (Some ''closed'') None s) =
      snd (worlds_close env auth wid s)
    \<and> fst (worlds_update env cfg auth wid None (Some ''closed'') None s) =
        Inr (w\<lparr>ws_status := Closed, ws_closed_at := Some (e_now env), ws_current_players := 0\<rparr>)
    \<and> fst (worlds_close env auth wid s) = Inr ()"
proof -
  let ?patch = "patch_world env (ws_max_players w) Closed (ws_invite_policy w)"
  let ?shut = "\<lambda>w. w\<lparr>ws_status := Closed, ws_closed_at := Some (e_now env)\<rparr>"
  let ?d1 = "(st_db s)\<lparr>world_sessions := sql_update (\<lambda>w. ws_id w = wid \<and> ws_status w = Open) ?shut
      (world_sessions (st_db s))\<rparr>"
  have id: "ws_id w = wid" using find_world_SomeD(2) [OF assms(2)] .
  have only: "v = w" if "v \<in> set (world_sessions (st_db s))" "ws_id v = wid" for v
    using find_world_unique [OF state_wfD(1) [OF assms(1)] that(1)] that(2) assms(2) by simp
  have upd: "sql_update (\<lambda>v. ws_id v = wid) ?patch (world_sessions (st_db s)) =
      sql_update (\<lambda>w. ws_id w = wid \<and> ws_status w = Open) ?shut (world_sessions (st_db s))"
    using only assms(4)
    by (auto simp: sql_update_def ws_open_def patch_world_def)
  have f1: "find_world ?d1 wid = Some (?shut w)"
    using assms(2,4) id sql_find_update [of ws_id ?shut wid
        "\<lambda>w. ws_id w = wid \<and> ws_status w = Open" "world_sessions (st_db s)"]
    by (auto simp: find_world_def ws_open_def)
  obtain d' where "close_world_cleanup env wid (u_id auth) ?d1 =
      Inr (?shut w\<lparr>ws_current_players := 0\<rparr>, d')"
    using close_world_cleanup_total [OF f1] by blast
  moreover have "update_world_session wid ?patch (st_db s) = Inr ?d1"
    using assms(2) upd
    by (simp add: update_world_session_def unique_violation_def ws_open_def patch_world_def)
  ultimately show ?thesis
    using assms(2-4) id f1
    by (simp add: worlds_update_def worlds_close_def worlds_update_tx_def world_status_parse_def
        Let_def ws_open_def)
qed

end
