(* ===== verification/Sessions.thy ===== *)
theory Sessions
  imports Sample
begin

text \<open>
  \<^verbatim>\<open>core/src/auth/mod.rs\<close> and \<^verbatim>\<open>core/src/auth/csrf.rs\<close>: opaque session tokens kept as hashes, the
  token a request presents, the CSRF double submit, and the two extractors.

  A request is its method and the function that returns a header as text
  (\<^verbatim>\<open>headers.get(name)?.to_str().ok()\<close>); the header map itself belongs to the \<^verbatim>\<open>http\<close> crate.
\<close>

section \<open>Tokens\<close>

definition generate_token :: "env \<Rightarrow> nat \<Rightarrow> string" where
  "generate_token env k = e_hex env (e_random env k)"

definition hash_token :: "env \<Rightarrow> string \<Rightarrow> string" where
  "hash_token env token = e_hex env (e_sha256 env token)"

record issued_session =
  is_token :: string
  is_expires_at :: timestamp

text \<open>\<open>k\<close> selects which of the request's random draws the session uses.\<close>

definition issue_session ::
  "env \<Rightarrow> nat \<Rightarrow> uuid \<Rightarrow> duration \<Rightarrow> db \<Rightarrow> (issued_session \<times> db) app_result" where
  "issue_session env k user_id ttl d =
     (let token = generate_token env k;
          expires_at = e_utc env + from_std_or ttl (days 7) in
      (case insert_session
              \<lparr>se_id = e_uuid env k, se_user_id = user_id, se_token_hash = hash_token env token,
               se_expires_at = expires_at, se_revoked_at = None, se_created_at = e_now env\<rparr> d of
         Inl e \<Rightarrow> Inl (Database e)
       | Inr d' \<Rightarrow> Inr (\<lparr>is_token = token, is_expires_at = expires_at\<rparr>, d')))"

definition live_session :: "env \<Rightarrow> string \<Rightarrow> session \<Rightarrow> bool" where
  "live_session env token_hash s \<longleftrightarrow>
     se_token_hash s = token_hash \<and> se_revoked_at s = None \<and> se_expires_at s > e_now env"

definition user_of_hash :: "env \<Rightarrow> string \<Rightarrow> db \<Rightarrow> user option" where
  "user_of_hash env token_hash d =
     Option.bind (sql_find (live_session env token_hash) (sessions d))
       (\<lambda>s. Option.bind (find_user d (se_user_id s)) (\<lambda>u. if u_blocked u then None else Some u))"

definition user_from_token :: "env \<Rightarrow> string \<Rightarrow> db \<Rightarrow> user app_result" where
  "user_from_token env token d = ok_or Unauthorized (user_of_hash env (hash_token env token) d)"

definition revoke_hash :: "env \<Rightarrow> string \<Rightarrow> db \<Rightarrow> db" where
  "revoke_hash env token_hash d =
     d\<lparr>sessions := sql_update (\<lambda>s. se_token_hash s = token_hash \<and> se_revoked_at s = None)
        (\<lambda>s. s\<lparr>se_revoked_at := Some (e_now env)\<rparr>) (sessions d)\<rparr>"

definition revoke_session :: "env \<Rightarrow> string \<Rightarrow> db \<Rightarrow> nat \<times> db" where
  "revoke_session env token d =
     (sql_affected (\<lambda>s. se_token_hash s = hash_token env token \<and> se_revoked_at s = None) (sessions d),
      revoke_hash env (hash_token env token) d)"

definition revoke_all_sessions_for_user :: "env \<Rightarrow> uuid \<Rightarrow> db \<Rightarrow> nat \<times> db" where
  "revoke_all_sessions_for_user env user_id d =
     (let p = (\<lambda>s. se_user_id s = user_id \<and> se_revoked_at s = None) in
      (sql_affected p (sessions d),
       d\<lparr>sessions := sql_update p (\<lambda>s. s\<lparr>se_revoked_at := Some (e_now env)\<rparr>) (sessions d)\<rparr>))"

definition cleanup_expired_sessions :: "env \<Rightarrow> db \<Rightarrow> nat \<times> db" where
  "cleanup_expired_sessions env d =
     (let p = (\<lambda>s. se_expires_at s \<le> e_now env \<or> se_revoked_at s \<noteq> None) in
      (sql_affected p (sessions d), d\<lparr>sessions := sql_delete p (sessions d)\<rparr>))"

section \<open>What a request presents\<close>

record request =
  rq_method :: string
  rq_header :: "string \<Rightarrow> string option"

definition bearer_token_from_headers :: "(string \<Rightarrow> string option) \<Rightarrow> string option" where
  "bearer_token_from_headers headers =
     (case headers ''authorization'' of
        None \<Rightarrow> None
      | Some header \<Rightarrow>
          (case (case strip_prefix ''Bearer '' header of
                   Some t \<Rightarrow> Some t | None \<Rightarrow> strip_prefix ''bearer '' header) of
             None \<Rightarrow> None
           | Some t \<Rightarrow> let token = trim t in if token = [] then None else Some token))"

fun find_map :: "('a \<Rightarrow> 'b option) \<Rightarrow> 'a list \<Rightarrow> 'b option" where
  "find_map f [] = None"
| "find_map f (x # xs) = (case f x of Some y \<Rightarrow> Some y | None \<Rightarrow> find_map f xs)"

definition cookie_pair :: "string \<Rightarrow> string \<Rightarrow> string option" where
  "cookie_pair name pair =
     (case split_once (CHR ''='') (trim pair) of
        None \<Rightarrow> None
      | Some (k, v) \<Rightarrow> if trim k = name then Some (trim v) else None)"

definition cookie_value :: "(string \<Rightarrow> string option) \<Rightarrow> string \<Rightarrow> string option" where
  "cookie_value headers name =
     Option.bind (headers ''cookie'')
       (\<lambda>header. find_map (cookie_pair name) (split_on (CHR '';'') header))"

definition session_token_from_headers ::
  "(string \<Rightarrow> string option) \<Rightarrow> string \<Rightarrow> string option" where
  "session_token_from_headers headers cookie_name =
     (case bearer_token_from_headers headers of
        Some t \<Rightarrow> Some t | None \<Rightarrow> cookie_value headers cookie_name)"

datatype token_source = Bearer | Cookie

definition session_token ::
  "(string \<Rightarrow> string option) \<Rightarrow> string \<Rightarrow> (string \<times> token_source) option" where
  "session_token headers cookie_name =
     (case bearer_token_from_headers headers of
        Some token \<Rightarrow> Some (token, Bearer)
      | None \<Rightarrow> map_option (\<lambda>t. (t, Cookie)) (cookie_value headers cookie_name))"

definition is_mutating :: "string \<Rightarrow> bool" where
  "is_mutating m \<longleftrightarrow> \<not> (m = ''GET'' \<or> m = ''HEAD'' \<or> m = ''OPTIONS'')"

text \<open>\<^verbatim>\<open>ct_eq\<close> of the \<^verbatim>\<open>subtle\<close> crate decides equality of byte strings.\<close>

definition constant_time_eq :: "string \<Rightarrow> string \<Rightarrow> bool" where
  "constant_time_eq a b \<longleftrightarrow> a = b"

definition verify_csrf :: "(string \<Rightarrow> string option) \<Rightarrow> unit app_result" where
  "verify_csrf headers =
     (case cookie_value headers ''loontail_csrf'' of
        None \<Rightarrow> Inl Forbidden
      | Some cookie \<Rightarrow>
          (case headers ''x-csrf-token'' of
             None \<Rightarrow> Inl Forbidden
           | Some header \<Rightarrow>
               if cookie = [] \<or> header = [] \<or> \<not> constant_time_eq cookie header
               then Inl Forbidden else Inr ()))"

section \<open>The extractors\<close>

text \<open>What the extractor publishes for the request log: nothing, or a principal.\<close>

record resolved_principal =
  rp_user_id :: "uuid option"
  rp_auth_kind :: string

definition anon_principal :: resolved_principal where
  "anon_principal = \<lparr>rp_user_id = None, rp_auth_kind = ''anon''\<rparr>"

definition auth_user ::
  "env \<Rightarrow> config \<Rightarrow> request \<Rightarrow> db \<Rightarrow> user app_result \<times> resolved_principal option" where
  "auth_user env cfg rq d =
     (case session_token (rq_header rq) (cf_cookie_name cfg) of
        None \<Rightarrow> (Inl Unauthorized, Some anon_principal)
      | Some (token, source) \<Rightarrow>
          (case (if source = Cookie \<and> is_mutating (rq_method rq) then verify_csrf (rq_header rq)
                 else Inr ()) of
             Inl e \<Rightarrow> (Inl e, None)
           | Inr _ \<Rightarrow>
               (case user_from_token env token d of
                  Inl e \<Rightarrow> (Inl e, Some anon_principal)
                | Inr user \<Rightarrow>
                    (Inr user, Some \<lparr>rp_user_id = Some (u_id user),
                       rp_auth_kind = (if u_is_admin user then ''admin'' else ''session'')\<rparr>))))"

definition admin_user ::
  "env \<Rightarrow> config \<Rightarrow> request \<Rightarrow> db \<Rightarrow> user app_result \<times> resolved_principal option" where
  "admin_user env cfg rq d =
     (case auth_user env cfg rq d of
        (Inl e, p) \<Rightarrow> (Inl e, p)
      | (Inr user, p) \<Rightarrow> if \<not> u_is_admin user then (Inl Forbidden, p) else (Inr user, p))"

section \<open>Token stores\<close>

text \<open>
  What the handlers rely on: revoking a key makes it unresolvable and touches no other key, and the
  periodic clean-up removes nothing that still resolves. The same contract holds for the sessions
  and for the game-handshake tokens.
\<close>

locale token_store =
  fixes resolve :: "'k \<Rightarrow> 'd \<Rightarrow> 'u option"
    and revoke :: "'k \<Rightarrow> 'd \<Rightarrow> 'd"
    and purge :: "'d \<Rightarrow> 'd"
  assumes resolve_revoke_same: "resolve k (revoke k d) = None"
    and resolve_revoke_other: "k \<noteq> k' \<Longrightarrow> resolve k (revoke k' d) = resolve k d"
    and resolve_purge: "resolve k (purge d) = resolve k d"
begin

text \<open>No sequence of revocations and clean-ups brings a revoked token back.\<close>

definition maintain :: "'k option list \<Rightarrow> 'd \<Rightarrow> 'd" where
  "maintain ops d = fold (\<lambda>op d. case op of Some k \<Rightarrow> revoke k d | None \<Rightarrow> purge d) ops d"

lemma resolve_maintain: "resolve k (maintain ops d) = (if Some k \<in> set ops then None else resolve k d)"
proof (induction ops arbitrary: d)
  case (Cons op ops)
  have "maintain (op # ops) d = maintain ops (case op of Some k \<Rightarrow> revoke k d | None \<Rightarrow> purge d)"
    by (simp add: maintain_def)
  then show ?case
    using Cons.IH resolve_revoke_same resolve_revoke_other [of k] resolve_purge
    by (auto split: option.splits)
qed (simp add: maintain_def)

lemma revoke_idem: "resolve k (revoke k' (revoke k' d)) = resolve k (revoke k' d)"
  using resolve_revoke_same resolve_revoke_other by (cases "k = k'") auto

end

lemma find_live_update:
  "sql_find (live_session env h) (sql_update (\<lambda>s. se_token_hash s = h' \<and> se_revoked_at s = None)
      (\<lambda>s. s\<lparr>se_revoked_at := Some t\<rparr>) rs) =
    (if h = h' then None else sql_find (live_session env h) rs)"
  by (induction rs) (auto simp: sql_find_def live_session_def [abs_def])

lemma find_live_purge:
  "sql_find (live_session env h) (sql_delete (\<lambda>s. se_expires_at s \<le> e_now env \<or> se_revoked_at s \<noteq> None) rs)
     = sql_find (live_session env h) rs"
  by (induction rs) (auto simp: sql_find_def sql_delete_def live_session_def [abs_def])

interpretation se: token_store "user_of_hash env" "revoke_hash env"
    "\<lambda>d. snd (cleanup_expired_sessions env d)" for env
  by unfold_locales
    (simp_all add: user_of_hash_def revoke_hash_def cleanup_expired_sessions_def Let_def
      find_live_update find_live_purge find_user_def del: not_None_eq)

lemma db_wf_revoke_hash [wf_intros]: "db_wf d \<Longrightarrow> db_wf (revoke_hash env h d)"
  unfolding revoke_hash_def by (rule db_wf_update_sessions) auto

lemma db_wf_revoke_all [wf_intros]:
  "db_wf d \<Longrightarrow> db_wf (snd (revoke_all_sessions_for_user env uid d))"
  unfolding revoke_all_sessions_for_user_def Let_def snd_conv
  by (rule db_wf_update_sessions) auto

lemma db_wf_cleanup_sessions [wf_intros]: "db_wf d \<Longrightarrow> db_wf (snd (cleanup_expired_sessions env d))"
  by (simp add: cleanup_expired_sessions_def Let_def db_wf_delete_simple)

lemma db_wf_issue_session [wf_intros]:
  "issue_session env k uid ttl d = Inr (i, d') \<Longrightarrow> db_wf d \<Longrightarrow> db_wf d'"
  by (auto simp: issue_session_def Let_def intro: db_wf_insert_session split: sum.splits)

section \<open>Properties\<close>

lemma user_of_hash_not_blocked: "user_of_hash env h d = Some u \<Longrightarrow> \<not> u_blocked u"
  by (auto simp: user_of_hash_def bind_eq_Some_conv split: if_splits)

lemma find_live_append:
  "sql_find (live_session env h) (rs @ [r]) =
     (case sql_find (live_session env h) rs of Some x \<Rightarrow> Some x
      | None \<Rightarrow> if live_session env h r then Some r else None)"
  by (induction rs) (auto simp: sql_find_def)

text \<open>
  A freshly issued session token resolves to its user, for exactly as long as it has not expired
  and the account is not blocked, and issuing it changes what no other token resolves to.
\<close>

lemma session_issue_resolves:
  assumes "db_wf d" and "issue_session env k uid ttl d = Inr (i, d')"
    and "find_user d uid = Some u" and "hash_token env' = hash_token env"
  shows "user_from_token env' (is_token i) d' =
      (if u_blocked u \<or> is_expires_at i \<le> e_now env' then Inl Unauthorized else Inr u)
    \<and> (\<forall>t. hash_token env t \<noteq> hash_token env (is_token i) \<longrightarrow>
          user_from_token env' t d' = user_from_token env' t d)"
proof -
  let ?h = "hash_token env (is_token i)"
  let ?r = "\<lparr>se_id = e_uuid env k, se_user_id = uid, se_token_hash = ?h,
    se_expires_at = is_expires_at i, se_revoked_at = None, se_created_at = e_now env\<rparr>"
  have ins: "insert_session ?r d = Inr d'"
    using assms(2) by (auto simp: issue_session_def Let_def split: sum.splits)
  then have d': "d' = d\<lparr>sessions := sessions d @ [?r]\<rparr>"
    and fresh: "\<forall>s \<in> set (sessions d). se_token_hash s \<noteq> ?h"
    by (auto simp: insert_session_def unique_violation_def sql_exists_iff split: if_splits)
  have none: "sql_find (live_session env' ?h) (sessions d) = None"
    using fresh by (auto simp: sql_find_None_iff live_session_def)
  have live: "live_session env' h ?r \<longleftrightarrow> h = ?h \<and> is_expires_at i > e_now env'" for h
    by (auto simp: live_session_def)
  have "user_of_hash env' ?h d' =
      (if u_blocked u \<or> is_expires_at i \<le> e_now env' then None else Some u)"
    using assms(3) none live by (auto simp: user_of_hash_def d' find_live_append find_user_def)
  moreover have "user_of_hash env' h d' = user_of_hash env' h d" if "h \<noteq> ?h" for h
    using that live by (auto simp: user_of_hash_def d' find_live_append find_user_def
        split: option.splits)
  ultimately show ?thesis
    using assms(4) by (auto simp: user_from_token_def)
qed

text \<open>
  Revocation is final and precise: after any sequence of revocations (of the tokens with the
  listed hashes) and clean-up sweeps, a token resolves to nothing if its hash was revoked in the
  sequence, and to exactly what it resolved to before otherwise.
\<close>

theorem session_revocation_final:
  "user_of_hash env h
     (fold (\<lambda>op d. case op of Some h' \<Rightarrow> revoke_hash env h' d
                   | None \<Rightarrow> snd (cleanup_expired_sessions env d)) ops d) =
   (if Some h \<in> set ops then None else user_of_hash env h d)"
  using se.resolve_maintain [of env h ops d] by (simp only: se.maintain_def)

lemma find_live_revoke_other:
  "sql_find (live_session env h) rs = Some s \<Longrightarrow> se_user_id s \<noteq> uid \<Longrightarrow>
   sql_find (live_session env h) (sql_update (\<lambda>s. se_user_id s = uid \<and> se_revoked_at s = None)
     (\<lambda>s. s\<lparr>se_revoked_at := Some t\<rparr>) rs) = Some s"
  by (induction rs) (auto simp: sql_find_def live_session_def [abs_def] split: if_splits)

text \<open>
  Revoking all sessions of a user leaves no token that resolves to that user, at any later time,
  and every token of another user resolves as before.
\<close>

lemma revoke_all_sessions_effect:
  "(case user_of_hash env' h (snd (revoke_all_sessions_for_user env uid d)) of
      Some u \<Rightarrow> u_id u \<noteq> uid | None \<Rightarrow> True)
   \<and> (\<forall>s. sql_find (live_session env' h) (sessions d) = Some s \<and> se_user_id s \<noteq> uid \<longrightarrow>
        user_of_hash env' h (snd (revoke_all_sessions_for_user env uid d)) = user_of_hash env' h d)"
proof (intro conjI allI impI)
  let ?p = "\<lambda>s. se_user_id s = uid \<and> se_revoked_at s = None"
  let ?ss = "sql_update ?p (\<lambda>s. s\<lparr>se_revoked_at := Some (e_now env)\<rparr>) (sessions d)"
  let ?d = "d\<lparr>sessions := ?ss\<rparr>"
  have d: "snd (revoke_all_sessions_for_user env uid d) = ?d"
    by (simp add: revoke_all_sessions_for_user_def Let_def)
  have dead: "\<forall>s \<in> set ?ss. live_session env' h s \<longrightarrow> se_user_id s \<noteq> uid"
    by (rule ball_sql_updateI) (auto simp: live_session_def)
  then have "u_id u \<noteq> uid" if hu: "user_of_hash env' h ?d = Some u" for u
  proof -
    obtain s where s: "sql_find (live_session env' h) ?ss = Some s" "find_user ?d (se_user_id s) = Some u"
      using hu by (auto simp: user_of_hash_def bind_eq_Some_conv split: if_splits)
    show ?thesis
      using dead sql_find_SomeD [OF s(1)] find_user_Some(2) [OF s(2)] by auto
  qed
  then show "case user_of_hash env' h (snd (revoke_all_sessions_for_user env uid d)) of
      Some u \<Rightarrow> u_id u \<noteq> uid | None \<Rightarrow> True"
    by (auto simp: d split: option.splits)
  fix s assume s: "sql_find (live_session env' h) (sessions d) = Some s \<and> se_user_id s \<noteq> uid"
  then have "sql_find (live_session env' h) ?ss = Some s"
    using find_live_revoke_other by blast
  with s show "user_of_hash env' h (snd (revoke_all_sessions_for_user env uid d)) = user_of_hash env' h d"
    by (simp add: d user_of_hash_def find_user_def)
qed

definition sample_session :: "uuid \<Rightarrow> string \<Rightarrow> session" where
  "sample_session uid token =
     \<lparr>se_id = uid, se_user_id = uid, se_token_hash = hash_token sample_env token,
      se_expires_at = days 30, se_revoked_at = None, se_created_at = 0\<rparr>"

definition sample_auth_db :: db where
  "sample_auth_db = sample_db\<lparr>sessions := [sample_session 1 ''ta'', sample_session 2 ''tb'']\<rparr>"



end
