(* ===== verification/Join.thy ===== *)
theory Join
  imports Worlds Sessions
begin

text \<open>
  \<^verbatim>\<open>network/src/join.rs\<close>: join tickets and join requests. A ticket and its pending relay session are
  minted together, in the transaction that authorises them.
\<close>

section \<open>Trust and tickets\<close>

definition fetch_user_dto :: "db \<Rightarrow> uuid \<Rightarrow> user_dto app_result" where
  "fetch_user_dto d uid =
     (case find_user d uid of None \<Rightarrow> Inl (NotFound ''user not found'')
      | Some u \<Rightarrow> Inr (user_dto_from u))"

definition is_friend_of_active_member :: "env \<Rightarrow> duration \<Rightarrow> uuid \<Rightarrow> uuid \<Rightarrow> db \<Rightarrow> bool" where
  "is_friend_of_active_member env heartbeat_timeout requester world_id d =
     sql_exists (\<lambda>rs. rs_world_session_id rs = world_id \<and> rs_status rs = ''active''
        \<and> (case rs_guest_user_id rs of
             None \<Rightarrow> False
           | Some g \<Rightarrow> are_friends d g requester
               \<and> sql_exists (\<lambda>p. pr_user_id p = g \<and> pr_status p \<noteq> ''offline''
                     \<and> pr_last_heartbeat_at p > e_now env - heartbeat_timeout) (presences d)))
       (relay_sessions d)"

definition new_ticket :: "env \<Rightarrow> config \<Rightarrow> uuid \<Rightarrow> uuid \<Rightarrow> join_ticket" where
  "new_ticket env cfg guest_id world_id =
     \<lparr>jt_id = e_uuid env 0, jt_user_id = guest_id, jt_world_session_id = world_id,
      jt_token_hash = hash_token env (generate_token env 0),
      jt_expires_at = e_utc env + from_std_or (cf_join_ticket_ttl cfg) (seconds 60),
      jt_consumed_at = None, jt_created_at = e_now env\<rparr>"

definition new_relay :: "env \<Rightarrow> uuid \<Rightarrow> uuid \<Rightarrow> uuid \<Rightarrow> relay_session" where
  "new_relay env guest_id host_id world_id =
     \<lparr>rs_id = e_uuid env 1, rs_world_session_id = world_id, rs_host_user_id = host_id,
      rs_guest_user_id = Some guest_id, rs_join_ticket_id = Some (e_uuid env 0),
      rs_status = ''pending'', rs_created_at = e_now env, rs_closed_at = None\<rparr>"

definition issue_ticket_and_relay_tx ::
  "env \<Rightarrow> config \<Rightarrow> uuid \<Rightarrow> uuid \<Rightarrow> uuid \<Rightarrow> db \<Rightarrow> (join_ticket_dto \<times> db) app_result" where
  "issue_ticket_and_relay_tx env cfg guest_id host_id world_id d =
     (case find_world d world_id of
        None \<Rightarrow> Inl (Database RowNotFound)
      | Some ws \<Rightarrow>
          let p = find_presence d (ws_host_user_id ws);
              ticket = new_ticket env cfg guest_id world_id in
          (case insert_join_ticket ticket d of
             Inl e \<Rightarrow> Inl (Database e)
           | Inr d1 \<Rightarrow>
               (case insert_relay_session (new_relay env guest_id host_id world_id) d1 of
                  Inl e \<Rightarrow> Inl (Database e)
                | Inr d2 \<Rightarrow>
                    Inr (\<lparr>jd_ticket = generate_token env 0, jd_relay_session_id = e_uuid env 1,
                          jd_world_session_id = world_id, jd_host_user_id = host_id,
                          jd_expires_at = jt_expires_at ticket,
                          jd_invite_policy = invite_policy_str (ws_invite_policy ws),
                          jd_host_minecraft_version = Option.bind p pr_minecraft_version,
                          jd_host_loader = Option.bind p pr_loader\<rparr>, d2))))"

definition count_ticket :: "app_state \<Rightarrow> app_state" where
  "count_ticket s =
     (let m = st_metrics s in
      s\<lparr>st_metrics := m\<lparr>m_join_tickets_issued := metrics_incr (m_join_tickets_issued m)\<rparr>\<rparr>)"

definition issue_ticket_and_relay ::
  "env \<Rightarrow> config \<Rightarrow> uuid \<Rightarrow> uuid \<Rightarrow> uuid \<Rightarrow> join_ticket_dto handler" where
  "issue_ticket_and_relay env cfg guest_id host_id world_id s =
     (case issue_ticket_and_relay_tx env cfg guest_id host_id world_id (st_db s) of
        Inl e \<Rightarrow> (Inl e, s)
      | Inr (ticket, d) \<Rightarrow> (Inr ticket, count_ticket (s\<lparr>st_db := d\<rparr>)))"

definition create_join_ticket ::
  "env \<Rightarrow> config \<Rightarrow> user \<Rightarrow> uuid \<Rightarrow> join_ticket_dto handler" where
  "create_join_ticket env cfg auth world_id s =
     (let guest = u_id auth; d = st_db s in
      (case load_open_world_session d world_id of
         Inl e \<Rightarrow> (Inl e, s)
       | Inr world \<Rightarrow>
           let host = ws_host_user_id world in
           if host = guest then (Inl (BadRequest ''you cannot join your own world''), s)
           else if \<not> are_friends d guest host then (Inl Forbidden, s)
           else if effective_status_for env cfg d host \<noteq> Joinable then
             (Inl (Conflict ''host is not open for free join; send a join request instead''), s)
           else if ws_current_players world \<ge> ws_max_players world then
             (Inl (Conflict ''world is full''), s)
           else
             (case issue_ticket_and_relay env cfg guest host world_id s of
                (Inl e, s1) \<Rightarrow> (Inl e, s1)
              | (Inr ticket, s1) \<Rightarrow>
                  (case fetch_user_dto (st_db s1) guest of
                     Inl e \<Rightarrow> (Inl e, s1)
                   | Inr guest_dto \<Rightarrow>
                       (Inr ticket, s1\<lparr>st_signaling :=
                          send_to host (GuestArriving (jd_relay_session_id ticket) world_id guest_dto)
                            (st_signaling s1)\<rparr>)))))"

section \<open>Join requests\<close>

record join_request_dto =
  jrd_id :: uuid
  jrd_status :: request_status
  jrd_world_session_id :: uuid
  jrd_created_at :: timestamp
  jrd_expires_at :: timestamp
  jrd_requester :: user_dto
  jrd_host :: user_dto

definition join_request_join :: "db \<Rightarrow> join_request \<Rightarrow> join_request_dto option" where
  "join_request_join d r =
     (case (find_user d (jr_requester_user_id r), find_user d (jr_host_user_id r)) of
        (Some ru, Some hu) \<Rightarrow>
          Some \<lparr>jrd_id = jr_id r, jrd_status = jr_status r,
                jrd_world_session_id = jr_world_session_id r, jrd_created_at = jr_created_at r,
                jrd_expires_at = jr_expires_at r, jrd_requester = user_dto_from ru,
                jrd_host = user_dto_from hu\<rparr>
      | _ \<Rightarrow> None)"

definition load_join_request :: "db \<Rightarrow> uuid \<Rightarrow> join_request_dto app_result" where
  "load_join_request d rid =
     ok_or (NotFound ''join request not found'')
       (Option.bind (sql_find (\<lambda>r. jr_id r = rid) (join_requests d)) (join_request_join d))"

text \<open>
  The locking variant reads the same row; a transaction of the model is one step, so the lock itself
  has nothing to exclude.
\<close>

definition load_join_request_for_update :: "db \<Rightarrow> uuid \<Rightarrow> join_request_dto app_result" where
  "load_join_request_for_update d rid = load_join_request d rid"

definition trusted_joiner :: "env \<Rightarrow> config \<Rightarrow> db \<Rightarrow> uuid \<Rightarrow> world_session \<Rightarrow> bool" where
  "trusted_joiner env cfg d requester world \<longleftrightarrow>
     are_friends d requester (ws_host_user_id world)
     \<or> ws_invite_policy world = FriendsOfFriends
       \<and> is_friend_of_active_member env (cf_heartbeat_timeout cfg) requester (ws_id world) d"

definition new_join_request :: "env \<Rightarrow> config \<Rightarrow> uuid \<Rightarrow> uuid \<Rightarrow> uuid \<Rightarrow> join_request" where
  "new_join_request env cfg requester host world_id =
     \<lparr>jr_id = e_uuid env 0, jr_requester_user_id = requester, jr_host_user_id = host,
      jr_world_session_id = world_id, jr_status = Pending,
      jr_expires_at = e_utc env + from_std_or (cf_join_request_ttl cfg) (seconds 60),
      jr_created_at = e_now env, jr_updated_at = e_now env\<rparr>"

definition expire_join_requests :: "env \<Rightarrow> uuid \<Rightarrow> uuid \<Rightarrow> db \<Rightarrow> db" where
  "expire_join_requests env world_id requester d =
     d\<lparr>join_requests := sql_update
        (\<lambda>r. jr_world_session_id r = world_id \<and> jr_requester_user_id r = requester
             \<and> jr_status r = Pending \<and> jr_expires_at r \<le> e_now env)
        (jr_set_status (e_now env) Expired) (join_requests d)\<rparr>"

definition create_join_request ::
  "env \<Rightarrow> config \<Rightarrow> user \<Rightarrow> uuid \<Rightarrow> join_request_dto handler" where
  "create_join_request env cfg auth world_id s =
     (let requester = u_id auth; d = st_db s in
      (case load_open_world_session d world_id of
         Inl e \<Rightarrow> (Inl e, s)
       | Inr world \<Rightarrow>
           let host = ws_host_user_id world in
           if host = requester then (Inl (BadRequest ''you cannot join your own world''), s)
           else if \<not> are_friends d requester host \<and> ws_invite_policy world \<noteq> FriendsOfFriends then
             (Inl Forbidden, s)
           else if \<not> are_friends d requester host
                \<and> \<not> is_friend_of_active_member env (cf_heartbeat_timeout cfg) requester world_id d then
             (Inl Forbidden, s)
           else if \<not> is_in_world (effective_status_for env cfg d host) then
             (Inl (Conflict ''host is not in a world''), s)
           else
             let d1 = expire_join_requests env world_id requester d;
                 s1 = s\<lparr>st_db := d1\<rparr> in
             (case insert_join_request (new_join_request env cfg requester host world_id) d1 of
                Inl e \<Rightarrow>
                  (Inl (if is_unique_violation e then Conflict ''a join request is already pending''
                        else Database e), s1)
              | Inr d2 \<Rightarrow>
                  let s2 = s\<lparr>st_db := d2\<rparr>; rid = e_uuid env 0 in
                  (case load_join_request d2 rid of
                     Inl e \<Rightarrow> (Inl e, s2)
                   | Inr dto \<Rightarrow>
                       (Inr dto, s2\<lparr>st_signaling :=
                          send_to host (JoinRequest rid world_id (jrd_requester dto))
                            (st_signaling s2)\<rparr>)))))"

definition join_incoming :: "env \<Rightarrow> user \<Rightarrow> join_request_dto list handler" where
  "join_incoming env auth s =
     (Inr (List.map_filter (join_request_join (st_db s))
        (newest_first jr_created_at
          (filter (\<lambda>r. jr_host_user_id r = u_id auth \<and> jr_status r = Pending
                       \<and> jr_expires_at r > e_now env) (join_requests (st_db s))))), s)"

definition jr_transition ::
  "request_status list \<Rightarrow> request_status \<Rightarrow> timestamp \<Rightarrow> uuid \<Rightarrow> join_request list
    \<Rightarrow> nat \<times> join_request list" where
  "jr_transition = transition jr_id jr_status jr_set_status"

text \<open>The admission transaction of \<^verbatim>\<open>accept\<close>.\<close>

definition join_accept_tx ::
  "env \<Rightarrow> config \<Rightarrow> user \<Rightarrow> uuid \<Rightarrow> db
    \<Rightarrow> (join_request_dto \<times> join_ticket_dto \<times> db) app_result" where
  "join_accept_tx env cfg auth rid d =
     (case load_join_request_for_update d rid of
        Inl e \<Rightarrow> Inl e
      | Inr row \<Rightarrow>
          let requester = ud_id (jrd_requester row); host = ud_id (jrd_host row);
              world_id = jrd_world_session_id row in
          if host \<noteq> u_id auth then Inl Forbidden
          else if jrd_status row \<noteq> Pending then Inl (Conflict ''join request is not pending'')
          else if jrd_expires_at row \<le> e_utc env then Inl (Conflict ''join request has expired'')
          else
            (case load_open_world_session d world_id of
               Inl e \<Rightarrow> Inl e
             | Inr world \<Rightarrow>
                 if \<not> are_friends d requester host \<and> ws_invite_policy world \<noteq> FriendsOfFriends
                 then Inl Forbidden
                 else if \<not> are_friends d requester host
                   \<and> \<not> is_friend_of_active_member env (cf_heartbeat_timeout cfg) requester world_id d
                 then Inl Forbidden
                 else if ws_current_players world \<ge> ws_max_players world
                 then Inl (Conflict ''world is full'')
                 else
                   (case jr_transition [Pending] Accepted (e_now env) rid (join_requests d) of
                      (n, jrs) \<Rightarrow>
                        if n \<noteq> 1 then Inl (Conflict ''join request is not pending'')
                        else
                          (case issue_ticket_and_relay_tx env cfg requester host world_id
                                  (d\<lparr>join_requests := jrs\<rparr>) of
                             Inl e \<Rightarrow> Inl e
                           | Inr (ticket, d') \<Rightarrow> Inr (row, ticket, d')))))"

definition join_accept :: "env \<Rightarrow> config \<Rightarrow> user \<Rightarrow> uuid \<Rightarrow> join_request_dto handler" where
  "join_accept env cfg auth rid s =
     (case join_accept_tx env cfg auth rid (st_db s) of
        Inl e \<Rightarrow> (Inl e, s)
      | Inr (row, ticket, d) \<Rightarrow>
          let s1 = count_ticket (s\<lparr>st_db := d\<rparr>);
              requester = ud_id (jrd_requester row); host = ud_id (jrd_host row) in
          (case fetch_user_dto d requester of
             Inl e \<Rightarrow> (Inl e, s1)
           | Inr guest_dto \<Rightarrow>
               let hub1 = send_to requester (JoinRequestAccepted rid ticket) (st_signaling s1);
                   hub2 = send_to host (GuestArriving (jd_relay_session_id ticket)
                            (jrd_world_session_id row) guest_dto) hub1
               in (load_join_request d rid, s1\<lparr>st_signaling := hub2\<rparr>)))"

definition join_decline :: "env \<Rightarrow> user \<Rightarrow> uuid \<Rightarrow> join_request_dto handler" where
  "join_decline env auth rid s =
     (let d = st_db s in
      (case load_join_request d rid of
         Inl e \<Rightarrow> (Inl e, s)
       | Inr row \<Rightarrow>
           if ud_id (jrd_host row) \<noteq> u_id auth then (Inl Forbidden, s)
           else if jrd_status row \<noteq> Pending then
             (Inl (Conflict ''join request is not pending''), s)
           else
             (case jr_transition [Pending] Declined (e_now env) rid (join_requests d) of
                (n, jrs) \<Rightarrow>
                  let d1 = d\<lparr>join_requests := jrs\<rparr>; s1 = s\<lparr>st_db := d1\<rparr> in
                  if n = 0 then (Inl (Conflict ''join request is not pending''), s1)
                  else
                    (case load_join_request d1 rid of
                       Inl e \<Rightarrow> (Inl e, s1)
                     | Inr dto \<Rightarrow>
                         (Inr dto, s1\<lparr>st_signaling :=
                            send_to (ud_id (jrd_requester row)) (JoinRequestDeclined rid)
                              (st_signaling s1)\<rparr>)))))"

section \<open>What minting a ticket changes\<close>

lemma issue_ticketD:
  assumes "issue_ticket_and_relay_tx env cfg g h wid d = Inr (t, d')"
  shows "d' = d\<lparr>join_tickets := join_tickets d @ [new_ticket env cfg g wid],
              relay_sessions := relay_sessions d @ [new_relay env g h wid]\<rparr>"
    and "jd_ticket t = generate_token env 0" and "jd_relay_session_id t = e_uuid env 1"
    and "jd_world_session_id t = wid" and "jd_host_user_id t = h"
    and "g \<in> set (user_ids d)" and "h \<in> set (user_ids d)"
  using assms
  by (auto simp: issue_ticket_and_relay_tx_def insert_join_ticket_def insert_relay_session_def
      Let_def new_relay_def new_ticket_def split: option.splits sum.splits if_splits)

lemma db_wf_issue_ticket [wf_intros]:
  assumes "issue_ticket_and_relay_tx env cfg g h wid d = Inr (t, d')" "db_wf d"
  shows "db_wf d'"
proof -
  obtain d1 where "insert_join_ticket (new_ticket env cfg g wid) d = Inr d1"
      "insert_relay_session (new_relay env g h wid) d1 = Inr d'"
    using assms(1) by (auto simp: issue_ticket_and_relay_tx_def Let_def split: option.splits sum.splits)
  with assms(2) show ?thesis
    by (metis db_wf_insert_join_ticket db_wf_insert_relay_session)
qed

lemma count_ticket_simps [simp]:
  "st_db (count_ticket s) = st_db s" "st_signaling (count_ticket s) = st_signaling s"
  "m_join_tickets_issued (st_metrics (count_ticket s)) = m_join_tickets_issued (st_metrics s) + 1"
  by (simp_all add: count_ticket_def Let_def metrics_incr_def)

lemma state_wf_count_ticket [simp]: "state_wf (count_ticket s) = state_wf s"
  by (simp add: state_wf_def)

lemma fetch_user_dto_ok: "uid \<in> set (user_ids d) \<Longrightarrow> \<exists>u. fetch_user_dto d uid = Inr u"
  using find_user_exists [of d uid] by (auto simp: fetch_user_dto_def user_exists_iff)

lemma state_wf_create_join_ticket [wf_intros]:
  "state_wf s \<Longrightarrow> state_wf (snd (create_join_ticket env cfg auth wid s))"
  using db_wf_issue_ticket [OF _ state_wfD(1)]
  by (auto simp: create_join_ticket_def issue_ticket_and_relay_def Let_def state_wf_def
      split: sum.splits prod.splits)

section \<open>Loading a request\<close>

lemma load_join_requestD:
  assumes "load_join_request d rid = Inr row"
  obtains r where "sql_find (\<lambda>r. jr_id r = rid) (join_requests d) = Some r"
    "jrd_id row = rid" "jrd_status row = jr_status r" "jrd_world_session_id row = jr_world_session_id r"
    "jrd_expires_at row = jr_expires_at r" "ud_id (jrd_requester row) = jr_requester_user_id r"
    "ud_id (jrd_host row) = jr_host_user_id r"
proof -
  obtain r where r: "sql_find (\<lambda>r. jr_id r = rid) (join_requests d) = Some r"
      "join_request_join d r = Some row"
    using assms by (auto simp: load_join_request_def bind_eq_Some_conv)
  obtain ru hu where u: "find_user d (jr_requester_user_id r) = Some ru"
      "find_user d (jr_host_user_id r) = Some hu"
    using r(2) by (auto simp: join_request_join_def split: option.splits)
  show thesis
    using r u sql_find_SomeD(2) [OF r(1)] find_user_Some(2) [OF u(1)] find_user_Some(2) [OF u(2)]
    by (intro that [OF r(1)]) (auto simp: join_request_join_def user_dto_from_def)
qed

lemma load_join_request_total:
  assumes "db_wf d" "sql_find (\<lambda>r. jr_id r = rid) (join_requests d) = Some r"
  obtains dto where "load_join_request d rid = Inr dto" "jrd_id dto = rid" "jrd_status dto = jr_status r"
    "ud_id (jrd_requester dto) = jr_requester_user_id r"
proof -
  have r: "r \<in> set (join_requests d)" "jr_id r = rid"
    using sql_find_SomeD [OF assms(2)] by auto
  have "user_exists d (jr_requester_user_id r)" "user_exists d (jr_host_user_id r)"
    using assms(1) r(1)
    by (auto simp: db_wf_def join_requests_wf_def fk_def list_all_iff user_exists_iff)
  then obtain ru hu where "find_user d (jr_requester_user_id r) = Some ru"
      "find_user d (jr_host_user_id r) = Some hu"
    using find_user_exists by blast
  then show thesis
    using that assms(2) r(2)
    by (auto simp: load_join_request_def join_request_join_def user_dto_from_def
        dest: find_user_Some(2))
qed

lemma jr_find_transition:
  assumes "sql_find (\<lambda>r. jr_id r = rid) rs = Some r" "jr_status r = Pending"
  shows "sql_find (\<lambda>r. jr_id r = rid) (snd (jr_transition [Pending] new now rid rs)) =
    Some (jr_set_status now new r)"
  using assms sql_find_SomeD(2) [OF assms(1)] by (simp add: jr_transition_def jr.gate_find)

lemma db_wf_jr_transition' [wf_intros]:
  "db_wf d \<Longrightarrow> jr_transition [Pending] new now rid (join_requests d) = (n, jrs) \<Longrightarrow> new \<noteq> Pending
     \<Longrightarrow> db_wf (d\<lparr>join_requests := jrs\<rparr>)"
  using db_wf_jr_transition [of d new "[Pending]" now rid] by (simp add: jr_transition_def)

lemma db_wf_expire_join_requests [wf_intros]: "db_wf d \<Longrightarrow> db_wf (expire_join_requests env w r d)"
  unfolding expire_join_requests_def
  by (rule db_wf_update_join_requests) (auto simp: jr_set_status_def jr_pending_def)

section \<open>Accepting a request\<close>

text \<open>Everything the transaction has checked and changed when it commits.\<close>

lemma join_accept_txD:
  assumes "join_accept_tx env cfg auth rid d = Inr (row, t, d')" "db_wf d"
  obtains r w where "sql_find (\<lambda>r. jr_id r = rid) (join_requests d) = Some r"
    "jr_host_user_id r = u_id auth" "jr_status r = Pending" "jr_expires_at r > e_utc env"
    "load_open_world_session d (jr_world_session_id r) = Inr w"
    "are_friends d (jr_requester_user_id r) (u_id auth) \<or> ws_invite_policy w = FriendsOfFriends \<and>
       is_friend_of_active_member env (cf_heartbeat_timeout cfg) (jr_requester_user_id r)
         (jr_world_session_id r) d"
    "ws_current_players w < ws_max_players w"
    "issue_ticket_and_relay_tx env cfg (jr_requester_user_id r) (u_id auth) (jr_world_session_id r)
       (d\<lparr>join_requests := snd (jr_transition [Pending] Accepted (e_now env) rid (join_requests d))\<rparr>)
       = Inr (t, d')"
    "ud_id (jrd_requester row) = jr_requester_user_id r" "ud_id (jrd_host row) = u_id auth"
    "jrd_world_session_id row = jr_world_session_id r"
proof -
  have "load_join_request d rid = Inr row"
    using assms(1)
    by (auto simp: join_accept_tx_def load_join_request_for_update_def Let_def
        split: sum.splits if_splits prod.splits)
  from this obtain r where r: "sql_find (\<lambda>r. jr_id r = rid) (join_requests d) = Some r"
    "jrd_id row = rid" "jrd_status row = jr_status r" "jrd_world_session_id row = jr_world_session_id r"
    "jrd_expires_at row = jr_expires_at r" "ud_id (jrd_requester row) = jr_requester_user_id r"
    "ud_id (jrd_host row) = jr_host_user_id r"
    by (rule load_join_requestD)
  show thesis
    using assms(1) \<open>load_join_request d rid = Inr row\<close> r
    by (auto simp: join_accept_tx_def load_join_request_for_update_def Let_def
        split: sum.splits if_splits prod.splits intro!: that [OF r(1)])
qed

lemma join_accept_eq:
  assumes "join_accept_tx env cfg auth rid (st_db s) = Inr (row, t, d')" "state_wf s"
  obtains dto hub where "join_accept env cfg auth rid s =
      (Inr dto, (count_ticket (s\<lparr>st_db := d'\<rparr>))\<lparr>st_signaling := hub\<rparr>)"
    "jrd_status dto = Accepted" "jrd_id dto = rid" "db_wf d'"
proof -
  have wf: "db_wf (st_db s)" using state_wfD(1) [OF assms(2)] .
  from assms(1) wf obtain r w where a: "sql_find (\<lambda>r. jr_id r = rid) (join_requests (st_db s)) = Some r"
      "jr_status r = Pending" "ud_id (jrd_requester row) = jr_requester_user_id r"
    and i: "issue_ticket_and_relay_tx env cfg (jr_requester_user_id r) (u_id auth) (jr_world_session_id r)
       ((st_db s)\<lparr>join_requests := snd (jr_transition [Pending] Accepted (e_now env) rid
          (join_requests (st_db s)))\<rparr>) = Inr (t, d')"
    by (rule join_accept_txD) (rule that)
  have wf1: "db_wf ((st_db s)\<lparr>join_requests := snd (jr_transition [Pending] Accepted (e_now env) rid
      (join_requests (st_db s)))\<rparr>)"
    using db_wf_jr_transition [OF wf, of Accepted "[Pending]" "e_now env" rid]
    by (simp add: jr_transition_def)
  have wf': "db_wf d'" using db_wf_issue_ticket [OF i wf1] .
  have "sql_find (\<lambda>r. jr_id r = rid) (join_requests d') = Some (jr_set_status (e_now env) Accepted r)"
    using issue_ticketD(1) [OF i] jr_find_transition [OF a(1,2)] by simp
  from load_join_request_total [OF wf' this] obtain dto where
    dto: "load_join_request d' rid = Inr dto" "jrd_id dto = rid" "jrd_status dto = Accepted"
    by (auto simp: jr_set_status_def)
  have "jr_requester_user_id r \<in> set (user_ids d')"
    using issue_ticketD(1,6) [OF i] by simp
  then obtain u where "fetch_user_dto d' (jr_requester_user_id r) = Inr u"
    using fetch_user_dto_ok by blast
  with assms(1) a(3) dto wf' show thesis
    by (intro that) (simp_all add: join_accept_def Let_def)
qed

lemma state_wf_join_accept [wf_intros]:
  assumes "state_wf s"
  shows "state_wf (snd (join_accept env cfg auth rid s))"
proof (cases "join_accept_tx env cfg auth rid (st_db s)")
  case (Inl e)
  with assms show ?thesis by (simp add: join_accept_def)
next
  case (Inr x)
  then obtain row t d' where x: "join_accept_tx env cfg auth rid (st_db s) = Inr (row, t, d')"
    by (cases x) auto
  from x assms obtain dto hub where "db_wf d'"
    by (rule join_accept_eq)
  then show ?thesis
    using assms x by (auto simp: join_accept_def Let_def state_wf_def split: sum.splits)
qed

lemma state_wf_join_decline [wf_intros]:
  "state_wf s \<Longrightarrow> state_wf (snd (join_decline env auth rid s))"
  using db_wf_jr_transition' [OF state_wfD(1), of s Declined "e_now env" rid]
  by (auto simp: join_decline_def Let_def state_wf_def split: sum.splits prod.splits)

lemma state_wf_create_join_request [wf_intros]:
  "state_wf s \<Longrightarrow> state_wf (snd (create_join_request env cfg auth wid s))"
  using db_wf_expire_join_requests [OF state_wfD(1), of s env wid "u_id auth"]
  by (auto simp: create_join_request_def Let_def state_wf_def
      dest!: db_wf_insert_join_request split: sum.splits)

section \<open>Properties\<close>

lemma join_accept_result:
  assumes "state_wf s"
  shows "case join_accept env cfg auth rid s of
      (Inl e, s') \<Rightarrow> s' = s
    | (Inr dto, s') \<Rightarrow>
        (\<exists>r w. sql_find (\<lambda>r. jr_id r = rid) (join_requests (st_db s)) = Some r
           \<and> jr_host_user_id r = u_id auth \<and> jr_status r = Pending \<and> e_utc env < jr_expires_at r
           \<and> find_world (st_db s) (jr_world_session_id r) = Some w \<and> ws_open w
           \<and> ws_current_players w < ws_max_players w
           \<and> (are_friends (st_db s) (jr_requester_user_id r) (u_id auth)
              \<or> ws_invite_policy w = FriendsOfFriends \<and> is_friend_of_active_member env
                   (cf_heartbeat_timeout cfg) (jr_requester_user_id r) (jr_world_session_id r) (st_db s))
           \<and> jrd_status dto = Accepted
           \<and> sql_find (\<lambda>r. jr_id r = rid) (join_requests (st_db s')) =
               Some (jr_set_status (e_now env) Accepted r)
           \<and> join_tickets (st_db s') = join_tickets (st_db s) @
               [new_ticket env cfg (jr_requester_user_id r) (jr_world_session_id r)]
           \<and> relay_sessions (st_db s') = relay_sessions (st_db s) @
               [new_relay env (jr_requester_user_id r) (u_id auth) (jr_world_session_id r)])"
proof (cases "join_accept_tx env cfg auth rid (st_db s)")
  case (Inl e)
  then show ?thesis by (simp add: join_accept_def)
next
  case (Inr x)
  then obtain row t d' where x: "join_accept_tx env cfg auth rid (st_db s) = Inr (row, t, d')"
    by (cases x) auto
  from x state_wfD(1) [OF assms] obtain r w where
    a: "sql_find (\<lambda>r. jr_id r = rid) (join_requests (st_db s)) = Some r"
       "jr_host_user_id r = u_id auth" "jr_status r = Pending" "e_utc env < jr_expires_at r"
    and w: "load_open_world_session (st_db s) (jr_world_session_id r) = Inr w"
    and tr: "are_friends (st_db s) (jr_requester_user_id r) (u_id auth)
       \<or> ws_invite_policy w = FriendsOfFriends \<and> is_friend_of_active_member env
           (cf_heartbeat_timeout cfg) (jr_requester_user_id r) (jr_world_session_id r) (st_db s)"
    and cap: "ws_current_players w < ws_max_players w"
    and i: "issue_ticket_and_relay_tx env cfg (jr_requester_user_id r) (u_id auth) (jr_world_session_id r)
       ((st_db s)\<lparr>join_requests := snd (jr_transition [Pending] Accepted (e_now env) rid
          (join_requests (st_db s)))\<rparr>) = Inr (t, d')"
    by (rule join_accept_txD) (rule that)
  from x assms obtain dto hub where j: "join_accept env cfg auth rid s =
      (Inr dto, (count_ticket (s\<lparr>st_db := d'\<rparr>))\<lparr>st_signaling := hub\<rparr>)" "jrd_status dto = Accepted"
    by (rule join_accept_eq)
  have "find_world (st_db s) (jr_world_session_id r) = Some w" "ws_open w"
    using load_open_world_sessionD [OF w state_wfD(1) [OF assms]] by (auto simp: ws_open_def)
  with a tr cap j show ?thesis
    using issue_ticketD(1) [OF i] jr_find_transition [OF a(1,3), of Accepted "e_now env"] by simp
qed

text \<open>
  C2. Admission through a join request: a refused accept changes nothing. An accept that succeeds
  was made by the host the request names, on a pending request that has not expired, into a world
  that is open and not full, for a requester who at that moment is the host's friend or, in a
  friends-of-friends world, a friend of a live guest. It marks the request accepted and adds exactly
  one unconsumed ticket for the requester and one pending relay session that carries it.
\<close>

theorem join_accept_admission:
  assumes "state_wf s"
  shows "case join_accept env cfg auth rid s of
      (Inl e, s') \<Rightarrow> s' = s
    | (Inr dto, s') \<Rightarrow>
        (\<exists>r w. sql_find (\<lambda>r. jr_id r = rid) (join_requests (st_db s)) = Some r
           \<and> jr_host_user_id r = u_id auth \<and> jr_status r = Pending \<and> e_utc env < jr_expires_at r
           \<and> find_world (st_db s) (jr_world_session_id r) = Some w \<and> ws_open w
           \<and> ws_current_players w < ws_max_players w
           \<and> (are_friends (st_db s) (jr_requester_user_id r) (u_id auth)
              \<or> ws_invite_policy w = FriendsOfFriends \<and> is_friend_of_active_member env
                   (cf_heartbeat_timeout cfg) (jr_requester_user_id r) (jr_world_session_id r) (st_db s))
           \<and> jrd_status dto = Accepted
           \<and> sql_find (\<lambda>r. jr_id r = rid) (join_requests (st_db s')) =
               Some (jr_set_status (e_now env) Accepted r)
           \<and> join_tickets (st_db s') = join_tickets (st_db s) @
               [new_ticket env cfg (jr_requester_user_id r) (jr_world_session_id r)]
           \<and> relay_sessions (st_db s') = relay_sessions (st_db s) @
               [new_relay env (jr_requester_user_id r) (u_id auth) (jr_world_session_id r)])"
  using assms by (rule join_accept_result)

definition sample_join_db :: db where
  "sample_join_db = sample_db\<lparr>join_requests :=
     [\<lparr>jr_id = 60, jr_requester_user_id = 3, jr_host_user_id = 1, jr_world_session_id = 10,
       jr_status = Pending, jr_expires_at = 2000000, jr_created_at = 0, jr_updated_at = 0\<rparr>]\<rparr>"

definition sample_join_state :: app_state where
  "sample_join_state = sample_state\<lparr>st_db := sample_join_db\<rparr>"

lemma sample_join_wf [simp]: "state_wf sample_join_state"
  by code_simp

theorem join_accept_admission_witness:
  "\<exists>dto. fst (join_accept sample_env sample_cfg alice 60 sample_join_state) = Inr dto
     \<and> jrd_status dto = Accepted
     \<and> length (join_tickets (st_db (snd (join_accept sample_env sample_cfg alice 60 sample_join_state)))) = 1
     \<and> snd (join_accept sample_env sample_cfg bob 60 sample_join_state) = sample_join_state"
proof -
  have ok: "\<not> isl (fst (join_accept sample_env sample_cfg alice 60 sample_join_state))"
    and no: "fst (join_accept sample_env sample_cfg bob 60 sample_join_state) = Inl Forbidden"
    and nil: "join_tickets (st_db sample_join_state) = []"
    by code_simp+
  obtain dto where dto: "fst (join_accept sample_env sample_cfg alice 60 sample_join_state) = Inr dto"
    using ok by (cases "fst (join_accept sample_env sample_cfg alice 60 sample_join_state)") auto
  show ?thesis
    using join_accept_admission [where s = sample_join_state and env = sample_env and cfg = sample_cfg
        and auth = alice and rid = 60]
      join_accept_admission [where s = sample_join_state and env = sample_env and cfg = sample_cfg
        and auth = bob and rid = 60] dto no nil
    by (auto split: prod.splits)
qed

text \<open>A run of accepts on one request, each with its own environment and caller.\<close>

fun run_join_accepts ::
  "config \<Rightarrow> uuid \<Rightarrow> (env \<times> user) list \<Rightarrow> app_state \<Rightarrow> join_request_dto app_result list \<times> app_state" where
  "run_join_accepts cfg rid [] s = ([], s)"
| "run_join_accepts cfg rid ((env, auth) # calls) s =
     (let (res, s1) = join_accept env cfg auth rid s;
          (rest, s2) = run_join_accepts cfg rid calls s1
      in (res # rest, s2))"

definition successes :: "(app_error + 'a) list \<Rightarrow> nat" where
  "successes rs = length (filter (\<lambda>r. \<not> isl r) rs)"

lemma successes_simps [simp]:
  "successes [] = 0" "successes (Inl e # rs) = successes rs"
  "successes (Inr x # rs) = Suc (successes rs)"
  by (simp_all add: successes_def)

definition jr_settled :: "uuid \<Rightarrow> app_state \<Rightarrow> bool" where
  "jr_settled rid s \<longleftrightarrow>
     (\<forall>r. sql_find (\<lambda>r. jr_id r = rid) (join_requests (st_db s)) = Some r \<longrightarrow> jr_status r \<noteq> Pending)"

lemma join_accept_cases:
  assumes "state_wf s"
  obtains (refused) e where "join_accept env cfg auth rid s = (Inl e, s)"
  | (admitted) dto s' where "join_accept env cfg auth rid s = (Inr dto, s')" "\<not> jr_settled rid s"
      "jr_settled rid s'" "length (join_tickets (st_db s')) = Suc (length (join_tickets (st_db s)))"
  using join_accept_result [OF assms, where env = env and cfg = cfg and auth = auth and rid = rid]
  by (cases "join_accept env cfg auth rid s" rule: prod.exhaust; cases "fst (join_accept env cfg auth rid s)")
    (auto simp: jr_settled_def jr_set_status_def)

text \<open>
  C3. One request mints at most one ticket: over any sequence of accept calls on the same join
  request, by any callers at any times, at most one call succeeds, and the number of tickets grows
  by exactly the number of successes.
\<close>

theorem join_accepts_mint_once:
  assumes "state_wf s"
  shows "successes (fst (run_join_accepts cfg rid calls s)) \<le> (if jr_settled rid s then 0 else 1)
    \<and> length (join_tickets (st_db (snd (run_join_accepts cfg rid calls s)))) =
        length (join_tickets (st_db s)) + successes (fst (run_join_accepts cfg rid calls s))"
  using assms
proof (induction calls arbitrary: s)
  case (Cons call calls)
  obtain env auth where call: "call = (env, auth)" by (cases call)
  from Cons.prems show ?case
  proof (cases rule: join_accept_cases [where env = env and cfg = cfg and auth = auth and rid = rid])
    case (refused e)
    with Cons call show ?thesis by (simp add: split_beta)
  next
    case (admitted dto s')
    have "state_wf s'"
      using state_wf_join_accept [OF Cons.prems, of env cfg auth rid] admitted(1) by simp
    from Cons.IH [OF this] admitted call show ?thesis by (simp add: split_beta)
  qed
qed simp

theorem join_accepts_mint_once_witness:
  "successes (fst (run_join_accepts sample_cfg 60 [(sample_env, alice), (sample_env, alice),
      (sample_env, bob)] sample_join_state)) = 1
   \<and> length (join_tickets (st_db (snd (run_join_accepts sample_cfg 60 [(sample_env, alice),
        (sample_env, alice), (sample_env, bob)] sample_join_state)))) = 1"
proof -
  have "successes (fst (run_join_accepts sample_cfg 60 [(sample_env, alice), (sample_env, alice),
      (sample_env, bob)] sample_join_state)) = 1"
    by code_simp
  moreover have "join_tickets (st_db sample_join_state) = []" by code_simp
  ultimately show ?thesis
    using join_accepts_mint_once [OF sample_join_wf, of sample_cfg 60
        "[(sample_env, alice), (sample_env, alice), (sample_env, bob)]"]
    by simp
qed

text \<open>
  C5. Free joining: a refusal changes nothing. A ticket is handed out without the host's approval
  only for an open world with a free slot whose host is the caller's friend, is not the caller, and
  is live with status joinable; exactly one ticket and one pending relay are added, and the issue is
  counted.
\<close>

theorem create_join_ticket_admission:
  assumes "state_wf s"
  shows "case create_join_ticket env cfg auth wid s of
      (Inl e, s') \<Rightarrow> s' = s
    | (Inr t, s') \<Rightarrow>
        (\<exists>w. find_world (st_db s) wid = Some w \<and> ws_open w \<and> ws_host_user_id w \<noteq> u_id auth
           \<and> are_friends (st_db s) (u_id auth) (ws_host_user_id w)
           \<and> effective_status_for env cfg (st_db s) (ws_host_user_id w) = Joinable
           \<and> ws_current_players w < ws_max_players w
           \<and> jd_ticket t = generate_token env 0
           \<and> join_tickets (st_db s') = join_tickets (st_db s) @ [new_ticket env cfg (u_id auth) wid]
           \<and> relay_sessions (st_db s') = relay_sessions (st_db s) @
               [new_relay env (u_id auth) (ws_host_user_id w) wid]
           \<and> m_join_tickets_issued (st_metrics s') = m_join_tickets_issued (st_metrics s) + 1)"
proof (cases "load_open_world_session (st_db s) wid")
  case (Inl e)
  then show ?thesis by (simp add: create_join_ticket_def Let_def)
next
  case (Inr w)
  note w = load_open_world_sessionD [OF Inr state_wfD(1) [OF assms]]
  show ?thesis
  proof (cases "issue_ticket_and_relay_tx env cfg (u_id auth) (ws_host_user_id w) wid (st_db s)")
    case (Inl e)
    with Inr show ?thesis
      by (auto simp: create_join_ticket_def issue_ticket_and_relay_def Let_def)
  next
    case i: (Inr x)
    then obtain t d' where i: "issue_ticket_and_relay_tx env cfg (u_id auth) (ws_host_user_id w) wid
        (st_db s) = Inr (t, d')"
      by (cases x) auto
    note d' = issue_ticketD [OF i]
    obtain u where "fetch_user_dto d' (u_id auth) = Inr u"
      using fetch_user_dto_ok [of "u_id auth" d'] d'(1,6) by auto
    with Inr i w d' show ?thesis
      by (auto simp: create_join_ticket_def issue_ticket_and_relay_def Let_def ws_open_def)
  qed
qed

theorem create_join_ticket_admission_witness:
  "(\<exists>t. fst (create_join_ticket sample_env sample_cfg bob 10 sample_state) = Inr t
      \<and> jd_ticket t = generate_token sample_env 0)
   \<and> snd (create_join_ticket sample_env sample_cfg carol 10 sample_state) = sample_state"
proof -
  have ok: "\<not> isl (fst (create_join_ticket sample_env sample_cfg bob 10 sample_state))"
    and no: "fst (create_join_ticket sample_env sample_cfg carol 10 sample_state) = Inl Forbidden"
    by code_simp+
  obtain t where "fst (create_join_ticket sample_env sample_cfg bob 10 sample_state) = Inr t"
    using ok by (cases "fst (create_join_ticket sample_env sample_cfg bob 10 sample_state)") auto
  then show ?thesis
    using create_join_ticket_admission [where s = sample_state and env = sample_env and cfg = sample_cfg
        and auth = bob and wid = 10]
      create_join_ticket_admission [where s = sample_state and env = sample_env and cfg = sample_cfg
        and auth = carol and wid = 10] no
    by (auto split: prod.splits)
qed

text \<open>
  Asking to join: on success the world is open, the caller is not its host, the host is live in a
  world, and the caller is trusted (a friend of the host, or of a live guest under the
  friends-of-friends policy); the new request is then the only pending one of the caller for that
  world, whatever lapsed requests were there before. A refusal at most expires lapsed ones: it never
  adds a request.
\<close>

theorem create_join_request_effect:
  assumes "state_wf s"
  shows "case create_join_request env cfg auth wid s of
      (Inl e, s') \<Rightarrow> st_db s' = st_db s \<or> st_db s' = expire_join_requests env wid (u_id auth) (st_db s)
    | (Inr dto, s') \<Rightarrow>
        (\<exists>w. find_world (st_db s) wid = Some w \<and> ws_open w \<and> ws_host_user_id w \<noteq> u_id auth
           \<and> trusted_joiner env cfg (st_db s) (u_id auth) w
           \<and> is_in_world (effective_status_for env cfg (st_db s) (ws_host_user_id w))
           \<and> filter (\<lambda>r. (jr_world_session_id r, jr_requester_user_id r) = (wid, u_id auth) \<and> jr_pending r)
               (join_requests (st_db s')) =
               [new_join_request env cfg (u_id auth) (ws_host_user_id w) wid])"
proof (cases "load_open_world_session (st_db s) wid")
  case (Inl e)
  then show ?thesis by (simp add: create_join_request_def Let_def)
next
  case (Inr w)
  note w = load_open_world_sessionD [OF Inr state_wfD(1) [OF assms]]
  let ?d1 = "expire_join_requests env wid (u_id auth) (st_db s)"
  let ?r = "new_join_request env cfg (u_id auth) (ws_host_user_id w) wid"
  show ?thesis
  proof (cases "insert_join_request ?r ?d1")
    case (Inl e)
    with Inr show ?thesis by (auto simp: create_join_request_def Let_def)
  next
    case ins: (Inr d2)
    have wf2: "db_wf d2"
      using db_wf_insert_join_request [OF ins] db_wf_expire_join_requests state_wfD(1) [OF assms]
      by blast
    have in2: "?r \<in> set (join_requests d2)"
      using ins by (auto simp: insert_join_request_def split: if_splits)
    have jr2: "unique_index always jr_id (join_requests d2)"
      "unique_index jr_pending (\<lambda>r. (jr_world_session_id r, jr_requester_user_id r)) (join_requests d2)"
      using db_wfD(8) [OF wf2] by (auto simp: join_requests_wf_def)
    have flt: "filter (\<lambda>r. (jr_world_session_id r, jr_requester_user_id r) = (wid, u_id auth) \<and> jr_pending r)
        (join_requests d2) = [?r]"
      by (rule unique_index_filter [OF jr2(2) in2]) (auto simp: new_join_request_def jr_pending_def)
    have "sql_find (\<lambda>r. jr_id r = e_uuid env 0) (join_requests d2) = Some ?r"
      by (rule sql_find_unique [OF jr2(1) in2]) (simp add: new_join_request_def)
    from load_join_request_total [OF wf2 this] obtain dto where "load_join_request d2 (e_uuid env 0) = Inr dto"
      by blast
    with Inr ins w flt show ?thesis
      by (auto simp: create_join_request_def Let_def trusted_joiner_def ws_open_def)
  qed
qed

end
