(* ===== verification/Invites.thy ===== *)
theory Invites
  imports Join
begin

text \<open>
  \<^verbatim>\<open>network/src/invites.rs\<close>: invitations into a hosted world, the host's approval of
  friend-of-friend invitations, and the acceptance that mints a ticket.
\<close>

section \<open>Invites as transferred\<close>

record world_invite_dto =
  wid_id :: uuid
  wid_status :: request_status
  wid_world_session_id :: uuid
  wid_created_at :: timestamp
  wid_expires_at :: timestamp
  wid_requires_host_approval :: bool
  wid_inviter :: user_dto
  wid_invitee :: user_dto
  wid_host :: user_dto

definition invite_join :: "db \<Rightarrow> world_invite \<Rightarrow> world_invite_dto option" where
  "invite_join d i =
     (case (find_user d (wi_inviter_user_id i), find_user d (wi_invitee_user_id i),
            find_user d (wi_host_user_id i)) of
        (Some iu, Some vu, Some hu) \<Rightarrow>
          Some \<lparr>wid_id = wi_id i, wid_status = wi_status i,
                wid_world_session_id = wi_world_session_id i, wid_created_at = wi_created_at i,
                wid_expires_at = wi_expires_at i,
                wid_requires_host_approval = (wi_status i = PendingApproval),
                wid_inviter = user_dto_from iu, wid_invitee = user_dto_from vu,
                wid_host = user_dto_from hu\<rparr>
      | _ \<Rightarrow> None)"

definition load_invite :: "db \<Rightarrow> uuid \<Rightarrow> world_invite_dto app_result" where
  "load_invite d iid =
     ok_or (NotFound ''invite not found'')
       (Option.bind (sql_find (\<lambda>i. wi_id i = iid) (world_invites d)) (invite_join d))"

definition load_invite_for_update :: "db \<Rightarrow> uuid \<Rightarrow> world_invite_dto app_result" where
  "load_invite_for_update d iid = load_invite d iid"

definition invites_list_by :: "(world_invite \<Rightarrow> bool) \<Rightarrow> db \<Rightarrow> world_invite_dto list" where
  "invites_list_by p d =
     List.map_filter (invite_join d) (newest_first wi_created_at (filter p (world_invites d)))"

definition invites_incoming :: "env \<Rightarrow> user \<Rightarrow> world_invite_dto list handler" where
  "invites_incoming env auth s =
     (Inr (invites_list_by (\<lambda>i. wi_invitee_user_id i = u_id auth \<and> wi_status i = Pending
        \<and> wi_expires_at i > e_now env) (st_db s)), s)"

definition invites_outgoing :: "env \<Rightarrow> user \<Rightarrow> world_invite_dto list handler" where
  "invites_outgoing env auth s =
     (Inr (invites_list_by (\<lambda>i. wi_inviter_user_id i = u_id auth
        \<and> (wi_status i = Pending \<or> wi_status i = PendingApproval)
        \<and> wi_expires_at i > e_now env) (st_db s)), s)"

definition invites_pending_approval :: "env \<Rightarrow> user \<Rightarrow> world_invite_dto list handler" where
  "invites_pending_approval env auth s =
     (Inr (invites_list_by (\<lambda>i. wi_host_user_id i = u_id auth \<and> wi_status i = PendingApproval
        \<and> wi_expires_at i > e_now env) (st_db s)), s)"

section \<open>Inviting\<close>

text \<open>The status a new invite starts in, or the refusal.\<close>

definition invite_initial_status ::
  "db \<Rightarrow> world_session \<Rightarrow> uuid \<Rightarrow> uuid \<Rightarrow> request_status app_result" where
  "invite_initial_status d world caller invitee =
     (let host = ws_host_user_id world in
      if caller = host then
        (if \<not> are_friends d host invitee then Inl Forbidden else Inr Pending)
      else if ws_invite_policy world \<noteq> FriendsOfFriends then Inl Forbidden
      else if \<not> are_friends d host caller then Inl Forbidden
      else if \<not> are_friends d caller invitee then Inl Forbidden
      else if are_friends d host invitee then Inr Pending
      else Inr PendingApproval)"

definition expire_invites :: "env \<Rightarrow> uuid \<Rightarrow> uuid \<Rightarrow> db \<Rightarrow> db" where
  "expire_invites env world_id invitee d =
     d\<lparr>world_invites := sql_update
        (\<lambda>i. wi_world_session_id i = world_id \<and> wi_invitee_user_id i = invitee
             \<and> (wi_status i = Pending \<or> wi_status i = PendingApproval)
             \<and> wi_expires_at i \<le> e_now env)
        (wi_set_status (e_now env) Expired) (world_invites d)\<rparr>"

definition new_invite ::
  "env \<Rightarrow> config \<Rightarrow> uuid \<Rightarrow> uuid \<Rightarrow> uuid \<Rightarrow> uuid \<Rightarrow> request_status \<Rightarrow> world_invite" where
  "new_invite env cfg world_id host caller invitee status =
     \<lparr>wi_id = e_uuid env 0, wi_world_session_id = world_id, wi_host_user_id = host,
      wi_inviter_user_id = caller, wi_invitee_user_id = invitee, wi_status = status,
      wi_expires_at = e_utc env + from_std_or (cf_invite_ttl cfg) (seconds 600),
      wi_created_at = e_now env, wi_updated_at = e_now env\<rparr>"

definition invites_create ::
  "env \<Rightarrow> config \<Rightarrow> user \<Rightarrow> uuid \<Rightarrow> uuid \<Rightarrow> world_invite_dto handler" where
  "invites_create env cfg auth world_id invitee s =
     (let caller = u_id auth; d = st_db s in
      (case load_open_world_session d world_id of
         Inl e \<Rightarrow> (Inl e, s)
       | Inr world \<Rightarrow>
           let host = ws_host_user_id world in
           if invitee = caller then (Inl (BadRequest ''you cannot invite yourself''), s)
           else if invitee = host then
             (Inl (BadRequest ''the host is already in the world''), s)
           else if \<not> user_exists d invitee then (Inl (NotFound ''user not found''), s)
           else
             (case invite_initial_status d world caller invitee of
                Inl e \<Rightarrow> (Inl e, s)
              | Inr status \<Rightarrow>
                  let d1 = expire_invites env world_id invitee d in
                  (case insert_world_invite
                          (new_invite env cfg world_id host caller invitee status) d1 of
                     Inl e \<Rightarrow>
                       (Inl (if is_unique_violation e
                             then Conflict ''an invite for this player is already pending''
                             else Database e), s\<lparr>st_db := d1\<rparr>)
                   | Inr d2 \<Rightarrow>
                       let s2 = s\<lparr>st_db := d2\<rparr>; iid = e_uuid env 0 in
                       (case load_invite d2 iid of
                          Inl e \<Rightarrow> (Inl e, s2)
                        | Inr dto \<Rightarrow>
                            (Inr dto, s2\<lparr>st_signaling :=
                               (if status = Pending
                                then send_to invitee
                                       (WorldInvite iid world_id (wid_inviter dto) (wid_host dto))
                                       (st_signaling s2)
                                else send_to host
                                       (InviteApprovalRequest iid world_id (wid_inviter dto)
                                          (wid_invitee dto)) (st_signaling s2))\<rparr>))))))"

section \<open>Accepting, declining, approving, revoking\<close>

definition wi_transition ::
  "request_status list \<Rightarrow> request_status \<Rightarrow> timestamp \<Rightarrow> uuid \<Rightarrow> world_invite list
    \<Rightarrow> nat \<times> world_invite list" where
  "wi_transition = transition wi_id wi_status wi_set_status"

definition invites_accept_tx ::
  "env \<Rightarrow> config \<Rightarrow> user \<Rightarrow> uuid \<Rightarrow> db
    \<Rightarrow> (world_invite_dto \<times> join_ticket_dto \<times> db) app_result" where
  "invites_accept_tx env cfg auth iid d =
     (case load_invite_for_update d iid of
        Inl e \<Rightarrow> Inl e
      | Inr row \<Rightarrow>
          let invitee = ud_id (wid_invitee row); inviter = ud_id (wid_inviter row);
              host = ud_id (wid_host row); world_id = wid_world_session_id row in
          if invitee \<noteq> u_id auth then Inl Forbidden
          else if wid_status row \<noteq> Pending then Inl (Conflict ''invite is not ready to accept'')
          else if wid_expires_at row \<le> e_utc env then Inl (Conflict ''invite has expired'')
          else
            (case load_open_world_session d world_id of
               Inl e \<Rightarrow> Inl e
             | Inr world \<Rightarrow>
                 if inviter \<noteq> host \<and> ws_invite_policy world \<noteq> FriendsOfFriends then Inl Forbidden
                 else if inviter \<noteq> host \<and> \<not> are_friends d host inviter then Inl Forbidden
                 else if inviter \<noteq> host \<and> \<not> are_friends d inviter invitee then Inl Forbidden
                 else if ws_current_players world \<ge> ws_max_players world
                 then Inl (Conflict ''world is full'')
                 else
                   (case wi_transition [Pending] Accepted (e_now env) iid (world_invites d) of
                      (n, wis) \<Rightarrow>
                        if n \<noteq> 1 then Inl (Conflict ''invite is not ready to accept'')
                        else
                          (case issue_ticket_and_relay_tx env cfg invitee host world_id
                                  (d\<lparr>world_invites := wis\<rparr>) of
                             Inl e \<Rightarrow> Inl e
                           | Inr (ticket, d') \<Rightarrow> Inr (row, ticket, d')))))"

definition invites_accept :: "env \<Rightarrow> config \<Rightarrow> user \<Rightarrow> uuid \<Rightarrow> join_ticket_dto handler" where
  "invites_accept env cfg auth iid s =
     (case invites_accept_tx env cfg auth iid (st_db s) of
        Inl e \<Rightarrow> (Inl e, s)
      | Inr (row, ticket, d) \<Rightarrow>
          let s1 = count_ticket (s\<lparr>st_db := d\<rparr>) in
          (case fetch_user_dto d (ud_id (wid_invitee row)) of
             Inl e \<Rightarrow> (Inl e, s1)
           | Inr guest_dto \<Rightarrow>
               (Inr ticket, s1\<lparr>st_signaling :=
                  send_to (ud_id (wid_host row))
                    (GuestArriving (jd_relay_session_id ticket) (wid_world_session_id row) guest_dto)
                    (st_signaling s1)\<rparr>)))"

definition invites_decline :: "env \<Rightarrow> user \<Rightarrow> uuid \<Rightarrow> world_invite_dto handler" where
  "invites_decline env auth iid s =
     (let d = st_db s in
      (case load_invite d iid of
         Inl e \<Rightarrow> (Inl e, s)
       | Inr row \<Rightarrow>
           if ud_id (wid_invitee row) \<noteq> u_id auth then (Inl Forbidden, s)
           else if wid_status row \<noteq> Pending then (Inl (Conflict ''invite is not pending''), s)
           else
             (case wi_transition [Pending] Declined (e_now env) iid (world_invites d) of
                (n, wis) \<Rightarrow>
                  let d1 = d\<lparr>world_invites := wis\<rparr>; s1 = s\<lparr>st_db := d1\<rparr> in
                  if n = 0 then (Inl (Conflict ''invite is not pending''), s1)
                  else (load_invite d1 iid, s1))))"

definition invites_approve :: "env \<Rightarrow> user \<Rightarrow> uuid \<Rightarrow> world_invite_dto handler" where
  "invites_approve env auth iid s =
     (let d = st_db s in
      (case load_invite d iid of
         Inl e \<Rightarrow> (Inl e, s)
       | Inr row \<Rightarrow>
           if ud_id (wid_host row) \<noteq> u_id auth then (Inl Forbidden, s)
           else if wid_status row \<noteq> PendingApproval then
             (Inl (Conflict ''invite is not awaiting approval''), s)
           else if wid_expires_at row \<le> e_utc env then (Inl (Conflict ''invite has expired''), s)
           else
             (case wi_transition [PendingApproval] Pending (e_now env) iid (world_invites d) of
                (n, wis) \<Rightarrow>
                  let d1 = d\<lparr>world_invites := wis\<rparr>; s1 = s\<lparr>st_db := d1\<rparr> in
                  if n = 0 then (Inl (Conflict ''invite is not awaiting approval''), s1)
                  else
                    (case load_invite d1 iid of
                       Inl e \<Rightarrow> (Inl e, s1)
                     | Inr dto \<Rightarrow>
                         (Inr dto, s1\<lparr>st_signaling :=
                            send_to (ud_id (wid_invitee row))
                              (WorldInvite iid (wid_world_session_id row) (wid_inviter dto)
                                 (wid_host dto)) (st_signaling s1)\<rparr>)))))"

definition invites_revoke :: "env \<Rightarrow> user \<Rightarrow> uuid \<Rightarrow> unit handler" where
  "invites_revoke env auth iid s =
     (let d = st_db s in
      (case load_invite d iid of
         Inl e \<Rightarrow> (Inl e, s)
       | Inr row \<Rightarrow>
           if ud_id (wid_host row) \<noteq> u_id auth \<and> ud_id (wid_inviter row) \<noteq> u_id auth
           then (Inl Forbidden, s)
           else
             (case wi_transition [Pending, PendingApproval] Revoked (e_now env) iid
                     (world_invites d) of
                (n, wis) \<Rightarrow>
                  let s1 = s\<lparr>st_db := d\<lparr>world_invites := wis\<rparr>\<rparr> in
                  if n = 0 then (Inl (Conflict ''invite is no longer active''), s1)
                  else (Inr (), s1))))"

section \<open>Loading an invite\<close>

lemma load_inviteD:
  assumes "load_invite d iid = Inr row"
  obtains i where "sql_find (\<lambda>i. wi_id i = iid) (world_invites d) = Some i" "wi_id i = iid"
    "wid_id row = iid" "wid_status row = wi_status i" "wid_world_session_id row = wi_world_session_id i"
    "wid_expires_at row = wi_expires_at i" "ud_id (wid_inviter row) = wi_inviter_user_id i"
    "ud_id (wid_invitee row) = wi_invitee_user_id i" "ud_id (wid_host row) = wi_host_user_id i"
proof -
  obtain i where i: "sql_find (\<lambda>i. wi_id i = iid) (world_invites d) = Some i"
      "invite_join d i = Some row"
    using assms by (auto simp: load_invite_def bind_eq_Some_conv)
  obtain iu vu hu where u: "find_user d (wi_inviter_user_id i) = Some iu"
      "find_user d (wi_invitee_user_id i) = Some vu" "find_user d (wi_host_user_id i) = Some hu"
    using i(2) by (auto simp: invite_join_def split: option.splits)
  show thesis
    using i u sql_find_SomeD(2) [OF i(1)] u [THEN find_user_Some(2)]
    by (intro that [OF i(1)]) (auto simp: invite_join_def user_dto_from_def)
qed

lemma load_invite_total:
  assumes "db_wf d" "sql_find (\<lambda>i. wi_id i = iid) (world_invites d) = Some i"
  obtains dto where "load_invite d iid = Inr dto" "wid_id dto = iid" "wid_status dto = wi_status i"
proof -
  have i: "i \<in> set (world_invites d)" "wi_id i = iid"
    using sql_find_SomeD [OF assms(2)] by auto
  have "user_exists d (wi_inviter_user_id i)" "user_exists d (wi_invitee_user_id i)"
    "user_exists d (wi_host_user_id i)"
    using assms(1) i(1)
    by (auto simp: db_wf_def world_invites_wf_def fk_def list_all_iff user_exists_iff)
  then obtain iu vu hu where "find_user d (wi_inviter_user_id i) = Some iu"
      "find_user d (wi_invitee_user_id i) = Some vu" "find_user d (wi_host_user_id i) = Some hu"
    using find_user_exists [of d "wi_inviter_user_id i"] find_user_exists [of d "wi_invitee_user_id i"]
      find_user_exists [of d "wi_host_user_id i"] by auto
  then show thesis
    using that assms(2) i(2) by (auto simp: load_invite_def invite_join_def)
qed

lemma wi_find_transition:
  assumes "sql_find (\<lambda>i. wi_id i = iid) rs = Some i" "wi_status i \<in> set src"
  shows "sql_find (\<lambda>i. wi_id i = iid) (snd (wi_transition src new now iid rs)) =
    Some (wi_set_status now new i)"
  using assms sql_find_SomeD(2) [OF assms(1)] by (simp add: wi_transition_def wi.gate_find)

lemma db_wf_wi_transition' [wf_intros]:
  "db_wf d \<Longrightarrow> wi_transition src new now iid (world_invites d) = (n, wis)
     \<Longrightarrow> set src \<subseteq> {Pending, PendingApproval} \<Longrightarrow> db_wf (d\<lparr>world_invites := wis\<rparr>)"
  using db_wf_wi_transition [of d src new now iid] by (simp add: wi_transition_def)

lemma db_wf_expire_invites [wf_intros]: "db_wf d \<Longrightarrow> db_wf (expire_invites env w v d)"
  unfolding expire_invites_def
  by (rule db_wf_update_world_invites) (auto simp: wi_set_status_def wi_active_def)

lemma state_wf_invites_create [wf_intros]:
  "state_wf s \<Longrightarrow> state_wf (snd (invites_create env cfg auth wid v s))"
proof -
  assume wf: "state_wf s"
  have wf1: "db_wf (expire_invites env wid v (st_db s))"
    using wf by (intro db_wf_expire_invites state_wfD)
  show ?thesis
    using wf wf1 db_wf_insert_world_invite [OF _ wf1]
    by (simp add: invites_create_def Let_def state_wf_def split: sum.split)
qed

lemma state_wf_invites_decline [wf_intros]:
  "state_wf s \<Longrightarrow> state_wf (snd (invites_decline env auth iid s))"
  using db_wf_wi_transition' [OF state_wfD(1), of s "[Pending]" Declined "e_now env" iid]
  by (auto simp: invites_decline_def Let_def state_wf_def split: sum.splits prod.splits)

lemma state_wf_invites_approve [wf_intros]:
  "state_wf s \<Longrightarrow> state_wf (snd (invites_approve env auth iid s))"
  using db_wf_wi_transition' [OF state_wfD(1), of s "[PendingApproval]" Pending "e_now env" iid]
  by (auto simp: invites_approve_def Let_def state_wf_def split: sum.splits prod.splits)

lemma state_wf_invites_revoke [wf_intros]:
  "state_wf s \<Longrightarrow> state_wf (snd (invites_revoke env auth iid s))"
  using db_wf_wi_transition' [OF state_wfD(1), of s "[Pending, PendingApproval]" Revoked "e_now env" iid]
  by (auto simp: invites_revoke_def Let_def state_wf_def split: sum.splits prod.splits)

section \<open>Accepting an invite\<close>

lemma invites_accept_txD:
  assumes "invites_accept_tx env cfg auth iid d = Inr (row, t, d')" "db_wf d"
  obtains i w where "sql_find (\<lambda>i. wi_id i = iid) (world_invites d) = Some i"
    "wi_invitee_user_id i = u_id auth" "wi_status i = Pending" "wi_expires_at i > e_utc env"
    "load_open_world_session d (wi_world_session_id i) = Inr w"
    "wi_inviter_user_id i = wi_host_user_id i \<or> ws_invite_policy w = FriendsOfFriends
       \<and> are_friends d (wi_host_user_id i) (wi_inviter_user_id i)
       \<and> are_friends d (wi_inviter_user_id i) (u_id auth)"
    "ws_current_players w < ws_max_players w"
    "issue_ticket_and_relay_tx env cfg (u_id auth) (wi_host_user_id i) (wi_world_session_id i)
       (d\<lparr>world_invites := snd (wi_transition [Pending] Accepted (e_now env) iid (world_invites d))\<rparr>)
       = Inr (t, d')"
    "ud_id (wid_invitee row) = u_id auth" "ud_id (wid_host row) = wi_host_user_id i"
proof -
  have row: "load_invite d iid = Inr row"
    using assms(1)
    by (auto simp: invites_accept_tx_def load_invite_for_update_def Let_def
        split: sum.splits if_splits prod.splits)
  from this obtain i where i: "sql_find (\<lambda>i. wi_id i = iid) (world_invites d) = Some i" "wi_id i = iid"
    "wid_id row = iid" "wid_status row = wi_status i" "wid_world_session_id row = wi_world_session_id i"
    "wid_expires_at row = wi_expires_at i" "ud_id (wid_inviter row) = wi_inviter_user_id i"
    "ud_id (wid_invitee row) = wi_invitee_user_id i" "ud_id (wid_host row) = wi_host_user_id i"
    by (rule load_inviteD)
  show thesis
    using assms(1) row i
    by (auto simp: invites_accept_tx_def load_invite_for_update_def Let_def
        split: sum.splits if_splits prod.splits intro!: that [OF i(1)])
qed

lemma invites_accept_eq:
  assumes "invites_accept_tx env cfg auth iid (st_db s) = Inr (row, t, d')" "state_wf s"
  obtains hub where "invites_accept env cfg auth iid s =
      (Inr t, (count_ticket (s\<lparr>st_db := d'\<rparr>))\<lparr>st_signaling := hub\<rparr>)" "db_wf d'"
proof -
  have wf: "db_wf (st_db s)" using state_wfD(1) [OF assms(2)] .
  from assms(1) wf obtain i :: world_invite where u: "ud_id (wid_invitee row) = u_id auth"
    and iss: "issue_ticket_and_relay_tx env cfg (u_id auth) (wi_host_user_id i) (wi_world_session_id i)
       ((st_db s)\<lparr>world_invites := snd (wi_transition [Pending] Accepted (e_now env) iid
          (world_invites (st_db s)))\<rparr>) = Inr (t, d')"
    by (rule invites_accept_txD) (rule that)
  have wf1: "db_wf ((st_db s)\<lparr>world_invites := snd (wi_transition [Pending] Accepted (e_now env) iid
      (world_invites (st_db s)))\<rparr>)"
    using db_wf_wi_transition [OF wf, of "[Pending]" Accepted "e_now env" iid]
    by (simp add: wi_transition_def)
  have "u_id auth \<in> set (user_ids d')"
    using issue_ticketD(1,6) [OF iss] by simp
  then obtain g where "fetch_user_dto d' (u_id auth) = Inr g"
    using fetch_user_dto_ok by blast
  with assms(1) u db_wf_issue_ticket [OF iss wf1] show thesis
    by (intro that) (simp_all add: invites_accept_def Let_def)
qed

lemma state_wf_invites_accept [wf_intros]:
  assumes "state_wf s"
  shows "state_wf (snd (invites_accept env cfg auth iid s))"
proof (cases "invites_accept_tx env cfg auth iid (st_db s)")
  case (Inl e)
  with assms show ?thesis by (simp add: invites_accept_def)
next
  case (Inr x)
  then obtain row t d' where x: "invites_accept_tx env cfg auth iid (st_db s) = Inr (row, t, d')"
    by (cases x) auto
  from x assms obtain hub where "db_wf d'"
    by (rule invites_accept_eq)
  then show ?thesis
    using assms x by (auto simp: invites_accept_def Let_def state_wf_def split: sum.splits)
qed

section \<open>Properties\<close>

lemma invites_accept_result:
  assumes "state_wf s"
  shows "case invites_accept env cfg auth iid s of
      (Inl e, s') \<Rightarrow> s' = s
    | (Inr t, s') \<Rightarrow>
        (\<exists>i w. sql_find (\<lambda>i. wi_id i = iid) (world_invites (st_db s)) = Some i
           \<and> wi_invitee_user_id i = u_id auth \<and> wi_status i = Pending \<and> e_utc env < wi_expires_at i
           \<and> find_world (st_db s) (wi_world_session_id i) = Some w \<and> ws_open w
           \<and> ws_current_players w < ws_max_players w
           \<and> (wi_inviter_user_id i = wi_host_user_id i
              \<or> ws_invite_policy w = FriendsOfFriends
                \<and> are_friends (st_db s) (wi_host_user_id i) (wi_inviter_user_id i)
                \<and> are_friends (st_db s) (wi_inviter_user_id i) (u_id auth))
           \<and> sql_find (\<lambda>i. wi_id i = iid) (world_invites (st_db s')) =
               Some (wi_set_status (e_now env) Accepted i)
           \<and> join_tickets (st_db s') = join_tickets (st_db s) @
               [new_ticket env cfg (u_id auth) (wi_world_session_id i)]
           \<and> relay_sessions (st_db s') = relay_sessions (st_db s) @
               [new_relay env (u_id auth) (wi_host_user_id i) (wi_world_session_id i)])"
proof (cases "invites_accept_tx env cfg auth iid (st_db s)")
  case (Inl e)
  then show ?thesis by (simp add: invites_accept_def)
next
  case (Inr x)
  then obtain row t d' where x: "invites_accept_tx env cfg auth iid (st_db s) = Inr (row, t, d')"
    by (cases x) auto
  from x state_wfD(1) [OF assms] obtain i w where
    a: "sql_find (\<lambda>i. wi_id i = iid) (world_invites (st_db s)) = Some i"
       "wi_invitee_user_id i = u_id auth" "wi_status i = Pending" "e_utc env < wi_expires_at i"
    and w: "load_open_world_session (st_db s) (wi_world_session_id i) = Inr w"
    and tr: "wi_inviter_user_id i = wi_host_user_id i \<or> ws_invite_policy w = FriendsOfFriends
       \<and> are_friends (st_db s) (wi_host_user_id i) (wi_inviter_user_id i)
       \<and> are_friends (st_db s) (wi_inviter_user_id i) (u_id auth)"
    and cap: "ws_current_players w < ws_max_players w"
    and iss: "issue_ticket_and_relay_tx env cfg (u_id auth) (wi_host_user_id i) (wi_world_session_id i)
       ((st_db s)\<lparr>world_invites := snd (wi_transition [Pending] Accepted (e_now env) iid
          (world_invites (st_db s)))\<rparr>) = Inr (t, d')"
    by (rule invites_accept_txD) (rule that)
  from x assms obtain hub where j: "invites_accept env cfg auth iid s =
      (Inr t, (count_ticket (s\<lparr>st_db := d'\<rparr>))\<lparr>st_signaling := hub\<rparr>)"
    by (rule invites_accept_eq)
  have "find_world (st_db s) (wi_world_session_id i) = Some w" "ws_open w"
    using load_open_world_sessionD [OF w state_wfD(1) [OF assms]] by (auto simp: ws_open_def)
  with a tr cap j show ?thesis
    using issue_ticketD(1) [OF iss] wi_find_transition [OF a(1), of "[Pending]" Accepted "e_now env"]
    by simp
qed

text \<open>
  C4. Admission through an invite: a refused accept changes nothing. An accept that succeeds was made
  by the invitee of a pending, unexpired invite into a world that is open and not full; unless the
  host issued the invite, the world still has the friends-of-friends policy and the chain of trust
  host, inviter, invitee still holds. It marks the invite accepted and adds exactly one ticket and
  one pending relay session for the invitee.
\<close>

theorem invites_accept_admission:
  assumes "state_wf s"
  shows "case invites_accept env cfg auth iid s of
      (Inl e, s') \<Rightarrow> s' = s
    | (Inr t, s') \<Rightarrow>
        (\<exists>i w. sql_find (\<lambda>i. wi_id i = iid) (world_invites (st_db s)) = Some i
           \<and> wi_invitee_user_id i = u_id auth \<and> wi_status i = Pending \<and> e_utc env < wi_expires_at i
           \<and> find_world (st_db s) (wi_world_session_id i) = Some w \<and> ws_open w
           \<and> ws_current_players w < ws_max_players w
           \<and> (wi_inviter_user_id i = wi_host_user_id i
              \<or> ws_invite_policy w = FriendsOfFriends
                \<and> are_friends (st_db s) (wi_host_user_id i) (wi_inviter_user_id i)
                \<and> are_friends (st_db s) (wi_inviter_user_id i) (u_id auth))
           \<and> sql_find (\<lambda>i. wi_id i = iid) (world_invites (st_db s')) =
               Some (wi_set_status (e_now env) Accepted i)
           \<and> join_tickets (st_db s') = join_tickets (st_db s) @
               [new_ticket env cfg (u_id auth) (wi_world_session_id i)]
           \<and> relay_sessions (st_db s') = relay_sessions (st_db s) @
               [new_relay env (u_id auth) (wi_host_user_id i) (wi_world_session_id i)])"
  using assms by (rule invites_accept_result)

definition sample_invite_db :: db where
  "sample_invite_db = sample_db\<lparr>world_invites :=
     [\<lparr>wi_id = 70, wi_world_session_id = 10, wi_host_user_id = 1, wi_inviter_user_id = 2,
       wi_invitee_user_id = 3, wi_status = Pending, wi_expires_at = 2000000, wi_created_at = 0,
       wi_updated_at = 0\<rparr>]\<rparr>"

definition sample_invite_state :: app_state where
  "sample_invite_state = sample_state\<lparr>st_db := sample_invite_db\<rparr>"

lemma sample_invite_wf [simp]: "state_wf sample_invite_state"
  by code_simp

theorem invites_accept_admission_witness:
  "(\<exists>t. fst (invites_accept sample_env sample_cfg carol 70 sample_invite_state) = Inr t)
   \<and> length (join_tickets (st_db (snd (invites_accept sample_env sample_cfg carol 70
        sample_invite_state)))) = 1
   \<and> snd (invites_accept sample_env sample_cfg dave 70 sample_invite_state) = sample_invite_state"
proof -
  have ok: "\<not> isl (fst (invites_accept sample_env sample_cfg carol 70 sample_invite_state))"
    and no: "fst (invites_accept sample_env sample_cfg dave 70 sample_invite_state) = Inl Forbidden"
    and nil: "join_tickets (st_db sample_invite_state) = []"
    by code_simp+
  obtain t where t: "fst (invites_accept sample_env sample_cfg carol 70 sample_invite_state) = Inr t"
    using ok by (cases "fst (invites_accept sample_env sample_cfg carol 70 sample_invite_state)") auto
  show ?thesis
    using invites_accept_admission [where s = sample_invite_state and env = sample_env
        and cfg = sample_cfg and auth = carol and iid = 70]
      invites_accept_admission [where s = sample_invite_state and env = sample_env
        and cfg = sample_cfg and auth = dave and iid = 70] t no nil
    by (auto split: prod.splits)
qed

fun run_invite_accepts ::
  "config \<Rightarrow> uuid \<Rightarrow> (env \<times> user) list \<Rightarrow> app_state \<Rightarrow> join_ticket_dto app_result list \<times> app_state" where
  "run_invite_accepts cfg iid [] s = ([], s)"
| "run_invite_accepts cfg iid ((env, auth) # calls) s =
     (let (res, s1) = invites_accept env cfg auth iid s;
          (rest, s2) = run_invite_accepts cfg iid calls s1
      in (res # rest, s2))"

definition wi_settled :: "uuid \<Rightarrow> app_state \<Rightarrow> bool" where
  "wi_settled iid s \<longleftrightarrow>
     (\<forall>i. sql_find (\<lambda>i. wi_id i = iid) (world_invites (st_db s)) = Some i \<longrightarrow> wi_status i \<noteq> Pending)"

lemma invites_accept_cases:
  assumes "state_wf s"
  obtains (refused) e where "invites_accept env cfg auth iid s = (Inl e, s)"
  | (admitted) t s' where "invites_accept env cfg auth iid s = (Inr t, s')" "\<not> wi_settled iid s"
      "wi_settled iid s'" "length (join_tickets (st_db s')) = Suc (length (join_tickets (st_db s)))"
  using invites_accept_result [OF assms, where env = env and cfg = cfg and auth = auth and iid = iid]
  by (cases "invites_accept env cfg auth iid s" rule: prod.exhaust;
      cases "fst (invites_accept env cfg auth iid s)")
    (auto simp: wi_settled_def wi_set_status_def)

text \<open>
  One invite mints at most one ticket: over any sequence of accept calls on the same invite, at
  most one succeeds, and the number of tickets grows by exactly the number of successes.
\<close>

theorem invite_accepts_mint_once:
  assumes "state_wf s"
  shows "successes (fst (run_invite_accepts cfg iid calls s)) \<le> (if wi_settled iid s then 0 else 1)
    \<and> length (join_tickets (st_db (snd (run_invite_accepts cfg iid calls s)))) =
        length (join_tickets (st_db s)) + successes (fst (run_invite_accepts cfg iid calls s))"
  using assms
proof (induction calls arbitrary: s)
  case (Cons call calls)
  obtain env auth where call: "call = (env, auth)" by (cases call)
  from Cons.prems show ?case
  proof (cases rule: invites_accept_cases [where env = env and cfg = cfg and auth = auth and iid = iid])
    case (refused e)
    with Cons call show ?thesis by (simp add: split_beta)
  next
    case (admitted t s')
    have "state_wf s'"
      using state_wf_invites_accept [OF Cons.prems, of env cfg auth iid] admitted(1) by simp
    from Cons.IH [OF this] admitted call show ?thesis by (simp add: split_beta)
  qed
qed simp

text \<open>
  Who may invite whom: an invite is created only into an open world, for an existing account that
  is neither the caller nor the host. The host may invite only friends, and such an invite is ready
  to accept. Anyone else needs the friends-of-friends policy, must be the host's friend and invite
  an own friend; the invite waits for the host's approval exactly when the invitee is not the
  host's friend. The new invite is the only active one for that player in that world, and it is
  announced to the invitee, or to the host when it needs approval.
\<close>

theorem invites_create_effect:
  assumes "state_wf s"
  shows "case invites_create env cfg auth wid v s of
      (Inl e, s') \<Rightarrow> st_db s' = st_db s \<or> st_db s' = expire_invites env wid v (st_db s)
    | (Inr dto, s') \<Rightarrow>
        (\<exists>w. find_world (st_db s) wid = Some w \<and> ws_open w \<and> v \<noteq> u_id auth \<and> v \<noteq> ws_host_user_id w
           \<and> user_exists (st_db s) v
           \<and> (if u_id auth = ws_host_user_id w
              then are_friends (st_db s) (u_id auth) v \<and> wid_status dto = Pending
              else ws_invite_policy w = FriendsOfFriends
                \<and> are_friends (st_db s) (ws_host_user_id w) (u_id auth)
                \<and> are_friends (st_db s) (u_id auth) v
                \<and> wid_status dto = (if are_friends (st_db s) (ws_host_user_id w) v
                     then Pending else PendingApproval))
           \<and> filter (\<lambda>i. (wi_world_session_id i, wi_invitee_user_id i) = (wid, v) \<and> wi_active i)
               (world_invites (st_db s')) =
               [new_invite env cfg wid (ws_host_user_id w) (u_id auth) v (wid_status dto)]
           \<and> st_signaling s' =
               (if wid_status dto = Pending
                then send_to v (WorldInvite (e_uuid env 0) wid (wid_inviter dto) (wid_host dto))
                       (st_signaling s)
                else send_to (ws_host_user_id w) (InviteApprovalRequest (e_uuid env 0) wid
                       (wid_inviter dto) (wid_invitee dto)) (st_signaling s)))"
proof (cases "load_open_world_session (st_db s) wid")
  case (Inl e)
  then show ?thesis by (simp add: invites_create_def Let_def)
next
  case lw: (Inr w)
  note w = load_open_world_sessionD [OF lw state_wfD(1) [OF assms]]
  show ?thesis
  proof (cases "invite_initial_status (st_db s) w (u_id auth) v")
    case (Inl e)
    with lw show ?thesis by (simp add: invites_create_def Let_def)
  next
    case st: (Inr st)
    have active: "st = Pending \<or> st = PendingApproval"
      using st by (auto simp: invite_initial_status_def Let_def split: if_splits)
    let ?d1 = "expire_invites env wid v (st_db s)"
    let ?i = "new_invite env cfg wid (ws_host_user_id w) (u_id auth) v st"
    show ?thesis
    proof (cases "insert_world_invite ?i ?d1")
      case (Inl e)
      with lw st show ?thesis by (simp add: invites_create_def Let_def)
    next
      case ins: (Inr d2)
      have wf2: "db_wf d2"
        using db_wf_insert_world_invite [OF ins] db_wf_expire_invites state_wfD(1) [OF assms] by blast
      have in2: "?i \<in> set (world_invites d2)"
        using ins by (auto simp: insert_world_invite_def split: if_splits)
      have wi2: "unique_index always wi_id (world_invites d2)"
        "unique_index wi_active (\<lambda>i. (wi_world_session_id i, wi_invitee_user_id i)) (world_invites d2)"
        using db_wfD(11) [OF wf2] by (auto simp: world_invites_wf_def)
      have flt: "filter (\<lambda>i. (wi_world_session_id i, wi_invitee_user_id i) = (wid, v) \<and> wi_active i)
          (world_invites d2) = [?i]"
        by (rule unique_index_filter [OF wi2(2) in2])
          (use active in \<open>auto simp: new_invite_def wi_active_def\<close>)
      have fnd: "sql_find (\<lambda>i. wi_id i = e_uuid env 0) (world_invites d2) = Some ?i"
        by (rule sql_find_unique [OF wi2(1) in2]) (simp add: new_invite_def)
      obtain dto where dto: "load_invite d2 (e_uuid env 0) = Inr dto" "wid_status dto = st"
        by (rule load_invite_total [OF wf2 fnd]) (simp add: new_invite_def)
      have rule: "if u_id auth = ws_host_user_id w
          then are_friends (st_db s) (u_id auth) v \<and> st = Pending
          else ws_invite_policy w = FriendsOfFriends
            \<and> are_friends (st_db s) (ws_host_user_id w) (u_id auth)
            \<and> are_friends (st_db s) (u_id auth) v
            \<and> st = (if are_friends (st_db s) (ws_host_user_id w) v then Pending else PendingApproval)"
        using st by (auto simp: invite_initial_status_def Let_def split: if_splits)
      show ?thesis
        using lw st ins dto flt w rule
        by (simp add: invites_create_def Let_def ws_open_def) (auto split: if_splits)
    qed
  qed
qed

end
