(* ===== verification/Cleanup.thy ===== *)
theory Cleanup
  imports Invites
begin

text \<open>
  \<^verbatim>\<open>network/src/cleanup.rs\<close>: the hourly sweep that expires lapsed join requests and invites,
  reclaims spent tickets and deletes terminal rows and analytics events past the retention
  window. The statements run outside a transaction, so a failing one keeps what the earlier ones
  did. The loop over the event log is a partial function: with a chunk of zero it would never
  return, and that it does return is proved.
\<close>

section \<open>Counts\<close>

record cleanup_counts =
  cc_expired_join_requests :: nat
  cc_expired_invites :: nat
  cc_deleted_join_tickets :: nat
  cc_deleted_terminal_join_requests :: nat
  cc_deleted_terminal_invites :: nat
  cc_deleted_user_events :: nat

definition cleanup_total :: "cleanup_counts \<Rightarrow> nat" where
  "cleanup_total c = cc_expired_join_requests c + cc_expired_invites c + cc_deleted_join_tickets c
     + cc_deleted_terminal_join_requests c + cc_deleted_terminal_invites c
     + cc_deleted_user_events c"

section \<open>The statements\<close>

text \<open>\<^verbatim>\<open>$1::int\<close> refuses a value outside 32 bits; \<^verbatim>\<open>now() - make_interval(days => n)\<close>.\<close>

definition in_int4 :: "int \<Rightarrow> bool" where
  "in_int4 n \<longleftrightarrow> - (2 ^ 31) \<le> n \<and> n < 2 ^ 31"

definition cutoff :: "env \<Rightarrow> int \<Rightarrow> timestamp" where
  "cutoff env retention_days = e_now env - days retention_days"

definition TERMINAL_JOIN_REQUEST :: "request_status list" where
  "TERMINAL_JOIN_REQUEST = [Accepted, Declined, Expired]"

definition TERMINAL_INVITE :: "request_status list" where
  "TERMINAL_INVITE = [Accepted, Declined, Revoked, Expired]"

definition lapsed_join_request :: "env \<Rightarrow> join_request \<Rightarrow> bool" where
  "lapsed_join_request env r \<longleftrightarrow> jr_status r = Pending \<and> jr_expires_at r \<le> e_now env"

definition lapsed_invite :: "env \<Rightarrow> world_invite \<Rightarrow> bool" where
  "lapsed_invite env r \<longleftrightarrow> wi_status r \<in> set [Pending, PendingApproval] \<and> wi_expires_at r \<le> e_now env"

definition spent_ticket :: "env \<Rightarrow> int \<Rightarrow> join_ticket \<Rightarrow> bool" where
  "spent_ticket env retention_days t \<longleftrightarrow> jt_created_at t < cutoff env retention_days
     \<and> (jt_consumed_at t \<noteq> None \<or> jt_expires_at t \<le> e_now env)"

definition aged_join_request :: "env \<Rightarrow> int \<Rightarrow> join_request \<Rightarrow> bool" where
  "aged_join_request env retention_days r \<longleftrightarrow> jr_status r \<in> set TERMINAL_JOIN_REQUEST
     \<and> jr_updated_at r < cutoff env retention_days"

definition aged_invite :: "env \<Rightarrow> int \<Rightarrow> world_invite \<Rightarrow> bool" where
  "aged_invite env retention_days r \<longleftrightarrow> wi_status r \<in> set TERMINAL_INVITE
     \<and> wi_updated_at r < cutoff env retention_days"

definition aged_event :: "env \<Rightarrow> int \<Rightarrow> user_event \<Rightarrow> bool" where
  "aged_event env retention_days e \<longleftrightarrow> ue_created_at e < cutoff env retention_days"

section \<open>The chunked deletion\<close>

definition delete_chunk :: "env \<Rightarrow> int \<Rightarrow> int \<Rightarrow> db \<Rightarrow> nat \<times> db" where
  "delete_chunk env retention_days chunk d =
     (let ids = map ue_id (limit chunk
            (order_by (\<lambda>a b. ue_created_at a \<le> ue_created_at b)
              (filter (aged_event env retention_days) (user_events d))));
          doomed = (\<lambda>e. ue_id e \<in> set ids) in
      (sql_affected doomed (user_events d),
       d\<lparr>user_events := sql_delete doomed (user_events d)\<rparr>))"

text \<open>Postgres refuses a negative \<^verbatim>\<open>LIMIT\<close>; \<^verbatim>\<open>chunk as u64\<close> is only reached with another.\<close>

partial_function (option) delete_aged_user_events_in_chunks ::
  "env \<Rightarrow> int \<Rightarrow> int \<Rightarrow> nat \<Rightarrow> db \<Rightarrow> (nat app_result \<times> db) option" where
  "delete_aged_user_events_in_chunks env retention_days chunk deleted d =
     (if \<not> in_int4 retention_days \<or> chunk < 0 then Some (Inl (Database OutOfRange), d)
      else let (affected, d1) = delete_chunk env retention_days chunk d;
               deleted1 = deleted + affected in
           if int affected < chunk then Some (Inr deleted1, d1)
           else delete_aged_user_events_in_chunks env retention_days chunk deleted1 d1)"

declare delete_aged_user_events_in_chunks.simps [code]

definition USER_EVENT_DELETE_CHUNK :: int where
  "USER_EVENT_DELETE_CHUNK = 50000"

definition delete_aged_user_events :: "env \<Rightarrow> int \<Rightarrow> db \<Rightarrow> (nat app_result \<times> db) option" where
  "delete_aged_user_events env retention_days d =
     delete_aged_user_events_in_chunks env retention_days USER_EVENT_DELETE_CHUNK 0 d"

section \<open>The sweep\<close>

definition expire_lapsed :: "env \<Rightarrow> db \<Rightarrow> db" where
  "expire_lapsed env d = d
     \<lparr>join_requests := sql_update (lapsed_join_request env) (jr_set_status (e_now env) Expired)
        (join_requests d),
      world_invites := sql_update (lapsed_invite env) (wi_set_status (e_now env) Expired)
        (world_invites d)\<rparr>"

definition delete_terminal :: "env \<Rightarrow> int \<Rightarrow> db \<Rightarrow> db" where
  "delete_terminal env retention_days d = d
     \<lparr>join_requests := sql_delete (aged_join_request env retention_days) (join_requests d),
      world_invites := sql_delete (aged_invite env retention_days) (world_invites d)\<rparr>"

definition cleanup_stale_join_state ::
  "env \<Rightarrow> int \<Rightarrow> db \<Rightarrow> (cleanup_counts app_result \<times> db) option" where
  "cleanup_stale_join_state env retention_days d =
     (let expired_join_requests = sql_affected (lapsed_join_request env) (join_requests d);
          expired_invites = sql_affected (lapsed_invite env) (world_invites d);
          d2 = expire_lapsed env d in
      if \<not> in_int4 retention_days then Some (Inl (Database OutOfRange), d2)
      else
        let deleted_join_tickets = sql_affected (spent_ticket env retention_days) (join_tickets d2);
            d3 = delete_join_tickets (spent_ticket env retention_days) d2;
            deleted_terminal_join_requests =
              sql_affected (aged_join_request env retention_days) (join_requests d3);
            deleted_terminal_invites =
              sql_affected (aged_invite env retention_days) (world_invites d3);
            d5 = delete_terminal env retention_days d3 in
        (case delete_aged_user_events env retention_days d5 of
           None \<Rightarrow> None
         | Some (Inl e, d6) \<Rightarrow> Some (Inl e, d6)
         | Some (Inr deleted_user_events, d6) \<Rightarrow>
             Some (Inr \<lparr>cc_expired_join_requests = expired_join_requests,
                        cc_expired_invites = expired_invites,
                        cc_deleted_join_tickets = deleted_join_tickets,
                        cc_deleted_terminal_join_requests = deleted_terminal_join_requests,
                        cc_deleted_terminal_invites = deleted_terminal_invites,
                        cc_deleted_user_events = deleted_user_events\<rparr>, d6)))"

section \<open>One chunk\<close>

lemma filter_in_take:
  assumes "unique_index always ue_id rs" "ys = take n (order_by le (filter p rs))"
  shows "sql_affected (\<lambda>e. ue_id e \<in> set (map ue_id ys)) rs = min n (sql_affected p rs)"
    and "\<And>e. e \<in> set rs \<Longrightarrow> ue_id e \<in> set (map ue_id ys) \<longleftrightarrow> e \<in> set ys"
proof -
  have dist: "distinct (map ue_id rs)"
    using assms(1) by (simp add: unique_index_def)
  have sub: "set ys \<subseteq> {e \<in> set rs. p e}"
    using set_take_subset [of n "order_by le (filter p rs)"] by (auto simp: assms(2))
  show iff: "ue_id e \<in> set (map ue_id ys) \<longleftrightarrow> e \<in> set ys" if "e \<in> set rs" for e
    using that sub unique_indexD [OF assms(1)] by (auto simp: image_iff)
  have "distinct ys"
    using dist by (auto simp: assms(2) distinct_map intro: distinct_filter)
  moreover have "set (filter (\<lambda>e. ue_id e \<in> set (map ue_id ys)) rs) = set ys"
    using iff sub by auto
  moreover have "distinct (filter (\<lambda>e. ue_id e \<in> set (map ue_id ys)) rs)"
    using dist by (simp add: distinct_map)
  ultimately have "sql_affected (\<lambda>e. ue_id e \<in> set (map ue_id ys)) rs = length ys"
    by (metis sql_affected_def distinct_card)
  then show "sql_affected (\<lambda>e. ue_id e \<in> set (map ue_id ys)) rs = min n (sql_affected p rs)"
    by (simp add: assms(2) sql_affected_def min.commute)
qed

lemma delete_chunk_spec:
  assumes "unique_index always ue_id (user_events d)" "delete_chunk env n chunk d = (affected, d1)"
    and "0 \<le> chunk"
  shows "int affected = min chunk (int (sql_affected (aged_event env n) (user_events d)))"
    and "\<exists>q. (\<forall>e. q e \<longrightarrow> aged_event env n e) \<and> d1 = d\<lparr>user_events := sql_delete q (user_events d)\<rparr>
           \<and> affected = sql_affected q (user_events d)"
proof -
  let ?ys = "take (nat chunk) (order_by (\<lambda>a b. ue_created_at a \<le> ue_created_at b)
    (filter (aged_event env n) (user_events d)))"
  let ?q = "\<lambda>e. ue_id e \<in> set (map ue_id ?ys)"
  note spec = filter_in_take [OF assms(1) refl]
  have d1: "d1 = d\<lparr>user_events := sql_delete ?q (user_events d)\<rparr>"
    and aff: "affected = sql_affected ?q (user_events d)"
    using assms(2) by (auto simp: delete_chunk_def Let_def limit_def)
  show "int affected = min chunk (int (sql_affected (aged_event env n) (user_events d)))"
    using spec(1) [of "nat chunk" "\<lambda>a b. ue_created_at a \<le> ue_created_at b" "aged_event env n"] assms(3)
    by (simp add: aff flip: of_nat_min)
  let ?q' = "\<lambda>e. e \<in> set (user_events d) \<and> e \<in> set ?ys"
  have same: "?q e \<longleftrightarrow> ?q' e" if "e \<in> set (user_events d)" for e
    using spec(2) [OF that] that by blast
  have del: "sql_delete ?q (user_events d) = sql_delete ?q' (user_events d)"
    using same by (auto simp: sql_delete_def intro!: filter_cong)
  have num: "sql_affected ?q (user_events d) = sql_affected ?q' (user_events d)"
    using same by (auto simp: sql_affected_def intro!: filter_cong arg_cong [of _ _ length])
  have "\<forall>e. ?q' e \<longrightarrow> aged_event env n e"
    using set_take_subset [of "nat chunk" "order_by (\<lambda>a b. ue_created_at a \<le> ue_created_at b)
      (filter (aged_event env n) (user_events d))"] by auto
  then show "\<exists>q. (\<forall>e. q e \<longrightarrow> aged_event env n e)
      \<and> d1 = d\<lparr>user_events := sql_delete q (user_events d)\<rparr>
      \<and> affected = sql_affected q (user_events d)"
    using d1 [unfolded del] aff [unfolded num] by (intro exI [of _ ?q'] conjI)
qed

section \<open>Deleting in two steps\<close>

lemma sql_delete_twice:
  assumes "\<And>e. q e \<Longrightarrow> p e"
  shows "sql_delete p (sql_delete q rs) = sql_delete p rs"
    and "sql_affected q rs + sql_affected p (sql_delete q rs) = sql_affected p rs"
  using assms by (induction rs) (auto simp: sql_delete_def sql_affected_def)

lemma sql_affected_mono: "(\<And>e. q e \<Longrightarrow> p e) \<Longrightarrow> sql_affected q rs \<le> sql_affected p rs"
  by (induction rs) (auto simp: sql_affected_def le_SucI)

lemma sql_delete_all:
  assumes "\<And>e. q e \<Longrightarrow> p e" "sql_affected q rs = sql_affected p rs"
  shows "sql_delete q rs = sql_delete p rs"
  using assms
proof (induction rs)
  case (Cons r rs)
  then show ?case
    using sql_affected_mono [of q p rs]
    by (auto simp: sql_delete_def sql_affected_def split: if_splits)
qed (simp add: sql_delete_def)

lemma in_chunks_drains:
  assumes "unique_index always ue_id (user_events d)" "0 < chunk" "in_int4 n"
  shows "delete_aged_user_events_in_chunks env n chunk deleted d =
    Some (Inr (deleted + sql_affected (aged_event env n) (user_events d)),
          d\<lparr>user_events := sql_delete (aged_event env n) (user_events d)\<rparr>)"
  using assms(1)
proof (induction "length (user_events d)" arbitrary: d deleted rule: less_induct)
  case less
  let ?p = "aged_event env n"
  obtain affected d1 where c: "delete_chunk env n chunk d = (affected, d1)"
    by (cases "delete_chunk env n chunk d")
  note spec = delete_chunk_spec [OF less.prems c order.strict_implies_order [OF assms(2)]]
  from spec(2) obtain q where q: "\<And>e. q e \<Longrightarrow> ?p e"
    and d1: "d1 = d\<lparr>user_events := sql_delete q (user_events d)\<rparr>"
    and aff: "affected = sql_affected q (user_events d)" by blast
  show ?case
  proof (cases "int affected < chunk")
    case True
    with spec(1) have "affected = sql_affected ?p (user_events d)" by (simp add: min_def split: if_splits)
    moreover from this q aff have "sql_delete q (user_events d) = sql_delete ?p (user_events d)"
      by (intro sql_delete_all) auto
    ultimately show ?thesis
      using True assms(2,3) by (subst delete_aged_user_events_in_chunks.simps) (simp add: c d1)
  next
    case False
    have "length (user_events d1) < length (user_events d)"
      using False assms(2) sql_delete_affected [of q "user_events d"] by (simp add: d1 aff)
    moreover have "unique_index always ue_id (user_events d1)"
      using less.prems by (simp add: d1)
    ultimately have "delete_aged_user_events_in_chunks env n chunk (deleted + affected) d1 =
      Some (Inr (deleted + affected + sql_affected ?p (user_events d1)),
            d1\<lparr>user_events := sql_delete ?p (user_events d1)\<rparr>)"
      by (rule less.hyps)
    moreover have "affected + sql_affected ?p (user_events d1) = sql_affected ?p (user_events d)"
      "sql_delete ?p (user_events d1) = sql_delete ?p (user_events d)"
      using sql_delete_twice [of q ?p "user_events d"] q by (simp_all add: d1 aff)
    ultimately show ?thesis
      using False assms(2,3)
      by (subst delete_aged_user_events_in_chunks.simps) (simp add: c d1 add.assoc)
  qed
qed

section \<open>The whole sweep\<close>

definition swept :: "env \<Rightarrow> int \<Rightarrow> db \<Rightarrow> db" where
  "swept env n d =
     (let d5 = delete_terminal env n (delete_join_tickets (spent_ticket env n) (expire_lapsed env d))
      in d5\<lparr>user_events := sql_delete (aged_event env n) (user_events d5)\<rparr>)"

lemma sweep_keeps [simp]:
  "user_events (expire_lapsed env d) = user_events d"
  "user_events (delete_join_tickets p d) = user_events d"
  "user_events (delete_terminal env n d) = user_events d"
  "join_tickets (expire_lapsed env d) = join_tickets d"
  "join_tickets (delete_terminal env n d) = join_tickets d"
  "join_tickets (delete_join_tickets p d) = sql_delete p (join_tickets d)"
  "join_requests (delete_join_tickets p d) = join_requests d"
  "world_invites (delete_join_tickets p d) = world_invites d"
  "relay_sessions (expire_lapsed env d) = relay_sessions d"
  "relay_sessions (delete_terminal env n d) = relay_sessions d"
  by (simp_all add: expire_lapsed_def delete_join_tickets_def delete_terminal_def Let_def)

lemma swept_tables [simp]:
  "join_requests (swept env n d) = sql_delete (aged_join_request env n)
     (sql_update (lapsed_join_request env) (jr_set_status (e_now env) Expired) (join_requests d))"
  "world_invites (swept env n d) = sql_delete (aged_invite env n)
     (sql_update (lapsed_invite env) (wi_set_status (e_now env) Expired) (world_invites d))"
  "join_tickets (swept env n d) = sql_delete (spent_ticket env n) (join_tickets d)"
  "user_events (swept env n d) = sql_delete (aged_event env n) (user_events d)"
  "relay_sessions (swept env n d) =
     relay_sessions (delete_join_tickets (spent_ticket env n) (expire_lapsed env d))"
  by (simp_all add: swept_def Let_def)
    (simp_all add: expire_lapsed_def delete_join_tickets_def delete_terminal_def Let_def)

lemma db_wf_expire_lapsed [wf_intros]:
  assumes "db_wf d"
  shows "db_wf (expire_lapsed env d)"
proof -
  let ?d1 = "d\<lparr>join_requests := sql_update (lapsed_join_request env)
    (jr_set_status (e_now env) Expired) (join_requests d)\<rparr>"
  have "db_wf ?d1"
    by (rule db_wf_update_join_requests [OF assms]) (auto simp: jr_set_status_def jr_pending_def)
  then have "db_wf (?d1\<lparr>world_invites := sql_update (lapsed_invite env)
      (wi_set_status (e_now env) Expired) (world_invites ?d1)\<rparr>)"
    by (rule db_wf_update_world_invites) (auto simp: wi_set_status_def wi_active_def)
  then show ?thesis by (simp add: expire_lapsed_def)
qed

lemma db_wf_delete_terminal [wf_intros]: "db_wf d \<Longrightarrow> db_wf (delete_terminal env n d)"
  using db_wf_delete_simple(5) [of d "aged_join_request env n"]
    db_wf_delete_simple(7) [of "d\<lparr>join_requests := sql_delete (aged_join_request env n) (join_requests d)\<rparr>"
      "aged_invite env n"]
  by (simp add: delete_terminal_def)

lemma db_wf_swept [wf_intros]: "db_wf d \<Longrightarrow> db_wf (swept env n d)"
  unfolding swept_def Let_def
  by (intro db_wf_delete_simple(8) db_wf_delete_terminal db_wf_delete_join_tickets
      db_wf_expire_lapsed)

lemma delete_aged_user_events_eq:
  assumes "db_wf d" "in_int4 n"
  shows "delete_aged_user_events env n d =
    Some (Inr (sql_affected (aged_event env n) (user_events d)),
          d\<lparr>user_events := sql_delete (aged_event env n) (user_events d)\<rparr>)"
proof -
  have "unique_index always ue_id (user_events d)"
    using db_wfD(12) [OF assms(1)] by (simp add: user_events_wf_def)
  then show ?thesis
    using assms(2)
    by (simp add: delete_aged_user_events_def in_chunks_drains USER_EVENT_DELETE_CHUNK_def)
qed

lemma sql_affected_delete: "sql_affected p rs + length (sql_delete p rs) = length rs"
  using sql_delete_affected [of p rs] by simp

lemma cleanup_result:
  assumes "db_wf d" "in_int4 n"
  shows "\<exists>c. cleanup_stale_join_state env n d = Some (Inr c, swept env n d)
    \<and> cc_expired_join_requests c = sql_affected (lapsed_join_request env) (join_requests d)
    \<and> cc_expired_invites c = sql_affected (lapsed_invite env) (world_invites d)
    \<and> cc_deleted_join_tickets c + length (join_tickets (swept env n d)) = length (join_tickets d)
    \<and> cc_deleted_terminal_join_requests c + length (join_requests (swept env n d))
        = length (join_requests d)
    \<and> cc_deleted_terminal_invites c + length (world_invites (swept env n d))
        = length (world_invites d)
    \<and> cc_deleted_user_events c + length (user_events (swept env n d)) = length (user_events d)"
proof -
  let ?d5 = "delete_terminal env n (delete_join_tickets (spent_ticket env n) (expire_lapsed env d))"
  have "db_wf ?d5"
    by (intro db_wf_delete_terminal db_wf_delete_join_tickets db_wf_expire_lapsed assms(1))
  note ev = delete_aged_user_events_eq [OF this assms(2)]
  show ?thesis
    by (simp add: cleanup_stale_join_state_def Let_def assms(2) ev del: swept_tables)
      (simp add: swept_def Let_def sql_affected_delete, simp add: expire_lapsed_def
        delete_terminal_def sql_affected_delete)
qed

section \<open>Properties\<close>

text \<open>
  C40. Deleting the aged events in chunks terminates for every positive chunk size and is the
  deletion in one statement: every event past the retention window is gone, every other event
  stays, and the total counts the deleted rows.
\<close>

theorem chunked_delete_is_delete:
  assumes "db_wf d" "0 < chunk" "in_int4 n"
  shows "delete_aged_user_events_in_chunks env n chunk 0 d =
    Some (Inr (length (filter (aged_event env n) (user_events d))),
          d\<lparr>user_events := filter (\<lambda>e. cutoff env n \<le> ue_created_at e) (user_events d)\<rparr>)"
proof -
  have "unique_index always ue_id (user_events d)"
    using db_wfD(12) [OF assms(1)] by (simp add: user_events_wf_def)
  moreover have "sql_delete (aged_event env n) (user_events d) =
      filter (\<lambda>e. cutoff env n \<le> ue_created_at e) (user_events d)"
    by (auto simp: sql_delete_def aged_event_def intro!: filter_cong)
  ultimately show ?thesis
    using assms(2,3) by (simp add: in_chunks_drains sql_affected_def)
qed

definition sample_event :: "nat \<Rightarrow> timestamp \<Rightarrow> user_event" where
  "sample_event n created =
     \<lparr>ue_id = n, ue_user_id = None, ue_event_type = ''aged'', ue_event_data = None,
      ue_created_at = created\<rparr>"

definition sample_events_db :: db where
  "sample_events_db = sample_db
     \<lparr>user_events := [sample_event 1 (- days 40), sample_event 2 (- days 41),
        sample_event 3 (- days 42), sample_event 4 (- days 43), sample_event 5 (- days 44),
        sample_event 6 0], user_events_seq := 6\<rparr>"

theorem chunked_delete_is_delete_witness:
  "delete_aged_user_events_in_chunks sample_env 30 2 0 sample_events_db =
     Some (Inr 5, sample_events_db\<lparr>user_events := [sample_event 6 0]\<rparr>)"
proof -
  have wf: "db_wf sample_events_db" by code_simp
  have r: "in_int4 30" by code_simp
  show ?thesis
    using chunked_delete_is_delete [OF wf _ r, of 2 sample_env]
    by (simp add: sample_events_db_def sample_event_def sample_env_def cutoff_def aged_event_def
        days_def)
qed

text \<open>
  C39. One sweep with a retention window that is not negative always returns. Afterwards no
  pending request or invite has lapsed; a request or invite that was still pending and had not
  lapsed is untouched and a lapsed one has become expired, so only settled rows are deleted; a
  ticket is gone only if it was consumed or had expired; every relay keeps everything but the
  pointer to its ticket; and the constraints hold.
\<close>

theorem cleanup_effect:
  assumes "db_wf d" "in_int4 n" "0 \<le> n"
  shows "\<exists>c d'. cleanup_stale_join_state env n d = Some (Inr c, d') \<and> db_wf d'
    \<and> (\<forall>r \<in> set (join_requests d'). \<not> lapsed_join_request env r)
    \<and> (\<forall>r \<in> set (world_invites d'). \<not> lapsed_invite env r)
    \<and> (\<forall>r \<in> set (join_requests d). jr_status r = Pending \<longrightarrow>
         (if lapsed_join_request env r then jr_set_status (e_now env) Expired r else r)
           \<in> set (join_requests d'))
    \<and> (\<forall>r \<in> set (world_invites d). wi_active r \<longrightarrow>
         (if lapsed_invite env r then wi_set_status (e_now env) Expired r else r)
           \<in> set (world_invites d'))
    \<and> (\<forall>t \<in> set (join_tickets d). t \<notin> set (join_tickets d')
         \<longrightarrow> jt_consumed_at t \<noteq> None \<or> jt_expires_at t \<le> e_now env)
    \<and> map (\<lambda>r. r\<lparr>rs_join_ticket_id := None\<rparr>) (relay_sessions d') =
        map (\<lambda>r. r\<lparr>rs_join_ticket_id := None\<rparr>) (relay_sessions d)
    \<and> length (user_events d') + cc_deleted_user_events c = length (user_events d)"
proof -
  let ?d' = "swept env n d"
  obtain c where res: "cleanup_stale_join_state env n d = Some (Inr c, ?d')"
    and ev: "cc_deleted_user_events c + length (user_events ?d') = length (user_events d)"
    using cleanup_result [OF assms(1,2), of env] by blast
  have now: "\<not> e_now env < cutoff env n"
    using assms(3) by (simp add: cutoff_def days_def)
  have jr: "(if lapsed_join_request env r then jr_set_status (e_now env) Expired r else r)
      \<in> set (join_requests ?d')" if "r \<in> set (join_requests d)" "jr_status r = Pending" for r
    using that now
    by (auto simp: set_sql_update aged_join_request_def jr_set_status_def TERMINAL_JOIN_REQUEST_def)
  have wi: "(if lapsed_invite env r then wi_set_status (e_now env) Expired r else r)
      \<in> set (world_invites ?d')" if "r \<in> set (world_invites d)" "wi_active r" for r
    using that now
    by (auto simp: set_sql_update aged_invite_def wi_set_status_def TERMINAL_INVITE_def wi_active_def)
  have "\<forall>r \<in> set (join_requests ?d'). \<not> lapsed_join_request env r"
    by (auto simp: set_sql_update lapsed_join_request_def jr_set_status_def split: if_splits)
  moreover have "\<forall>r \<in> set (world_invites ?d'). \<not> lapsed_invite env r"
    by (auto simp: set_sql_update lapsed_invite_def wi_set_status_def split: if_splits)
  moreover have "\<forall>t \<in> set (join_tickets d). t \<notin> set (join_tickets ?d')
      \<longrightarrow> jt_consumed_at t \<noteq> None \<or> jt_expires_at t \<le> e_now env"
    by (auto simp: spent_ticket_def)
  moreover have "map (\<lambda>r. r\<lparr>rs_join_ticket_id := None\<rparr>) (relay_sessions ?d') =
      map (\<lambda>r. r\<lparr>rs_join_ticket_id := None\<rparr>) (relay_sessions d)"
    by (simp add: delete_join_tickets_def Let_def map_sql_update)
  ultimately show ?thesis
    using res ev [unfolded add.commute [of "cc_deleted_user_events c"]] jr wi
      db_wf_swept [OF assms(1)]
    by blast
qed

theorem cleanup_effect_witness:
  "\<exists>c d'. cleanup_stale_join_state sample_env 30 sample_events_db = Some (Inr c, d')
     \<and> length (user_events d') + cc_deleted_user_events c = 6"
proof -
  have wf: "db_wf sample_events_db" by code_simp
  have r: "in_int4 30" by code_simp
  have "length (user_events sample_events_db) = 6" by code_simp
  with cleanup_effect [OF wf r, of sample_env] show ?thesis by auto
qed

end
