(* ===== verification/Relay.thy ===== *)
theory Relay
  imports Invites
begin

text \<open>
  \<^verbatim>\<open>network/src/relay.rs\<close> and \<^verbatim>\<open>network/src/signaling.rs\<close>: authorising the two sockets of a relay
  pair, the capacity gate, the frame pump, and the life of a signaling socket. The handler
  \<^verbatim>\<open>handle_relay\<close> runs concurrently with itself; theory \<^verbatim>\<open>Relay_Run\<close> gives it as a step relation.
\<close>

section \<open>Authorising a relay socket\<close>

text \<open>The read half of \<^verbatim>\<open>validate_guest_ticket\<close>.\<close>

definition guest_ticket_valid :: "env \<Rightarrow> db \<Rightarrow> relay_session \<Rightarrow> uuid \<Rightarrow> string \<Rightarrow> bool" where
  "guest_ticket_valid env d relay ticket_id token =
     sql_exists (\<lambda>t. jt_id t = ticket_id \<and> jt_token_hash t = hash_token env token
        \<and> Some (jt_user_id t) = rs_guest_user_id relay
        \<and> jt_consumed_at t = None \<and> jt_expires_at t > e_now env) (join_tickets d)"

text \<open>Its write half.\<close>

definition consume_ticket :: "env \<Rightarrow> uuid \<Rightarrow> db \<Rightarrow> db" where
  "consume_ticket env ticket_id d =
     d\<lparr>join_tickets := sql_update (\<lambda>t. jt_id t = ticket_id \<and> jt_consumed_at t = None)
        (\<lambda>t. t\<lparr>jt_consumed_at := Some (e_now env)\<rparr>) (join_tickets d)\<rparr>"

definition validate_guest_ticket ::
  "env \<Rightarrow> relay_session \<Rightarrow> string \<Rightarrow> db \<Rightarrow> unit app_result \<times> db" where
  "validate_guest_ticket env relay token d =
     (case rs_join_ticket_id relay of
        None \<Rightarrow> (Inl (Conflict ''relay session has no ticket''), d)
      | Some ticket_id \<Rightarrow>
          if \<not> guest_ticket_valid env d relay ticket_id token then (Inl Unauthorized, d)
          else (Inr (), consume_ticket env ticket_id d))"

definition find_relay :: "db \<Rightarrow> uuid \<Rightarrow> relay_session option" where
  "find_relay d rid = sql_find (\<lambda>r. rs_id r = rid) (relay_sessions d)"

text \<open>The part of \<^verbatim>\<open>relay_ws\<close> before the upgrade: the role the socket is admitted in.\<close>

definition relay_ws ::
  "env \<Rightarrow> (string \<Rightarrow> string option) \<Rightarrow> string option \<Rightarrow> string \<Rightarrow> uuid \<Rightarrow> db
    \<Rightarrow> (relay_role \<times> relay_session) app_result \<times> db" where
  "relay_ws env headers query_token query_role rid d =
     (case (case bearer_token_from_headers headers of
              Some t \<Rightarrow> Some t | None \<Rightarrow> query_token) of
        None \<Rightarrow> (Inl Unauthorized, d)
      | Some token \<Rightarrow>
          (case find_relay d rid of
             None \<Rightarrow> (Inl (NotFound ''relay session not found''), d)
           | Some relay \<Rightarrow>
               if rs_status relay = ''closed'' then
                 (Inl (Conflict ''relay session is closed''), d)
               else if query_role = ''host'' then
                 (case user_from_token env token d of
                    Inl e \<Rightarrow> (Inl e, d)
                  | Inr user \<Rightarrow>
                      if u_id user \<noteq> rs_host_user_id relay then (Inl Forbidden, d)
                      else (Inr (Host, relay), d))
               else if query_role = ''guest'' then
                 (case validate_guest_ticket env relay token d of
                    (Inl e, d') \<Rightarrow> (Inl e, d')
                  | (Inr _, d') \<Rightarrow> (Inr (Guest, relay), d'))
               else (Inl (BadRequest ''role must be host or guest''), d)))"

section \<open>The capacity gate\<close>

definition try_admit_player :: "uuid \<Rightarrow> db \<Rightarrow> bool \<times> db" where
  "try_admit_player world_id d =
     (let p = (\<lambda>w. ws_id w = world_id \<and> ws_status w = Open
                   \<and> ws_current_players w < ws_max_players w) in
      (sql_affected p (world_sessions d) > 0,
       d\<lparr>world_sessions := sql_update p
          (\<lambda>w. w\<lparr>ws_current_players := ws_current_players w + 1\<rparr>) (world_sessions d)\<rparr>))"

definition release_player :: "uuid \<Rightarrow> db \<Rightarrow> db" where
  "release_player world_id d =
     d\<lparr>world_sessions := sql_update (\<lambda>w. ws_id w = world_id)
        (\<lambda>w. w\<lparr>ws_current_players := max (ws_current_players w - 1) 0\<rparr>) (world_sessions d)\<rparr>"

definition mark_relay_active :: "uuid \<Rightarrow> db \<Rightarrow> db" where
  "mark_relay_active rid d =
     d\<lparr>relay_sessions := sql_update (\<lambda>r. rs_id r = rid \<and> rs_status r \<noteq> ''closed'')
        (\<lambda>r. r\<lparr>rs_status := ''active''\<rparr>) (relay_sessions d)\<rparr>"

definition mark_relay_closed :: "env \<Rightarrow> uuid \<Rightarrow> db \<Rightarrow> db" where
  "mark_relay_closed env rid d =
     d\<lparr>relay_sessions := sql_update (\<lambda>r. rs_id r = rid)
        (\<lambda>r. r\<lparr>rs_status := ''closed'', rs_closed_at := Some (e_now env)\<rparr>) (relay_sessions d)\<rparr>"

section \<open>The frame pump\<close>

datatype message =
    Binary "8 word list"
  | TextFrame string
  | Ping "8 word list"
  | Pong "8 word list"
  | CloseFrame

datatype forward = Send message | Skip | Stop

definition classify :: "message \<Rightarrow> 64 word \<Rightarrow> forward \<times> 64 word" where
  "classify m bytes_counter =
     (case m of
        Binary data \<Rightarrow> (Send (Binary data), metrics_add bytes_counter (of_nat (length data)))
      | TextFrame text \<Rightarrow> (Send (TextFrame text), bytes_counter)
      | CloseFrame \<Rightarrow> (Stop, bytes_counter)
      | _ \<Rightarrow> (Skip, bytes_counter))"

text \<open>
  One direction of \<^verbatim>\<open>pipe\<close>: \<open>stream\<close> holds what the sender's socket yields before it ends or fails,
  \<open>accepts n\<close> says whether the \<open>n\<close>-th send into the peer's sink succeeds. The result is what the sink
  received, before the closing frame that is sent in every case.
\<close>

fun pump :: "(nat \<Rightarrow> bool) \<Rightarrow> nat \<Rightarrow> message list \<Rightarrow> 64 word \<Rightarrow> message list \<times> 64 word" where
  "pump accepts n [] bytes = ([], bytes)"
| "pump accepts n (m # ms) bytes =
     (case classify m bytes of
        (Send f, b) \<Rightarrow>
          if accepts n then (let (out, b') = pump accepts (Suc n) ms b in (f # out, b'))
          else ([], b)
      | (Skip, b) \<Rightarrow> pump accepts n ms b
      | (Stop, b) \<Rightarrow> ([], b))"

section \<open>Signaling sockets\<close>

definition signaling_ws ::
  "env \<Rightarrow> (string \<Rightarrow> string option) \<Rightarrow> string option \<Rightarrow> uuid handler" where
  "signaling_ws env headers query_token s =
     (case (case bearer_token_from_headers headers of
              Some t \<Rightarrow> Some t | None \<Rightarrow> query_token) of
        None \<Rightarrow> (Inl Unauthorized, s)
      | Some token \<Rightarrow>
          (case user_from_token env token (st_db s) of
             Inl e \<Rightarrow> (Inl e, s)
           | Inr user \<Rightarrow>
               let m = st_metrics s in
               (Inr (u_id user),
                s\<lparr>st_metrics := m\<lparr>m_signaling_connections :=
                    metrics_incr (m_signaling_connections m)\<rparr>\<rparr>)))"

text \<open>\<^verbatim>\<open>handle_signaling\<close> up to its loop, and after it.\<close>

definition signaling_connect :: "env \<Rightarrow> uuid \<Rightarrow> app_state \<Rightarrow> uuid \<times> app_state" where
  "signaling_connect env user_id s =
     (case signaling_add (e_uuid env 0) user_id (st_signaling s) of
        (conn_id, hub) \<Rightarrow>
          (conn_id, broadcast_presence user_id (snd (mark_online env user_id (s\<lparr>st_signaling := hub\<rparr>)))))"

definition signaling_disconnect :: "env \<Rightarrow> uuid \<Rightarrow> uuid \<Rightarrow> app_state \<Rightarrow> app_state" where
  "signaling_disconnect env user_id conn_id s =
     (let s1 = s\<lparr>st_signaling := signaling_remove user_id conn_id (st_signaling s)\<rparr> in
      if \<not> is_online user_id (st_signaling s1)
      then broadcast_presence user_id (snd (mark_offline env user_id s1))
      else s1)"

section \<open>Preservation of the invariant\<close>

lemma db_wf_consume_ticket [wf_intros]: "db_wf d \<Longrightarrow> db_wf (consume_ticket env tid d)"
  unfolding consume_ticket_def by (rule db_wf_update_join_tickets) auto

lemma db_wf_validate_guest_ticket [wf_intros]:
  "db_wf d \<Longrightarrow> db_wf (snd (validate_guest_ticket env relay token d))"
  by (auto simp: validate_guest_ticket_def db_wf_consume_ticket split: option.splits)

lemma db_wf_relay_ws [wf_intros]: "db_wf d \<Longrightarrow> db_wf (snd (relay_ws env hs qt qr rid d))"
  using db_wf_validate_guest_ticket [of d env]
  by (auto simp: relay_ws_def split: option.splits sum.splits prod.splits) (metis snd_conv)+

lemma db_wf_try_admit [wf_intros]: "db_wf d \<Longrightarrow> db_wf (snd (try_admit_player wid d))"
  unfolding try_admit_player_def Let_def snd_conv
  by (rule db_wf_update_world_sessions) (auto simp: ws_open_def)

lemma db_wf_release_player [wf_intros]: "db_wf d \<Longrightarrow> db_wf (release_player wid d)"
  unfolding release_player_def by (rule db_wf_update_world_sessions) (auto simp: ws_open_def)

lemma db_wf_mark_relay_active [wf_intros]: "db_wf d \<Longrightarrow> db_wf (mark_relay_active rid d)"
  unfolding mark_relay_active_def by (rule db_wf_update_relay_sessions) auto

lemma db_wf_mark_relay_closed [wf_intros]: "db_wf d \<Longrightarrow> db_wf (mark_relay_closed env rid d)"
  unfolding mark_relay_closed_def by (rule db_wf_update_relay_sessions) auto

lemma state_wf_signaling_ws [wf_intros]: "state_wf s \<Longrightarrow> state_wf (snd (signaling_ws env hs qt s))"
  by (auto simp: signaling_ws_def Let_def split: option.splits sum.splits)

lemma state_wf_signaling_connect [wf_intros]:
  assumes "state_wf s"
  shows "state_wf (snd (signaling_connect env uid s))"
  using state_wfD [OF assms] hub_wf_add [of "st_signaling s" "e_uuid env 0" uid]
  by (auto simp: signaling_connect_def split: prod.splits
      intro!: state_wf_broadcast_presence state_wf_mark_online)

lemma state_wf_signaling_disconnect [wf_intros]:
  assumes "state_wf s"
  shows "state_wf (signaling_disconnect env uid c s)"
  using state_wfD [OF assms] hub_wf_remove [of "st_signaling s" uid c]
  by (auto simp: signaling_disconnect_def Let_def intro!: state_wf_broadcast_presence
      state_wf_mark_offline)

section \<open>Properties\<close>


definition sample_ticket_db :: db where
  "sample_ticket_db = sample_db\<lparr>join_tickets := [\<lparr>jt_id = 80, jt_user_id = 3, jt_world_session_id = 10,
       jt_token_hash = hash_token sample_env ''tk'', jt_expires_at = 2000000, jt_consumed_at = None,
       jt_created_at = 0\<rparr>]\<rparr>"

definition sample_relay :: relay_session where
  "sample_relay = \<lparr>rs_id = 81, rs_world_session_id = 10, rs_host_user_id = 1, rs_guest_user_id = Some 3,
       rs_join_ticket_id = Some 80, rs_status = ''pending'', rs_created_at = 0, rs_closed_at = None\<rparr>"


text \<open>
  The two halves of the validation are separate statements, and the second ignores its row count:
  when two requests have both read the ticket as valid, the second consumption touches no row and
  its request is admitted all the same.
\<close>

lemma guest_ticket_race:
  assumes "guest_ticket_valid env d relay tid token"
  shows "sql_affected (\<lambda>t. jt_id t = tid \<and> jt_consumed_at t = None)
      (join_tickets (consume_ticket env tid d)) = 0"
    and "consume_ticket env' tid (consume_ticket env tid d) = consume_ticket env tid d"
proof -
  have used: "\<forall>t \<in> set (join_tickets (consume_ticket env tid d)). \<not> (jt_id t = tid \<and> jt_consumed_at t = None)"
    unfolding consume_ticket_def by (simp, rule ball_sql_updateI, simp_all)
  then show "sql_affected (\<lambda>t. jt_id t = tid \<and> jt_consumed_at t = None)
      (join_tickets (consume_ticket env tid d)) = 0"
    by (simp add: sql_affected_eq_0)
  have "sql_update (\<lambda>t. jt_id t = tid \<and> jt_consumed_at t = None)
      (\<lambda>t. t\<lparr>jt_consumed_at := Some (e_now env')\<rparr>) (join_tickets (consume_ticket env tid d)) =
      join_tickets (consume_ticket env tid d)"
    using used by (intro sql_update_none) auto
  then show "consume_ticket env' tid (consume_ticket env tid d) = consume_ticket env tid d"
    unfolding consume_ticket_def [of env'] by simp
qed

text \<open>
  Only the two parties of a relay session get in: a socket is admitted as host only with a live
  session token of the recorded host, as guest only with the ticket issued to the recorded guest,
  and never into a closed relay session.
\<close>

theorem relay_ws_admits:
  "case relay_ws env headers qtoken qrole rid d of
     (Inl e, d') \<Rightarrow> d' = d
   | (Inr (role, relay), d') \<Rightarrow>
       find_relay d rid = Some relay \<and> rs_status relay \<noteq> ''closed''
       \<and> (\<exists>token. (bearer_token_from_headers headers = Some token
             \<or> bearer_token_from_headers headers = None \<and> qtoken = Some token)
          \<and> (case role of
               Host \<Rightarrow> qrole = ''host'' \<and> d' = d
                 \<and> (\<exists>u. user_from_token env token d = Inr u \<and> u_id u = rs_host_user_id relay)
             | Guest \<Rightarrow> qrole = ''guest''
                 \<and> validate_guest_ticket env relay token d = (Inr (), d')))"
  by (auto simp: relay_ws_def validate_guest_ticket_def
      split: option.splits sum.splits if_splits)

text \<open>Repeated attempts to take a player slot of one world.\<close>

fun run_admissions :: "uuid \<Rightarrow> nat \<Rightarrow> db \<Rightarrow> nat \<times> db" where
  "run_admissions wid 0 d = (0, d)"
| "run_admissions wid (Suc n) d =
     (let (ok, d1) = try_admit_player wid d; (k, d2) = run_admissions wid n d1
      in (if ok then Suc k else k, d2))"

lemma try_admit_player_step:
  assumes "db_wf d" "find_world d wid = Some w"
  shows "try_admit_player wid d =
      (if ws_open w \<and> ws_current_players w < ws_max_players w
       then (True, d\<lparr>world_sessions := sql_update (\<lambda>v. ws_id v = wid)
               (\<lambda>v. v\<lparr>ws_current_players := ws_current_players v + 1\<rparr>) (world_sessions d)\<rparr>)
       else (False, d))"
proof -
  have only: "v = w" if "v \<in> set (world_sessions d)" "ws_id v = wid" for v
    using find_world_unique [OF assms(1) that(1)] that(2) assms(2) by simp
  have w: "w \<in> set (world_sessions d)" "ws_id w = wid"
    using find_world_SomeD [OF assms(2)] by auto
  let ?p = "\<lambda>w. ws_id w = wid \<and> ws_status w = Open \<and> ws_current_players w < ws_max_players w"
  let ?f = "\<lambda>w. w\<lparr>ws_current_players := ws_current_players w + 1\<rparr>"
  show ?thesis
  proof (cases "?p w")
    case True
    have "sql_update ?p ?f (world_sessions d) = sql_update (\<lambda>v. ws_id v = wid) ?f (world_sessions d)"
      using only True by (auto simp: sql_update_def)
    moreover have "0 < sql_affected ?p (world_sessions d)"
      using w True by (auto simp: sql_affected_pos sql_exists_iff)
    ultimately show ?thesis using True by (simp add: try_admit_player_def Let_def ws_open_def)
  next
    case False
    then have none: "\<forall>v \<in> set (world_sessions d). \<not> ?p v"
      using only by blast
    then have "sql_update ?p ?f (world_sessions d) = world_sessions d"
      "sql_affected ?p (world_sessions d) = 0"
      by (auto simp: sql_affected_eq_0 intro!: sql_update_none)
    with False w show ?thesis by (auto simp: try_admit_player_def Let_def ws_open_def)
  qed
qed



definition is_data :: "message \<Rightarrow> bool" where
  "is_data m \<longleftrightarrow> (case m of Binary _ \<Rightarrow> True | TextFrame _ \<Rightarrow> True | _ \<Rightarrow> False)"

fun payload_bytes :: "message \<Rightarrow> nat" where
  "payload_bytes (Binary d) = length d"
| "payload_bytes _ = 0"

lemma pump_all:
  "(\<And>i. n \<le> i \<Longrightarrow> accepts i) \<Longrightarrow> pump accepts n ms b =
     (filter is_data (takeWhile (\<lambda>m. m \<noteq> CloseFrame) ms),
      b + of_nat (sum_list (map payload_bytes (takeWhile (\<lambda>m. m \<noteq> CloseFrame) ms))))"
  by (induction accepts n ms b rule: pump.induct)
    (auto simp: classify_def is_data_def metrics_add_def split: message.splits)

lemma pump_prefix:
  "prefix (fst (pump accepts n ms b)) (filter is_data (takeWhile (\<lambda>m. m \<noteq> CloseFrame) ms))"
  by (induction accepts n ms b rule: pump.induct)
    (auto simp: classify_def is_data_def Let_def split_beta split: message.splits)

text \<open>
  The tunnel neither reorders, alters nor invents data: what one direction delivers is a prefix of
  the binary and text frames the sender produced before closing, in order; while the receiving
  socket accepts, it is all of them, and the byte counter advances by exactly the binary payload.
\<close>

theorem pump_forwards:
  "prefix (fst (pump accepts 0 ms b)) (filter is_data (takeWhile (\<lambda>m. m \<noteq> CloseFrame) ms))
   \<and> ((\<forall>i. accepts i) \<longrightarrow> pump accepts 0 ms b =
       (filter is_data (takeWhile (\<lambda>m. m \<noteq> CloseFrame) ms),
        b + of_nat (sum_list (map payload_bytes (takeWhile (\<lambda>m. m \<noteq> CloseFrame) ms)))))"
  using pump_prefix [of accepts 0 ms b] pump_all [of 0 accepts ms b] by auto

end
