(* ===== verification/Relay_Run.thy ===== *)
theory Relay_Run
  imports Relay
begin

text \<open>
  \<^verbatim>\<open>handle_relay\<close> of \<^verbatim>\<open>network/src/relay.rs\<close> as a concurrent program: every socket runs its own copy,
  and the copies interleave at each access to the hub and at each await. A socket is named by an
  identifier; the parked value of the hub is the identifier of the parked socket.
\<close>

section \<open>Handlers in flight\<close>

text \<open>
  Where a copy of the handler stands: before \<open>take\<close>, holding the peer it took, before \<open>park\<close>, waiting
  for its peer, pumping, or done.
\<close>

datatype phase = Arriving | Paired uuid | Parking | Waiting | Piping uuid | Finished

record relay_conn =
  rc_relay :: uuid
  rc_role :: relay_role
  rc_world :: uuid
  rc_guest :: "uuid option"
  rc_phase :: phase

record run_state =
  rn_state :: app_state
  rn_hub :: "uuid relay_hub"
  rn_conns :: "(uuid \<times> relay_conn) list"

definition set_phase :: "uuid \<Rightarrow> relay_conn \<Rightarrow> phase \<Rightarrow> run_state \<Rightarrow> run_state" where
  "set_phase c k ph s = s\<lparr>rn_conns := AList.update c (k\<lparr>rc_phase := ph\<rparr>) (rn_conns s)\<rparr>"

definition on_db :: "(db \<Rightarrow> db) \<Rightarrow> app_state \<Rightarrow> app_state" where
  "on_db f s = s\<lparr>st_db := f (st_db s)\<rparr>"

definition broadcast_guest :: "uuid option \<Rightarrow> app_state \<Rightarrow> app_state" where
  "broadcast_guest guest s =
     (case guest of Some g \<Rightarrow> broadcast_presence g s | None \<Rightarrow> s)"

definition count_relay :: "app_state \<Rightarrow> app_state" where
  "count_relay s =
     (let m = st_metrics s in
      s\<lparr>st_metrics := m\<lparr>m_relay_sessions_opened := metrics_incr (m_relay_sessions_opened m)\<rparr>\<rparr>)"

text \<open>The atomic sections of the handler.\<close>

definition handle_take :: "uuid \<Rightarrow> relay_conn \<Rightarrow> run_state \<Rightarrow> run_state" where
  "handle_take c k s =
     (case relay_take (rc_relay k) (rc_role k) (rn_hub s) of
        (Some peer, hub) \<Rightarrow> set_phase c k (Paired peer) (s\<lparr>rn_hub := hub\<rparr>)
      | (None, hub) \<Rightarrow> set_phase c k Parking (s\<lparr>rn_hub := hub\<rparr>))"

definition handle_park :: "uuid \<Rightarrow> relay_conn \<Rightarrow> run_state \<Rightarrow> run_state" where
  "handle_park c k s =
     (case park (rc_relay k) (rc_role k) c (rn_hub s) of
        (None, hub) \<Rightarrow> set_phase c k Waiting (s\<lparr>rn_hub := hub\<rparr>)
      | (Some _, hub) \<Rightarrow> set_phase c k Finished (s\<lparr>rn_hub := hub\<rparr>))"

definition handle_admit :: "env \<Rightarrow> uuid \<Rightarrow> relay_conn \<Rightarrow> uuid \<Rightarrow> run_state \<Rightarrow> run_state" where
  "handle_admit env c k peer s =
     (case try_admit_player (rc_world k) (st_db (rn_state s)) of
        (False, d) \<Rightarrow>
          set_phase c k Finished
            (s\<lparr>rn_state := (rn_state s)\<lparr>st_db := mark_relay_closed env (rc_relay k) d\<rparr>\<rparr>)
      | (True, d) \<Rightarrow>
          let a = count_relay ((rn_state s)\<lparr>st_db := d\<rparr>);
              a1 = on_db (mark_relay_active (rc_relay k)) a in
          set_phase c k (Piping peer)
            (s\<lparr>rn_hub := incr_active (rn_hub s), rn_state := broadcast_guest (rc_guest k) a1\<rparr>))"

definition handle_pipe_end :: "env \<Rightarrow> uuid \<Rightarrow> relay_conn \<Rightarrow> run_state \<Rightarrow> run_state" where
  "handle_pipe_end env c k s =
     (let a = on_db (release_player (rc_world k)) (rn_state s);
          a1 = on_db (mark_relay_closed env (rc_relay k)) a in
      set_phase c k Finished
        (s\<lparr>rn_hub := decr_active (rn_hub s), rn_state := broadcast_guest (rc_guest k) a1\<rparr>))"

definition handle_give_up :: "uuid \<Rightarrow> relay_conn \<Rightarrow> run_state \<Rightarrow> run_state" where
  "handle_give_up c k s =
     set_phase c k Finished (s\<lparr>rn_hub := snd (remove_waiting (rc_relay k) (rn_hub s))\<rparr>)"

section \<open>The step relation\<close>

text \<open>
  A waiting party continues when it is told that the pairing is over or when its timeout of 90
  seconds fires, and the handler does not distinguish the two; \<open>give_up\<close> is both.
\<close>

inductive relay_step :: "run_state \<Rightarrow> run_state \<Rightarrow> bool" where
  arrive: "map_of (rn_conns s) c = None \<Longrightarrow> rc_phase k = Arriving
    \<Longrightarrow> relay_step s (s\<lparr>rn_conns := AList.update c k (rn_conns s)\<rparr>)"
| take: "map_of (rn_conns s) c = Some k \<Longrightarrow> rc_phase k = Arriving
    \<Longrightarrow> relay_step s (handle_take c k s)"
| park: "map_of (rn_conns s) c = Some k \<Longrightarrow> rc_phase k = Parking
    \<Longrightarrow> relay_step s (handle_park c k s)"
| admit: "map_of (rn_conns s) c = Some k \<Longrightarrow> rc_phase k = Paired peer
    \<Longrightarrow> relay_step s (handle_admit env c k peer s)"
| pipe_end: "map_of (rn_conns s) c = Some k \<Longrightarrow> rc_phase k = Piping peer
    \<Longrightarrow> relay_step s (handle_pipe_end env c k s)"
| give_up: "map_of (rn_conns s) c = Some k \<Longrightarrow> rc_phase k = Waiting
    \<Longrightarrow> relay_step s (handle_give_up c k s)"

inductive_cases relay_stepE: "relay_step s s'"

text \<open>The service starts with an empty hub and no sockets.\<close>

inductive relay_reachable :: "run_state \<Rightarrow> bool" where
  start: "relay_reachable \<lparr>rn_state = a, rn_hub = relay_hub_new, rn_conns = []\<rparr>"
| step: "relay_reachable s \<Longrightarrow> relay_step s s' \<Longrightarrow> relay_reachable s'"

section \<open>The pairing invariant\<close>

definition holds_peer :: "phase \<Rightarrow> uuid option" where
  "holds_peer ph = (case ph of Paired p \<Rightarrow> Some p | Piping p \<Rightarrow> Some p | _ \<Rightarrow> None)"

abbreviation conn :: "run_state \<Rightarrow> uuid \<Rightarrow> relay_conn option" where
  "conn s c \<equiv> map_of (rn_conns s) c"

definition is_piping :: "relay_conn \<Rightarrow> bool" where
  "is_piping k \<longleftrightarrow> (case rc_phase k of Piping _ \<Rightarrow> True | _ \<Rightarrow> False)"

definition pipes :: "run_state \<Rightarrow> nat" where
  "pipes s = length (filter (\<lambda>(_, k). is_piping k) (rn_conns s))"

type_synonym conns = "uuid \<Rightarrow> relay_conn option"
type_synonym slots = "uuid \<Rightarrow> (relay_role \<times> uuid) option"

text \<open>A parked entry belongs to a waiting socket of that relay and role.\<close>

definition parked_ok :: "conns \<Rightarrow> slots \<Rightarrow> bool" where
  "parked_ok m h \<longleftrightarrow> (\<forall>rid r p. h rid = Some (r, p) \<longrightarrow>
     (\<exists>k. m p = Some k \<and> rc_relay k = rid \<and> rc_role k = r \<and> rc_phase k = Waiting))"

text \<open>A held peer is a socket of the same relay in the opposite role, no longer parked.\<close>

definition peer_of :: "conns \<Rightarrow> relay_conn \<Rightarrow> uuid \<Rightarrow> bool" where
  "peer_of m k p \<longleftrightarrow> (\<exists>k'. m p = Some k' \<and> rc_relay k' = rc_relay k
     \<and> roles_pair (rc_role k') (rc_role k) \<and> (rc_phase k' = Waiting \<or> rc_phase k' = Finished))"

definition held_ok :: "conns \<Rightarrow> slots \<Rightarrow> bool" where
  "held_ok m h \<longleftrightarrow> (\<forall>c k p. m c = Some k \<longrightarrow> holds_peer (rc_phase k) = Some p \<longrightarrow>
     peer_of m k p \<and> (\<forall>rid r. h rid \<noteq> Some (r, p)))"

text \<open>No socket is held twice.\<close>

definition exclusive :: "conns \<Rightarrow> bool" where
  "exclusive m \<longleftrightarrow> (\<forall>c c' k k' p. m c = Some k \<longrightarrow> m c' = Some k' \<longrightarrow>
     holds_peer (rc_phase k) = Some p \<longrightarrow> holds_peer (rc_phase k') = Some p \<longrightarrow> c = c')"

definition pair_inv :: "conns \<Rightarrow> slots \<Rightarrow> bool" where
  "pair_inv m h \<longleftrightarrow> parked_ok m h \<and> held_ok m h \<and> exclusive m"

definition pairing_inv :: "run_state \<Rightarrow> bool" where
  "pairing_inv s \<longleftrightarrow> distinct (map fst (rn_conns s))
     \<and> pair_inv (map_of (rn_conns s)) (parked (rn_hub s))
     \<and> rh_active (rn_hub s) = of_nat (pipes s)"

lemma conn_set_phase [simp]:
  "conn (set_phase c k ph s) c' = (if c' = c then Some (k\<lparr>rc_phase := ph\<rparr>) else conn s c')"
  "rn_hub (set_phase c k ph s) = rn_hub s"
  by (auto simp: set_phase_def update_conv')

lemma holds_peer_simps [simp]:
  "holds_peer Arriving = None" "holds_peer Parking = None" "holds_peer Waiting = None"
  "holds_peer Finished = None" "holds_peer (Paired p) = Some p" "holds_peer (Piping p) = Some p"
  by (simp_all add: holds_peer_def)

lemma count_update:
  assumes "distinct (map fst xs)" "map_of xs c = Some k"
  shows "int (length (filter (\<lambda>(_, k). P k) (AList.update c k' xs))) =
    int (length (filter (\<lambda>(_, k). P k) xs)) + (if P k' then 1 else 0) - (if P k then 1 else 0)"
  using assms by (induction xs) (auto split: if_splits simp: weak_map_of_SomeI)

lemma count_insert:
  "map_of xs c = None \<Longrightarrow> length (filter (\<lambda>(_, k). P k) (AList.update c k' xs)) =
     length (filter (\<lambda>(_, k). P k) xs) + (if P k' then 1 else 0)"
  by (induction xs) (auto split: if_splits)

lemma pipes_set_phase:
  assumes "distinct (map fst (rn_conns s))" "conn s c = Some k"
  shows "int (pipes (set_phase c k ph s)) =
    int (pipes s) + (if \<exists>p. ph = Piping p then 1 else 0) - (if is_piping k then 1 else 0)"
  using count_update [OF assms, of is_piping "k\<lparr>rc_phase := ph\<rparr>"]
  by (cases ph) (simp_all add: pipes_def set_phase_def is_piping_def)

lemma pipes_hub [simp]: "pipes (s\<lparr>rn_hub := h\<rparr>) = pipes s" "pipes (s\<lparr>rn_state := a\<rparr>) = pipes s"
  by (simp_all add: pipes_def)

lemma pair_invD:
  assumes "pair_inv m h"
  shows "h rid = Some (r, p) \<Longrightarrow>
      \<exists>k. m p = Some k \<and> rc_relay k = rid \<and> rc_role k = r \<and> rc_phase k = Waiting"
    and "m c = Some k \<Longrightarrow> holds_peer (rc_phase k) = Some p \<Longrightarrow> peer_of m k p"
    and "m c = Some k \<Longrightarrow> holds_peer (rc_phase k) = Some p \<Longrightarrow> h rid \<noteq> Some (r, p)"
    and "m c = Some k \<Longrightarrow> m c' = Some k' \<Longrightarrow> holds_peer (rc_phase k) = Some p \<Longrightarrow>
      holds_peer (rc_phase k') = Some p \<Longrightarrow> c = c'"
  using assms unfolding pair_inv_def parked_ok_def held_ok_def exclusive_def by blast+

text \<open>The four ways a step changes who is parked and who holds whom.\<close>

lemma peer_of_cong:
  "peer_of m k p \<Longrightarrow> m c = Some k0 \<Longrightarrow> rc_relay k1 = rc_relay k0 \<Longrightarrow> rc_role k1 = rc_role k0 \<Longrightarrow>
   (rc_phase k0 \<in> {Waiting, Finished} \<longrightarrow> rc_phase k1 \<in> {Waiting, Finished}) \<Longrightarrow>
   rc_relay k' = rc_relay k \<Longrightarrow> rc_role k' = rc_role k \<Longrightarrow> peer_of (m(c \<mapsto> k1)) k' p"
  by (auto simp: peer_of_def)

lemma pair_inv_release:
  assumes "pair_inv m h" "m c = Some k" and "h' \<subseteq>\<^sub>m h" and "\<And>rid r. h' rid \<noteq> Some (r, c)"
    and "holds_peer ph = None" and "rc_phase k \<in> {Waiting, Finished} \<longrightarrow> ph \<in> {Waiting, Finished}"
  shows "pair_inv (m(c \<mapsto> k\<lparr>rc_phase := ph\<rparr>)) h'"
proof -
  have sub: "h rid = Some x" if "h' rid = Some x" for rid x
    using that assms(3) by (auto simp: map_le_def dom_def)
  have "parked_ok (m(c \<mapsto> k\<lparr>rc_phase := ph\<rparr>)) h'"
    using assms(1,4) sub by (fastforce simp: pair_inv_def parked_ok_def)
  moreover have "held_ok (m(c \<mapsto> k\<lparr>rc_phase := ph\<rparr>)) h'"
    unfolding held_ok_def
  proof (intro allI impI conjI)
    fix c' k' p rid r
    assume c': "(m(c \<mapsto> k\<lparr>rc_phase := ph\<rparr>)) c' = Some k'" and p: "holds_peer (rc_phase k') = Some p"
    then have m: "m c' = Some k'"
      using assms(5) by (auto split: if_splits)
    with p assms(1) have pk: "peer_of m k' p" and np: "\<And>rid r. h rid \<noteq> Some (r, p)"
      by (auto simp: pair_inv_def held_ok_def)
    show "peer_of (m(c \<mapsto> k\<lparr>rc_phase := ph\<rparr>)) k' p"
      using peer_of_cong [OF pk assms(2)] assms(6) by simp
    show "h' rid \<noteq> Some (r, p)"
      using np sub by blast
  qed
  moreover have "exclusive (m(c \<mapsto> k\<lparr>rc_phase := ph\<rparr>))"
    using assms(5) pair_invD(4) [OF assms(1)] unfolding exclusive_def by (auto split: if_splits)
  ultimately show ?thesis by (simp add: pair_inv_def)
qed

lemma pair_inv_new:
  assumes "pair_inv m h" "m c = None" "rc_phase k = Arriving"
  shows "pair_inv (m(c \<mapsto> k)) h"
proof -
  have "parked_ok (m(c \<mapsto> k)) h"
    using assms by (fastforce simp: pair_inv_def parked_ok_def)
  moreover have "held_ok (m(c \<mapsto> k)) h"
    using assms unfolding pair_inv_def held_ok_def peer_of_def by (fastforce split: if_splits)
  moreover have "exclusive (m(c \<mapsto> k))"
    using assms(3) pair_invD(4) [OF assms(1)] unfolding exclusive_def by (auto split: if_splits)
  ultimately show ?thesis by (simp add: pair_inv_def)
qed

lemma pair_inv_parks:
  assumes "pair_inv m h" "m c = Some k" "rc_phase k = Parking" "h (rc_relay k) = None"
  shows "pair_inv (m(c \<mapsto> k\<lparr>rc_phase := Waiting\<rparr>)) (h(rc_relay k \<mapsto> (rc_role k, c)))"
proof -
  have nh: "\<not> peer_of m k' c" for k'
    using assms(2,3) by (auto simp: peer_of_def)
  have "pair_inv (m(c \<mapsto> k\<lparr>rc_phase := Waiting\<rparr>)) h"
  proof (rule pair_inv_release [OF assms(1,2)])
    fix rid r show "h rid \<noteq> Some (r, c)"
      using pair_invD(1) [OF assms(1), of rid r c] assms(2,3) by auto
  qed (use assms(3) in auto)
  note base = this
  let ?m = "m(c \<mapsto> k\<lparr>rc_phase := Waiting\<rparr>)"
  have nohold: "holds_peer (rc_phase k') \<noteq> Some c" if "?m c' = Some k'" for c' k'
    using that pair_invD(2) [OF assms(1), of c' k' c] nh by (auto split: if_splits)
  have "parked_ok ?m (h(rc_relay k \<mapsto> (rc_role k, c)))"
    using pair_invD(1) [OF base] unfolding parked_ok_def by (auto split: if_splits)
  moreover have "held_ok ?m (h(rc_relay k \<mapsto> (rc_role k, c)))"
    unfolding held_ok_def
  proof (intro allI impI conjI)
    fix c' k' p rid r
    assume h: "?m c' = Some k'" "holds_peer (rc_phase k') = Some p"
    show "peer_of ?m k' p" using pair_invD(2) [OF base h] .
    show "(h(rc_relay k \<mapsto> (rc_role k, c))) rid \<noteq> Some (r, p)"
      using pair_invD(3) [OF base h] nohold [OF h(1)] h(2) by auto
  qed
  ultimately show ?thesis
    using base by (simp add: pair_inv_def)
qed

lemma pair_inv_takes:
  assumes "pair_inv m h" "m c = Some k" "rc_phase k = Arriving"
    and "h (rc_relay k) = Some (r, p)" and "roles_pair r (rc_role k)"
  shows "pair_inv (m(c \<mapsto> k\<lparr>rc_phase := Paired p\<rparr>)) (h(rc_relay k := None))"
proof -
  obtain kp where kp: "m p = Some kp" "rc_relay kp = rc_relay k" "rc_role kp = r" "rc_phase kp = Waiting"
    using pair_invD(1) [OF assms(1,4)] by blast
  have pc: "p \<noteq> c" using kp assms(2,3) by auto
  have once: "rid = rc_relay k" if "h rid = Some (r', p)" for rid r'
    using pair_invD(1) [OF assms(1) that] kp by auto
  have nohold: "holds_peer (rc_phase k') \<noteq> Some p" if "m c' = Some k'" for c' k'
    using pair_invD(3) [OF assms(1) that] assms(4) by blast
  have nc: "h rid \<noteq> Some (r', c)" for rid r'
    using pair_invD(1) [OF assms(1), of rid r' c] assms(2,3) by auto
  have "parked_ok (m(c \<mapsto> k\<lparr>rc_phase := Paired p\<rparr>)) (h(rc_relay k := None))"
    using pair_invD(1) [OF assms(1)] nc unfolding parked_ok_def by (auto split: if_splits)
  moreover have "held_ok (m(c \<mapsto> k\<lparr>rc_phase := Paired p\<rparr>)) (h(rc_relay k := None))"
    unfolding held_ok_def
  proof (intro allI impI conjI)
    fix c' k' q rid r'
    assume c': "(m(c \<mapsto> k\<lparr>rc_phase := Paired p\<rparr>)) c' = Some k'" and q: "holds_peer (rc_phase k') = Some q"
    show "peer_of (m(c \<mapsto> k\<lparr>rc_phase := Paired p\<rparr>)) k' q"
    proof (cases "c' = c")
      case True
      with c' q kp pc assms(5) show ?thesis by (auto simp: peer_of_def)
    next
      case False
      with c' q assms(1) have "peer_of m k' q" by (auto simp: pair_inv_def held_ok_def)
      with assms(2,3) show ?thesis by (auto simp: peer_of_def)
    qed
    show "(h(rc_relay k := None)) rid \<noteq> Some (r', q)"
    proof (cases "c' = c")
      case True
      with c' q once show ?thesis by auto
    next
      case False
      with c' q assms(1) show ?thesis by (auto simp: pair_inv_def held_ok_def)
    qed
  qed
  moreover have "exclusive (m(c \<mapsto> k\<lparr>rc_phase := Paired p\<rparr>))"
    using pair_invD(4) [OF assms(1)] nohold unfolding exclusive_def by (auto split: if_splits)
  ultimately show ?thesis by (simp add: pair_inv_def)
qed

lemma pair_inv_admits:
  assumes "pair_inv m h" "m c = Some k" "rc_phase k = Paired p"
  shows "pair_inv (m(c \<mapsto> k\<lparr>rc_phase := Piping p\<rparr>)) h"
proof -
  have "parked_ok (m(c \<mapsto> k\<lparr>rc_phase := Piping p\<rparr>)) h"
    using pair_invD(1) [OF assms(1)] assms(2,3) unfolding parked_ok_def by fastforce
  moreover have "held_ok (m(c \<mapsto> k\<lparr>rc_phase := Piping p\<rparr>)) h"
  proof -
    have old: "peer_of m k' q \<and> (\<forall>rid r. h rid \<noteq> Some (r, q))"
      if "m c' = Some k'" "holds_peer (rc_phase k') = Some q" for c' k' q
      using assms(1) that by (auto simp: pair_inv_def held_ok_def)
    have "peer_of (m(c \<mapsto> k\<lparr>rc_phase := Piping p\<rparr>)) k' q \<longleftrightarrow> peer_of m k' q" for k' q
      using assms(2,3) by (auto simp: peer_of_def)
    moreover have "peer_of m (k\<lparr>rc_phase := Piping p\<rparr>) q \<longleftrightarrow> peer_of m k q" for q
      by (simp add: peer_of_def)
    ultimately show ?thesis
      using old assms(2,3) unfolding held_ok_def by (auto split: if_splits)
  qed
  moreover have "exclusive (m(c \<mapsto> k\<lparr>rc_phase := Piping p\<rparr>))"
    using pair_invD(4) [OF assms(1)] assms(2,3) unfolding exclusive_def by (auto split: if_splits)
  ultimately show ?thesis by (simp add: pair_inv_def)
qed

section \<open>The invariant holds in every reachable state\<close>

lemma distinct_set_phase [simp]:
  "distinct (map fst (rn_conns s)) \<Longrightarrow> distinct (map fst (rn_conns (set_phase c k ph s)))"
  by (simp add: set_phase_def distinct_update)

lemma map_of_set_phase [simp]:
  "map_of (rn_conns (set_phase c k ph s)) = (map_of (rn_conns s))(c \<mapsto> k\<lparr>rc_phase := ph\<rparr>)"
  by (simp add: set_phase_def update_conv')

lemma of_nat_pipes:
  assumes "distinct (map fst (rn_conns s))" "conn s c = Some k"
  shows "(of_nat (pipes (set_phase c k ph s)) :: 64 word) =
    of_nat (pipes s) + (if \<exists>p. ph = Piping p then 1 else 0) - (if is_piping k then 1 else 0)"
proof -
  have "(of_int (int (pipes (set_phase c k ph s))) :: 64 word) =
      of_int (int (pipes s) + (if \<exists>p. ph = Piping p then 1 else 0) - (if is_piping k then 1 else 0))"
    by (simp only: pipes_set_phase [OF assms])
  then show ?thesis by simp
qed

lemma is_piping_simps:
  "rc_phase k = Arriving \<Longrightarrow> \<not> is_piping k" "rc_phase k = Paired p \<Longrightarrow> \<not> is_piping k"
  "rc_phase k = Parking \<Longrightarrow> \<not> is_piping k" "rc_phase k = Waiting \<Longrightarrow> \<not> is_piping k"
  "rc_phase k = Piping p \<Longrightarrow> is_piping k"
  by (simp_all add: is_piping_def)

lemma not_parked:
  "pair_inv m h \<Longrightarrow> m c = Some k \<Longrightarrow> rc_phase k \<noteq> Waiting \<Longrightarrow> h rid \<noteq> Some (r, c)"
  using pair_invD(1) [of m h rid r c] by auto

lemma rh_active_simps [simp]:
  "rh_active (incr_active h) = rh_active h + 1" "rh_active (decr_active h) = rh_active h - 1"
  "rh_active (snd (remove_waiting r h)) = rh_active h"
  "rh_active (snd (park r role p h)) = rh_active h"
  "rh_active (snd (relay_take r role h)) = rh_active h"
  by (simp_all add: incr_active_def decr_active_def remove_waiting_def park_def relay_take_def
      split: option.splits prod.splits)

lemma pairing_inv_take:
  assumes "pairing_inv s" "conn s c = Some k" "rc_phase k = Arriving"
  shows "pairing_inv (handle_take c k s)"
proof -
  obtain x hub where t: "relay_take (rc_relay k) (rc_role k) (rn_hub s) = (x, hub)" by fastforce
  have pk: "parked hub = (case parked (rn_hub s) (rc_relay k) of
      Some (r, _) \<Rightarrow> if roles_pair r (rc_role k) then (parked (rn_hub s))(rc_relay k := None)
        else parked (rn_hub s)
    | None \<Rightarrow> parked (rn_hub s))"
    and x: "x = (case parked (rn_hub s) (rc_relay k) of
      Some (r, p) \<Rightarrow> if roles_pair r (rc_role k) then Some p else None | None \<Rightarrow> None)"
    and ac: "rh_active hub = rh_active (rn_hub s)"
    using parked_take [of "rc_relay k" "rc_role k" "rn_hub s"] fst_take [of "rc_relay k" "rc_role k" "rn_hub s"]
      rh_active_simps(5) [of "rc_relay k" "rc_role k" "rn_hub s"] by (simp_all add: t)
  have pi: "pair_inv (map_of (rn_conns s)) (parked (rn_hub s))" and d: "distinct (map fst (rn_conns s))"
    using assms(1) by (auto simp: pairing_inv_def)
  show ?thesis
  proof (cases x)
    case None
    then have hub: "parked hub = parked (rn_hub s)"
      using pk x by (auto split: option.splits prod.splits if_splits)
    have "pair_inv ((map_of (rn_conns s))(c \<mapsto> k\<lparr>rc_phase := Parking\<rparr>)) (parked (rn_hub s))"
      by (rule pair_inv_release [OF pi assms(2)])
        (use not_parked [OF pi assms(2)] assms(3) in auto)
    with None assms hub ac d show ?thesis
      by (simp add: handle_take_def t pairing_inv_def of_nat_pipes is_piping_simps)
  next
    case (Some p)
    then obtain r where r: "parked (rn_hub s) (rc_relay k) = Some (r, p)" "roles_pair r (rc_role k)"
      using x by (auto split: option.splits prod.splits if_splits)
    with pair_inv_takes [OF pi assms(2,3) r] Some pk assms ac d show ?thesis
      by (simp add: handle_take_def t pairing_inv_def of_nat_pipes is_piping_simps)
  qed
qed

lemma pairing_inv_park:
  assumes "pairing_inv s" "conn s c = Some k" "rc_phase k = Parking"
  shows "pairing_inv (handle_park c k s)"
proof -
  obtain x hub where t: "park (rc_relay k) (rc_role k) c (rn_hub s) = (x, hub)" by fastforce
  have pk: "parked hub = (case parked (rn_hub s) (rc_relay k) of
      Some _ \<Rightarrow> parked (rn_hub s) | None \<Rightarrow> (parked (rn_hub s))(rc_relay k \<mapsto> (rc_role k, c)))"
    and x: "x = (if parked (rn_hub s) (rc_relay k) = None then None else Some c)"
    and ac: "rh_active hub = rh_active (rn_hub s)"
    using parked_park [of "rc_relay k" "rc_role k" c "rn_hub s"] fst_park [of "rc_relay k" "rc_role k" c "rn_hub s"]
      rh_active_simps(4) [of "rc_relay k" "rc_role k" c "rn_hub s"] by (simp_all add: t)
  have pi: "pair_inv (map_of (rn_conns s)) (parked (rn_hub s))" and d: "distinct (map fst (rn_conns s))"
    using assms(1) by (auto simp: pairing_inv_def)
  show ?thesis
  proof (cases "parked (rn_hub s) (rc_relay k)")
    case None
    with pair_inv_parks [OF pi assms(2,3)] pk x assms ac d show ?thesis
      by (simp add: handle_park_def t pairing_inv_def of_nat_pipes is_piping_simps)
  next
    case (Some y)
    have "pair_inv ((map_of (rn_conns s))(c \<mapsto> k\<lparr>rc_phase := Finished\<rparr>)) (parked (rn_hub s))"
      by (rule pair_inv_release [OF pi assms(2)])
        (use not_parked [OF pi assms(2)] assms(3) in auto)
    with Some pk x assms ac d show ?thesis
      by (simp add: handle_park_def t pairing_inv_def of_nat_pipes is_piping_simps)
  qed
qed

lemma pairing_inv_admit:
  assumes "pairing_inv s" "conn s c = Some k" "rc_phase k = Paired p"
  shows "pairing_inv (handle_admit env c k p s)"
proof -
  have pi: "pair_inv (map_of (rn_conns s)) (parked (rn_hub s))" and d: "distinct (map fst (rn_conns s))"
    using assms(1) by (auto simp: pairing_inv_def)
  have "pair_inv ((map_of (rn_conns s))(c \<mapsto> k\<lparr>rc_phase := Finished\<rparr>)) (parked (rn_hub s))"
    by (rule pair_inv_release [OF pi assms(2)]) (use not_parked [OF pi assms(2)] assms(3) in auto)
  with pair_inv_admits [OF pi assms(2,3)] assms d show ?thesis
    by (simp add: handle_admit_def Let_def pairing_inv_def of_nat_pipes is_piping_simps
        split: prod.splits bool.splits)
qed

lemma pairing_inv_pipe_end:
  assumes "pairing_inv s" "conn s c = Some k" "rc_phase k = Piping p"
  shows "pairing_inv (handle_pipe_end env c k s)"
proof -
  have pi: "pair_inv (map_of (rn_conns s)) (parked (rn_hub s))" and d: "distinct (map fst (rn_conns s))"
    using assms(1) by (auto simp: pairing_inv_def)
  have "pair_inv ((map_of (rn_conns s))(c \<mapsto> k\<lparr>rc_phase := Finished\<rparr>)) (parked (rn_hub s))"
    by (rule pair_inv_release [OF pi assms(2)]) (use not_parked [OF pi assms(2)] assms(3) in auto)
  with assms d show ?thesis
    by (simp add: handle_pipe_end_def Let_def pairing_inv_def of_nat_pipes is_piping_simps)
qed

lemma pairing_inv_give_up:
  assumes "pairing_inv s" "conn s c = Some k" "rc_phase k = Waiting"
  shows "pairing_inv (handle_give_up c k s)"
proof -
  have pi: "pair_inv (map_of (rn_conns s)) (parked (rn_hub s))" and d: "distinct (map fst (rn_conns s))"
    using assms(1) by (auto simp: pairing_inv_def)
  have own: "rid = rc_relay k" if "parked (rn_hub s) rid = Some (r, c)" for rid r
    using pair_invD(1) [OF pi that] assms(2) by auto
  have "pair_inv ((map_of (rn_conns s))(c \<mapsto> k\<lparr>rc_phase := Finished\<rparr>))
      ((parked (rn_hub s))(rc_relay k := None))"
    by (rule pair_inv_release [OF pi assms(2)]) (use own in \<open>auto simp: map_le_def\<close>)
  with assms d show ?thesis
    by (simp add: handle_give_up_def pairing_inv_def of_nat_pipes is_piping_simps parked_remove_waiting)
qed

lemma pairing_inv_step: "relay_step s s' \<Longrightarrow> pairing_inv s \<Longrightarrow> pairing_inv s'"
proof (induction rule: relay_step.induct)
  case (arrive s c k)
  then show ?case
    by (simp add: pairing_inv_def distinct_update update_conv' pair_inv_new pipes_def count_insert
        is_piping_simps)
qed (simp_all add: pairing_inv_take pairing_inv_park pairing_inv_admit pairing_inv_pipe_end
    pairing_inv_give_up)

lemma pairing_inv_reachable: "relay_reachable s \<Longrightarrow> pairing_inv s"
proof (induction rule: relay_reachable.induct)
  case (start a)
  show ?case
    by (simp add: pairing_inv_def pair_inv_def parked_ok_def held_ok_def exclusive_def pipes_def)
      (simp add: relay_hub_new_def)
qed (blast intro: pairing_inv_step)

section \<open>Properties\<close>

text \<open>
  C1. In every reachable state of the concurrent relay handlers, whatever the interleaving: a handler
  that holds a peer holds one of the same relay session and of the opposite role; no socket is held
  by two handlers, and none is held while still parked; and the counter of active pairings equals
  the number of handlers that are piping, modulo the width of the counter.
\<close>

theorem relay_pairs_sound:
  assumes "relay_reachable s"
  shows "(\<forall>c k p. conn s c = Some k \<and> holds_peer (rc_phase k) = Some p \<longrightarrow>
        (\<exists>k'. conn s p = Some k' \<and> rc_relay k' = rc_relay k \<and> rc_role k' \<noteq> rc_role k)
        \<and> (\<forall>rid r. parked (rn_hub s) rid \<noteq> Some (r, p))
        \<and> (\<forall>c' k'. conn s c' = Some k' \<and> holds_peer (rc_phase k') = Some p \<longrightarrow> c' = c))
    \<and> rh_active (rn_hub s) = of_nat (pipes s)"
proof -
  have "pairing_inv s" using pairing_inv_reachable [OF assms] .
  then have pi: "pair_inv (map_of (rn_conns s)) (parked (rn_hub s))"
    and a: "rh_active (rn_hub s) = of_nat (pipes s)"
    by (simp_all add: pairing_inv_def)
  show ?thesis
  proof (intro conjI allI impI)
    fix c k p assume h: "conn s c = Some k \<and> holds_peer (rc_phase k) = Some p"
    show "\<exists>k'. conn s p = Some k' \<and> rc_relay k' = rc_relay k \<and> rc_role k' \<noteq> rc_role k"
      using pair_invD(2) [OF pi, of c k p] h by (auto simp: peer_of_def roles_pair_def)
    show "parked (rn_hub s) rid \<noteq> Some (r, p)" for rid r
      using pair_invD(3) [OF pi] h by blast
    show "c' = c" if "conn s c' = Some k' \<and> holds_peer (rc_phase k') = Some p" for c' k'
      using pair_invD(4) [OF pi] h that by blast
  qed (rule a)
qed

definition sample_conn :: "relay_role \<Rightarrow> relay_conn" where
  "sample_conn role = \<lparr>rc_relay = 81, rc_role = role, rc_world = 10, rc_guest = Some 3,
     rc_phase = Arriving\<rparr>"

definition sample_start :: run_state where
  "sample_start = \<lparr>rn_state = sample_state, rn_hub = relay_hub_new, rn_conns = []\<rparr>"

definition new_conn :: "uuid \<Rightarrow> relay_role \<Rightarrow> run_state \<Rightarrow> run_state" where
  "new_conn c role s = s\<lparr>rn_conns := AList.update c (sample_conn role) (rn_conns s)\<rparr>"

definition conn_at :: "run_state \<Rightarrow> uuid \<Rightarrow> relay_conn" where
  "conn_at s c = the (conn s c)"

text \<open>A host parks, a guest takes it and both are piping; then the host connects again and parks.\<close>

definition demo1 :: run_state where "demo1 = new_conn 1 Host sample_start"
definition demo2 :: run_state where "demo2 = handle_take 1 (conn_at demo1 1) demo1"
definition demo3 :: run_state where "demo3 = handle_park 1 (conn_at demo2 1) demo2"
definition demo4 :: run_state where "demo4 = new_conn 2 Guest demo3"
definition demo5 :: run_state where "demo5 = handle_take 2 (conn_at demo4 2) demo4"
definition demo6 :: run_state where "demo6 = handle_admit sample_env 2 (conn_at demo5 2) 1 demo5"
definition demo7 :: run_state where "demo7 = new_conn 3 Host demo6"
definition demo8 :: run_state where "demo8 = handle_take 3 (conn_at demo7 3) demo7"
definition demo9 :: run_state where "demo9 = handle_park 3 (conn_at demo8 3) demo8"

lemma demo_reachable: "relay_reachable demo6" "relay_reachable demo9"
proof -
  have r0: "relay_reachable sample_start"
    unfolding sample_start_def by (rule relay_reachable.start)
  have s1: "relay_step sample_start demo1" unfolding demo1_def new_conn_def
    by (rule relay_step.arrive) code_simp+
  have s2: "relay_step demo1 demo2" unfolding demo2_def by (rule relay_step.take) code_simp+
  have s3: "relay_step demo2 demo3" unfolding demo3_def by (rule relay_step.park) code_simp+
  have s4: "relay_step demo3 demo4" unfolding demo4_def new_conn_def
    by (rule relay_step.arrive) code_simp+
  have s5: "relay_step demo4 demo5" unfolding demo5_def by (rule relay_step.take) code_simp+
  have s6: "relay_step demo5 demo6" unfolding demo6_def by (rule relay_step.admit) code_simp+
  show r6: "relay_reachable demo6"
    by (rule relay_reachable.step [OF relay_reachable.step [OF relay_reachable.step
      [OF relay_reachable.step [OF relay_reachable.step [OF relay_reachable.step
        [OF r0 s1] s2] s3] s4] s5] s6])
  have s7: "relay_step demo6 demo7" unfolding demo7_def new_conn_def
    by (rule relay_step.arrive) code_simp+
  have s8: "relay_step demo7 demo8" unfolding demo8_def by (rule relay_step.take) code_simp+
  have s9: "relay_step demo8 demo9" unfolding demo9_def by (rule relay_step.park) code_simp+
  show "relay_reachable demo9"
    by (rule relay_reachable.step [OF relay_reachable.step [OF relay_reachable.step [OF r6 s7] s8] s9])
qed

theorem relay_pairs_sound_witness:
  "(\<exists>k'. conn demo6 1 = Some k' \<and> rc_relay k' = 81 \<and> rc_role k' \<noteq> Guest)
   \<and> rh_active (rn_hub demo6) = 1"
proof -
  have k: "conn demo6 2 = Some ((sample_conn Guest)\<lparr>rc_phase := Piping 1\<rparr>)" "pipes demo6 = 1"
    "rc_relay (sample_conn Guest) = 81" "rc_role (sample_conn Guest) = Guest"
    by code_simp+
  have "holds_peer (rc_phase ((sample_conn Guest)\<lparr>rc_phase := Piping 1\<rparr>)) = Some 1" by simp
  then have "\<exists>k'. conn demo6 1 = Some k' \<and> rc_relay k' = rc_relay ((sample_conn Guest)\<lparr>rc_phase := Piping 1\<rparr>)
      \<and> rc_role k' \<noteq> rc_role ((sample_conn Guest)\<lparr>rc_phase := Piping 1\<rparr>)"
    using relay_pairs_sound [OF demo_reachable(1)] k(1) by blast
  moreover have "rh_active (rn_hub demo6) = 1"
    using relay_pairs_sound [OF demo_reachable(1)] k(2) by simp
  ultimately show ?thesis using k(3,4) by simp
qed

text \<open>
  A waiting handler that continues removes whatever is parked under its relay id. After the first
  host was paired, a second host socket can be parked there, and the first handler then drops it,
  although it is not its own.
\<close>

lemma give_up_drops_other_socket:
  "\<exists>s k. relay_reachable s \<and> conn s 1 = Some k \<and> rc_phase k = Waiting
     \<and> relay_step s (handle_give_up 1 k s)
     \<and> parked (rn_hub s) 81 = Some (Host, 3)
     \<and> parked (rn_hub (handle_give_up 1 k s)) 81 = None
     \<and> rc_phase (conn_at (handle_give_up 1 k s) 3) = Waiting"
proof (intro exI conjI)
  show "relay_reachable demo9" by (rule demo_reachable)
  show c: "conn demo9 1 = Some (conn_at demo9 1)" by code_simp
  show w: "rc_phase (conn_at demo9 1) = Waiting" by code_simp
  show "relay_step demo9 (handle_give_up 1 (conn_at demo9 1) demo9)"
    by (rule relay_step.give_up [OF c w])
qed code_simp+

end
