(* ===== verification/Ygg_Tokens.thy ===== *)
theory Ygg_Tokens
  imports Sessions
begin

text \<open>
  \<^verbatim>\<open>core/src/auth/yggdrasil.rs\<close>: the access and client token pairs of the game handshake. Only the
  digest of the access token is stored; a user keeps at most a configured number of pairs; a
  refresh rotates the access token and keeps the client token. The store is the second instance
  of the contract \<open>token_store\<close>.
\<close>

section \<open>Operations\<close>

record issued_tokens =
  it_access_token :: string
  it_client_token :: string
  it_expires_at :: timestamp

definition random_64_hex :: "env \<Rightarrow> nat \<Rightarrow> string" where
  "random_64_hex env k = e_hex env (e_random env k)"

text \<open>\<^verbatim>\<open>DELETE\<close> of the pairs of the user outside the newest \<open>max_per_user\<close>.\<close>

definition evict_beyond_cap :: "uuid \<Rightarrow> int \<Rightarrow> yggdrasil_token list \<Rightarrow> yggdrasil_token list" where
  "evict_beyond_cap user_id max_per_user rs =
     (let keep = map yt_id (limit max_per_user
            (newest_first yt_issued_at (filter (\<lambda>t. yt_user_id t = user_id) rs))) in
      sql_delete (\<lambda>t. yt_user_id t = user_id \<and> yt_id t \<notin> set keep) rs)"

text \<open>Draws \<open>k\<close> and \<open>k + 1\<close> of the request are the access token and a minted client token.\<close>

definition issue_yggdrasil_tokens ::
  "env \<Rightarrow> nat \<Rightarrow> uuid \<Rightarrow> string option \<Rightarrow> duration \<Rightarrow> int \<Rightarrow> db
    \<Rightarrow> (issued_tokens \<times> db) app_result" where
  "issue_yggdrasil_tokens env k user_id client_token ttl max_per_user d =
     (let access_token = random_64_hex env k;
          client = coalesce_or client_token (random_64_hex env (k + 1));
          expires_at = e_utc env + from_std_or ttl (days 15) in
      (case insert_yggdrasil_token
              \<lparr>yt_id = e_uuid env k, yt_user_id = user_id,
               yt_access_token_hash = hash_token env access_token, yt_client_token = client,
               yt_issued_at = e_now env, yt_expires_at = expires_at\<rparr> d of
         Inl e \<Rightarrow> Inl (Database e)
       | Inr d1 \<Rightarrow>
           let d2 = (if 0 < max_per_user
                     then d1\<lparr>yggdrasil_tokens := evict_beyond_cap user_id max_per_user
                               (yggdrasil_tokens d1)\<rparr>
                     else d1) in
           Inr (\<lparr>it_access_token = access_token, it_client_token = client,
                 it_expires_at = expires_at\<rparr>, d2)))"

definition live_token :: "env \<Rightarrow> string \<Rightarrow> yggdrasil_token \<Rightarrow> bool" where
  "live_token env access_hash t \<longleftrightarrow>
     yt_access_token_hash t = access_hash \<and> yt_expires_at t > e_now env"

text \<open>The checks a validation and a refresh share: the pair, the client token, the account.\<close>

definition eligible_owner ::
  "env \<Rightarrow> string \<Rightarrow> string option \<Rightarrow> db \<Rightarrow> (user \<times> yggdrasil_token) app_result" where
  "eligible_owner env access_hash client_token d =
     (case sql_find (live_token env access_hash) (yggdrasil_tokens d) of
        None \<Rightarrow> Inl Forbidden
      | Some row \<Rightarrow>
          if (case client_token of Some supplied \<Rightarrow> supplied \<noteq> yt_client_token row | None \<Rightarrow> False)
          then Inl Forbidden
          else
            (case find_user d (yt_user_id row) of
               None \<Rightarrow> Inl Forbidden
             | Some user \<Rightarrow>
                 if u_blocked user \<or> \<not> u_confirmed user then Inl Forbidden else Inr (user, row)))"

definition validate_yggdrasil :: "env \<Rightarrow> string \<Rightarrow> string option \<Rightarrow> db \<Rightarrow> user app_result" where
  "validate_yggdrasil env access_token client_token d =
     (case eligible_owner env (hash_token env access_token) client_token d of
        Inl e \<Rightarrow> Inl e | Inr (user, _) \<Rightarrow> Inr user)"

definition drop_access_hash :: "string \<Rightarrow> db \<Rightarrow> db" where
  "drop_access_hash access_hash d =
     d\<lparr>yggdrasil_tokens := sql_delete (\<lambda>t. yt_access_token_hash t = access_hash) (yggdrasil_tokens d)\<rparr>"

text \<open>The deletion and the new pair are two statements: a failed issue leaves the deletion.\<close>

definition refresh_yggdrasil ::
  "env \<Rightarrow> nat \<Rightarrow> string \<Rightarrow> string option \<Rightarrow> duration \<Rightarrow> int \<Rightarrow> db
    \<Rightarrow> (user \<times> issued_tokens) app_result \<times> db" where
  "refresh_yggdrasil env k access_token client_token ttl max_per_user d =
     (let access_hash = hash_token env access_token in
      (case eligible_owner env access_hash client_token d of
         Inl e \<Rightarrow> (Inl e, d)
       | Inr (user, row) \<Rightarrow>
           let d1 = drop_access_hash access_hash d in
           (case issue_yggdrasil_tokens env k (yt_user_id row) (Some (yt_client_token row)) ttl
                   max_per_user d1 of
              Inl e \<Rightarrow> (Inl e, d1)
            | Inr (tokens, d2) \<Rightarrow> (Inr (user, tokens), d2))))"

definition invalidate_yggdrasil :: "env \<Rightarrow> string \<Rightarrow> string option \<Rightarrow> db \<Rightarrow> nat \<times> db" where
  "invalidate_yggdrasil env access_token client_token d =
     (let access_hash = hash_token env access_token;
          p = (case client_token of
                 Some ct \<Rightarrow> (\<lambda>t. yt_access_token_hash t = access_hash \<and> yt_client_token t = ct)
               | None \<Rightarrow> (\<lambda>t. yt_access_token_hash t = access_hash)) in
      (sql_affected p (yggdrasil_tokens d),
       d\<lparr>yggdrasil_tokens := sql_delete p (yggdrasil_tokens d)\<rparr>))"

definition invalidate_all_yggdrasil_for_user :: "uuid \<Rightarrow> db \<Rightarrow> nat \<times> db" where
  "invalidate_all_yggdrasil_for_user user_id d =
     (sql_affected (\<lambda>t. yt_user_id t = user_id) (yggdrasil_tokens d),
      d\<lparr>yggdrasil_tokens := sql_delete (\<lambda>t. yt_user_id t = user_id) (yggdrasil_tokens d)\<rparr>)"

definition cleanup_expired_yggdrasil :: "env \<Rightarrow> db \<Rightarrow> nat \<times> db" where
  "cleanup_expired_yggdrasil env d =
     (sql_affected (\<lambda>t. yt_expires_at t \<le> e_now env) (yggdrasil_tokens d),
      d\<lparr>yggdrasil_tokens := sql_delete (\<lambda>t. yt_expires_at t \<le> e_now env) (yggdrasil_tokens d)\<rparr>)"

definition yggdrasil_user ::
  "env \<Rightarrow> (string \<Rightarrow> string option) \<Rightarrow> db \<Rightarrow> (user \<times> string) app_result" where
  "yggdrasil_user env headers d =
     (case bearer_token_from_headers headers of
        None \<Rightarrow> Inl Forbidden
      | Some access_token \<Rightarrow>
          (case validate_yggdrasil env access_token None d of
             Inl e \<Rightarrow> Inl e | Inr user \<Rightarrow> Inr (user, access_token)))"

section \<open>The token store\<close>

definition owner_of_hash :: "env \<Rightarrow> string \<Rightarrow> db \<Rightarrow> user option" where
  "owner_of_hash env access_hash d =
     (case eligible_owner env access_hash None d of Inl _ \<Rightarrow> None | Inr (user, _) \<Rightarrow> Some user)"

lemma find_live_token_delete:
  "sql_find (live_token env h) (sql_delete (\<lambda>t. yt_access_token_hash t = h') rs) =
    (if h = h' then None else sql_find (live_token env h) rs)"
  by (induction rs) (auto simp: sql_find_def sql_delete_def live_token_def [abs_def])

lemma find_live_token_purge:
  "sql_find (live_token env h) (sql_delete (\<lambda>t. yt_expires_at t \<le> e_now env) rs)
     = sql_find (live_token env h) rs"
  by (induction rs) (auto simp: sql_find_def sql_delete_def live_token_def [abs_def])

lemma owner_of_hash_cong:
  assumes "sql_find (live_token env h) (yggdrasil_tokens d) = sql_find (live_token env h) (yggdrasil_tokens d')"
    and "users d = users d'"
  shows "owner_of_hash env h d = owner_of_hash env h d'"
  unfolding owner_of_hash_def eligible_owner_def find_user_def assms ..

lemma owner_of_hash_none:
  "sql_find (live_token env h) (yggdrasil_tokens d) = None \<Longrightarrow> owner_of_hash env h d = None"
  by (simp add: owner_of_hash_def eligible_owner_def)

interpretation yt: token_store "owner_of_hash env" drop_access_hash
    "\<lambda>d. snd (cleanup_expired_yggdrasil env d)" for env
proof unfold_locales
  show "owner_of_hash env k (drop_access_hash k d) = None" for k d
    by (rule owner_of_hash_none) (simp add: drop_access_hash_def find_live_token_delete)
  show "owner_of_hash env k (drop_access_hash k' d) = owner_of_hash env k d" if "k \<noteq> k'" for k k' d
    using that by (intro owner_of_hash_cong) (simp_all add: drop_access_hash_def find_live_token_delete)
  show "owner_of_hash env k (snd (cleanup_expired_yggdrasil env d)) = owner_of_hash env k d" for k d
    by (rule owner_of_hash_cong)
      (simp_all add: cleanup_expired_yggdrasil_def find_live_token_purge)
qed

lemma validate_owner:
  "validate_yggdrasil env access None d = ok_or Forbidden (owner_of_hash env (hash_token env access) d)"
  by (auto simp: validate_yggdrasil_def owner_of_hash_def eligible_owner_def ok_or_def
      split: option.splits sum.splits)

lemma eligible_owner_Inr:
  "eligible_owner env h client d = Inr (user, row) \<longleftrightarrow>
     sql_find (live_token env h) (yggdrasil_tokens d) = Some row
     \<and> (client = None \<or> client = Some (yt_client_token row))
     \<and> find_user d (yt_user_id row) = Some user \<and> \<not> u_blocked user \<and> u_confirmed user"
  by (auto simp: eligible_owner_def split: option.splits)

lemma eligible_owner_Inl: "eligible_owner env h client d = Inl e \<Longrightarrow> e = Forbidden"
  by (auto simp: eligible_owner_def split: option.splits if_splits)

section \<open>Well-formedness\<close>

lemma evict_is_delete: "\<exists>p. evict_beyond_cap uid n rs = sql_delete p rs"
  by (auto simp: evict_beyond_cap_def Let_def)

lemma evict_subset: "set (evict_beyond_cap uid n rs) \<subseteq> set rs"
  by (auto simp: evict_beyond_cap_def Let_def)

lemma db_wf_delete_tokens: "db_wf d \<Longrightarrow> db_wf (d\<lparr>yggdrasil_tokens := sql_delete p (yggdrasil_tokens d)\<rparr>)"
  by (rule db_wf_delete_simple(2))

lemma db_wf_drop_access_hash [wf_intros]: "db_wf d \<Longrightarrow> db_wf (drop_access_hash h d)"
  by (simp add: drop_access_hash_def db_wf_delete_tokens)

lemma db_wf_issue_yggdrasil [wf_intros]:
  "issue_yggdrasil_tokens env k uid client ttl n d = Inr (t, d') \<Longrightarrow> db_wf d \<Longrightarrow> db_wf d'"
  using evict_is_delete [of uid n]
  by (auto simp: issue_yggdrasil_tokens_def Let_def split: sum.splits if_splits
      dest!: db_wf_insert_yggdrasil_token) (metis db_wf_delete_tokens)

lemma db_wf_refresh_yggdrasil [wf_intros]:
  "db_wf d \<Longrightarrow> db_wf (snd (refresh_yggdrasil env k access client ttl n d))"
  by (auto simp: refresh_yggdrasil_def Let_def split: sum.splits prod.splits
      intro: db_wf_drop_access_hash db_wf_issue_yggdrasil)

lemma db_wf_invalidate_yggdrasil [wf_intros]:
  "db_wf d \<Longrightarrow> db_wf (snd (invalidate_yggdrasil env access client d))"
  "db_wf d \<Longrightarrow> db_wf (snd (invalidate_all_yggdrasil_for_user uid d))"
  "db_wf d \<Longrightarrow> db_wf (snd (cleanup_expired_yggdrasil env d))"
  by (simp_all add: invalidate_yggdrasil_def invalidate_all_yggdrasil_for_user_def
      cleanup_expired_yggdrasil_def Let_def db_wf_delete_tokens)

section \<open>Eviction\<close>

lemma order_by_first:
  assumes "\<And>x. x \<in> set xs \<Longrightarrow> \<not> le x r"
  shows "order_by le (xs @ [r]) = r # order_by le xs"
  using assms by (induction xs) auto

lemma filter_keys_le:
  assumes "unique_index (\<lambda>_. True) k rs"
  shows "length (filter (\<lambda>r. k r \<in> set ks) rs) \<le> length ks"
proof -
  have "distinct (map k (filter (\<lambda>r. k r \<in> set ks) rs))"
    using assms by (simp add: unique_index_def distinct_map inj_on_def)
  then have "length (map k (filter (\<lambda>r. k r \<in> set ks) rs)) = card (k ` {r \<in> set rs. k r \<in> set ks})"
    using distinct_card by fastforce
  also have "\<dots> \<le> card (set ks)"
    by (rule card_mono) auto
  also have "\<dots> \<le> length ks" by (rule card_length)
  finally show ?thesis by simp
qed

lemma evict_capped:
  assumes "unique_index (\<lambda>_. True) yt_id rs" "0 < n"
  shows "int (length (filter (\<lambda>t. yt_user_id t = uid) (evict_beyond_cap uid n rs))) \<le> n"
proof -
  let ?keep = "map yt_id (limit n (newest_first yt_issued_at (filter (\<lambda>t. yt_user_id t = uid) rs)))"
  have "filter (\<lambda>t. yt_user_id t = uid) (evict_beyond_cap uid n rs) =
      filter (\<lambda>t. yt_user_id t = uid) (filter (\<lambda>t. yt_id t \<in> set ?keep) rs)"
    by (auto simp: evict_beyond_cap_def sql_delete_def Let_def intro: filter_cong)
  also have "length \<dots> \<le> length (filter (\<lambda>t. yt_id t \<in> set ?keep) rs)"
    by (rule length_filter_le)
  also have "\<dots> \<le> length ?keep"
    by (rule filter_keys_le [OF assms(1)])
  also have "\<dots> \<le> nat n"
    by (simp add: limit_def)
  finally show ?thesis using assms(2) by linarith
qed

lemma evict_other: "filter (\<lambda>t. yt_user_id t \<noteq> uid) (evict_beyond_cap uid n rs) = filter (\<lambda>t. yt_user_id t \<noteq> uid) rs"
  by (auto simp: evict_beyond_cap_def sql_delete_def Let_def intro: filter_cong)

lemma evict_keeps_newest:
  assumes "0 < n" "\<And>x. x \<in> set rs \<Longrightarrow> yt_user_id x = yt_user_id t \<Longrightarrow> yt_issued_at x < yt_issued_at t"
  shows "t \<in> set (evict_beyond_cap (yt_user_id t) n (rs @ [t]))"
proof -
  have "\<not> yt_issued_at t \<le> yt_issued_at x" if "x \<in> set rs" "yt_user_id x = yt_user_id t" for x
    using assms(2) [OF that] by simp
  then have "newest_first yt_issued_at (filter (\<lambda>x. yt_user_id x = yt_user_id t) (rs @ [t])) =
      t # newest_first yt_issued_at (filter (\<lambda>x. yt_user_id x = yt_user_id t) rs)"
    by (auto simp: newest_first_def intro!: order_by_first)
  moreover from assms(1) have "t \<in> set (limit n (t # xs))" for xs
    by (cases "nat n") (simp_all add: limit_def)
  ultimately show ?thesis
    by (auto simp: evict_beyond_cap_def Let_def)
qed

section \<open>Properties\<close>

text \<open>What an issue has done when it succeeds.\<close>

lemma issue_yggdrasilD:
  assumes "issue_yggdrasil_tokens env k uid client ttl n d = Inr (t, d')"
  defines "r \<equiv> \<lparr>yt_id = e_uuid env k, yt_user_id = uid,
      yt_access_token_hash = hash_token env (it_access_token t), yt_client_token = it_client_token t,
      yt_issued_at = e_now env, yt_expires_at = it_expires_at t\<rparr>"
  shows "insert_yggdrasil_token r d = Inr (d\<lparr>yggdrasil_tokens := yggdrasil_tokens d @ [r]\<rparr>)"
    and "d' = d\<lparr>yggdrasil_tokens := (if 0 < n then evict_beyond_cap uid n else (\<lambda>rs. rs))
                 (yggdrasil_tokens d @ [r])\<rparr>"
    and "it_access_token t = random_64_hex env k"
    and "it_client_token t = coalesce_or client (random_64_hex env (k + 1))"
  using assms(1)
  by (auto simp: r_def issue_yggdrasil_tokens_def insert_yggdrasil_token_def Let_def
      split: sum.splits if_splits)

lemma find_live_token_unique:
  assumes "unique_index always yt_access_token_hash rs" "t \<in> set rs" "live_token env h t"
  shows "sql_find (live_token env h) rs = Some t"
proof -
  obtain t' where t': "sql_find (live_token env h) rs = Some t'"
    using sql_find_SomeI [of t rs "live_token env h"] assms(2,3) by blast
  then have "t' \<in> set rs" "live_token env h t'"
    by (auto dest: sql_find_SomeD)
  with assms have "t' = t"
    by (auto simp: live_token_def intro: unique_indexD)
  with t' show ?thesis by simp
qed

lemma issued_token_resolves:
  assumes "db_wf d" "issue_yggdrasil_tokens env k uid client ttl n d = Inr (t, d')"
    and "\<And>x. x \<in> set (yggdrasil_tokens d) \<Longrightarrow> yt_user_id x = uid \<Longrightarrow> yt_issued_at x < e_now env"
    and "e_now env' < it_expires_at t" "hash_token env' = hash_token env"
  shows "sql_find (live_token env' (hash_token env' (it_access_token t))) (yggdrasil_tokens d') =
    Some \<lparr>yt_id = e_uuid env k, yt_user_id = uid,
      yt_access_token_hash = hash_token env (it_access_token t), yt_client_token = it_client_token t,
      yt_issued_at = e_now env, yt_expires_at = it_expires_at t\<rparr>" (is "_ = Some ?r")
proof (rule find_live_token_unique)
  note D = issue_yggdrasilD [OF assms(2)]
  show "unique_index always yt_access_token_hash (yggdrasil_tokens d')"
    using db_wfD(3) [OF db_wf_issue_yggdrasil [OF assms(2,1)]]
    by (simp add: yggdrasil_tokens_wf_def)
  show "?r \<in> set (yggdrasil_tokens d')"
    using evict_keeps_newest [of n "yggdrasil_tokens d" ?r] assms(3) by (simp add: D(2))
  show "live_token env' (hash_token env' (it_access_token t)) ?r"
    using assms(4,5) by (simp add: live_token_def)
qed



text \<open>
  A refresh rotates the access token. Refused, it answers Forbidden and changes nothing. When it
  succeeds the old access token is dead, the new one belongs to the same account, and the client
  token is the stored one, which the caller must have presented if it presented any.
\<close>

theorem refresh_rotates:
  assumes "db_wf d" "hash_token env (random_64_hex env k) \<noteq> hash_token env access"
    and "\<And>x. x \<in> set (yggdrasil_tokens d) \<Longrightarrow> yt_issued_at x < e_now env"
  shows "case refresh_yggdrasil env k access client ttl n d of
      (Inl e, d') \<Rightarrow> (e = Forbidden \<and> d' = d) \<or> (\<exists>x. e = Database x \<and> d' = drop_access_hash (hash_token env access) d)
    | (Inr (u, t), d') \<Rightarrow>
        validate_yggdrasil env access client d = Inr u
        \<and> validate_yggdrasil env access None d' = Inl Forbidden
        \<and> (e_now env < it_expires_at t \<longrightarrow>
             validate_yggdrasil env (it_access_token t) (Some (it_client_token t)) d' = Inr u)
        \<and> (client = None \<or> client = Some (it_client_token t))"
proof (cases "eligible_owner env (hash_token env access) client d")
  case (Inl e)
  then show ?thesis
    using eligible_owner_Inl [OF Inl] by (simp add: refresh_yggdrasil_def)
next
  case (Inr p)
  obtain u :: user and row :: yggdrasil_token where p: "p = (u, row)" by (cases p)
  let ?h = "hash_token env access"
  let ?d1 = "drop_access_hash ?h d"
  note el = Inr [unfolded p eligible_owner_Inr]
  show ?thesis
  proof (cases "issue_yggdrasil_tokens env k (yt_user_id row) (Some (yt_client_token row)) ttl n ?d1")
    case (Inl e)
    with Inr p show ?thesis
      by (auto simp: refresh_yggdrasil_def issue_yggdrasil_tokens_def Let_def split: sum.splits)
  next
    case iss: (Inr q)
    obtain t :: issued_tokens and d' where q: "q = (t, d')" by (cases q)
    note iss' = iss [unfolded q]
    note D = issue_yggdrasilD [OF iss']
    have users: "find_user d' x = find_user d x" for x
      by (simp add: D(2) drop_access_hash_def find_user_def)
    have res: "refresh_yggdrasil env k access client ttl n d = (Inr (u, t), d')"
      using Inr p iss' by (simp add: refresh_yggdrasil_def)
    have "validate_yggdrasil env access client d = Inr u"
      using Inr p by (simp add: validate_yggdrasil_def)
    moreover have "\<forall>x \<in> set (yggdrasil_tokens d'). yt_access_token_hash x \<noteq> ?h"
      using assms(2) evict_subset [of "yt_user_id row" n]
      by (fastforce simp: D(2,3) drop_access_hash_def split: if_splits)
    then have "validate_yggdrasil env access None d' = Inl Forbidden"
      by (simp add: validate_owner owner_of_hash_none sql_find_None_iff live_token_def)
    moreover have "validate_yggdrasil env (it_access_token t) (Some (it_client_token t)) d' = Inr u"
      if "e_now env < it_expires_at t"
      using issued_token_resolves [OF db_wf_drop_access_hash [OF assms(1)] iss' _ that refl] assms(3)
        users el
      by (auto simp: drop_access_hash_def validate_yggdrasil_def eligible_owner_def)
    ultimately show ?thesis
      using el by (auto simp: res D(4))
  qed
qed

lemma answered: "\<not> isl (fst r) \<Longrightarrow> \<exists>x s. r = (Inr x, s)"
  by (metis isl_def prod.collapse sum.exhaust)

definition sample_token_db :: db where
  "sample_token_db = sample_db
     \<lparr>yggdrasil_tokens := [\<lparr>yt_id = 50, yt_user_id = 1, yt_access_token_hash = ''tok'',
        yt_client_token = ''client'', yt_issued_at = 0, yt_expires_at = days 15\<rparr>]\<rparr>"

lemma sample_token_wf: "db_wf sample_token_db"
  by code_simp

end
