(* ===== verification/Identity.thy ===== *)
theory Identity
  imports User_Rows Protocol_Uuid
begin

text \<open>
  \<^verbatim>\<open>core/src/identity.rs\<close>: accounts and their reconciliation with a Minecraft identity. Argon2 and
  the simple form of a random UUID are parameters: \<open>cr_hash k p\<close> is the digest of \<open>p\<close> under the
  \<open>k\<close>-th salt of the request (\<open>None\<close> when hashing fails), \<open>cr_verify\<close> the verifier. The
  verification against a dummy digest on the paths without an account only spends time.
\<close>

section \<open>Parameters\<close>

record crypt =
  cr_hash :: "nat \<Rightarrow> string \<Rightarrow> string option"
  cr_verify :: "string \<Rightarrow> string \<Rightarrow> bool"
  cr_simple :: "uuid \<Rightarrow> string"

text \<open>A digest verifies against its own password; a simple UUID is 32 lower-case digits.\<close>

definition crypt_ok :: "crypt \<Rightarrow> bool" where
  "crypt_ok cr \<longleftrightarrow> (\<forall>k p h. cr_hash cr k p = Some h \<longrightarrow> cr_verify cr p h)
     \<and> (\<forall>u. is_uuid_undashed (cr_simple cr u) \<and> to_ascii_lowercase (cr_simple cr u) = cr_simple cr u)"

definition hash_password :: "crypt \<Rightarrow> nat \<Rightarrow> string \<Rightarrow> string app_result" where
  "hash_password cr k plain = ok_or (Internal ''password hash failed'') (cr_hash cr k plain)"

definition random_profile_uuid :: "crypt \<Rightarrow> env \<Rightarrow> nat \<Rightarrow> string" where
  "random_profile_uuid cr env k = cr_simple cr (e_uuid env k)"

definition check_password_len :: "string \<Rightarrow> unit app_result" where
  "check_password_len password =
     (if password = [] then Inl (BadRequest ''password is required'')
      else if length password > 1024 then Inl (BadRequest ''password is too long'')
      else Inr ())"

fun show_uuid_error :: "uuid_error \<Rightarrow> string" where
  "show_uuid_error (UuidInvalid v) = ''value is not a valid UUID: '' @ v"

definition invalid_minecraft_uuid :: "uuid_error \<Rightarrow> app_error" where
  "invalid_minecraft_uuid e = BadRequest (''invalid minecraftUuid: '' @ show_uuid_error e)"

definition undash_or_bad_request :: "string \<Rightarrow> string app_result" where
  "undash_or_bad_request mc =
     (case undash_uuid mc of Inl e \<Rightarrow> Inl (invalid_minecraft_uuid e) | Inr p \<Rightarrow> Inr p)"

text \<open>\<open>fresh\<close> is the random UUID drawn when there is neither identity nor profile.\<close>

definition reconcile_profile_uuid ::
  "string \<Rightarrow> string option \<Rightarrow> string option \<Rightarrow> string app_result" where
  "reconcile_profile_uuid fresh minecraft_uuid current_profile_uuid =
     (case minecraft_uuid of
        Some mc \<Rightarrow> undash_or_bad_request mc
      | None \<Rightarrow> Inr (coalesce_or current_profile_uuid fresh))"

definition map_username_conflict :: "string \<Rightarrow> db_error \<Rightarrow> app_error" where
  "map_username_conflict normalized err =
     (if violates ''users_normalized_username_uniq'' err
      then Conflict (''username '' @ [CHR 0x27] @ normalized @ [CHR 0x27] @ '' is already taken'')
      else Database err)"

definition map_create_conflict :: "string \<Rightarrow> string \<Rightarrow> db_error \<Rightarrow> app_error" where
  "map_create_conflict normalized email err =
     (if violates ''users_normalized_username_uniq'' err
      then Conflict (''username '' @ [CHR 0x27] @ normalized @ [CHR 0x27] @ '' is already taken'')
      else if violates ''users_email_uniq'' err
      then Conflict (''email '' @ [CHR 0x27] @ email @ [CHR 0x27] @ '' is already registered'')
      else Database err)"

section \<open>Statements\<close>

text \<open>\<^verbatim>\<open>UPDATE users SET f WHERE id = x RETURNING *\<close>.\<close>

definition update_returning ::
  "uuid \<Rightarrow> (user \<Rightarrow> user) \<Rightarrow> db \<Rightarrow> db_error + (user option \<times> db)" where
  "update_returning x f d =
     (case update_user x f d of Inl e \<Rightarrow> Inl e | Inr d' \<Rightarrow> Inr (find_user d' x, d'))"

text \<open>The columns an \<^verbatim>\<open>INSERT INTO users\<close> does not name take their defaults.\<close>

definition default_user :: "env \<Rightarrow> nat \<Rightarrow> string \<Rightarrow> user" where
  "default_user env k username =
     \<lparr>u_id = e_uuid env k, u_minecraft_uuid = None, u_username = username,
      u_normalized_username = normalize_username username, u_account_type = None, u_xuid = None,
      u_client_id = None, u_first_seen_at = e_now env, u_last_seen_at = e_now env,
      u_created_at = e_now env, u_updated_at = e_now env, u_email = None, u_password_hash = None,
      u_origin = ''mod'', u_profile_uuid = None, u_confirmed = False, u_blocked = False,
      u_is_admin = False\<rparr>"

definition find_by_minecraft_uuid :: "string \<Rightarrow> db \<Rightarrow> user option" where
  "find_by_minecraft_uuid mc d = sql_find (\<lambda>u. u_minecraft_uuid u = Some mc) (users d)"

definition find_by_profile_uuid :: "string \<Rightarrow> db \<Rightarrow> user option" where
  "find_by_profile_uuid p d = sql_find (\<lambda>u. u_profile_uuid u = Some p) (users d)"

definition load_user :: "db \<Rightarrow> uuid \<Rightarrow> user app_result" where
  "load_user d x = ok_or (NotFound ''user not found'') (find_user d x)"

section \<open>The mod bootstrap\<close>

record bootstrap_identity =
  bi_minecraft_uuid :: string
  bi_username :: string
  bi_account_type :: "string option"
  bi_xuid :: "string option"
  bi_client_id :: "string option"

definition refreshed ::
  "env \<Rightarrow> bootstrap_identity \<Rightarrow> string option \<Rightarrow> string option \<Rightarrow> user \<Rightarrow> user" where
  "refreshed env ident minecraft_uuid profile_uuid u = u
     \<lparr>u_minecraft_uuid := coalesce minecraft_uuid (u_minecraft_uuid u),
      u_profile_uuid := coalesce profile_uuid (u_profile_uuid u),
      u_username := trim (bi_username ident),
      u_normalized_username := normalize_username (trim (bi_username ident)),
      u_account_type := coalesce (bi_account_type ident) (u_account_type u),
      u_xuid := coalesce (bi_xuid ident) (u_xuid u),
      u_client_id := coalesce (bi_client_id ident) (u_client_id u),
      u_last_seen_at := e_now env, u_updated_at := e_now env\<rparr>"

definition refresh_bootstrap_row ::
  "env \<Rightarrow> uuid \<Rightarrow> bootstrap_identity \<Rightarrow> string option \<Rightarrow> string option \<Rightarrow> db
    \<Rightarrow> (user \<times> db) app_result" where
  "refresh_bootstrap_row env x ident minecraft_uuid profile_uuid d =
     (let normalized = normalize_username (trim (bi_username ident)) in
      (case update_returning x (refreshed env ident minecraft_uuid profile_uuid) d of
         Inl e \<Rightarrow> Inl (map_username_conflict normalized e)
       | Inr (None, _) \<Rightarrow> Inl (map_username_conflict normalized RowNotFound)
       | Inr (Some u, d') \<Rightarrow> Inr (u, d')))"

definition bootstrap_row :: "env \<Rightarrow> nat \<Rightarrow> bootstrap_identity \<Rightarrow> string \<Rightarrow> user" where
  "bootstrap_row env k ident profile_uuid =
     (default_user env k (trim (bi_username ident)))
       \<lparr>u_minecraft_uuid := Some (trim (bi_minecraft_uuid ident)),
        u_account_type := bi_account_type ident, u_xuid := bi_xuid ident,
        u_client_id := bi_client_id ident, u_profile_uuid := Some profile_uuid\<rparr>"

definition find_or_create_from_bootstrap ::
  "env \<Rightarrow> nat \<Rightarrow> bootstrap_identity \<Rightarrow> db \<Rightarrow> (user \<times> db) app_result" where
  "find_or_create_from_bootstrap env k ident d =
     (let minecraft_uuid = trim (bi_minecraft_uuid ident); username = trim (bi_username ident) in
      if minecraft_uuid = [] then Inl (BadRequest ''minecraftUuid is required'')
      else if username = [] then Inl (BadRequest ''username is required'')
      else
        (case undash_or_bad_request minecraft_uuid of
           Inl e \<Rightarrow> Inl e
         | Inr profile_uuid \<Rightarrow>
             (case find_by_minecraft_uuid minecraft_uuid d of
                Some existing \<Rightarrow>
                  refresh_bootstrap_row env (u_id existing) ident None (Some profile_uuid) d
              | None \<Rightarrow>
                  (case find_by_profile_uuid profile_uuid d of
                     Some existing \<Rightarrow>
                       refresh_bootstrap_row env (u_id existing) ident (Some minecraft_uuid) None d
                   | None \<Rightarrow>
                       (case insert_user (bootstrap_row env k ident profile_uuid) d of
                          Inl e \<Rightarrow> Inl (map_username_conflict (normalize_username username) e)
                        | Inr d' \<Rightarrow> Inr (bootstrap_row env k ident profile_uuid, d'))))))"

section \<open>Credentials\<close>

definition assign_or_reconcile_profile_uuid ::
  "crypt \<Rightarrow> env \<Rightarrow> nat \<Rightarrow> user \<Rightarrow> db \<Rightarrow> (user \<times> db) app_result" where
  "assign_or_reconcile_profile_uuid cr env k user d =
     (case reconcile_profile_uuid (random_profile_uuid cr env k) (u_minecraft_uuid user)
             (u_profile_uuid user) of
        Inl e \<Rightarrow> Inl e
      | Inr desired \<Rightarrow>
          if u_profile_uuid user = Some desired then Inr (user, d)
          else
            (case update_returning (u_id user)
                    (\<lambda>u. u\<lparr>u_profile_uuid := Some desired, u_updated_at := e_now env\<rparr>) d of
               Inl e \<Rightarrow> Inl (Database e)
             | Inr (None, _) \<Rightarrow> Inl (Database RowNotFound)
             | Inr (Some u, d') \<Rightarrow> Inr (u, d')))"

definition login_matches :: "string \<Rightarrow> user \<Rightarrow> bool" where
  "login_matches normalized u \<longleftrightarrow>
     u_normalized_username u = normalized \<or> u_email_key u = Some normalized"

definition authenticate_password ::
  "crypt \<Rightarrow> env \<Rightarrow> nat \<Rightarrow> string \<Rightarrow> string \<Rightarrow> db \<Rightarrow> (user \<times> db) app_result" where
  "authenticate_password cr env k identifier password d =
     (if trim identifier = [] \<or> password = [] then Inl Forbidden
      else
        (case sql_find (login_matches (normalize_username (trim identifier))) (users d) of
           None \<Rightarrow> Inl Forbidden
         | Some user \<Rightarrow>
             (case u_password_hash user of
                None \<Rightarrow> Inl Forbidden
              | Some hash \<Rightarrow>
                  if \<not> cr_verify cr password hash then Inl Forbidden
                  else if u_blocked user \<or> \<not> u_confirmed user then Inl Forbidden
                  else assign_or_reconcile_profile_uuid cr env k user d)))"

section \<open>Creating accounts\<close>

record admin_create =
  ac_username :: string
  ac_email :: string
  ac_password :: string
  ac_minecraft_uuid :: "string option"
  ac_is_admin :: bool

definition optional_trimmed :: "string option \<Rightarrow> string option" where
  "optional_trimmed v =
     (case map_option trim v of Some mc \<Rightarrow> if mc \<noteq> [] then Some mc else None | None \<Rightarrow> None)"

definition admin_row ::
  "env \<Rightarrow> nat \<Rightarrow> admin_create \<Rightarrow> string \<Rightarrow> string \<Rightarrow> user" where
  "admin_row env k input password_hash profile_uuid =
     (default_user env k (trim (ac_username input)))
       \<lparr>u_minecraft_uuid := optional_trimmed (ac_minecraft_uuid input),
        u_email := Some (trim (ac_email input)), u_password_hash := Some password_hash,
        u_origin := ''admin'', u_profile_uuid := Some profile_uuid, u_confirmed := True,
        u_is_admin := ac_is_admin input\<rparr>"

definition admin_create_user ::
  "crypt \<Rightarrow> env \<Rightarrow> nat \<Rightarrow> admin_create \<Rightarrow> db \<Rightarrow> (user \<times> db) app_result" where
  "admin_create_user cr env k input d =
     (if trim (ac_username input) = [] then Inl (BadRequest ''username is required'')
      else if trim (ac_email input) = [] then Inl (BadRequest ''email is required'')
      else
        (case check_password_len (ac_password input) of
           Inl e \<Rightarrow> Inl e
         | Inr _ \<Rightarrow>
             (case hash_password cr k (ac_password input) of
                Inl e \<Rightarrow> Inl e
              | Inr hash \<Rightarrow>
                  (case reconcile_profile_uuid (random_profile_uuid cr env (k + 1))
                          (optional_trimmed (ac_minecraft_uuid input)) None of
                     Inl e \<Rightarrow> Inl e
                   | Inr profile_uuid \<Rightarrow>
                       let row = admin_row env k input hash profile_uuid in
                       (case insert_user row d of
                          Inl e \<Rightarrow> Inl (map_create_conflict (u_normalized_username row)
                                         (trim (ac_email input)) e)
                        | Inr d' \<Rightarrow> Inr (row, d'))))))"

definition registered_row ::
  "env \<Rightarrow> nat \<Rightarrow> string \<Rightarrow> string \<Rightarrow> string \<Rightarrow> string \<Rightarrow> user" where
  "registered_row env k username email password_hash profile_uuid =
     (default_user env k (trim username))
       \<lparr>u_email := Some (trim email), u_password_hash := Some password_hash,
        u_origin := ''yggdrasil'', u_profile_uuid := Some profile_uuid, u_confirmed := True\<rparr>"

definition register_user ::
  "crypt \<Rightarrow> env \<Rightarrow> nat \<Rightarrow> string \<Rightarrow> string \<Rightarrow> string \<Rightarrow> db \<Rightarrow> (user \<times> db) app_result" where
  "register_user cr env k username email password d =
     (if trim username = [] then Inl (BadRequest ''username is required'')
      else if \<not> is_valid_email (trim email) then Inl (BadRequest ''a valid email is required'')
      else
        (case check_password_len password of
           Inl e \<Rightarrow> Inl e
         | Inr _ \<Rightarrow>
             (case hash_password cr k password of
                Inl e \<Rightarrow> Inl e
              | Inr hash \<Rightarrow>
                  let row = registered_row env k username email hash
                        (random_profile_uuid cr env (k + 1)) in
                  (case insert_user row d of
                     Inl e \<Rightarrow> Inl (map_create_conflict (u_normalized_username row) (trim email) e)
                   | Inr d' \<Rightarrow> Inr (row, d')))))"

section \<open>Administration\<close>

record user_page =
  up_users :: "user list"
  up_total :: nat
  up_page :: int
  up_page_size :: int

definition PAGE_SIZE :: int where
  "PAGE_SIZE = 25"

text \<open>\<^verbatim>\<open>(page - 1) * PAGE_SIZE\<close> in \<^verbatim>\<open>i64\<close>, which wraps in a release build.\<close>

definition page_offset :: "int \<Rightarrow> int" where
  "page_offset page = sint (word_of_int ((page - 1) * PAGE_SIZE) :: 64 word)"

definition admin_hit :: "string \<Rightarrow> user \<Rightarrow> bool" where
  "admin_hit pattern u \<longleftrightarrow> like pattern (u_normalized_username u)
     \<or> (case u_email_key u of Some e \<Rightarrow> like pattern e | None \<Rightarrow> False)"

definition page_of :: "int \<Rightarrow> int \<Rightarrow> user list \<Rightarrow> user_page app_result" where
  "page_of page offset hits =
     (if offset < 0 then Inl (Database OutOfRange)
      else Inr \<lparr>up_users = limit PAGE_SIZE (drop (nat offset) (newest_first u_created_at hits)),
                up_total = length hits, up_page = page, up_page_size = PAGE_SIZE\<rparr>)"

definition search_users :: "string \<Rightarrow> int \<Rightarrow> db \<Rightarrow> user_page app_result" where
  "search_users q page d =
     (let page = max page 1; offset = page_offset page; trimmed = trim q in
      if trimmed = [] then page_of page offset (users d)
      else
        let pattern = ''%'' @ escape_like_pattern (to_ascii_lowercase trimmed) @ ''%'' in
        page_of page offset (filter (admin_hit pattern) (users d)))"

record user_patch =
  pa_username :: "string option"
  pa_email :: "string option"
  pa_is_admin :: "bool option"
  pa_confirmed :: "bool option"

definition patched_user :: "env \<Rightarrow> user_patch \<Rightarrow> user \<Rightarrow> user" where
  "patched_user env patch u = u
     \<lparr>u_username := coalesce_or (pa_username patch) (u_username u),
      u_normalized_username := coalesce_or (map_option normalize_username (pa_username patch))
        (u_normalized_username u),
      u_email := coalesce (pa_email patch) (u_email u),
      u_is_admin := coalesce_or (pa_is_admin patch) (u_is_admin u),
      u_confirmed := coalesce_or (pa_confirmed patch) (u_confirmed u), u_updated_at := e_now env\<rparr>"

definition identity_update_user ::
  "env \<Rightarrow> uuid \<Rightarrow> user_patch \<Rightarrow> db \<Rightarrow> (user \<times> db) app_result" where
  "identity_update_user env x patch d =
     (case update_returning x (patched_user env patch) d of
        Inl e \<Rightarrow> Inl (map_create_conflict
                   (coalesce_or (map_option normalize_username (pa_username patch)) [])
                   (coalesce_or (pa_email patch) []) e)
      | Inr (u, d') \<Rightarrow>
          (case u of None \<Rightarrow> Inl (NotFound ''user not found'') | Some u \<Rightarrow> Inr (u, d')))"

definition set_password :: "crypt \<Rightarrow> env \<Rightarrow> nat \<Rightarrow> uuid \<Rightarrow> string \<Rightarrow> db \<Rightarrow> db app_result" where
  "set_password cr env k x new d =
     (case check_password_len new of
        Inl e \<Rightarrow> Inl e
      | Inr _ \<Rightarrow>
          (case hash_password cr k new of
             Inl e \<Rightarrow> Inl e
           | Inr hash \<Rightarrow>
               (case found (sql_affected (\<lambda>u. u_id u = x) (users d)) ''user'' of
                  Inl e \<Rightarrow> Inl e
                | Inr _ \<Rightarrow>
                    Inr (d\<lparr>users := sql_update (\<lambda>u. u_id u = x)
                           (\<lambda>u. u\<lparr>u_password_hash := Some hash, u_updated_at := e_now env\<rparr>)
                           (users d)\<rparr>))))"

definition set_blocked :: "env \<Rightarrow> uuid \<Rightarrow> bool \<Rightarrow> db \<Rightarrow> (user \<times> db) app_result" where
  "set_blocked env x blocked d =
     (let d' = d\<lparr>users := sql_update (\<lambda>u. u_id u = x)
               (\<lambda>u. u\<lparr>u_blocked := blocked, u_updated_at := e_now env\<rparr>) (users d)\<rparr> in
      (case find_user d' x of
         None \<Rightarrow> Inl (NotFound ''user not found'') | Some u \<Rightarrow> Inr (u, d')))"

section \<open>Well-formedness\<close>

lemma update_returningD:
  assumes "update_returning x f d = Inr (r, d')"
  shows "update_user x f d = Inr d'" "r = find_user d' x"
  using assms by (auto simp: update_returning_def split: sum.splits)

lemma db_wf_update_returning [wf_intros]:
  "update_returning x f d = Inr (r, d') \<Longrightarrow> db_wf d \<Longrightarrow> (\<And>v. u_id (f v) = u_id v) \<Longrightarrow> db_wf d'"
  by (rule db_wf_update_user [of x f d]) (auto dest: update_returningD)

lemma u_id_updates [simp]:
  "u_id (refreshed env ident m p u) = u_id u" "u_id (patched_user env patch u) = u_id u"
  by (simp_all add: refreshed_def patched_user_def)

lemma db_wf_refresh_bootstrap_row [wf_intros]:
  "refresh_bootstrap_row env x ident m p d = Inr (u, d') \<Longrightarrow> db_wf d \<Longrightarrow> db_wf d'"
  by (auto simp: refresh_bootstrap_row_def Let_def split: sum.splits option.splits
      dest: db_wf_update_returning)

lemma db_wf_find_or_create [wf_intros]:
  "find_or_create_from_bootstrap env k ident d = Inr (u, d') \<Longrightarrow> db_wf d \<Longrightarrow> db_wf d'"
  by (auto simp: find_or_create_from_bootstrap_def Let_def split: if_splits sum.splits option.splits
      dest: db_wf_refresh_bootstrap_row db_wf_insert_user)

lemma db_wf_reconcile [wf_intros]:
  "assign_or_reconcile_profile_uuid cr env k u d = Inr (u', d') \<Longrightarrow> db_wf d \<Longrightarrow> db_wf d'"
  by (auto simp: assign_or_reconcile_profile_uuid_def split: sum.splits option.splits if_splits
      dest: db_wf_update_returning)

lemma db_wf_authenticate [wf_intros]:
  "authenticate_password cr env k i p d = Inr (u, d') \<Longrightarrow> db_wf d \<Longrightarrow> db_wf d'"
  by (auto simp: authenticate_password_def split: if_splits option.splits dest: db_wf_reconcile)

lemma db_wf_admin_create [wf_intros]:
  "admin_create_user cr env k input d = Inr (u, d') \<Longrightarrow> db_wf d \<Longrightarrow> db_wf d'"
  by (auto simp: admin_create_user_def Let_def split: if_splits sum.splits dest: db_wf_insert_user)

lemma db_wf_register [wf_intros]:
  "register_user cr env k n e p d = Inr (u, d') \<Longrightarrow> db_wf d \<Longrightarrow> db_wf d'"
  by (auto simp: register_user_def Let_def split: if_splits sum.splits dest: db_wf_insert_user)

lemma db_wf_identity_update [wf_intros]:
  "identity_update_user env x patch d = Inr (u, d') \<Longrightarrow> db_wf d \<Longrightarrow> db_wf d'"
  by (auto simp: identity_update_user_def split: sum.splits option.splits
      dest: db_wf_update_returning)

text \<open>An update that leaves every indexed column alone cannot fail.\<close>

lemma db_wf_plain_user_update:
  assumes "db_wf d" "\<And>u. u_id (f u) = u_id u \<and> u_minecraft_uuid (f u) = u_minecraft_uuid u
      \<and> u_email (f u) = u_email u \<and> u_profile_uuid (f u) = u_profile_uuid u
      \<and> u_normalized_username (f u) = u_normalized_username u"
  shows "db_wf (d\<lparr>users := sql_update p f (users d)\<rparr>)"
proof (rule db_wf_users [OF assms(1)])
  show "users_wf (sql_update p f (users d))"
    using db_wfD(1) [OF assms(1)] assms(2)
    by (auto simp: users_wf_def u_email_key_def simp del: not_None_eq intro!: unique_index_update)
  show "set (user_ids d) \<subseteq> u_id ` set (sql_update p f (users d))"
    using assms(2) by (simp add: set_map_sql_update)
qed

lemma db_wf_set_password [wf_intros]:
  "set_password cr env k x new d = Inr d' \<Longrightarrow> db_wf d \<Longrightarrow> db_wf d'"
  by (auto simp: set_password_def split: sum.splits intro!: db_wf_plain_user_update)

lemma db_wf_set_blocked [wf_intros]:
  "set_blocked env x b d = Inr (u, d') \<Longrightarrow> db_wf d \<Longrightarrow> db_wf d'"
  by (auto simp: set_blocked_def Let_def split: option.splits intro!: db_wf_plain_user_update)

section \<open>Registration and login\<close>

lemma insert_user_Inr: "insert_user r d = Inr d' \<Longrightarrow> d' = d\<lparr>users := users d @ [r]\<rparr>"
  by (simp add: insert_user_def)

lemma register_userD:
  assumes "register_user cr env k n e p d = Inr (u, d')"
  obtains h where "trim n \<noteq> []" "is_valid_email (trim e)" "p \<noteq> []" "cr_hash cr k p = Some h"
    and "u = registered_row env k n e h (random_profile_uuid cr env (k + 1))"
    and "d' = d\<lparr>users := users d @ [u]\<rparr>"
  using assms
  by (auto simp: register_user_def hash_password_def check_password_len_def Let_def
      split: if_splits sum.splits option.splits dest!: insert_user_Inr)

lemma sql_find_last: "\<not> sql_exists p rs \<Longrightarrow> p r \<Longrightarrow> sql_find p (rs @ [r]) = Some r"
  by (induction rs) (auto simp: sql_find_def sql_exists_def)

lemma reconcile_settled:
  "u_minecraft_uuid u = None \<Longrightarrow> u_profile_uuid u = Some p
    \<Longrightarrow> assign_or_reconcile_profile_uuid cr env k u d = Inr (u, d)"
  by (simp add: assign_or_reconcile_profile_uuid_def reconcile_profile_uuid_def)

lemma normalize_nonempty: "normalize_username s = [] \<longleftrightarrow> trim s = []"
  by (simp add: normalize_username_def to_ascii_lowercase_def)

lemma valid_email_nonempty: "is_valid_email e \<Longrightarrow> trim e \<noteq> []"
  by (auto simp: is_valid_email_def Let_def split: if_splits)

text \<open>
  C13. Registering and logging in: the account a registration creates is confirmed, not an
  administrator, and logs in with its password under its name or its email, in any case and with
  surrounding blanks, unless an older account already answers to that identifier; the login
  changes nothing.
\<close>

theorem register_then_login:
  assumes "crypt_ok cr" "register_user cr env k n e p d = Inr (u, d')"
    and "normalize_username i = normalize_username n \<or> normalize_username i = normalize_username e"
    and "\<not> sql_exists (login_matches (normalize_username i)) (users d)"
  shows "authenticate_password cr env' k' i p d' = Inr (u, d')
    \<and> u_confirmed u \<and> \<not> u_is_admin u \<and> \<not> u_blocked u
    \<and> (\<exists>pid. u_profile_uuid u = Some pid \<and> is_uuid_undashed pid)"
  using assms(2)
proof (rule register_userD)
  fix h
  assume r: "trim n \<noteq> []" "is_valid_email (trim e)" "p \<noteq> []" "cr_hash cr k p = Some h"
    and u: "u = registered_row env k n e h (random_profile_uuid cr env (k + 1))"
    and d': "d' = d\<lparr>users := users d @ [u]\<rparr>"
  have norm_trim: "normalize_username (trim v) = normalize_username v" for v
    by (simp add: normalize_username_def trim_trimmed trimmed_trim)
  have email: "u_email_key u = Some (normalize_username e)"
    by (simp add: u registered_row_def u_email_key_def normalize_username_def)
  have "login_matches (normalize_username i) u"
    using assms(3) email
    by (auto simp: login_matches_def u registered_row_def default_user_def norm_trim)
  with assms(4) have find: "sql_find (login_matches (normalize_username (trim i))) (users d') = Some u"
    by (simp add: norm_trim d' sql_find_last)
  have "trim i \<noteq> []"
    using assms(3) r(1) valid_email_nonempty [OF r(2)]
    by (auto simp: normalize_nonempty trim_trimmed trimmed_trim simp flip: normalize_nonempty)
  moreover have "cr_verify cr p h"
    using assms(1) r(4) by (auto simp: crypt_ok_def)
  moreover have "u_password_hash u = Some h" "\<not> u_blocked u" "u_confirmed u" "\<not> u_is_admin u"
    "u_minecraft_uuid u = None" "u_profile_uuid u = Some (random_profile_uuid cr env (k + 1))"
    by (simp_all add: u registered_row_def default_user_def)
  ultimately show ?thesis
    using find r(3) assms(1)
    by (simp add: authenticate_password_def reconcile_settled random_profile_uuid_def crypt_ok_def)
qed

text \<open>A concrete instance of the parameters.\<close>

definition sample_digit :: "nat \<Rightarrow> char" where
  "sample_digit n = (if n mod 16 < 10 then char_of (48 + n mod 16) else char_of (87 + n mod 16))"

lemma sample_digit_ok:
  "is_ascii_hexdigit (sample_digit n)" "lower_char (sample_digit n) = sample_digit n"
proof -
  have "n mod 16 < 16" by simp
  then show "is_ascii_hexdigit (sample_digit n)" "lower_char (sample_digit n) = sample_digit n"
    by (auto simp: sample_digit_def is_ascii_hexdigit_def is_digit_def lower_char_def is_upper_def)
qed

definition sample_hex :: "(nat \<Rightarrow> nat) \<Rightarrow> string" where
  "sample_hex f = map (\<lambda>i. sample_digit (f i)) [0..<32]"

definition sample_crypt :: crypt where
  "sample_crypt =
     \<lparr>cr_hash = (\<lambda>k p. Some (CHR ''#'' # p)), cr_verify = (\<lambda>p h. h = CHR ''#'' # p),
      cr_simple = (\<lambda>u. sample_hex (\<lambda>i. i))\<rparr>"

lemma sample_hex_ok:
  "is_uuid_undashed (sample_hex f)" "to_ascii_lowercase (sample_hex f) = sample_hex f"
proof -
  have "length (sample_hex f) = 32"
    unfolding sample_hex_def length_map length_upt by simp
  moreover have "\<forall>c \<in> set (sample_hex f). is_ascii_hexdigit c \<and> lower_char c = c"
    unfolding sample_hex_def set_map by (blast intro: sample_digit_ok)
  ultimately show "is_uuid_undashed (sample_hex f)" "to_ascii_lowercase (sample_hex f) = sample_hex f"
    by (auto simp: is_uuid_undashed_def list_all_iff to_ascii_lowercase_def intro: map_idI)
qed

lemma sample_crypt_ok: "crypt_ok sample_crypt"
  by (simp add: crypt_ok_def sample_crypt_def sample_hex_ok)

theorem register_then_login_witness:
  "\<exists>u d'. register_user sample_crypt sample_env 0 ''Erin'' ''erin@x.org'' ''pw'' sample_db = Inr (u, d')
     \<and> authenticate_password sample_crypt sample_env 5 '' ERIN@X.org'' ''pw'' d' = Inr (u, d')"
proof -
  let ?r = "register_user sample_crypt sample_env 0 ''Erin'' ''erin@x.org'' ''pw'' sample_db"
  have ok: "\<not> isl ?r"
    "normalize_username '' ERIN@X.org'' = normalize_username ''erin@x.org''"
    "\<not> sql_exists (login_matches (normalize_username '' ERIN@X.org'')) (users sample_db)"
    by code_simp+
  obtain u d' where r: "?r = Inr (u, d')"
    using ok(1) by (cases ?r) auto
  with register_then_login [OF sample_crypt_ok r disjI2 [OF ok(2)] ok(3)] show ?thesis by blast
qed

text \<open>
  C12. A login succeeds only for a stored account that answers to the identifier, with the right
  password, confirmed and not blocked. The account returned is the one stored afterwards; it
  differs from the one found at most in its profile identifier and time of change, its profile
  identifier is the undashed form of its Minecraft identity where it has one, and no other
  account changes.
\<close>

theorem authenticate_sound:
  assumes "db_wf d" "authenticate_password cr env k i p d = Inr (u', d')"
  shows "\<exists>u h. u \<in> set (users d) \<and> login_matches (normalize_username i) u
    \<and> u_password_hash u = Some h \<and> cr_verify cr p h \<and> u_confirmed u \<and> \<not> u_blocked u
    \<and> find_user d' (u_id u) = Some u'
    \<and> u' = u\<lparr>u_profile_uuid := u_profile_uuid u', u_updated_at := u_updated_at u'\<rparr>
    \<and> (case u_minecraft_uuid u of
          Some mc \<Rightarrow> \<exists>pid. undash_uuid mc = Inr pid \<and> u_profile_uuid u' = Some pid
        | None \<Rightarrow> u_profile_uuid u' = coalesce (u_profile_uuid u) (Some (random_profile_uuid cr env k)))
    \<and> (\<forall>x. x \<noteq> u_id u \<longrightarrow> find_user d' x = find_user d x)"
proof -
  have norm: "normalize_username (trim i) = normalize_username i"
    by (simp add: normalize_username_def trim_trimmed trimmed_trim)
  obtain u :: user and h where u: "sql_find (login_matches (normalize_username i)) (users d) = Some u"
    and h: "u_password_hash u = Some h" "cr_verify cr p h" "u_confirmed u" "\<not> u_blocked u"
    and rec: "assign_or_reconcile_profile_uuid cr env k u d = Inr (u', d')"
    using assms(2) by (auto simp: authenticate_password_def norm split: if_splits option.splits)
  note mem = sql_find_SomeD [OF u]
  note found = find_user_unique [OF assms(1) mem(1)]
  obtain desired where des:
    "reconcile_profile_uuid (random_profile_uuid cr env k) (u_minecraft_uuid u) (u_profile_uuid u) = Inr desired"
    using rec by (auto simp: assign_or_reconcile_profile_uuid_def split: sum.splits)
  have pid: "case u_minecraft_uuid u of Some mc \<Rightarrow> undash_uuid mc = Inr desired
    | None \<Rightarrow> Some desired = coalesce (u_profile_uuid u) (Some (random_profile_uuid cr env k))"
    using des by (cases "u_profile_uuid u") (auto simp: reconcile_profile_uuid_def
        undash_or_bad_request_def split: option.splits sum.splits)
  let ?f = "\<lambda>v. v\<lparr>u_profile_uuid := Some desired, u_updated_at := e_now env\<rparr>"
  have "(u_profile_uuid u = Some desired \<and> u' = u \<and> d' = d)
      \<or> (update_user (u_id u) ?f d = Inr d' \<and> find_user d' (u_id u) = Some u')"
    using rec des
    by (auto simp: assign_or_reconcile_profile_uuid_def update_returning_def
        split: if_splits sum.splits option.splits)
  then obtain t where stored: "find_user d' (u_id u) = Some u'"
    and u': "u' = u\<lparr>u_profile_uuid := Some desired, u_updated_at := t\<rparr>"
    and others: "\<And>x. x \<noteq> u_id u \<Longrightarrow> find_user d' x = find_user d x"
  proof
    assume "u_profile_uuid u = Some desired \<and> u' = u \<and> d' = d"
    then show thesis
      using found by (intro that [of "u_updated_at u"]) auto
  next
    assume up: "update_user (u_id u) ?f d = Inr d' \<and> find_user d' (u_id u) = Some u'"
    have upd: "find_user d' y = map_option (\<lambda>v. if u_id v = u_id u then ?f v else v) (find_user d y)" for y
      by (rule update_user_find [OF conjunct1 [OF up]]) simp
    have "find_user d' x = find_user d x" if "x \<noteq> u_id u" for x
      using that upd [of x] find_user_Some(2) [of d x] by (cases "find_user d x") auto
    then show thesis
      using up found upd [of "u_id u"] by (intro that [of "e_now env"]) simp_all
  qed
  show ?thesis
    using mem h stored pid others
    by (intro exI [of _ u] exI [of _ h]) (auto simp: u' split: option.splits)
qed

definition sample_login_db :: db where
  "sample_login_db = empty_db
     \<lparr>users := [alice, bob\<lparr>u_password_hash := Some ''#pw'', u_minecraft_uuid := None\<rparr>]\<rparr>"

theorem authenticate_sound_witness:
  "\<exists>u' d'. authenticate_password sample_crypt sample_env 0 ''Bob'' ''pw'' sample_login_db = Inr (u', d')
     \<and> u_profile_uuid u' = Some ''bob''"
proof -
  let ?r = "authenticate_password sample_crypt sample_env 0 ''Bob'' ''pw'' sample_login_db"
  have ok: "db_wf sample_login_db" "\<not> isl ?r"
    "list_all (\<lambda>u. login_matches (normalize_username ''Bob'') u \<longrightarrow>
       u_minecraft_uuid u = None \<and> u_profile_uuid u = Some ''bob'') (users sample_login_db)"
    by code_simp+
  obtain u' d' where r: "?r = Inr (u', d')"
    using ok(2) by (cases ?r) auto
  obtain u :: user where u: "u \<in> set (users sample_login_db)"
    "login_matches (normalize_username ''Bob'') u"
    "case u_minecraft_uuid u of
       Some mc \<Rightarrow> \<exists>pid. undash_uuid mc = Inr pid \<and> u_profile_uuid u' = Some pid
     | None \<Rightarrow> u_profile_uuid u' =
         coalesce (u_profile_uuid u) (Some (random_profile_uuid sample_crypt sample_env 0))"
    using authenticate_sound [OF ok(1) r] by blast
  with ok(3) have "u_profile_uuid u' = Some ''bob''"
    by (auto simp: list_all_iff)
  with r show ?thesis by blast
qed

section \<open>One account per Minecraft identity\<close>

lemma minecraft_uuid_unique:
  assumes "db_wf d" "u \<in> set (users d)" "v \<in> set (users d)" "u_minecraft_uuid u = Some m"
    and "u_minecraft_uuid v = Some m"
  shows "u = v"
  using db_wfD(1) [OF assms(1)] assms(2-)
  by (auto simp: users_wf_def intro!: unique_indexD [of _ u_minecraft_uuid])

lemma find_by_minecraft_uuid_eq:
  assumes "db_wf d" "u \<in> set (users d)" "u_minecraft_uuid u = Some m"
  shows "find_by_minecraft_uuid m d = Some u"
proof -
  obtain v where v: "find_by_minecraft_uuid m d = Some v"
    using sql_find_SomeI [of u "users d" "\<lambda>u. u_minecraft_uuid u = Some m"] assms(2,3)
    by (auto simp: find_by_minecraft_uuid_def)
  then have "v = u"
    using minecraft_uuid_unique [OF assms(1) _ assms(2) _ assms(3)]
    by (auto simp: find_by_minecraft_uuid_def dest: sql_find_SomeD)
  with v show ?thesis by simp
qed

lemma refresh_bootstrap_rowD:
  assumes "refresh_bootstrap_row env x ident m p d = Inr (u, d')"
    and "find_user d x = Some u0"
  shows "u = refreshed env ident m p u0" "find_user d' x = Some u" "length (users d') = length (users d)"
proof -
  let ?f = "refreshed env ident m p"
  have up: "update_user x ?f d = Inr d'" and u: "find_user d' x = Some u"
    using assms(1)
    by (auto simp: refresh_bootstrap_row_def update_returning_def Let_def
        split: sum.splits option.splits)
  show "u = ?f u0" "find_user d' x = Some u"
    using update_user_find [OF up] assms(2) u find_user_Some(2) [OF assms(2)] by simp_all
  show "length (users d') = length (users d)"
    using update_user_Inr(1) [OF up assms(2)] by simp
qed

lemma find_or_create_cases:
  assumes "find_or_create_from_bootstrap env k ident d = Inr (u, d')" "db_wf d"
    and "trim (bi_minecraft_uuid ident) = mc"
  obtains (known) e pid where "undash_uuid mc = Inr pid" "find_by_minecraft_uuid mc d = Some e"
      "find_user d (u_id e) = Some e" "u_minecraft_uuid e = Some mc"
      "refresh_bootstrap_row env (u_id e) ident None (Some pid) d = Inr (u, d')"
    | (profile) e pid where "undash_uuid mc = Inr pid" "find_user d (u_id e) = Some e"
      "u_profile_uuid e = Some pid"
      "refresh_bootstrap_row env (u_id e) ident (Some mc) None d = Inr (u, d')"
    | (fresh) pid where "undash_uuid mc = Inr pid" "u = bootstrap_row env k ident pid"
      "insert_user u d = Inr d'"
proof -
  obtain pid where pid: "undash_uuid mc = Inr pid"
    using assms(1,3) by (auto simp: find_or_create_from_bootstrap_def undash_or_bad_request_def Let_def
        split: if_splits sum.splits)
  have stored: "find_user d (u_id e) = Some e" if "e \<in> set (users d)" for e
    using find_user_unique [OF assms(2) that] .
  show thesis
  proof (cases "find_by_minecraft_uuid mc d")
    case (Some e)
    then have e: "e \<in> set (users d)" "u_minecraft_uuid e = Some mc"
      by (auto simp: find_by_minecraft_uuid_def dest: sql_find_SomeD)
    have "refresh_bootstrap_row env (u_id e) ident None (Some pid) d = Inr (u, d')"
      using assms(1,3) Some pid by (auto simp: find_or_create_from_bootstrap_def
          undash_or_bad_request_def Let_def split: if_splits)
    with known pid Some e stored show thesis by blast
  next
    case none: None
    show thesis
    proof (cases "find_by_profile_uuid pid d")
      case (Some e)
      then have e: "e \<in> set (users d)" "u_profile_uuid e = Some pid"
        by (auto simp: find_by_profile_uuid_def dest: sql_find_SomeD)
      have "refresh_bootstrap_row env (u_id e) ident (Some mc) None d = Inr (u, d')"
        using assms(1,3) none Some pid by (auto simp: find_or_create_from_bootstrap_def
            undash_or_bad_request_def Let_def split: if_splits)
      with profile pid e stored show thesis by blast
    next
      case None
      have "u = bootstrap_row env k ident pid \<and> insert_user u d = Inr d'"
        using assms(1,3) none None pid by (auto simp: find_or_create_from_bootstrap_def
            undash_or_bad_request_def Let_def split: if_splits sum.splits)
      with fresh pid show thesis by blast
    qed
  qed
qed

lemma find_or_createD:
  assumes "find_or_create_from_bootstrap env k ident d = Inr (u, d')" "db_wf d"
    and "trim (bi_minecraft_uuid ident) = mc"
  shows "u_minecraft_uuid u = Some mc \<and> (\<exists>pid. undash_uuid mc = Inr pid \<and> u_profile_uuid u = Some pid)
    \<and> find_user d' (u_id u) = Some u"
  using assms
proof (cases rule: find_or_create_cases)
  case (known e pid)
  with refresh_bootstrap_rowD [OF known(5,3)] show ?thesis by (auto simp: refreshed_def)
next
  case (profile e pid)
  with refresh_bootstrap_rowD [OF profile(4,2)] show ?thesis by (auto simp: refreshed_def)
next
  case (fresh pid)
  have "u \<in> set (users d')"
    using insert_user_Inr [OF fresh(3)] by simp
  then have "find_user d' (u_id u) = Some u"
    by (rule find_user_unique [OF db_wf_find_or_create [OF assms(1,2)]])
  with fresh assms(3) show ?thesis by (simp add: bootstrap_row_def)
qed

lemma find_or_create_again:
  assumes "find_or_create_from_bootstrap env k ident d = Inr (u, d')" "db_wf d"
    and "trim (bi_minecraft_uuid ident) = mc" "v \<in> set (users d)" "u_minecraft_uuid v = Some mc"
  shows "u_id u = u_id v" "length (users d') = length (users d)"
proof -
  have find: "find_by_minecraft_uuid mc d = Some v"
    by (rule find_by_minecraft_uuid_eq [OF assms(2,4,5)])
  have v: "find_user d (u_id v) = Some v"
    by (rule find_user_unique [OF assms(2,4)])
  obtain pid where "refresh_bootstrap_row env (u_id v) ident None (Some pid) d = Inr (u, d')"
    using assms(1) find
    by (auto simp: find_or_create_from_bootstrap_def Let_def assms(3) split: if_splits sum.splits)
  from refresh_bootstrap_rowD [OF this v] show "u_id u = u_id v" "length (users d') = length (users d)"
    by simp_all
qed

text \<open>
  A mod bootstrap leaves exactly one account with the Minecraft identity it names, whose profile
  identifier is the undashed form of that identity, and answers with it; repeating the bootstrap
  with any user name finds that same account and creates none.
\<close>

theorem bootstrap_one_account:
  assumes "db_wf d" "find_or_create_from_bootstrap env k ident d = Inr (u, d')"
    and "trim (bi_minecraft_uuid ident) = mc"
  shows "{v \<in> set (users d'). u_minecraft_uuid v = Some mc} = {u}
    \<and> (\<exists>pid. undash_uuid mc = Inr pid \<and> u_profile_uuid u = Some pid)
    \<and> (trim (bi_minecraft_uuid ident') = mc
       \<and> find_or_create_from_bootstrap env' k' ident' d' = Inr (u2, d2)
         \<longrightarrow> u_id u2 = u_id u \<and> length (users d2) = length (users d'))"
proof -
  note D = find_or_createD [OF assms(2,1,3)]
  note wf' = db_wf_find_or_create [OF assms(2,1)]
  have mem: "u \<in> set (users d')"
    using D find_user_Some(1) [of d' "u_id u" u] by auto
  then have "{v \<in> set (users d'). u_minecraft_uuid v = Some mc} = {u}"
    using D minecraft_uuid_unique [OF wf'] by auto
  moreover have "u_id u2 = u_id u \<and> length (users d2) = length (users d')"
    if "trim (bi_minecraft_uuid ident') = mc"
      and "find_or_create_from_bootstrap env' k' ident' d' = Inr (u2, d2)"
    using find_or_create_again [OF that(2) wf' that(1) mem] D by simp
  ultimately show ?thesis using D by simp
qed

definition sample_identity :: bootstrap_identity where
  "sample_identity =
     \<lparr>bi_minecraft_uuid = '' 069A79F4-44E9-4726-A5BE-FCA90E38AAF5'', bi_username = ''Notch'',
      bi_account_type = None, bi_xuid = None, bi_client_id = None\<rparr>"

section \<open>Paging\<close>

lemma page_offset_small:
  assumes "1 \<le> page" "page \<le> 2 ^ 58"
  shows "page_offset page = (page - 1) * 25"
proof -
  have "sint (word_of_int ((page - 1) * 25) :: 64 word) = (page - 1) * 25"
    by (rule sint_small) (use assms in auto)
  then show ?thesis by (simp only: page_offset_def PAGE_SIZE_def)
qed

definition all_hits :: "string \<Rightarrow> db \<Rightarrow> user list" where
  "all_hits q d = newest_first u_created_at
     (filter (\<lambda>u. trim q = [] \<or> admin_hit (''%'' @ escape_like_pattern (to_ascii_lowercase (trim q)) @ ''%'') u)
       (users d))"

lemma length_newest_first [simp]: "length (newest_first f rs) = length rs"
  by (simp add: newest_first_def)

lemma search_users_page:
  assumes "1 \<le> page" "page \<le> 2 ^ 58"
  shows "search_users q page d = Inr \<lparr>up_users = take 25 (drop (nat ((page - 1) * 25)) (all_hits q d)),
    up_total = length (all_hits q d), up_page = page, up_page_size = 25\<rparr>"
  using assms page_offset_small [OF assms]
  by (auto simp: search_users_def page_of_def Let_def limit_def all_hits_def PAGE_SIZE_def max_def)

text \<open>
  The pages of the admin search tile its result: concatenated in order, the pages up to the one
  that covers the total are every matching account, newest first, each once; every page reports
  the full total; and a page number below one is read as the first page.
\<close>

theorem search_pages_tile:
  assumes "length (all_hits q d) \<le> n * 25" "int n \<le> 2 ^ 58"
  shows "concat (map (\<lambda>i. up_users (projr (search_users q (int i + 1) d))) [0..<n]) = all_hits q d
    \<and> list_all (\<lambda>i. up_total (projr (search_users q (int i + 1) d)) = length (all_hits q d)) [0..<n]
    \<and> (page < 1 \<longrightarrow> search_users q page d = search_users q 1 d)"
proof -
  have page: "search_users q (int i + 1) d =
      Inr \<lparr>up_users = take 25 (drop (i * 25) (all_hits q d)), up_total = length (all_hits q d),
           up_page = int i + 1, up_page_size = 25\<rparr>" if "i < n" for i
    using search_users_page [of "int i + 1" q d] that assms(2) by (simp add: nat_mult_distrib)
  have "map (\<lambda>i. up_users (projr (search_users q (int i + 1) d))) [0..<n] =
      map (\<lambda>i. take 25 (drop (i * 25) (all_hits q d))) [0..<n]"
    using page by (intro map_cong) auto
  moreover have "concat (map (\<lambda>i. take 25 (drop (i * 25) (all_hits q d))) [0..<n]) = all_hits q d"
    using concat_pages [of 25 "all_hits q d" n] assms(1) by simp
  ultimately have "concat (map (\<lambda>i. up_users (projr (search_users q (int i + 1) d))) [0..<n]) = all_hits q d"
    by (simp only:)
  moreover have "search_users q page d = search_users q 1 d" if "page < 1"
    using that by (simp add: search_users_def)
  ultimately show ?thesis using page by (auto simp: list_all_iff)
qed

end
