(* ===== verification/Accounts.thy ===== *)
theory Accounts
  imports Ygg_Tokens Identity
begin

text \<open>
  \<^verbatim>\<open>yggdrasil/src/account.rs\<close>: the account surface of the launcher. A login gives a session token
  and a pair for the game handshake; a refresh revokes the presented session first. Draws 0 and 1
  of a request belong to the account, 2 to the session, 3 and 4 to the pair. An answer is one of
  several statements: what the earlier ones did stays when a later one fails.
\<close>

section \<open>Endpoints\<close>

record session_dto =
  sd_token :: string
  sd_expires_at :: timestamp

record minecraft_tokens =
  mt_access_token :: string
  mt_client_token :: string

record account_dto =
  ad_id :: uuid
  ad_username :: string
  ad_email :: "string option"
  ad_uuid :: "string option"
  ad_is_admin :: bool

record auth_answer =
  ar_session :: session_dto
  ar_minecraft :: minecraft_tokens
  ar_profile :: account_dto

definition account_dto_from :: "user \<Rightarrow> account_dto" where
  "account_dto_from user =
     \<lparr>ad_id = u_id user, ad_username = u_username user, ad_email = u_email user,
      ad_uuid = u_profile_uuid user, ad_is_admin = u_is_admin user\<rparr>"

definition auth_response :: "env \<Rightarrow> config \<Rightarrow> user \<Rightarrow> db \<Rightarrow> auth_answer app_result \<times> db" where
  "auth_response env cfg user d =
     (case issue_session env 2 (u_id user) (cf_session_ttl cfg) d of
        Inl e \<Rightarrow> (Inl e, d)
      | Inr (session, d1) \<Rightarrow>
          (case issue_yggdrasil_tokens env 3 (u_id user) None (cf_yggdrasil_token_ttl cfg)
                  (cf_max_tokens_per_user cfg) d1 of
             Inl e \<Rightarrow> (Inl e, d1)
           | Inr (ygg, d2) \<Rightarrow>
               (Inr \<lparr>ar_session = \<lparr>sd_token = is_token session, sd_expires_at = is_expires_at session\<rparr>,
                     ar_minecraft = \<lparr>mt_access_token = it_access_token ygg,
                                     mt_client_token = it_client_token ygg\<rparr>,
                     ar_profile = account_dto_from user\<rparr>, d2)))"

definition account_login ::
  "crypt \<Rightarrow> env \<Rightarrow> config \<Rightarrow> string \<Rightarrow> string \<Rightarrow> auth_answer handler" where
  "account_login cr env cfg username password s =
     (case authenticate_password cr env 0 username password (st_db s) of
        Inl e \<Rightarrow> (Inl e, s)
      | Inr (user, d1) \<Rightarrow>
          (let (r, d2) = auth_response env cfg user d1 in (r, s\<lparr>st_db := d2\<rparr>)))"

definition account_register ::
  "crypt \<Rightarrow> env \<Rightarrow> config \<Rightarrow> string \<Rightarrow> string \<Rightarrow> string \<Rightarrow> auth_answer handler" where
  "account_register cr env cfg username email password s =
     (case register_user cr env 0 username email password (st_db s) of
        Inl e \<Rightarrow> (Inl e, s)
      | Inr (user, d1) \<Rightarrow>
          (let s1 = spawn_event env ''new_user'' (Some (u_id user)) None (s\<lparr>st_db := d1\<rparr>);
               (r, d2) = auth_response env cfg user (st_db s1) in
           (r, s1\<lparr>st_db := d2\<rparr>)))"

definition account_refresh :: "env \<Rightarrow> config \<Rightarrow> request \<Rightarrow> auth_answer handler" where
  "account_refresh env cfg rq s =
     (case fst (auth_user env cfg rq (st_db s)) of
        Inl e \<Rightarrow> (Inl e, s)
      | Inr user \<Rightarrow>
          (let d1 = (case session_token_from_headers (rq_header rq) (cf_cookie_name cfg) of
                       Some token \<Rightarrow> snd (revoke_session env token (st_db s))
                     | None \<Rightarrow> st_db s);
               (r, d2) = auth_response env cfg user d1 in
           (r, s\<lparr>st_db := d2\<rparr>)))"

definition account_logout :: "env \<Rightarrow> config \<Rightarrow> request \<Rightarrow> unit handler" where
  "account_logout env cfg rq s =
     (case session_token_from_headers (rq_header rq) (cf_cookie_name cfg) of
        Some token \<Rightarrow> (Inr (), s\<lparr>st_db := snd (revoke_session env token (st_db s))\<rparr>)
      | None \<Rightarrow> (Inr (), s))"

definition account_me :: "user \<Rightarrow> account_dto" where
  "account_me user = account_dto_from user"

section \<open>Well-formedness\<close>

lemma auth_response_wf [wf_intros]: "db_wf d \<Longrightarrow> db_wf (snd (auth_response env cfg user d))"
  by (auto simp: auth_response_def intro: wf_intros split: sum.splits)

lemma db_wf_revoke_session [wf_intros]: "db_wf d \<Longrightarrow> db_wf (snd (revoke_session env token d))"
  by (simp add: revoke_session_def db_wf_revoke_hash)

lemma account_login_wf [wf_intros]:
  "state_wf s \<Longrightarrow> state_wf (snd (account_login cr env cfg name password s))"
  by (auto simp: account_login_def split_beta state_wf_def intro: wf_intros split: sum.splits)

lemma account_register_wf [wf_intros]:
  "state_wf s \<Longrightarrow> state_wf (snd (account_register cr env cfg name email password s))"
proof (cases "register_user cr env 0 name email password (st_db s)")
  case (Inr r)
  assume wf: "state_wf s"
  obtain user d1 where r: "r = (user, d1)" by (cases r)
  have "db_wf d1" using db_wf_register [OF Inr [unfolded r]] wf by (simp add: state_wf_def)
  then have "state_wf (spawn_event env ''new_user'' (Some (u_id user)) None (s\<lparr>st_db := d1\<rparr>))"
    using wf by (intro wf_intros) (simp add: state_wf_def)
  then show ?thesis
    by (simp add: account_register_def Inr r split_beta Let_def state_wf_def auth_response_wf)
qed (simp add: account_register_def)

lemma account_refresh_wf [wf_intros]:
  "state_wf s \<Longrightarrow> state_wf (snd (account_refresh env cfg rq s))"
  by (auto simp: account_refresh_def split_beta state_wf_def Let_def intro: wf_intros
      split: sum.splits option.splits)

lemma account_logout_wf [wf_intros]:
  "state_wf s \<Longrightarrow> state_wf (snd (account_logout env cfg rq s))"
  by (auto simp: account_logout_def state_wf_def intro: wf_intros split: option.splits)

section \<open>Rotation of a session\<close>

lemma session_token_presented:
  "session_token headers name = Some (token, source) \<Longrightarrow>
    session_token_from_headers headers name = Some token"
  by (auto simp: session_token_def session_token_from_headers_def split: option.splits)

lemma auth_user_Inr:
  assumes "fst (auth_user env cfg rq d) = Inr user"
  obtains token where "session_token_from_headers (rq_header rq) (cf_cookie_name cfg) = Some token"
    "user_from_token env token d = Inr user"
proof -
  obtain token source where t: "session_token (rq_header rq) (cf_cookie_name cfg) = Some (token, source)"
    using assms by (auto simp: auth_user_def split: option.splits)
  moreover have "user_from_token env token d = Inr user"
    using assms t by (auto simp: auth_user_def split: sum.splits)
  ultimately show thesis by (intro that session_token_presented)
qed

lemma user_from_token_stored:
  assumes "user_from_token env token d = Inr user"
  shows "find_user d (u_id user) = Some user" "\<not> u_blocked user"
proof -
  obtain y where "find_user d y = Some user" "\<not> u_blocked user"
    using assms by (auto simp: user_from_token_def ok_or_def user_of_hash_def bind_eq_Some_conv
        split: option.splits if_splits)
  moreover from this(1) have "u_id user = y" by (rule find_user_Some(2))
  ultimately show "find_user d (u_id user) = Some user" "\<not> u_blocked user" by auto
qed

lemma user_from_token_tokens:
  "user_from_token env t (d\<lparr>yggdrasil_tokens := ts\<rparr>) = user_from_token env t d"
  by (simp add: user_from_token_def user_of_hash_def find_user_def)

text \<open>
  An answer is a session and a pair for the account, valid until they expire; no other session is
  touched.
\<close>

lemma auth_responseD:
  assumes "db_wf d" "auth_response env cfg user d = (Inr r, d')"
    and "find_user d (u_id user) = Some user" "\<not> u_blocked user" "hash_token env' = hash_token env"
  shows "e_now env' < sd_expires_at (ar_session r)
      \<Longrightarrow> user_from_token env' (sd_token (ar_session r)) d' = Inr user"
    and "hash_token env t \<noteq> hash_token env (sd_token (ar_session r))
      \<Longrightarrow> user_from_token env' t d' = user_from_token env' t d"
    and "ar_profile r = account_dto_from user" "sd_token (ar_session r) = generate_token env 2"
proof -
  obtain session d1 ygg where parts: "issue_session env 2 (u_id user) (cf_session_ttl cfg) d = Inr (session, d1)"
    "issue_yggdrasil_tokens env 3 (u_id user) None (cf_yggdrasil_token_ttl cfg)
       (cf_max_tokens_per_user cfg) d1 = Inr (ygg, d')"
    and r: "sd_token (ar_session r) = is_token session" "sd_expires_at (ar_session r) = is_expires_at session"
      "ar_profile r = account_dto_from user"
    using assms(2) by (auto simp: auth_response_def split: sum.splits)
  have d': "d' = d1\<lparr>yggdrasil_tokens := yggdrasil_tokens d'\<rparr>"
    using issue_yggdrasilD(2) [OF parts(2)] by simp
  have same: "user_from_token env' x d' = user_from_token env' x d1" for x
    by (subst d') (rule user_from_token_tokens)
  note S = session_issue_resolves [OF assms(1) parts(1) assms(3,5)]
  show "e_now env' < sd_expires_at (ar_session r)
      \<Longrightarrow> user_from_token env' (sd_token (ar_session r)) d' = Inr user"
    using S assms(4) by (simp add: same r)
  show "hash_token env t \<noteq> hash_token env (sd_token (ar_session r))
      \<Longrightarrow> user_from_token env' t d' = user_from_token env' t d"
    using S by (simp add: same r)
  show "ar_profile r = account_dto_from user" by (rule r(3))
  show "sd_token (ar_session r) = generate_token env 2"
    using parts(1) by (auto simp: r issue_session_def Let_def split: sum.splits)
qed

lemma user_from_revoked:
  assumes "hash_token env' = hash_token env"
  shows "user_from_token env' t (snd (revoke_session env token d)) =
    (if hash_token env t = hash_token env token then Inl Unauthorized else user_from_token env' t d)"
proof -
  have "user_of_hash env' h (revoke_hash env h' d) = (if h = h' then None else user_of_hash env' h d)"
    for h h'
    unfolding user_of_hash_def revoke_hash_def by (simp add: find_live_update find_user_def)
  then show ?thesis
    using assms by (simp add: user_from_token_def revoke_session_def)
qed

section \<open>Properties\<close>

text \<open>
  Refreshing a session rotates it. Unless the new token happens to collide with the presented
  one, the presented token resolves to nothing from then on, the new one resolves to the same
  account until it expires, the answer describes that account, and what every other token
  resolves to is unchanged.
\<close>

theorem account_refresh_rotates:
  assumes "state_wf s" "fst (auth_user env cfg rq (st_db s)) = Inr user"
    and "session_token_from_headers (rq_header rq) (cf_cookie_name cfg) = Some token"
    and "account_refresh env cfg rq s = (Inr r, s')"
    and "hash_token env (generate_token env 2) \<noteq> hash_token env token"
    and "hash_token env' = hash_token env" "e_now env' < sd_expires_at (ar_session r)"
  shows "user_from_token env' token (st_db s') = Inl Unauthorized
    \<and> user_from_token env' (sd_token (ar_session r)) (st_db s') = Inr user
    \<and> ar_profile r = account_dto_from user
    \<and> (\<forall>t. hash_token env t \<notin> {hash_token env token, hash_token env (generate_token env 2)}
        \<longrightarrow> user_from_token env' t (st_db s') = user_from_token env' t (st_db s))"
proof -
  let ?d = "snd (revoke_session env token (st_db s))"
  have resolved: "user_from_token env token (st_db s) = Inr user"
    by (rule auth_user_Inr [OF assms(2)]) (simp add: assms(3))
  have answer: "auth_response env cfg user ?d = (Inr r, st_db s')"
    using assms(2-4) by (auto simp: account_refresh_def Let_def split_beta prod_eq_iff)
  have "find_user ?d (u_id user) = Some user"
    using user_from_token_stored(1) [OF resolved]
    by (simp add: revoke_session_def revoke_hash_def find_user_def)
  note A = auth_responseD [OF db_wf_revoke_session [OF state_wfD(1) [OF assms(1)]] answer this
      user_from_token_stored(2) [OF resolved] assms(6)]
  show ?thesis
    using A assms(5,7) by (simp add: user_from_revoked [OF assms(6)])
qed

end
