(* ===== verification/Admin_Users.thy ===== *)
theory Admin_Users
  imports Accounts
begin

text \<open>
  \<^verbatim>\<open>admin/src/users.rs\<close>, \<^verbatim>\<open>admin/src/auth.rs\<close> and the user part of \<^verbatim>\<open>admin/src/dto.rs\<close>: the
  administration of accounts. Deleting an account is the cascade that the foreign keys of the
  migrations spell out; the key of \<^verbatim>\<open>user_events\<close> has no \<^verbatim>\<open>ON DELETE\<close> clause and refuses it.
\<close>

section \<open>Deleting a row of users\<close>

definition worlds_of :: "uuid \<Rightarrow> db \<Rightarrow> uuid list" where
  "worlds_of x d = map ws_id (filter (\<lambda>w. ws_host_user_id w = x) (world_sessions d))"

definition tickets_of :: "uuid \<Rightarrow> db \<Rightarrow> uuid list" where
  "tickets_of x d = map jt_id (filter (\<lambda>t. jt_user_id t = x \<or> jt_world_session_id t \<in> set (worlds_of x d))
     (join_tickets d))"

definition null_if :: "uuid list \<Rightarrow> uuid option \<Rightarrow> uuid option" where
  "null_if gone v = (case v of Some x \<Rightarrow> if x \<in> set gone then None else Some x | None \<Rightarrow> None)"

definition cascade_user :: "uuid \<Rightarrow> db \<Rightarrow> db" where
  "cascade_user x d =
     (let worlds = worlds_of x d; tickets = tickets_of x d in
      d\<lparr>users := sql_delete (\<lambda>u. u_id u = x) (users d),
        sessions := sql_delete (\<lambda>s. se_user_id s = x) (sessions d),
        yggdrasil_tokens := sql_delete (\<lambda>t. yt_user_id t = x) (yggdrasil_tokens d),
        friend_requests := sql_delete (\<lambda>r. fr_from_user_id r = x \<or> fr_to_user_id r = x) (friend_requests d),
        friendships := sql_delete (\<lambda>f. fs_user_a_id f = x \<or> fs_user_b_id f = x) (friendships d),
        presences := sql_update always
          (\<lambda>p. p\<lparr>pr_current_world_session_id := null_if worlds (pr_current_world_session_id p)\<rparr>)
          (sql_delete (\<lambda>p. pr_user_id p = x) (presences d)),
        world_sessions := sql_delete (\<lambda>w. ws_host_user_id w = x) (world_sessions d),
        join_requests := sql_delete (\<lambda>r. jr_requester_user_id r = x \<or> jr_host_user_id r = x
          \<or> jr_world_session_id r \<in> set worlds) (join_requests d),
        join_tickets := sql_delete (\<lambda>t. jt_user_id t = x \<or> jt_world_session_id t \<in> set worlds) (join_tickets d),
        relay_sessions := sql_update always
          (\<lambda>r. r\<lparr>rs_guest_user_id := null_if [x] (rs_guest_user_id r),
                 rs_join_ticket_id := null_if tickets (rs_join_ticket_id r)\<rparr>)
          (sql_delete (\<lambda>r. rs_host_user_id r = x \<or> rs_world_session_id r \<in> set worlds) (relay_sessions d)),
        world_invites := sql_delete (\<lambda>i. wi_host_user_id i = x \<or> wi_inviter_user_id i = x
          \<or> wi_invitee_user_id i = x \<or> wi_world_session_id i \<in> set worlds) (world_invites d)\<rparr>)"

definition delete_user :: "uuid \<Rightarrow> db \<Rightarrow> db_error + db" where
  "delete_user x d =
     (if \<not> user_exists d x then Inr d
      else guarded
        [(sql_exists (\<lambda>e. ue_user_id e = Some x) (user_events d),
           ForeignKeyViolation ''user_events_user_id_fkey'')]
        (cascade_user x d))"

section \<open>Endpoints\<close>

definition usable_admin :: "user \<Rightarrow> bool" where
  "usable_admin u \<longleftrightarrow> u_is_admin u \<and> \<not> u_blocked u"

definition guard_last_admin :: "uuid \<Rightarrow> db \<Rightarrow> unit app_result" where
  "guard_last_admin target d =
     (if \<not> sql_exists (\<lambda>u. u_id u = target \<and> usable_admin u) (users d) then Inr ()
      else if sql_affected usable_admin (users d) \<le> 1
      then Inl (Conflict ''cannot remove the last admin'')
      else Inr ())"

record admin_user_dto =
  aud_id :: uuid
  aud_username :: string
  aud_email :: "string option"
  aud_minecraft_uuid :: "string option"
  aud_profile_uuid :: "string option"
  aud_origin :: string
  aud_confirmed :: bool
  aud_blocked :: bool
  aud_is_admin :: bool
  aud_created_at :: timestamp
  aud_last_seen_at :: timestamp

definition admin_user_dto_from :: "user \<Rightarrow> admin_user_dto" where
  "admin_user_dto_from u =
     \<lparr>aud_id = u_id u, aud_username = u_username u, aud_email = u_email u,
      aud_minecraft_uuid = u_minecraft_uuid u, aud_profile_uuid = u_profile_uuid u,
      aud_origin = u_origin u, aud_confirmed = u_confirmed u, aud_blocked = u_blocked u,
      aud_is_admin = u_is_admin u, aud_created_at = u_created_at u, aud_last_seen_at = u_last_seen_at u\<rparr>"

record page_meta =
  pm_page :: int
  pm_page_size :: int
  pm_total :: int
  pm_page_count :: int

definition users_list ::
  "string option \<Rightarrow> int option \<Rightarrow> db \<Rightarrow> (admin_user_dto list \<times> page_meta) app_result" where
  "users_list q page d =
     (case search_users (coalesce_or q []) (coalesce_or page 1) d of
        Inl e \<Rightarrow> Inl e
      | Inr result \<Rightarrow>
          Inr (map admin_user_dto_from (up_users result),
               \<lparr>pm_page = up_page result, pm_page_size = up_page_size result,
                pm_total = int (up_total result),
                pm_page_count = (if up_page_size result > 0
                  then (int (up_total result) + up_page_size result - 1) div up_page_size result
                  else 0)\<rparr>))"

definition users_create :: "crypt \<Rightarrow> env \<Rightarrow> admin_create \<Rightarrow> admin_user_dto handler" where
  "users_create cr env body s =
     (case admin_create_user cr env 0 body (st_db s) of
        Inl e \<Rightarrow> (Inl e, s)
      | Inr (user, d) \<Rightarrow> (Inr (admin_user_dto_from user), s\<lparr>st_db := d\<rparr>))"

definition users_get :: "uuid \<Rightarrow> db \<Rightarrow> admin_user_dto app_result" where
  "users_get x d =
     (case load_user d x of Inl e \<Rightarrow> Inl e | Inr user \<Rightarrow> Inr (admin_user_dto_from user))"

definition users_patch :: "env \<Rightarrow> uuid \<Rightarrow> user_patch \<Rightarrow> admin_user_dto handler" where
  "users_patch env x body s =
     (case (if pa_is_admin body = Some False then guard_last_admin x (st_db s) else Inr ()) of
        Inl e \<Rightarrow> (Inl e, s)
      | Inr _ \<Rightarrow>
          (case identity_update_user env x body (st_db s) of
             Inl e \<Rightarrow> (Inl e, s)
           | Inr (user, d) \<Rightarrow>
               (Inr (admin_user_dto_from user),
                s\<lparr>st_db := (if pa_is_admin body = Some False
                            then snd (revoke_all_sessions_for_user env x d) else d)\<rparr>)))"

definition users_delete :: "uuid \<Rightarrow> unit handler" where
  "users_delete x s =
     (case load_user (st_db s) x of
        Inl e \<Rightarrow> (Inl e, s)
      | Inr _ \<Rightarrow>
          (case guard_last_admin x (st_db s) of
             Inl e \<Rightarrow> (Inl e, s)
           | Inr _ \<Rightarrow>
               (case delete_user x (st_db s) of
                  Inl e \<Rightarrow> (Inl (Database e), s)
                | Inr d \<Rightarrow> (Inr (), s\<lparr>st_db := d\<rparr>))))"

definition users_block :: "env \<Rightarrow> uuid \<Rightarrow> admin_user_dto handler" where
  "users_block env x s =
     (case guard_last_admin x (st_db s) of
        Inl e \<Rightarrow> (Inl e, s)
      | Inr _ \<Rightarrow>
          (case set_blocked env x True (st_db s) of
             Inl e \<Rightarrow> (Inl e, s)
           | Inr (user, d) \<Rightarrow> (Inr (admin_user_dto_from user), s\<lparr>st_db := d\<rparr>)))"

definition users_unblock :: "env \<Rightarrow> uuid \<Rightarrow> admin_user_dto handler" where
  "users_unblock env x s =
     (case set_blocked env x False (st_db s) of
        Inl e \<Rightarrow> (Inl e, s)
      | Inr (user, d) \<Rightarrow> (Inr (admin_user_dto_from user), s\<lparr>st_db := d\<rparr>))"

text \<open>The two statements that take every token of an account.\<close>

definition revoke_everything :: "env \<Rightarrow> uuid \<Rightarrow> db \<Rightarrow> db" where
  "revoke_everything env x d =
     snd (invalidate_all_yggdrasil_for_user x (snd (revoke_all_sessions_for_user env x d)))"

definition users_reset_password :: "crypt \<Rightarrow> env \<Rightarrow> uuid \<Rightarrow> string \<Rightarrow> unit handler" where
  "users_reset_password cr env x password s =
     (case set_password cr env 0 x password (st_db s) of
        Inl e \<Rightarrow> (Inl e, s)
      | Inr d \<Rightarrow> (Inr (), s\<lparr>st_db := revoke_everything env x d\<rparr>))"

definition users_revoke_tokens :: "env \<Rightarrow> uuid \<Rightarrow> unit handler" where
  "users_revoke_tokens env x s =
     (case load_user (st_db s) x of
        Inl e \<Rightarrow> (Inl e, s)
      | Inr _ \<Rightarrow> (Inr (), s\<lparr>st_db := revoke_everything env x (st_db s)\<rparr>))"

section \<open>Signing in\<close>

record admin_me =
  am_id :: uuid
  am_username :: string
  am_email :: "string option"
  am_is_admin :: bool

definition admin_me_from :: "user \<Rightarrow> admin_me" where
  "admin_me_from u =
     \<lparr>am_id = u_id u, am_username = u_username u, am_email = u_email u, am_is_admin = u_is_admin u\<rparr>"

text \<open>The answer is the session, the CSRF token (both set as cookies) and the identity.\<close>

definition admin_login ::
  "crypt \<Rightarrow> env \<Rightarrow> config \<Rightarrow> string \<Rightarrow> string \<Rightarrow> (issued_session \<times> string \<times> admin_me) handler" where
  "admin_login cr env cfg username password s =
     (case authenticate_password cr env 0 username password (st_db s) of
        Inl e \<Rightarrow> (Inl e, s)
      | Inr (user, d1) \<Rightarrow>
          if \<not> u_is_admin user then (Inl Forbidden, s\<lparr>st_db := d1\<rparr>)
          else
            (case issue_session env 2 (u_id user) (cf_admin_session_ttl cfg) d1 of
               Inl e \<Rightarrow> (Inl e, s\<lparr>st_db := d1\<rparr>)
             | Inr (session, d2) \<Rightarrow>
                 (Inr (session, generate_token env 3, admin_me_from user), s\<lparr>st_db := d2\<rparr>)))"

definition admin_logout :: "env \<Rightarrow> config \<Rightarrow> request \<Rightarrow> unit handler" where
  "admin_logout env cfg rq s =
     (case cookie_value (rq_header rq) (cf_cookie_name cfg) of
        Some token \<Rightarrow> (Inr (), s\<lparr>st_db := snd (revoke_session env token (st_db s))\<rparr>)
      | None \<Rightarrow> (Inr (), s))"

section \<open>Start-up\<close>

text \<open>
  \<^verbatim>\<open>admin/src/startup.rs\<close>: \<open>name\<close> and \<open>password\<close> are \<^verbatim>\<open>bootstrap_username\<close> and
  \<^verbatim>\<open>bootstrap_password\<close> of the configuration.
\<close>

definition ensure_bootstrap_admin ::
  "crypt \<Rightarrow> env \<Rightarrow> string \<Rightarrow> string option \<Rightarrow> db \<Rightarrow> bool app_result \<times> db" where
  "ensure_bootstrap_admin cr env name password d =
     (if sql_exists u_is_admin (users d) then (Inr False, d)
      else
        (case password of
           None \<Rightarrow> (Inr False, d)
         | Some secret \<Rightarrow>
             let normalized = normalize_username name in
             (case sql_find (\<lambda>u. u_normalized_username u = normalized) (users d) of
                Some existing \<Rightarrow>
                  (case identity_update_user env (u_id existing)
                          \<lparr>pa_username = None, pa_email = None, pa_is_admin = Some True,
                           pa_confirmed = Some True\<rparr> d of
                     Inl e \<Rightarrow> (Inl e, d) | Inr (_, d') \<Rightarrow> (Inr True, d'))
              | None \<Rightarrow>
                  (case admin_create_user cr env 0
                          \<lparr>ac_username = name, ac_email = normalized @ ''@admin.local'',
                           ac_password = secret, ac_minecraft_uuid = None, ac_is_admin = True\<rparr> d of
                     Inl e \<Rightarrow> (Inl e, d) | Inr (_, d') \<Rightarrow> (Inr True, d')))))"

lemma db_wf_ensure_bootstrap_admin [wf_intros]:
  "db_wf d \<Longrightarrow> db_wf (snd (ensure_bootstrap_admin cr env name password d))"
  by (auto simp: ensure_bootstrap_admin_def Let_def intro: wf_intros split: option.splits sum.splits)

section \<open>Well-formedness\<close>

lemma fk_cascade:
  "fk f ks rs \<Longrightarrow> (\<And>r. r \<in> set rs \<Longrightarrow> \<not> p r \<Longrightarrow> f r \<in> set ks \<Longrightarrow> f r \<in> set ks')
    \<Longrightarrow> fk f ks' (sql_delete p rs)"
  by (auto simp: fk_def list_all_iff)

lemma fk_opt_cascade:
  assumes "fk_opt f ks rs" "\<And>r. f (g r) = null_if gone (f r)" "set ks - set gone \<subseteq> set ks'"
  shows "fk_opt f ks' (sql_update always g (sql_delete p rs))"
  using assms by (auto simp: fk_opt_def list_all_iff set_sql_update null_if_def split: option.splits if_splits)

lemma fk_cascade_update:
  "fk f ks' (sql_delete p rs) \<Longrightarrow> (\<And>r. f (g r) = f r) \<Longrightarrow> fk f ks' (sql_update q g (sql_delete p rs))"
  by (auto simp: fk_def list_all_iff set_sql_update)

text \<open>What is left of the referenced ids.\<close>

lemma cascade_ids:
  "set (user_ids d) - {x} \<subseteq> set (user_ids (cascade_user x d))"
  "set (world_ids d) - set (worlds_of x d) \<subseteq> set (world_ids (cascade_user x d))"
  "set (ticket_ids d) - set (tickets_of x d) \<subseteq> set (ticket_ids (cascade_user x d))"
  by (auto simp: cascade_user_def Let_def worlds_of_def tickets_of_def)

lemma db_wf_cascade_user:
  assumes wf: "db_wf d" and events: "\<not> sql_exists (\<lambda>e. ue_user_id e = Some x) (user_events d)"
  shows "db_wf (cascade_user x d)"
proof -
  define us ws ts where "us = user_ids (cascade_user x d)" and "ws = world_ids (cascade_user x d)"
    and "ts = ticket_ids (cascade_user x d)"
  then have kept: "\<And>y. y \<in> set (user_ids d) \<Longrightarrow> y \<noteq> x \<Longrightarrow> y \<in> set us"
    "\<And>w. w \<in> set (world_ids d) \<Longrightarrow> w \<notin> set (worlds_of x d) \<Longrightarrow> w \<in> set ws"
    "set (world_ids d) - set (worlds_of x d) \<subseteq> set ws" "set (ticket_ids d) - set (tickets_of x d) \<subseteq> set ts"
    "set (user_ids d) - set [x] \<subseteq> set us"
    "\<And>t. t \<in> set (ticket_ids d) \<Longrightarrow> t \<notin> set (tickets_of x d) \<Longrightarrow> t \<in> set ts"
    using cascade_ids [of d x] by auto
  note W = db_wfD [OF wf]
  note D = unique_index_delete list_all_delete fk_cascade fk_cascade_update unique_index_update fk_opt_cascade
  let ?d = "cascade_user x d"
  have "users_wf (users ?d)"
    using W(1) by (simp add: cascade_user_def Let_def users_wf_def)
  moreover have "sessions_wf us (sessions ?d)" "yggdrasil_tokens_wf us (yggdrasil_tokens ?d)"
    "friend_requests_wf us (friend_requests ?d)" "friendships_wf us (friendships ?d)"
    "world_sessions_wf us (world_sessions ?d)"
    using W(2-5,7) by (auto simp: cascade_user_def Let_def wf_defs intro!: D intro: kept)
  moreover have "join_requests_wf us ws (join_requests ?d)" "join_tickets_wf us ws (join_tickets ?d)"
    "world_invites_wf us ws (world_invites ?d)" "presences_wf us ws (presences ?d)"
    using W(6,8,9,11) by (auto simp: cascade_user_def Let_def wf_defs intro!: D intro: kept)
  moreover have "relay_sessions_wf us ws ts (relay_sessions ?d)"
    using W(10) by (auto simp: cascade_user_def Let_def wf_defs intro!: D intro: kept)
  moreover have "user_events_wf us (user_events_seq ?d) (user_events ?d)"
    using W(12) events kept(1)
    by (fastforce simp: cascade_user_def Let_def user_events_wf_def fk_opt_def list_all_iff sql_exists_iff)
  ultimately show ?thesis by (simp add: db_wf_def us_def ws_def ts_def)
qed

lemma db_wf_delete_user [wf_intros]: "delete_user x d = Inr d' \<Longrightarrow> db_wf d \<Longrightarrow> db_wf d'"
  by (auto simp: delete_user_def intro: db_wf_cascade_user split: if_splits)

lemma db_wf_revoke_everything [wf_intros]: "db_wf d \<Longrightarrow> db_wf (revoke_everything env x d)"
  by (simp add: revoke_everything_def invalidate_all_yggdrasil_for_user_def db_wf_delete_simple
      db_wf_revoke_all)

section \<open>The administration as a whole\<close>

datatype admin_op =
    Create admin_create
  | Patch uuid user_patch
  | Delete uuid
  | Block uuid
  | Unblock uuid
  | ResetPassword uuid string
  | RevokeTokens uuid

fun admin_step :: "crypt \<Rightarrow> env \<times> admin_op \<Rightarrow> app_state \<Rightarrow> app_state" where
  "admin_step cr (env, Create body) s = snd (users_create cr env body s)"
| "admin_step cr (env, Patch x body) s = snd (users_patch env x body s)"
| "admin_step cr (env, Delete x) s = snd (users_delete x s)"
| "admin_step cr (env, Block x) s = snd (users_block env x s)"
| "admin_step cr (env, Unblock x) s = snd (users_unblock env x s)"
| "admin_step cr (env, ResetPassword x password) s = snd (users_reset_password cr env x password s)"
| "admin_step cr (env, RevokeTokens x) s = snd (users_revoke_tokens env x s)"

lemma admin_step_wf [wf_intros]: "state_wf s \<Longrightarrow> state_wf (admin_step cr op s)"
  by (induction cr op s rule: admin_step.induct)
    (auto simp: users_create_def users_patch_def users_delete_def users_block_def users_unblock_def
      users_reset_password_def users_revoke_tokens_def state_wf_def Let_def
      intro: wf_intros split: sum.splits)

definition has_admin :: "db \<Rightarrow> bool" where
  "has_admin d \<longleftrightarrow> sql_exists usable_admin (users d)"

text \<open>The guard leaves another usable administrator, whatever becomes of the target.\<close>

lemma guard_leaves_admin:
  assumes "guard_last_admin x d = Inr ()" "has_admin d" "db_wf d"
  shows "\<exists>u \<in> set (users d). usable_admin u \<and> u_id u \<noteq> x"
proof (cases "sql_exists (\<lambda>u. u_id u = x \<and> usable_admin u) (users d)")
  case True
  have "unique_index always u_id (filter usable_admin (users d))"
    using db_wfD(1) [OF assms(3)] unique_index_delete [of always u_id "users d" "\<lambda>u. \<not> usable_admin u"]
    by (simp add: users_wf_def sql_delete_def)
  moreover have "1 < length (filter usable_admin (users d))"
    using assms(1) True by (simp add: guard_last_admin_def sql_affected_def split: if_splits)
  ultimately have "\<exists>u \<in> set (filter usable_admin (users d)). u_id u \<noteq> x"
    by (cases "filter usable_admin (users d)"; cases "tl (filter usable_admin (users d))")
      (auto simp: unique_violation_def sql_exists_iff)
  then show ?thesis by auto
next
  case False
  with assms(2) show ?thesis by (auto simp: has_admin_def sql_exists_iff)
qed

text \<open>An update of one account that keeps it usable, or leaves another, keeps an administrator.\<close>

lemma has_admin_update:
  assumes "update_user x f d = Inr d'" "\<And>v. u_id (f v) = u_id v" "db_wf d"
    and "u \<in> set (users d)" "usable_admin u" "u_id u \<noteq> x \<or> usable_admin (f u)"
  shows "has_admin d'"
proof -
  have "find_user d' (u_id u) = Some (if u_id u = x then f u else u)"
    using update_user_find [OF assms(1,2), of "u_id u"] find_user_unique [OF assms(3,4)] by simp
  from find_user_Some(1) [OF this] assms(5,6) show ?thesis
    by (auto simp: has_admin_def sql_exists_iff split: if_splits)
qed

lemma has_admin_sql_update:
  assumes "u \<in> set (users d)" "usable_admin u" "u_id u \<noteq> x \<or> usable_admin (f u)"
  shows "has_admin (d\<lparr>users := sql_update (\<lambda>v. u_id v = x) f (users d)\<rparr>)"
  using assms by (auto simp: has_admin_def sql_exists_iff set_sql_update)

lemma users_patch_admin:
  assumes "has_admin (st_db s)" "db_wf (st_db s)"
  shows "has_admin (st_db (snd (users_patch env x body s)))"
proof (cases "if pa_is_admin body = Some False then guard_last_admin x (st_db s) else Inr ()")
  case (Inr v)
  have "\<exists>u \<in> set (users (st_db s)). usable_admin u
      \<and> (u_id u \<noteq> x \<or> usable_admin (patched_user env body u))"
  proof (cases "pa_is_admin body = Some False")
    case True
    with Inr guard_leaves_admin [OF _ assms, of x] show ?thesis by auto
  next
    case False
    then have "usable_admin u \<Longrightarrow> usable_admin (patched_user env body u)" for u
      by (cases "pa_is_admin body") (auto simp: usable_admin_def patched_user_def)
    with assms(1) show ?thesis by (auto simp: has_admin_def sql_exists_iff)
  qed
  then obtain u where u: "u \<in> set (users (st_db s))" "usable_admin u"
    "u_id u \<noteq> x \<or> usable_admin (patched_user env body u)" by blast
  have "has_admin d'" if "identity_update_user env x body (st_db s) = Inr (v, d')" for v d'
  proof -
    have "update_user x (patched_user env body) (st_db s) = Inr d'"
      using that by (auto simp: identity_update_user_def dest: update_returningD(1)
          split: sum.splits option.splits)
    then show ?thesis by (rule has_admin_update [where f = "patched_user env body", OF _ _ assms(2) u]) simp
  qed
  with Inr assms show ?thesis
    by (auto simp: users_patch_def revoke_all_sessions_for_user_def Let_def has_admin_def
        split: sum.splits)
qed (use assms in \<open>simp add: users_patch_def\<close>)

lemma users_delete_admin:
  assumes "has_admin (st_db s)" "db_wf (st_db s)"
  shows "has_admin (st_db (snd (users_delete x s)))"
proof (cases "guard_last_admin x (st_db s)")
  case (Inr v)
  then obtain u where "u \<in> set (users (st_db s))" "usable_admin u" "u_id u \<noteq> x"
    using guard_leaves_admin [OF _ assms, of x] by auto
  then have "has_admin (cascade_user x (st_db s))"
    by (auto simp: has_admin_def sql_exists_iff cascade_user_def Let_def)
  with Inr assms show ?thesis
    by (auto simp: users_delete_def delete_user_def split: sum.splits if_splits)
qed (use assms in \<open>auto simp: users_delete_def split: sum.splits\<close>)

lemma users_block_admin:
  assumes "has_admin (st_db s)" "db_wf (st_db s)"
  shows "has_admin (st_db (snd (users_block env x s)))"
proof (cases "guard_last_admin x (st_db s)")
  case (Inr v)
  then obtain u where "u \<in> set (users (st_db s))" "usable_admin u" "u_id u \<noteq> x"
    using guard_leaves_admin [OF _ assms, of x] by auto
  with Inr assms show ?thesis
    by (auto simp: users_block_def set_blocked_def Let_def intro!: has_admin_sql_update
        split: sum.splits option.splits)
qed (use assms in \<open>auto simp: users_block_def split: sum.splits\<close>)

lemma admin_step_admin:
  assumes "has_admin (st_db s)" "db_wf (st_db s)"
  shows "has_admin (st_db (admin_step cr op s))"
proof -
  obtain u where u: "u \<in> set (users (st_db s))" "usable_admin u"
    using assms(1) by (auto simp: has_admin_def sql_exists_iff)
  then have keeps: "has_admin (st_db s\<lparr>users := sql_update (\<lambda>v. u_id v = x) f (users (st_db s))\<rparr>)"
    if "usable_admin (f u)" for x f
    using that by (intro has_admin_sql_update) auto
  obtain env o' where op: "op = (env, o')" by (cases op)
  show ?thesis
  proof (cases o')
    case (Create body)
    with assms show ?thesis
      by (auto simp: op users_create_def admin_create_user_def Let_def has_admin_def sql_exists_iff
          dest!: insert_user_Inr split: sum.splits if_splits)
  next
    case (Unblock x)
    have "usable_admin (u\<lparr>u_blocked := False, u_updated_at := e_now env\<rparr>)"
      using u(2) by (simp add: usable_admin_def)
    with assms keeps show ?thesis
      by (auto simp: op Unblock users_unblock_def set_blocked_def Let_def split: sum.splits option.splits)
  next
    case (ResetPassword x password)
    have "usable_admin (u\<lparr>u_password_hash := h, u_updated_at := e_now env\<rparr>)" for h
      using u(2) by (simp add: usable_admin_def)
    with assms keeps show ?thesis
      by (auto simp: op ResetPassword users_reset_password_def set_password_def revoke_everything_def
          revoke_all_sessions_for_user_def invalidate_all_yggdrasil_for_user_def Let_def has_admin_def
          split: sum.splits)
  next
    case (RevokeTokens x)
    with assms show ?thesis
      by (auto simp: op users_revoke_tokens_def revoke_everything_def Let_def has_admin_def
          revoke_all_sessions_for_user_def invalidate_all_yggdrasil_for_user_def split: sum.splits)
  qed (simp_all add: op users_patch_admin users_delete_admin users_block_admin assms)
qed

section \<open>Refusals\<close>

lemma guard_last_admin_cases:
  assumes "db_wf d" "user_exists d x"
  shows "guard_last_admin x d =
    (if filter usable_admin (users d) = [u \<leftarrow> users d. u_id u = x]
     then Inl (Conflict ''cannot remove the last admin'') else Inr ())"
proof -
  obtain r where r: "r \<in> set (users d)" "u_id r = x"
    using assms(2) by (auto simp: user_exists_def sql_exists_iff)
  have row: "[u \<leftarrow> users d. u_id u = x] = [r]"
    using unique_index_filter [of always u_id "users d" r x] r db_wfD(1) [OF assms(1)]
    by (simp add: users_wf_def)
  have target: "sql_exists (\<lambda>u. u_id u = x \<and> usable_admin u) (users d) \<longleftrightarrow> usable_admin r"
  proof -
    have "u = r" if "u \<in> set (users d)" "u_id u = x" for u
      using unique_indexD [of always u_id "users d" u r] db_wfD(1) [OF assms(1)] that r
      by (simp add: users_wf_def)
    with r show ?thesis unfolding sql_exists_iff by blast
  qed
  show ?thesis
  proof (cases "usable_admin r")
    case True
    with r(1) have "r \<in> set (filter usable_admin (users d))" by simp
    then have "length (filter usable_admin (users d)) \<le> 1 \<longleftrightarrow> filter usable_admin (users d) = [r]"
      by (cases "filter usable_admin (users d)"; cases "tl (filter usable_admin (users d))") auto
    with True target row show ?thesis
      by (simp add: guard_last_admin_def sql_affected_def)
  next
    case False
    then have "r \<notin> set (filter usable_admin (users d))" by simp
    then have "filter usable_admin (users d) \<noteq> [r]" by (auto simp del: set_filter)
    with False target row show ?thesis by (simp add: guard_last_admin_def)
  qed
qed

section \<open>Properties\<close>

text \<open>
  C10. No sequence of administrative requests locks everybody out: if some administrator who is not
  blocked exists, one exists after any creations, changes, deletions, blocks, unblocks, password
  resets and token revocations, in any order and by anyone.
\<close>

theorem last_admin_kept:
  assumes "state_wf s" "has_admin (st_db s)"
  shows "has_admin (st_db (fold (admin_step cr) ops s)) \<and> state_wf (fold (admin_step cr) ops s)"
  using assms
proof (induction ops arbitrary: s)
  case (Cons op ops)
  then show ?case
    using admin_step_admin [of s cr op] admin_step_wf [of s cr op] by (simp add: state_wf_def)
qed simp

theorem last_admin_kept_witness:
  "has_admin (st_db (fold (admin_step sample_crypt)
     [(sample_env, Block 1), (sample_env, Delete 1),
      (sample_env, Patch 1 \<lparr>pa_username = None, pa_email = None, pa_is_admin = Some False,
                            pa_confirmed = None\<rparr>)]
     (sample_state\<lparr>st_db := empty_db\<lparr>users := [alice\<lparr>u_is_admin := True\<rparr>, bob]\<rparr>\<rparr>)))"
proof -
  have "state_wf (sample_state\<lparr>st_db := empty_db\<lparr>users := [alice\<lparr>u_is_admin := True\<rparr>, bob]\<rparr>\<rparr>)"
    "has_admin (empty_db\<lparr>users := [alice\<lparr>u_is_admin := True\<rparr>, bob]\<rparr>)"
    by code_simp+
  then show ?thesis
    by (intro conjunct1 [OF last_admin_kept]) simp_all
qed

text \<open>
  C32. Deleting an account answers, and does, exactly one of four things. An unknown account is
  not found; the last usable administrator is refused; an account with recorded events is refused
  by the foreign key of the event log; in these cases nothing changes. Otherwise the account is
  gone with its sessions, tokens and friendships, every other account, session, token and
  friendship stays, no remaining presence points into one of its worlds, and the database
  satisfies all its constraints.
\<close>

theorem users_delete_effect:
  assumes "state_wf s"
  shows "case users_delete x s of
      (Inl e, s') \<Rightarrow> s' = s
        \<and> (if \<not> user_exists (st_db s) x then e = NotFound ''user not found''
           else if filter usable_admin (users (st_db s)) = [u \<leftarrow> users (st_db s). u_id u = x]
           then e = Conflict ''cannot remove the last admin''
           else e = Database (ForeignKeyViolation ''user_events_user_id_fkey'')
             \<and> sql_exists (\<lambda>v. ue_user_id v = Some x) (user_events (st_db s)))
    | (Inr _, s') \<Rightarrow> user_exists (st_db s) x \<and> state_wf s'
        \<and> users (st_db s') = [u \<leftarrow> users (st_db s). u_id u \<noteq> x]
        \<and> sessions (st_db s') = [r \<leftarrow> sessions (st_db s). se_user_id r \<noteq> x]
        \<and> yggdrasil_tokens (st_db s') = [t \<leftarrow> yggdrasil_tokens (st_db s). yt_user_id t \<noteq> x]
        \<and> friendships (st_db s') =
            [f \<leftarrow> friendships (st_db s). fs_user_a_id f \<noteq> x \<and> fs_user_b_id f \<noteq> x]
        \<and> list_all (\<lambda>p. set_option (pr_current_world_session_id p) \<inter> set (worlds_of x (st_db s)) = {})
            (presences (st_db s'))"
proof (cases "user_exists (st_db s) x")
  case True
  then obtain u where u: "load_user (st_db s) x = Inr u"
    using find_user_exists by (auto simp: load_user_def)
  note guard = guard_last_admin_cases [OF state_wfD(1) [OF assms] True]
  show ?thesis
  proof (cases "filter usable_admin (users (st_db s)) = [u \<leftarrow> users (st_db s). u_id u = x]
      \<or> sql_exists (\<lambda>v. ue_user_id v = Some x) (user_events (st_db s))")
    case True
    with \<open>user_exists (st_db s) x\<close> u guard show ?thesis
      by (auto simp: users_delete_def delete_user_def guarded_def)
  next
    case False
    then have ok: "users_delete x s = (Inr (), s\<lparr>st_db := cascade_user x (st_db s)\<rparr>)"
      using True u guard by (simp add: users_delete_def delete_user_def guarded_def)
    have "state_wf (s\<lparr>st_db := cascade_user x (st_db s)\<rparr>)"
      using assms False by (simp add: state_wf_def db_wf_cascade_user)
    with True ok show ?thesis
      by (auto simp: cascade_user_def Let_def sql_delete_def list_all_iff set_sql_update null_if_def
          split: option.splits if_splits)
  qed
next
  case False
  then have "find_user (st_db s) x = None"
    using find_user_Some(3) by (cases "find_user (st_db s) x") auto
  with False show ?thesis by (simp add: users_delete_def load_user_def)
qed

theorem users_delete_effect_witness:
  "users_delete 1 (sample_state\<lparr>st_db := sample_auth_db\<rparr>) =
     (Inr (), snd (users_delete 1 (sample_state\<lparr>st_db := sample_auth_db\<rparr>)))
   \<and> users (st_db (snd (users_delete 1 (sample_state\<lparr>st_db := sample_auth_db\<rparr>)))) = [bob, carol, dave]"
proof -
  let ?s = "sample_state\<lparr>st_db := sample_auth_db\<rparr>"
  have ok: "state_wf ?s" "\<not> isl (fst (users_delete 1 ?s))"
    "[u \<leftarrow> users (st_db ?s). u_id u \<noteq> 1] = [bob, carol, dave]"
    by code_simp+
  obtain u s' where r: "users_delete 1 ?s = (Inr u, s')"
    using answered [OF ok(2)] by blast
  then show ?thesis
    using users_delete_effect [OF ok(1), of 1] ok(3) by (simp only: r prod.case sum.case) simp
qed

lemma reset_password_row:
  assumes "set_password cr env k x password d = Inr d'"
  obtains h where "cr_hash cr k password = Some h" "password \<noteq> []"
    "d' = d\<lparr>users := sql_update (\<lambda>u. u_id u = x)
       (\<lambda>u. u\<lparr>u_password_hash := Some h, u_updated_at := e_now env\<rparr>) (users d)\<rparr>"
  using assms
  by (auto simp: set_password_def check_password_len_def hash_password_def ok_or_def
      split: sum.splits if_splits option.splits)

lemma revoke_everything_keeps:
  "users (revoke_everything env x d) = users d"
  "yggdrasil_tokens (revoke_everything env x d) = sql_delete (\<lambda>t. yt_user_id t = x) (yggdrasil_tokens d)"
  "user_of_hash env' h (revoke_everything env x d) =
     user_of_hash env' h (snd (revoke_all_sessions_for_user env x d))"
  by (simp_all add: revoke_everything_def revoke_all_sessions_for_user_def Let_def
      invalidate_all_yggdrasil_for_user_def user_of_hash_def find_user_def)

text \<open>
  C11. Resetting a password cuts the account off: no session token and no game token resolves to it
  any more, now or later, the stored digest accepts the new password, and no other account is
  touched.
\<close>

theorem reset_password_cuts_off:
  assumes "crypt_ok cr" "users_reset_password cr env x password s = (Inr (), s')"
  shows "(\<forall>env' token u. user_from_token env' token (st_db s') = Inr u \<longrightarrow> u_id u \<noteq> x)
    \<and> (\<forall>env' access client u. validate_yggdrasil env' access client (st_db s') = Inr u \<longrightarrow> u_id u \<noteq> x)
    \<and> map u_id (users (st_db s')) = map u_id (users (st_db s))
    \<and> list_all (\<lambda>u. if u_id u = x then \<exists>h. u_password_hash u = Some h \<and> cr_verify cr password h
        else u \<in> set (users (st_db s))) (users (st_db s'))"
proof -
  obtain d where d: "set_password cr env 0 x password (st_db s) = Inr d"
    and s': "st_db s' = revoke_everything env x d"
    using assms(2) by (auto simp: users_reset_password_def split: sum.splits)
  obtain h where h: "cr_hash cr 0 password = Some h"
    and users: "users d = sql_update (\<lambda>u. u_id u = x)
       (\<lambda>u. u\<lparr>u_password_hash := Some h, u_updated_at := e_now env\<rparr>) (users (st_db s))"
    by (rule reset_password_row [OF d]) auto
  have "u_id u \<noteq> x" if "user_from_token env' token (st_db s') = Inr u" for env' token u
    using that revoke_all_sessions_effect [where env' = env' and h = "hash_token env' token" and env = env
      and uid = x and d = d]
    by (auto simp: user_from_token_def ok_or_def s' revoke_everything_keeps split: option.splits)
  moreover have "u_id u \<noteq> x" if valid: "validate_yggdrasil env' access client (st_db s') = Inr u"
    for env' access client u
  proof -
    obtain row where "eligible_owner env' (hash_token env' access) client (st_db s') = Inr (u, row)"
      using valid by (auto simp: validate_yggdrasil_def split: sum.splits prod.splits)
    then have "row \<in> set (yggdrasil_tokens (st_db s'))" "find_user (st_db s') (yt_user_id row) = Some u"
      by (auto simp: eligible_owner_Inr dest: sql_find_SomeD)
    with find_user_Some(2) [OF this(2)] show ?thesis by (simp add: s' revoke_everything_keeps)
  qed
  moreover have "cr_verify cr password h" using assms(1) h by (auto simp: crypt_ok_def)
  ultimately show ?thesis
    by (auto simp: s' revoke_everything_keeps users list_all_iff set_sql_update map_sql_update)
qed

theorem reset_password_cuts_off_witness:
  "\<exists>s'. users_reset_password sample_crypt sample_env 1 ''new'' (sample_state\<lparr>st_db := sample_auth_db\<rparr>)
      = (Inr (), s')
    \<and> user_from_token sample_env ''ta'' (st_db s') = Inl Unauthorized"
proof -
  let ?s = "sample_state\<lparr>st_db := sample_auth_db\<rparr>"
  let ?r = "users_reset_password sample_crypt sample_env 1 ''new'' ?s"
  have ok: "\<not> isl (fst ?r)"
    "case user_from_token sample_env ''ta'' (st_db (snd ?r)) of
       Inl e \<Rightarrow> e = Unauthorized | Inr u \<Rightarrow> u_id u = 1"
    by code_simp+
  obtain s' where r: "?r = (Inr (), s')"
    using answered [OF ok(1)] by auto
  have "u_id u \<noteq> 1" if "user_from_token sample_env ''ta'' (st_db s') = Inr u" for u
    using that reset_password_cuts_off [OF sample_crypt_ok r] by blast
  with ok(2) r show ?thesis
    by (cases "user_from_token sample_env ''ta'' (st_db s')") auto
qed

end
