(* ===== verification/Service.thy ===== *)
theory Service
  imports Users Friends Cleanup Relay_Run Admin_Users
begin

text \<open>
  The service as a whole: every request of the network, account and administration routers, the
  sockets and the background sweep as one step relation over the shared application state. A
  request that needs a caller runs the extractor first, on the state it finds.
\<close>

section \<open>Requests\<close>

text \<open>The network endpoints that may change the state (\<^verbatim>\<open>network/src/lib.rs\<close>).\<close>

datatype network_call =
    Bootstrap bootstrap_request
  | Heartbeat
  | SetStatus string "uuid option"
  | CreateFriendRequest uuid
  | AcceptFriend uuid
  | DeclineFriend uuid
  | RemoveFriend uuid
  | CreateWorld "int option"
  | UpdateWorld uuid "int option" "string option" "string option"
  | CloseWorld uuid
  | CreateJoinTicket uuid
  | CreateJoinRequest uuid
  | AcceptJoin uuid
  | DeclineJoin uuid
  | CreateInvite uuid uuid
  | AcceptInvite uuid
  | DeclineInvite uuid
  | ApproveInvite uuid
  | RevokeInvite uuid

fun network_effect :: "env \<Rightarrow> config \<Rightarrow> user \<Rightarrow> network_call \<Rightarrow> app_state \<Rightarrow> app_state" where
  "network_effect env cfg u (Bootstrap body) s = snd (bootstrap env u body s)"
| "network_effect env cfg u Heartbeat s = snd (heartbeat env cfg u s)"
| "network_effect env cfg u (SetStatus st w) s = snd (set_status env u st w s)"
| "network_effect env cfg u (CreateFriendRequest x) s = snd (create_request env u x s)"
| "network_effect env cfg u (AcceptFriend x) s = snd (friends_accept env u x s)"
| "network_effect env cfg u (DeclineFriend x) s = snd (friends_decline env u x s)"
| "network_effect env cfg u (RemoveFriend x) s = snd (remove_friend u x s)"
| "network_effect env cfg u (CreateWorld n) s = snd (worlds_create env cfg u n s)"
| "network_effect env cfg u (UpdateWorld w n st p) s = snd (worlds_update env cfg u w n st p s)"
| "network_effect env cfg u (CloseWorld w) s = snd (worlds_close env u w s)"
| "network_effect env cfg u (CreateJoinTicket w) s = snd (create_join_ticket env cfg u w s)"
| "network_effect env cfg u (CreateJoinRequest w) s = snd (create_join_request env cfg u w s)"
| "network_effect env cfg u (AcceptJoin x) s = snd (join_accept env cfg u x s)"
| "network_effect env cfg u (DeclineJoin x) s = snd (join_decline env u x s)"
| "network_effect env cfg u (CreateInvite w x) s = snd (invites_create env cfg u w x s)"
| "network_effect env cfg u (AcceptInvite x) s = snd (invites_accept env cfg u x s)"
| "network_effect env cfg u (DeclineInvite x) s = snd (invites_decline env u x s)"
| "network_effect env cfg u (ApproveInvite x) s = snd (invites_approve env u x s)"
| "network_effect env cfg u (RevokeInvite x) s = snd (invites_revoke env u x s)"

text \<open>The requests without an extractor, and what sockets and timers do to the shared state.\<close>

datatype open_call =
    Login string string
  | Register string string string
  | RefreshSession request
  | Logout request
  | AdminLogin string string
  | AdminLogout request
  | SignalingConnect uuid
  | SignalingDisconnect uuid uuid
  | RelayUpgrade "string \<Rightarrow> string option" "string option" string uuid
  | AdmitPlayer uuid
  | ReleasePlayer uuid
  | RelayActive uuid
  | RelayClosed uuid
  | Sweep int

fun open_effect :: "crypt \<Rightarrow> env \<Rightarrow> config \<Rightarrow> open_call \<Rightarrow> app_state \<Rightarrow> app_state" where
  "open_effect cr env cfg (Login n p) s = snd (account_login cr env cfg n p s)"
| "open_effect cr env cfg (Register n e p) s = snd (account_register cr env cfg n e p s)"
| "open_effect cr env cfg (RefreshSession rq) s = snd (account_refresh env cfg rq s)"
| "open_effect cr env cfg (Logout rq) s = snd (account_logout env cfg rq s)"
| "open_effect cr env cfg (AdminLogin n p) s = snd (admin_login cr env cfg n p s)"
| "open_effect cr env cfg (AdminLogout rq) s = snd (admin_logout env cfg rq s)"
| "open_effect cr env cfg (SignalingConnect u) s = snd (signaling_connect env u s)"
| "open_effect cr env cfg (SignalingDisconnect u c) s = signaling_disconnect env u c s"
| "open_effect cr env cfg (RelayUpgrade h t q r) s = s\<lparr>st_db := snd (relay_ws env h t q r (st_db s))\<rparr>"
| "open_effect cr env cfg (AdmitPlayer w) s = s\<lparr>st_db := snd (try_admit_player w (st_db s))\<rparr>"
| "open_effect cr env cfg (ReleasePlayer w) s = s\<lparr>st_db := release_player w (st_db s)\<rparr>"
| "open_effect cr env cfg (RelayActive r) s = s\<lparr>st_db := mark_relay_active r (st_db s)\<rparr>"
| "open_effect cr env cfg (RelayClosed r) s = s\<lparr>st_db := mark_relay_closed env r (st_db s)\<rparr>"
| "open_effect cr env cfg (Sweep n) s =
     (case cleanup_stale_join_state env n (st_db s) of
        Some (_, d) \<Rightarrow> s\<lparr>st_db := d\<rparr> | None \<Rightarrow> s)"

inductive service_step :: "crypt \<Rightarrow> app_state \<Rightarrow> app_state \<Rightarrow> bool" for cr where
  network: "fst (auth_user env cfg rq (st_db s)) = Inr u
    \<Longrightarrow> service_step cr s (network_effect env cfg u c s)"
| unauthenticated: "service_step cr s (open_effect cr env cfg c s)"
| administration: "fst (admin_user env cfg rq (st_db s)) = Inr u
    \<Longrightarrow> service_step cr s (admin_step cr (env, op) s)"

text \<open>The state before the first request: an empty database in which the administrator is seeded.\<close>

inductive service_reachable :: "crypt \<Rightarrow> app_state \<Rightarrow> bool" for cr where
  start: "st_db s = snd (ensure_bootstrap_admin cr env name password empty_db)
    \<Longrightarrow> st_signaling s = [] \<Longrightarrow> service_reachable cr s"
| step: "service_reachable cr s \<Longrightarrow> service_step cr s s' \<Longrightarrow> service_reachable cr s'"

section \<open>Well-formedness\<close>

lemma network_effect_wf: "state_wf s \<Longrightarrow> state_wf (network_effect env cfg u c s)"
  by (cases c) (auto simp: friends_accept_def intro: wf_intros)

lemma cleanup_wf:
  assumes "cleanup_stale_join_state env n d = Some (r, d')" "db_wf d"
  shows "db_wf d'"
proof (cases "in_int4 n")
  case True
  with cleanup_result [OF assms(2), of n env] assms(1) show ?thesis
    by (auto intro: db_wf_swept [OF assms(2)])
next
  case False
  with assms show ?thesis
    by (auto simp: cleanup_stale_join_state_def Let_def intro: wf_intros)
qed

lemma admin_login_wf [wf_intros]: "state_wf s \<Longrightarrow> state_wf (snd (admin_login cr env cfg n p s))"
  by (auto simp: admin_login_def state_wf_def intro: wf_intros split: sum.splits)

lemma admin_logout_wf [wf_intros]: "state_wf s \<Longrightarrow> state_wf (snd (admin_logout env cfg rq s))"
  by (auto simp: admin_logout_def state_wf_def intro: wf_intros split: option.splits)

lemma open_effect_wf:
  assumes "state_wf s"
  shows "state_wf (open_effect cr env cfg c s)"
proof (cases c)
  case (Sweep n)
  then show ?thesis
    using assms cleanup_wf [of env n "st_db s"] by (auto simp: state_wf_def split: option.splits)
qed (use assms state_wfD [OF assms] in \<open>simp_all add: wf_intros\<close>)

lemma service_step_wf: "service_step cr s s' \<Longrightarrow> state_wf s \<Longrightarrow> state_wf s'"
  by (induction rule: service_step.induct) (auto intro: network_effect_wf open_effect_wf wf_intros)

lemma reachable_wf: "service_reachable cr s \<Longrightarrow> state_wf s"
proof (induction rule: service_reachable.induct)
  case (start s env name password)
  then show ?case
    using db_wf_ensure_bootstrap_admin [OF db_wf_empty, of cr env name password]
    by (simp add: state_wf_def hub_wf_def)
next
  case (step s s')
  then show ?case by (blast intro: service_step_wf)
qed


definition varied_crypt :: crypt where
  "varied_crypt = sample_crypt
     \<lparr>cr_simple := (\<lambda>u. sample_hex (\<lambda>i. if u < 200 then 0 else if u < 300 then 1 else 2))\<rparr>"

text \<open>A service after its administrator was seeded, and after a player has registered.\<close>

definition sample_seeded :: app_state where
  "sample_seeded = \<lparr>st_db = snd (ensure_bootstrap_admin varied_crypt sample_env ''root'' (Some ''secret'') empty_db),
     st_signaling = [], st_metrics = sample_metrics\<rparr>"

definition sample_registered :: app_state where
  "sample_registered =
     open_effect varied_crypt (sample_env\<lparr>e_uuid := (\<lambda>n. of_nat (200 + n))\<rparr>) sample_cfg
       (Register ''eve'' ''e@x.io'' ''pw'') sample_seeded"

lemma sample_registered_reachable:
  "service_reachable varied_crypt sample_seeded" "service_reachable varied_crypt sample_registered"
proof -
  show seeded: "service_reachable varied_crypt sample_seeded"
    by (rule service_reachable.start) (simp_all add: sample_seeded_def)
  show "service_reachable varied_crypt sample_registered"
    unfolding sample_registered_def by (rule service_reachable.step [OF seeded service_step.unauthenticated])
qed

lemma sample_registered_users: "map u_is_admin (users (st_db sample_registered)) = [True, False]"
  by code_simp


end
