(* ===== verification/Rights.thy ===== *)
theory Rights
  imports Service
begin

text \<open>
  Privilege over the whole service: which steps touch the account table, and that no request short of
  an administrator's changes who is an administrator or who is blocked.
\<close>

section \<open>Who touches accounts\<close>

text \<open>The statements on other tables leave \<^verbatim>\<open>users\<close> alone.\<close>

lemma inserts_keep_users [row_simps]:
  "insert_friend_request r1 d = Inr d' \<Longrightarrow> users d' = users d"
  "insert_friendship r2 d = Inr d' \<Longrightarrow> users d' = users d"
  "insert_presence r3 d = Inr d' \<Longrightarrow> users d' = users d"
  "insert_world_session r4 d = Inr d' \<Longrightarrow> users d' = users d"
  "insert_join_request r5 d = Inr d' \<Longrightarrow> users d' = users d"
  "insert_join_ticket r6 d = Inr d' \<Longrightarrow> users d' = users d"
  "insert_relay_session r7 d = Inr d' \<Longrightarrow> users d' = users d"
  "insert_world_invite r8 d = Inr d' \<Longrightarrow> users d' = users d"
  "insert_session r9 d = Inr d' \<Longrightarrow> users d' = users d"
  "insert_yggdrasil_token r10 d = Inr d' \<Longrightarrow> users d' = users d"
  "upsert_presence r3 f d = Inr d' \<Longrightarrow> users d' = users d"
  by (auto simp: insert_defs upsert_presence_def Let_def split: option.splits if_splits)

lemma accept_internal_tx_users [row_simps]:
  "accept_internal_tx env m rid d = Inr (a, b, d') \<Longrightarrow> users d' = users d"
  by (auto simp: accept_internal_tx_def befriend_def Let_def row_simps split: sum.splits option.splits if_splits prod.splits)

lemma close_world_cleanup_users [row_simps]:
  "close_world_cleanup env w h d = Inr (x, d') \<Longrightarrow> users d' = users d"
  by (auto simp: close_world_cleanup_def leave_world_def close_relays_def Let_def row_simps split: sum.splits option.splits if_splits prod.splits)

lemma update_world_session_users [row_simps]:
  "update_world_session w f d = Inr d' \<Longrightarrow> users d' = users d"
  by (auto simp: update_world_session_def Let_def row_simps split: sum.splits option.splits if_splits prod.splits)

lemma issue_ticket_tx_users [row_simps]:
  "issue_ticket_and_relay_tx env cfg g h w d = Inr (t, d') \<Longrightarrow> users d' = users d"
  by (auto simp: issue_ticket_and_relay_tx_def Let_def row_simps split: sum.splits option.splits if_splits prod.splits)

lemma worlds_update_tx_users [row_simps]:
  "worlds_update_tx env w n st p d = Inr (x, d') \<Longrightarrow> users d' = users d"
  by (auto simp: worlds_update_tx_def Let_def row_simps split: sum.splits option.splits if_splits prod.splits)

lemma join_accept_tx_users [row_simps]:
  "join_accept_tx env cfg u rid d = Inr (a, t, d') \<Longrightarrow> users d' = users d"
  by (auto simp: join_accept_tx_def Let_def row_simps split: sum.splits option.splits if_splits prod.splits)

lemma invites_accept_tx_users [row_simps]:
  "invites_accept_tx env cfg u iid d = Inr (b, t, d') \<Longrightarrow> users d' = users d"
  by (auto simp: invites_accept_tx_def Let_def row_simps split: sum.splits option.splits if_splits prod.splits)

lemma fold_announce_users [row_simps]:
  "users (st_db (fold (announce_policy w p) gs s)) = users (st_db s)"
  by (induction gs arbitrary: s) (simp_all add: announce_policy_def)

text \<open>
  The table of accounts read off a branch: it is pulled through every case distinction, whose branches
  then agree.
\<close>

lemma users_branches:
  "users (st_db (snd (if b then x else y))) = (if b then users (st_db (snd x)) else users (st_db (snd y)))"
  "users (st_db (snd (case q of None \<Rightarrow> x | Some v \<Rightarrow> f v))) =
     (case q of None \<Rightarrow> users (st_db (snd x)) | Some v \<Rightarrow> users (st_db (snd (f v))))"
  "users (st_db (snd (case r of Inl e \<Rightarrow> g e | Inr w \<Rightarrow> h w))) =
     (case r of Inl e \<Rightarrow> users (st_db (snd (g e))) | Inr w \<Rightarrow> users (st_db (snd (h w))))"
  "users (st_db (snd (case p of (a, c) \<Rightarrow> k a c))) = (case p of (a, c) \<Rightarrow> users (st_db (snd (k a c))))"
  by (simp_all split: option.split sum.split prod.split)

lemma constant_branches:
  "(case q of None \<Rightarrow> z | Some v \<Rightarrow> z) = z" "(case r of Inl e \<Rightarrow> z | Inr w \<Rightarrow> z) = z" "(case p of (a, c) \<Rightarrow> z) = z"
  by (simp_all split: option.split sum.split prod.split)

lemmas same_users = users_branches constant_branches Let_def

lemma accept_internal_users [row_simps]: "users (st_db (snd (accept_internal env m x s))) = users (st_db s)"
  by (simp add: accept_internal_def Let_def row_simps split: sum.split option.split prod.split)

lemma create_request_users [row_simps]: "users (st_db (snd (create_request env u x s))) = users (st_db s)"
  by (simp add: create_request_def same_users row_simps cong: option.case_cong sum.case_cong prod.case_cong if_cong)

lemma friends_decline_users [row_simps]: "users (st_db (snd (friends_decline env u x s))) = users (st_db s)"
  by (simp add: friends_decline_def friends_decline_commit_def Let_def row_simps split: sum.split option.split prod.split)

lemma remove_friend_users [row_simps]: "users (st_db (snd (remove_friend u x s))) = users (st_db s)"
  by (simp add: remove_friend_def Let_def row_simps split: sum.split option.split prod.split)

lemma heartbeat_users [row_simps]: "users (st_db (snd (heartbeat env cfg u s))) = users (st_db s)"
  by (simp add: heartbeat_def same_users row_simps cong: option.case_cong sum.case_cong prod.case_cong if_cong)

lemma set_status_users [row_simps]: "users (st_db (snd (set_status env u st w s))) = users (st_db s)"
  by (simp add: set_status_def same_users row_simps cong: option.case_cong sum.case_cong prod.case_cong if_cong)

lemma mark_online_users [row_simps]: "users (st_db (snd (mark_online env x s))) = users (st_db s)"
  by (simp add: mark_online_def Let_def row_simps split: sum.split option.split prod.split)

lemma mark_offline_users [row_simps]: "users (st_db (snd (mark_offline env x s))) = users (st_db s)"
  by (simp add: mark_offline_def Let_def row_simps split: sum.split option.split prod.split)

lemma worlds_create_users [row_simps]: "users (st_db (snd (worlds_create env cfg u n s))) = users (st_db s)"
  by (simp add: worlds_create_def same_users row_simps cong: option.case_cong sum.case_cong prod.case_cong if_cong)

lemma worlds_close_users [row_simps]: "users (st_db (snd (worlds_close env u w s))) = users (st_db s)"
  by (simp add: worlds_close_def Let_def row_simps split: sum.split option.split prod.split)

lemma worlds_update_users [row_simps]: "users (st_db (snd (worlds_update env cfg u w n st p s))) = users (st_db s)"
  by (simp add: worlds_update_def Let_def row_simps split: sum.split option.split prod.split)

lemma issue_ticket_users [row_simps]: "users (st_db (snd (issue_ticket_and_relay env cfg g h w s))) = users (st_db s)"
  by (simp add: issue_ticket_and_relay_def count_ticket_def Let_def row_simps split: sum.split option.split prod.split)

lemma create_join_ticket_users [row_simps]:
  "users (st_db (snd (create_join_ticket env cfg u w s))) = users (st_db s)"
proof -
  have "users (st_db s1) = users (st_db s)"
    if "issue_ticket_and_relay env cfg g h w s = (r, s1)" for g h r s1
    using issue_ticket_users [of env cfg g h w s] that by simp
  then show ?thesis
    by (simp add: create_join_ticket_def Let_def split: sum.split prod.split)
qed

lemma create_join_request_users [row_simps]: "users (st_db (snd (create_join_request env cfg u w s))) = users (st_db s)"
  by (simp add: create_join_request_def expire_join_requests_def same_users row_simps cong: option.case_cong sum.case_cong prod.case_cong if_cong)

lemma join_accept_users [row_simps]: "users (st_db (snd (join_accept env cfg u x s))) = users (st_db s)"
  by (simp add: join_accept_def count_ticket_def Let_def row_simps split: sum.split option.split prod.split)

lemma join_decline_users [row_simps]: "users (st_db (snd (join_decline env u x s))) = users (st_db s)"
  by (simp add: join_decline_def same_users row_simps cong: option.case_cong sum.case_cong prod.case_cong if_cong)

lemma invites_create_users [row_simps]: "users (st_db (snd (invites_create env cfg u w x s))) = users (st_db s)"
  by (simp add: invites_create_def expire_invites_def same_users row_simps cong: option.case_cong sum.case_cong prod.case_cong if_cong)

lemma invites_accept_users [row_simps]: "users (st_db (snd (invites_accept env cfg u x s))) = users (st_db s)"
  by (simp add: invites_accept_def count_ticket_def Let_def row_simps split: sum.split option.split prod.split)

lemma invites_decline_users [row_simps]: "users (st_db (snd (invites_decline env u x s))) = users (st_db s)"
  by (simp add: invites_decline_def same_users row_simps cong: option.case_cong sum.case_cong prod.case_cong if_cong)

lemma invites_approve_users [row_simps]: "users (st_db (snd (invites_approve env u x s))) = users (st_db s)"
  by (simp add: invites_approve_def same_users row_simps cong: option.case_cong sum.case_cong prod.case_cong if_cong)

lemma invites_revoke_users [row_simps]: "users (st_db (snd (invites_revoke env u x s))) = users (st_db s)"
  by (simp add: invites_revoke_def same_users row_simps cong: option.case_cong sum.case_cong prod.case_cong if_cong)

text \<open>
  The rights of the accounts: nobody but an administrator raises or lowers them, and an account that
  appears has none.
\<close>

definition rights_kept :: "db \<Rightarrow> db \<Rightarrow> bool" where
  "rights_kept d d' \<longleftrightarrow> list_all (\<lambda>v. case find_user d (u_id v) of
       Some u \<Rightarrow> u_is_admin v = u_is_admin u \<and> u_blocked v = u_blocked u
     | None \<Rightarrow> \<not> u_is_admin v) (users d')"

lemma rights_kept_same: "db_wf d \<Longrightarrow> users d' = users d \<Longrightarrow> rights_kept d d'"
  by (simp add: rights_kept_def list_all_iff find_user_unique)

lemma rights_kept_update:
  assumes "update_user x f d = Inr d'" "db_wf d"
    and "\<And>u. u_id (f u) = u_id u \<and> u_is_admin (f u) = u_is_admin u \<and> u_blocked (f u) = u_blocked u"
  shows "rights_kept d d'"
proof (cases "find_user d x")
  case None
  with assms show ?thesis
    by (auto simp: update_user_def find_user_def intro: rights_kept_same)
next
  case (Some u)
  have "users d' = sql_update (\<lambda>v. u_id v = x) f (users d)"
    using update_user_Inr(1) [OF assms(1) Some] by simp
  with assms(2,3) show ?thesis
    by (auto simp: rights_kept_def list_all_iff set_sql_update find_user_unique)
qed

lemma rights_kept_insert:
  assumes "insert_user r d = Inr d'" "db_wf d" "\<not> u_is_admin r"
  shows "rights_kept d d'"
proof -
  have d': "d' = d\<lparr>users := users d @ [r]\<rparr>" and "\<not> unique_violation always u_id r (users d)"
    using assms(1) by (auto simp: insert_user_def users_violation_def split: if_splits)
  then have "find_user d (u_id r) = None"
    by (auto simp: find_user_def sql_find_None_iff unique_violation_def sql_exists_iff)
  with assms(2,3) show ?thesis
    by (auto simp: rights_kept_def d' list_all_iff find_user_unique)
qed

lemma rights_kept_cong: "rights_kept d d1 \<Longrightarrow> users d2 = users d1 \<Longrightarrow> rights_kept d d2"
  by (simp add: rights_kept_def)

section \<open>The statements that do touch accounts\<close>

lemma assign_rights:
  "assign_or_reconcile_profile_uuid cr env k u d = Inr (u', d') \<Longrightarrow> db_wf d \<Longrightarrow> rights_kept d d'"
  by (auto simp: assign_or_reconcile_profile_uuid_def update_returning_def
      intro: rights_kept_same rights_kept_update
      split: sum.splits option.splits if_splits)

lemma authenticate_rights:
  "authenticate_password cr env k n p d = Inr (u, d') \<Longrightarrow> db_wf d \<Longrightarrow> rights_kept d d'"
  by (auto simp: authenticate_password_def intro: assign_rights split: option.splits if_splits)

lemma register_rights:
  "register_user cr env k n e p d = Inr (u, d') \<Longrightarrow> db_wf d \<Longrightarrow> rights_kept d d'"
  by (auto simp: register_user_def Let_def registered_row_def default_user_def
      intro: rights_kept_insert split: sum.splits if_splits)

lemma bootstrap_rights:
  assumes "db_wf (st_db s)"
  shows "rights_kept (st_db s) (st_db (snd (bootstrap env u body s)))"
proof (cases "update_user (u_id u) (bootstrap_user env body) (st_db s)")
  case (Inl e)
  with assms show ?thesis
    by (simp add: bootstrap_def rights_kept_same)
next
  case (Inr d1)
  then have "rights_kept (st_db s) d1"
    using assms by (rule rights_kept_update) (simp add: bootstrap_user_def)
  with Inr assms show ?thesis
    by (auto simp: bootstrap_def Let_def row_simps intro: rights_kept_same elim: rights_kept_cong
        split: option.split sum.split)
qed

section \<open>Sessions, tokens and the sweep\<close>

lemma issue_tokens_users [row_simps]:
  "issue_session env k x ttl d = Inr (a, d') \<Longrightarrow> users d' = users d"
  "issue_yggdrasil_tokens env k x ct ttl n d = Inr (b, d') \<Longrightarrow> users d' = users d"
  by (auto simp: issue_session_def issue_yggdrasil_tokens_def Let_def row_simps split: sum.splits if_splits)

lemma auth_response_users [row_simps]: "users (snd (auth_response env cfg u d)) = users d"
  by (simp add: auth_response_def row_simps split: sum.split prod.split)

lemma revoke_session_users [row_simps]: "users (snd (revoke_session env t d)) = users d"
  by (simp add: revoke_session_def revoke_hash_def)

lemma delete_chunk_users [row_simps]: "users (snd (delete_chunk env n c d)) = users d"
  by (simp add: delete_chunk_def Let_def)

lemma cleanup_users:
  assumes "cleanup_stale_join_state env n d = Some (r, d')" "db_wf d"
  shows "users d' = users d"
proof (cases "in_int4 n")
  case True
  with cleanup_result [OF assms(2), of n env] assms(1) show ?thesis
    by (auto simp: swept_def delete_terminal_def delete_join_tickets_def expire_lapsed_def Let_def)
next
  case False
  with assms show ?thesis
    by (auto simp: cleanup_stale_join_state_def Let_def expire_lapsed_def)
qed

lemma relay_users [row_simps]:
  "users (snd (relay_ws env h t q r d)) = users d"
  "users (snd (try_admit_player w d)) = users d"
  "users (release_player w d) = users d"
  "users (mark_relay_active r d) = users d"
  "users (mark_relay_closed env r d) = users d"
  by (auto simp: relay_ws_def validate_guest_ticket_def consume_ticket_def try_admit_player_def release_player_def
      mark_relay_active_def mark_relay_closed_def Let_def split: option.split sum.split prod.split)

lemma signaling_users [row_simps]:
  "users (st_db (snd (signaling_connect env x s))) = users (st_db s)"
  "users (st_db (signaling_disconnect env x c s)) = users (st_db s)"
  by (simp_all add: signaling_connect_def signaling_disconnect_def Let_def row_simps split: prod.split)

section \<open>The steps\<close>

lemma network_rights:
  assumes "db_wf (st_db s)"
  shows "rights_kept (st_db s) (st_db (network_effect env cfg u c s))"
proof (cases "\<exists>body. c = Bootstrap body")
  case True
  with assms show ?thesis by (auto simp: bootstrap_rights)
next
  case False
  then have "users (st_db (network_effect env cfg u c s)) = users (st_db s)"
    by (cases c) (simp_all add: row_simps friends_accept_def)
  with assms show ?thesis by (rule rights_kept_same)
qed

lemma account_rights:
  assumes "db_wf (st_db s)"
  shows "rights_kept (st_db s) (st_db (snd (account_login cr env cfg n p s)))"
    and "rights_kept (st_db s) (st_db (snd (account_register cr env cfg n e p s)))"
    and "rights_kept (st_db s) (st_db (snd (account_refresh env cfg rq s)))"
    and "rights_kept (st_db s) (st_db (snd (account_logout env cfg rq s)))"
    and "rights_kept (st_db s) (st_db (snd (admin_login cr env cfg n p s)))"
    and "rights_kept (st_db s) (st_db (snd (admin_logout env cfg rq s)))"
proof -
  have login: "rights_kept d d1" "users (snd (auth_response env cfg u d1)) = users d1"
    if "authenticate_password cr env 0 n p d = Inr (u, d1)" "db_wf d" for d u d1
    using that by (auto simp: row_simps intro: authenticate_rights)
  show "rights_kept (st_db s) (st_db (snd (account_login cr env cfg n p s)))"
    using assms by (auto simp: account_login_def Let_def split_beta
        intro: rights_kept_same rights_kept_cong [OF login(1) login(2)] split: sum.split)
  show "rights_kept (st_db s) (st_db (snd (account_register cr env cfg n e p s)))"
    using assms by (auto simp: account_register_def Let_def split_beta row_simps
        intro: rights_kept_same rights_kept_cong [OF register_rights] split: sum.split)
  show "rights_kept (st_db s) (st_db (snd (account_refresh env cfg rq s)))"
    using assms by (auto simp: account_refresh_def Let_def split_beta row_simps
        intro: rights_kept_same split: sum.split option.split)
  show "rights_kept (st_db s) (st_db (snd (account_logout env cfg rq s)))"
    using assms by (auto simp: account_logout_def row_simps intro: rights_kept_same split: option.split)
  show "rights_kept (st_db s) (st_db (snd (admin_login cr env cfg n p s)))"
    using assms by (auto simp: admin_login_def row_simps
        intro: rights_kept_same authenticate_rights rights_kept_cong [OF authenticate_rights]
        split: sum.split)
  show "rights_kept (st_db s) (st_db (snd (admin_logout env cfg rq s)))"
    using assms by (auto simp: admin_logout_def row_simps intro: rights_kept_same split: option.split)
qed

lemma open_rights:
  assumes "db_wf (st_db s)"
  shows "rights_kept (st_db s) (st_db (open_effect cr env cfg c s))"
proof (cases c)
  case (Sweep n)
  with assms show ?thesis
    by (auto intro: rights_kept_same dest: cleanup_users split: option.split)
qed (use assms in \<open>simp_all add: account_rights rights_kept_same row_simps\<close>)


definition sample_second :: app_state where
  "sample_second = open_effect varied_crypt (sample_env\<lparr>e_uuid := (\<lambda>n. of_nat (300 + n))\<rparr>) sample_cfg
      (Register ''mal'' ''m@x.io'' ''pw'') sample_registered"


end
