(* ===== verification/Protocol_Payload.thy ===== *)
theory Protocol_Payload
  imports Protocol_Uuid
begin

text \<open>
  \<^verbatim>\<open>yggdrasil-protocol/src/payload.rs\<close>: the textures property of a profile and the normal form of a
  base64 text. \<^verbatim>\<open>serde_json\<close> and the base64 encoder are the parameter \<open>encode\<close>, which gives the
  base64 of the compact JSON of a payload (\<open>None\<close> when serialising fails).
\<close>

section \<open>The textures payload\<close>

datatype skin_variant = Classic | Slim

record texture_metadata =
  tm_model :: string

record texture_entry =
  te_url :: string
  te_metadata :: "texture_metadata option"

record textures_value =
  tv_skin :: "texture_entry option"
  tv_cape :: "texture_entry option"

record textures_payload =
  tp_timestamp :: int
  tp_profile_id :: string
  tp_profile_name :: string
  tp_textures :: textures_value

datatype payload_error = InvalidProfileId | EmptyProfileName

record skin_input =
  si_url :: string
  si_variant :: skin_variant

record cape_input =
  ci_url :: string

record textures_input =
  ti_profile_id :: string
  ti_profile_name :: string
  ti_timestamp :: int
  ti_skin :: "skin_input option"
  ti_cape :: "cape_input option"

definition skin_entry :: "skin_input \<Rightarrow> texture_entry" where
  "skin_entry s =
     \<lparr>te_url = si_url s,
      te_metadata = (case si_variant s of Slim \<Rightarrow> Some \<lparr>tm_model = ''slim''\<rparr> | Classic \<Rightarrow> None)\<rparr>"

definition cape_entry :: "cape_input \<Rightarrow> texture_entry" where
  "cape_entry c = \<lparr>te_url = ci_url c, te_metadata = None\<rparr>"

definition build_textures_payload :: "textures_input \<Rightarrow> payload_error + textures_payload" where
  "build_textures_payload input =
     (if \<not> is_uuid_undashed (ti_profile_id input) then Inl InvalidProfileId
      else if ti_profile_name input = [] then Inl EmptyProfileName
      else Inr
        \<lparr>tp_timestamp = ti_timestamp input,
         tp_profile_id = to_ascii_lowercase (ti_profile_id input),
         tp_profile_name = ti_profile_name input,
         tp_textures = \<lparr>tv_skin = map_option skin_entry (ti_skin input),
                        tv_cape = map_option cape_entry (ti_cape input)\<rparr>\<rparr>)"

datatype build_value_error = PayloadFailed payload_error | JsonFailed

definition build_textures_value ::
  "(textures_payload \<Rightarrow> string option) \<Rightarrow> textures_input \<Rightarrow> build_value_error + string" where
  "build_textures_value encode input =
     (case build_textures_payload input of
        Inl e \<Rightarrow> Inl (PayloadFailed e)
      | Inr payload \<Rightarrow> (case encode payload of None \<Rightarrow> Inl JsonFailed | Some value \<Rightarrow> Inr value))"

section \<open>Normal form of base64\<close>

datatype base64_error = Base64Empty | Base64Whitespace | Base64BadLength | Base64BadAlphabet

definition base64_char :: "char \<Rightarrow> bool" where
  "base64_char c \<longleftrightarrow> is_upper c \<or> is_lower c \<or> is_digit c \<or> c = CHR ''+'' \<or> c = CHR ''/''"

text \<open>The loop over \<^verbatim>\<open>char_indices()\<close> from byte \<open>i\<close> on; subtraction of naturals saturates.\<close>

fun base64_scan :: "nat \<Rightarrow> nat \<Rightarrow> bool \<Rightarrow> nat \<Rightarrow> string \<Rightarrow> base64_error + unit" where
  "base64_scan n i seen_pad pad_count [] = Inr ()"
| "base64_scan n i seen_pad pad_count (ch # rest) =
     (if base64_char ch then
        (if seen_pad then Inl Base64BadAlphabet else base64_scan n (Suc i) seen_pad pad_count rest)
      else if ch = CHR ''='' then
        (if pad_count + 1 > 2 \<or> i < n - 2 then Inl Base64BadAlphabet
         else base64_scan n (Suc i) True (pad_count + 1) rest)
      else Inl Base64BadAlphabet)"

definition normalize_base64 :: "string \<Rightarrow> base64_error + string" where
  "normalize_base64 encoded =
     (if encoded = [] then Inl Base64Empty
      else if trim encoded \<noteq> encoded then Inl Base64Whitespace
      else if length encoded mod 4 = 1 then Inl Base64BadLength
      else
        (case base64_scan (length encoded) 0 False 0 encoded of
           Inl e \<Rightarrow> Inl e
         | Inr _ \<Rightarrow>
             let r = length encoded mod 4; pad = (if r = 0 then 0 else 4 - r) in
             Inr (encoded @ replicate pad (CHR ''=''))))"

section \<open>What the scan accepts\<close>

lemma base64_char_not_pad [simp]: "\<not> base64_char (CHR ''='')"
  by (simp add: base64_char_def is_upper_def is_lower_def is_digit_def)

lemma base64_char_not_whitespace: "base64_char c \<Longrightarrow> \<not> is_whitespace c"
  by (auto simp: base64_char_def is_upper_def is_lower_def is_digit_def is_whitespace_def)

lemma scan_padding:
  assumes "i + length cs = n" "n - 2 \<le> i" "k + length cs \<le> 2"
  shows "base64_scan n i True k cs = Inr () \<longleftrightarrow> cs = replicate (length cs) (CHR ''='')"
  using assms by (induction n i True k cs rule: base64_scan.induct) auto

definition base64_shape :: "string \<Rightarrow> bool" where
  "base64_shape s \<longleftrightarrow>
     (\<exists>body k. s = body @ replicate k (CHR ''='') \<and> list_all base64_char body \<and> k \<le> 2)"

lemma base64_shape_sym: "base64_char c \<Longrightarrow> base64_shape (c # cs) = base64_shape cs"
proof
  assume c: "base64_char c" and "base64_shape (c # cs)"
  then obtain body k where "c # cs = body @ replicate k (CHR ''='')" "list_all base64_char body" "k \<le> 2"
    by (auto simp: base64_shape_def)
  moreover from this c obtain rest where "body = c # rest"
    by (cases body) (auto simp: Cons_replicate_eq)
  ultimately have "cs = rest @ replicate k (CHR ''='') \<and> list_all base64_char rest \<and> k \<le> 2"
    by simp
  then show "base64_shape cs" unfolding base64_shape_def by blast
next
  assume c: "base64_char c" and "base64_shape cs"
  then obtain body k where "cs = body @ replicate k (CHR ''='')" "list_all base64_char body" "k \<le> 2"
    by (auto simp: base64_shape_def)
  with c show "base64_shape (c # cs)"
    unfolding base64_shape_def by (intro exI [of _ "c # body"] exI [of _ k]) simp
qed

lemma base64_shape_pad:
  "base64_shape (CHR ''='' # cs) \<longleftrightarrow> length cs \<le> 1 \<and> cs = replicate (length cs) (CHR ''='')"
  by (auto simp: base64_shape_def Cons_eq_append_conv Cons_replicate_eq
      intro!: exI [of _ "Suc (length cs)"])

lemma base64_scan_iff:
  "base64_scan (i + length cs) i False 0 cs = Inr () \<longleftrightarrow> base64_shape cs"
proof (induction cs arbitrary: i)
  case (Cons c cs)
  consider (sym) "base64_char c" | (pad) "c = CHR ''=''" | (bad) "\<not> base64_char c" "c \<noteq> CHR ''=''"
    by blast
  then show ?case
  proof cases
    case sym
    with Cons.IH [of "Suc i"] show ?thesis
      by (auto simp: base64_shape_sym)
  next
    case pad
    then show ?thesis
      using scan_padding [of "Suc i" cs "i + Suc (length cs)" 1] by (auto simp: base64_shape_pad)
  next
    case bad
    then show ?thesis by (auto simp: base64_shape_def Cons_eq_append_conv Cons_replicate_eq)
  qed
qed (simp add: base64_shape_def)

lemma base64_shape_trim [simp]:
  assumes "base64_shape s"
  shows "trim s = s"
proof -
  have "\<not> is_whitespace c" if "c \<in> set s" for c
    using assms that base64_char_not_whitespace
    by (auto simp: base64_shape_def list_all_iff is_whitespace_def)
  then have "trimmed s" by (auto simp: trimmed_def)
  then show ?thesis by (rule trim_trimmed)
qed

text \<open>
  Padding is counted from the length of the text as it is, so a text that already carries one pad
  character of two is given too many.
\<close>

lemma normalize_base64_iff:
  "normalize_base64 s = Inr t \<longleftrightarrow>
    s \<noteq> [] \<and> length s mod 4 \<noteq> 1 \<and> base64_shape s
    \<and> t = s @ replicate (if length s mod 4 = 0 then 0 else 4 - length s mod 4) (CHR ''='')"
  using base64_scan_iff [of 0 s]
  by (auto simp: normalize_base64_def Let_def split: sum.splits)

lemma normalize_over_pads:
  "normalize_base64 ''ABCDE='' = Inr ''ABCDE===''"
  by code_simp

section \<open>Properties\<close>

text \<open>
  Stripping the padding of a base64 text whose length is a multiple of four and normalising the
  rest gives the text back, and normalising the text itself leaves it alone.
\<close>

theorem normalize_unpadded:
  assumes "s = body @ replicate k (CHR ''='')" "list_all base64_char body" "k \<le> 2"
    and "4 dvd length s" "body \<noteq> []"
  shows "normalize_base64 body = Inr s \<and> normalize_base64 s = Inr s"
proof -
  have len: "(length body + k) mod 4 = 0" using assms(1,4) by simp
  have "length body mod 4 \<noteq> 1 \<and> k = (if length body mod 4 = 0 then 0 else 4 - length body mod 4)"
    using len assms(3) by presburger
  moreover have "base64_shape body"
    using assms(2) unfolding base64_shape_def by (intro exI [of _ body] exI [of _ 0]) simp
  moreover have "base64_shape s"
    using assms(1-3) unfolding base64_shape_def by blast
  ultimately show ?thesis
    using assms by (auto simp: normalize_base64_iff)
qed

text \<open>
  The textures payload is built exactly when the profile id is an undashed UUID and the name is
  not empty. Its profile id is the canonical one; it has a skin or a cape entry exactly when the
  input has, with the same URL; the model is named exactly for a slim skin, and never for a cape.
\<close>

theorem build_textures_payload_iff:
  "build_textures_payload input = Inr p \<longleftrightarrow>
    is_uuid_undashed (ti_profile_id input) \<and> ti_profile_name input \<noteq> []
    \<and> undash_uuid (ti_profile_id input) = Inr (tp_profile_id p)
    \<and> tp_profile_name p = ti_profile_name input \<and> tp_timestamp p = ti_timestamp input
    \<and> map_option te_url (tv_skin (tp_textures p)) = map_option si_url (ti_skin input)
    \<and> map_option te_url (tv_cape (tp_textures p)) = map_option ci_url (ti_cape input)
    \<and> Option.bind (tv_cape (tp_textures p)) te_metadata = None
    \<and> map_option tm_model (Option.bind (tv_skin (tp_textures p)) te_metadata) =
        (if map_option si_variant (ti_skin input) = Some Slim then Some ''slim'' else None)"
  (is "?L \<longleftrightarrow> ?R")
proof
  assume ?L
  then show ?R
    by (cases "ti_skin input"; cases "ti_cape input")
      (auto simp: build_textures_payload_def undash_uuid_def skin_entry_def cape_entry_def
        split: if_splits skin_variant.splits)
next
  assume ?R
  then show ?L
    by (cases "ti_skin input"; cases "ti_cape input"; cases "tv_skin (tp_textures p)";
        cases "tv_cape (tp_textures p)"; cases "map_option si_variant (ti_skin input)")
      (auto simp: build_textures_payload_def undash_uuid_def skin_entry_def cape_entry_def
        split: if_splits skin_variant.splits)
qed

end
