(* ===== verification/Profiles.thy ===== *)
theory Profiles
  imports Protocol_Payload Identity
begin

text \<open>
  \<^verbatim>\<open>yggdrasil/src/error.rs\<close> and \<^verbatim>\<open>yggdrasil/src/profile.rs\<close>: the error answers of the Mojang
  endpoints and the assembly of a game profile from the texture rows of an account (table
  \<^verbatim>\<open>user_textures\<close> of migration 0017). Parameters: the base64 of the JSON payload, and the
  RSA signature of a value, which may fail.
\<close>

section \<open>Errors\<close>

datatype ygg_error = YggBadRequest string | YggForbidden | YggNotFound | YggInternal

fun ygg_error_parts :: "ygg_error \<Rightarrow> nat \<times> string \<times> string" where
  "ygg_error_parts (YggBadRequest msg) = (400, ''IllegalArgumentException'', msg)"
| "ygg_error_parts YggForbidden =
     (403, ''ForbiddenOperationException'', ''Invalid credentials. Invalid username or password.'')"
| "ygg_error_parts YggNotFound =
     (404, ''NotFoundException'', ''The requested resource was not found.'')"
| "ygg_error_parts YggInternal = (500, ''Exception'', ''An internal error occurred.'')"

fun ygg_from :: "app_error \<Rightarrow> ygg_error" where
  "ygg_from (BadRequest _) = YggBadRequest ''Invalid request.''"
| "ygg_from Unauthorized = YggForbidden"
| "ygg_from Forbidden = YggForbidden"
| "ygg_from (NotFound _) = YggNotFound"
| "ygg_from (Conflict _) = YggBadRequest ''Conflict.''"
| "ygg_from TooManyRequests = YggForbidden"
| "ygg_from (Database _) = YggInternal"
| "ygg_from (Internal _) = YggInternal"

type_synonym 'a ygg_result = "ygg_error + 'a"

text \<open>\<^verbatim>\<open>?\<close> on an \<^verbatim>\<open>AppResult\<close> inside a handler that answers \<^verbatim>\<open>YggResult\<close>.\<close>

definition ygg_of :: "'a app_result \<Rightarrow> 'a ygg_result" where
  "ygg_of r = (case r of Inl e \<Rightarrow> Inl (ygg_from e) | Inr v \<Rightarrow> Inr v)"

section \<open>Textures\<close>

record user_texture =
  ut_user_id :: uuid
  ut_kind :: string
  ut_profile_uuid :: string
  ut_username :: string
  ut_file_path :: string
  ut_file_url :: string
  ut_file_size :: int
  ut_variant :: "string option"
  ut_updated_at :: timestamp

record user_textures =
  lt_skin_variant :: "string option"
  lt_has_cape :: bool

definition no_textures :: user_textures where
  "no_textures = \<lparr>lt_skin_variant = None, lt_has_cape = False\<rparr>"

definition add_texture :: "user_texture \<Rightarrow> user_textures \<Rightarrow> user_textures" where
  "add_texture r t =
     (if ut_kind r = ''skin'' then t\<lparr>lt_skin_variant := Some (coalesce_or (ut_variant r) [])\<rparr>
      else if ut_kind r = ''cape'' then t\<lparr>lt_has_cape := True\<rparr>
      else t)"

definition load_textures :: "user_texture list \<Rightarrow> uuid \<Rightarrow> user_textures" where
  "load_textures rows user_id =
     fold add_texture (filter (\<lambda>r. ut_user_id r = user_id) rows) no_textures"

definition texture_url :: "string \<Rightarrow> string \<Rightarrow> string" where
  "texture_url profile_uuid kind = ''/textures/'' @ profile_uuid @ ''/'' @ kind"

definition is_absolute :: "string \<Rightarrow> bool" where
  "is_absolute url \<longleftrightarrow> starts_with ''http://'' url \<or> starts_with ''https://'' url"

definition absolutize :: "string \<Rightarrow> string \<Rightarrow> string" where
  "absolutize public_base url =
     (if is_absolute url then url
      else
        let base = trim_end_matches (CHR ''/'') public_base in
        if starts_with ''/'' url then base @ url else base @ ''/'' @ url)"

definition texture_public_url :: "string \<Rightarrow> string \<Rightarrow> string \<Rightarrow> string" where
  "texture_public_url public_base profile_uuid kind =
     absolutize public_base (texture_url profile_uuid kind)"

definition parse_variant :: "string \<Rightarrow> skin_variant" where
  "parse_variant raw = (if eq_ignore_ascii_case raw ''SLIM'' then Slim else Classic)"

section \<open>Profiles\<close>

record profile_property =
  pp_name :: string
  pp_value :: string
  pp_signature :: "string option"

record game_profile =
  gp_id :: string
  gp_name :: string
  gp_properties :: "profile_property list"

record profile_identity =
  pi_user_id :: uuid
  pi_profile_uuid :: string
  pi_username :: string

definition textures_input_of ::
  "env \<Rightarrow> string \<Rightarrow> profile_identity \<Rightarrow> user_textures \<Rightarrow> textures_input" where
  "textures_input_of env public_base identity t =
     \<lparr>ti_profile_id = pi_profile_uuid identity, ti_profile_name = pi_username identity,
      ti_timestamp = e_utc env div 1000,
      ti_skin = map_option (\<lambda>v. \<lparr>si_url = texture_public_url public_base (pi_profile_uuid identity) ''skin'',
                                 si_variant = parse_variant v\<rparr>) (lt_skin_variant t),
      ti_cape = (if lt_has_cape t
                 then Some \<lparr>ci_url = texture_public_url public_base (pi_profile_uuid identity) ''cape''\<rparr>
                 else None)\<rparr>"

text \<open>\<open>signing\<close> is the signer of the request, \<open>None\<close> on the unsigned path.\<close>

definition build_profile ::
  "(textures_payload \<Rightarrow> string option) \<Rightarrow> env \<Rightarrow> user_texture list \<Rightarrow> string \<Rightarrow> profile_identity
    \<Rightarrow> (string \<Rightarrow> string option) option \<Rightarrow> game_profile ygg_result" where
  "build_profile encode env rows public_base identity signing =
     (let t = load_textures rows (pi_user_id identity);
          profile = (\<lambda>ps. \<lparr>gp_id = pi_profile_uuid identity, gp_name = pi_username identity,
                          gp_properties = ps\<rparr>) in
      if lt_skin_variant t \<noteq> None \<or> lt_has_cape t then
        (case build_textures_value encode (textures_input_of env public_base identity t) of
           Inl _ \<Rightarrow> Inl YggInternal
         | Inr value \<Rightarrow>
             (case signing of
                None \<Rightarrow> Inr (profile [\<lparr>pp_name = ''textures'', pp_value = value, pp_signature = None\<rparr>])
              | Some sign \<Rightarrow>
                  (case sign value of
                     None \<Rightarrow> Inl YggInternal
                   | Some signature \<Rightarrow>
                       Inr (profile [\<lparr>pp_name = ''textures'', pp_value = value,
                                     pp_signature = Some signature\<rparr>]))))
      else Inr (profile []))"

section \<open>Lemmas\<close>

lemma load_textures_simps:
  "lt_skin_variant (load_textures rows uid) \<noteq> None \<longleftrightarrow>
     (\<exists>r \<in> set rows. ut_user_id r = uid \<and> ut_kind r = ''skin'')"
  "lt_has_cape (load_textures rows uid) \<longleftrightarrow>
     (\<exists>r \<in> set rows. ut_user_id r = uid \<and> ut_kind r = ''cape'')"
proof -
  have "(lt_skin_variant (fold add_texture rs t) \<noteq> None \<longleftrightarrow>
          lt_skin_variant t \<noteq> None \<or> (\<exists>r \<in> set rs. ut_kind r = ''skin''))
      \<and> (lt_has_cape (fold add_texture rs t) \<longleftrightarrow>
          lt_has_cape t \<or> (\<exists>r \<in> set rs. ut_kind r = ''cape''))" for rs t
    by (induction rs arbitrary: t) (auto simp: add_texture_def)
  then show "lt_skin_variant (load_textures rows uid) \<noteq> None \<longleftrightarrow>
     (\<exists>r \<in> set rows. ut_user_id r = uid \<and> ut_kind r = ''skin'')"
    "lt_has_cape (load_textures rows uid) \<longleftrightarrow>
     (\<exists>r \<in> set rows. ut_user_id r = uid \<and> ut_kind r = ''cape'')"
    by (auto simp: load_textures_def no_textures_def)
qed

lemma build_profile_identity:
  "build_profile encode env rows base identity signing = Inr p \<Longrightarrow>
    gp_id p = pi_profile_uuid identity \<and> gp_name p = pi_username identity"
  by (auto simp: build_profile_def Let_def split: if_splits sum.splits option.splits)

text \<open>Signing failed, encoding failed, or the stored profile id is not an undashed UUID.\<close>

lemma build_profile_Inl:
  "build_profile encode env rows base identity signing = Inl e \<Longrightarrow> e = YggInternal"
  by (auto simp: build_profile_def Let_def split: if_splits sum.splits option.splits)

end
