(* ===== verification/Simulation.thy ===== *)
theory Simulation
  imports Prelude
begin

text \<open>
  Forward simulation between an implementation and its abstract specification, both driven by the
  same timed operations: what the rate limiter and the join-session store owe their
  specifications. \<open>R t c a\<close> relates the two states once the clock has reached \<open>t\<close>; time never runs
  backwards.
\<close>

text \<open>The answers of a sequence of operations, and the state they leave.\<close>

fun answers :: "('op \<Rightarrow> 's \<Rightarrow> 'x \<times> 's) \<Rightarrow> 'op list \<Rightarrow> 's \<Rightarrow> 'x list \<times> 's" where
  "answers step [] s = ([], s)"
| "answers step (op # ops) s =
     (let (r, s1) = step op s; (rs, s2) = answers step ops s1 in (r # rs, s2))"

locale timed_simulation =
  fixes time :: "'op \<Rightarrow> int"
    and ok :: "'op \<Rightarrow> bool"
    and cstep :: "'op \<Rightarrow> 'c \<Rightarrow> 'r \<times> 'c"
    and astep :: "'op \<Rightarrow> 'a \<Rightarrow> 'r \<times> 'a"
    and R :: "int \<Rightarrow> 'c \<Rightarrow> 'a \<Rightarrow> bool"
  assumes step_state:
      "R t c a \<Longrightarrow> t \<le> time op \<Longrightarrow> ok op \<Longrightarrow> R (time op) (snd (cstep op c)) (snd (astep op a))"
    and step_answer:
      "R t c a \<Longrightarrow> t \<le> time op \<Longrightarrow> ok op \<Longrightarrow> fst (cstep op c) = fst (astep op a)"
begin

lemma answers_agree:
  "R t c a \<Longrightarrow> sorted (t # map time ops) \<Longrightarrow> list_all ok ops
    \<Longrightarrow> fst (answers cstep ops c) = fst (answers astep ops a)"
proof (induction ops arbitrary: t c a)
  case (Cons op ops)
  have le: "t \<le> time op" and op: "ok op" using Cons.prems by auto
  have "fst (answers cstep ops (snd (cstep op c))) = fst (answers astep ops (snd (astep op a)))"
    using Cons.prems step_state [OF Cons.prems(1) le op] by (intro Cons.IH [of "time op"]) auto
  with step_answer [OF Cons.prems(1) le op] show ?case
    by (simp add: split_beta Let_def)
qed simp

end

end
