(* ===== verification/Join_Sessions.thy ===== *)
theory Join_Sessions
  imports Database Simulation
begin

text \<open>
  \<^verbatim>\<open>yggdrasil/src/join_sessions.rs\<close>: the rendezvous between a client that announces a join and the
  game server that asks for it. The process-wide hash map is a map from server ids. The
  specification is a log of announcements and claims: a claim is answered by the last event of its
  server id, if that is an announcement whose time has not run out.
\<close>

section \<open>Definitions\<close>

definition JOIN_SESSION_TTL :: duration where
  "JOIN_SESSION_TTL = seconds 30"

record join_session =
  js_user_id :: uuid
  js_ip :: "string option"
  js_expires_at :: timestamp

definition is_expired :: "join_session \<Rightarrow> timestamp \<Rightarrow> bool" where
  "is_expired s now \<longleftrightarrow> js_expires_at s \<le> now"

type_synonym join_store = "string \<rightharpoonup> join_session"

text \<open>\<^verbatim>\<open>map.retain(|_, s| !s.is_expired(now))\<close>\<close>

definition retain_live :: "timestamp \<Rightarrow> join_store \<Rightarrow> join_store" where
  "retain_live now m = (\<lambda>server_id.
     (case m server_id of Some s \<Rightarrow> if \<not> is_expired s now then Some s else None | None \<Rightarrow> None))"

definition join_record ::
  "string \<Rightarrow> uuid \<Rightarrow> string option \<Rightarrow> timestamp \<Rightarrow> join_store \<Rightarrow> join_store" where
  "join_record server_id user_id ip now m =
     (retain_live now m)(server_id \<mapsto>
       \<lparr>js_user_id = user_id, js_ip = ip, js_expires_at = now + JOIN_SESSION_TTL\<rparr>)"

definition join_take :: "string \<Rightarrow> timestamp \<Rightarrow> join_store \<Rightarrow> join_session option \<times> join_store" where
  "join_take server_id now m =
     (let m1 = retain_live now m in
      (case m1 server_id of
         None \<Rightarrow> (None, m1)
       | Some s \<Rightarrow> (if is_expired s now then None else Some s, m1(server_id := None))))"

section \<open>The specification\<close>

datatype join_op =
    Announce string uuid "string option" timestamp
  | Claim string timestamp

fun join_time :: "join_op \<Rightarrow> timestamp" where
  "join_time (Announce _ _ _ now) = now"
| "join_time (Claim _ now) = now"

fun store_step :: "join_op \<Rightarrow> join_store \<Rightarrow> join_session option \<times> join_store" where
  "store_step (Announce server_id user_id ip now) m = (None, join_record server_id user_id ip now m)"
| "store_step (Claim server_id now) m = join_take server_id now m"

text \<open>The log, newest first: \<open>None\<close> marks a successful claim.\<close>

type_synonym join_log = "(string \<times> join_session option) list"

definition unclaimed :: "string \<Rightarrow> timestamp \<Rightarrow> join_log \<Rightarrow> join_session option" where
  "unclaimed server_id now log =
     (case map_of log server_id of
        Some (Some s) \<Rightarrow> if now < js_expires_at s then Some s else None
      | _ \<Rightarrow> None)"

fun log_step :: "join_op \<Rightarrow> join_log \<Rightarrow> join_session option \<times> join_log" where
  "log_step (Announce server_id user_id ip now) log =
     (None, (server_id, Some \<lparr>js_user_id = user_id, js_ip = ip,
                              js_expires_at = now + JOIN_SESSION_TTL\<rparr>) # log)"
| "log_step (Claim server_id now) log =
     (unclaimed server_id now log, (server_id, None) # log)"

section \<open>Refinement\<close>

lemma retain_live_apply:
  "retain_live now m k = (case m k of Some s \<Rightarrow> if js_expires_at s \<le> now then None else Some s | None \<Rightarrow> None)"
  by (simp add: retain_live_def is_expired_def split: option.split)

lemma retain_live_later: "t \<le> now \<Longrightarrow> retain_live now (retain_live t m) = retain_live now m"
  by (rule ext) (auto simp: retain_live_apply split: option.split)

lemma retain_live_idem [simp]: "retain_live now (retain_live now m) = retain_live now m"
  by (rule retain_live_later) simp

definition join_sim :: "timestamp \<Rightarrow> join_store \<Rightarrow> join_log \<Rightarrow> bool" where
  "join_sim t m log \<longleftrightarrow> (\<forall>k. retain_live t m k = unclaimed k t log)"

lemma join_sim_later:
  assumes "join_sim t m log" "t \<le> now"
  shows "retain_live now m k = unclaimed k now log"
proof -
  have "retain_live now m k = retain_live now (retain_live t m) k"
    by (simp add: retain_live_later [OF assms(2)])
  also have "\<dots> = (case unclaimed k t log of
      Some s \<Rightarrow> if js_expires_at s \<le> now then None else Some s | None \<Rightarrow> None)"
    using assms(1) by (simp add: retain_live_apply [of now] join_sim_def)
  also have "\<dots> = unclaimed k now log"
    using assms(2) by (auto simp: unclaimed_def split: option.splits)
  finally show ?thesis .
qed

lemma retain_live_upd [simp]:
  "retain_live now (m(k \<mapsto> s)) =
    (retain_live now m)(k := if js_expires_at s \<le> now then None else Some s)"
  "retain_live now (m(k := None)) = (retain_live now m)(k := None)"
  by (auto simp: retain_live_apply fun_eq_iff)

lemma unclaimed_Cons [simp]:
  "unclaimed k now ((k', e) # log) =
    (if k = k' then (case e of Some s \<Rightarrow> if now < js_expires_at s then Some s else None | None \<Rightarrow> None)
     else unclaimed k now log)"
  by (simp add: unclaimed_def split: option.split)

lemma join_step_state:
  assumes "join_sim t m log" "t \<le> join_time op"
  shows "join_sim (join_time op) (snd (store_step op m)) (snd (log_step op log))"
    and "fst (store_step op m) = fst (log_step op log)"
proof -
  let ?now = "join_time op"
  have live: "\<And>k. retain_live ?now m k = unclaimed k ?now log"
    by (rule join_sim_later [OF assms])
  show "join_sim ?now (snd (store_step op m)) (snd (log_step op log))"
  proof (cases op)
    case (Announce server_id user_id ip now)
    with live show ?thesis
      by (simp add: join_sim_def join_record_def JOIN_SESSION_TTL_def seconds_def)
  next
    case (Claim server_id now)
    then have "snd (join_take server_id now m) = (retain_live now m)(server_id := None)"
      by (auto simp: join_take_def Let_def fun_eq_iff split: option.splits)
    with live Claim show ?thesis
      by (simp add: join_sim_def)
  qed
  have "\<not> is_expired s ?now" if "retain_live ?now m k = Some s" for k s
    using that by (auto simp: retain_live_apply is_expired_def split: option.splits if_splits)
  with live show "fst (store_step op m) = fst (log_step op log)"
    by (cases op) (auto simp: join_take_def Let_def split: option.splits)
qed

interpretation rendezvous: timed_simulation join_time "\<lambda>_. True" store_step log_step join_sim
  by unfold_locales (simp_all add: join_step_state)

section \<open>Properties\<close>

text \<open>
  C15. The rendezvous store answers every sequence of announcements and claims as its
  specification: a claim gets the newest announcement of its server id if that has been neither
  claimed nor overtaken by thirty seconds, and nothing otherwise. Sweeping expired entries never
  changes an answer, and an announcement is answered at most once.
\<close>

theorem join_store_refines_log:
  assumes "sorted (map join_time ops)"
  shows "fst (answers store_step ops Map.empty) = fst (answers log_step ops [])"
proof (cases ops)
  case (Cons op rest)
  have "join_sim (join_time op) Map.empty []"
    by (simp add: join_sim_def retain_live_apply unclaimed_def)
  moreover have "sorted (join_time op # map join_time ops)"
    using assms by (simp add: Cons)
  ultimately show ?thesis
    by (rule rendezvous.answers_agree) (simp add: list_all_iff)
qed simp

theorem join_store_refines_log_witness:
  "map (map_option js_user_id)
     (fst (answers store_step
        [Announce ''s'' 1 None 0, Announce ''t'' 2 None (seconds 5), Claim ''s'' (seconds 29),
         Claim ''s'' (seconds 29), Claim ''t'' (seconds 36)] Map.empty))
   = [None, None, Some 1, None, None]"
proof -
  let ?ops = "[Announce ''s'' 1 None 0, Announce ''t'' 2 None (seconds 5), Claim ''s'' (seconds 29),
      Claim ''s'' (seconds 29), Claim ''t'' (seconds 36)]"
  have "fst (answers store_step ?ops Map.empty) = fst (answers log_step ?ops [])"
    by (rule join_store_refines_log) (simp add: seconds_def)
  then show ?thesis
    by (simp add: Let_def unclaimed_def JOIN_SESSION_TTL_def seconds_def)
qed

end
