(* ===== verification/Yggdrasil.thy ===== *)
theory Yggdrasil
  imports Profiles Ygg_Tokens Join_Sessions "HOL-Library.List_Lexorder" "HOL-Library.Char_ord"
begin

text \<open>
  \<^verbatim>\<open>yggdrasil/src/lib.rs\<close>: the Mojang endpoints. The state is the database, the texture rows and
  the process-wide store of join sessions; a JSON value is the usual tree. The meta document only
  renders configuration and is left out.
\<close>

section \<open>State and messages\<close>

record ygg_state =
  yg_db :: db
  yg_textures :: "user_texture list"
  yg_joins :: join_store

text \<open>The libraries and the process-wide signing key (\<open>None\<close> before \<^verbatim>\<open>init_crypto\<close>).\<close>

record ygg_params =
  yp_crypt :: crypt
  yp_encode :: "textures_payload \<Rightarrow> string option"
  yp_signing_key :: "(string \<Rightarrow> string option) option"

datatype json =
    JNull
  | JBool bool
  | JNumber int
  | JString string
  | JArray "json list"
  | JObject "(string \<times> json) list"

fun json_get :: "string \<Rightarrow> json \<Rightarrow> json option" where
  "json_get key (JObject members) = map_of members key"
| "json_get key _ = None"

fun json_as_str :: "json \<Rightarrow> string option" where
  "json_as_str (JString s) = Some s"
| "json_as_str _ = None"

record authenticate_request =
  au_username :: string
  au_password :: string
  au_client_token :: "string option"
  au_request_user :: bool

record profile_summary =
  ps_id :: string
  ps_name :: string

record ygg_session =
  ys_access_token :: string
  ys_client_token :: string
  ys_available_profiles :: "profile_summary list"
  ys_selected_profile :: profile_summary
  ys_user :: "uuid option"

record refresh_request =
  re_access_token :: string
  re_client_token :: "string option"
  re_request_user :: bool
  re_selected_profile :: "json option"

record token_pair_request =
  tk_access_token :: string
  tk_client_token :: "string option"

record join_message =
  jm_access_token :: string
  jm_selected_profile :: string
  jm_server_id :: string

record has_joined_query =
  hq_username :: string
  hq_server_id :: string
  hq_ip :: "string option"

datatype profile_response = NoContent | ProfileBody game_profile

section \<open>Tokens\<close>

definition signing_key :: "ygg_params \<Rightarrow> (string \<Rightarrow> string option) ygg_result" where
  "signing_key yp = (case yp_signing_key yp of None \<Rightarrow> Inl YggInternal | Some k \<Rightarrow> Inr k)"

definition session_document :: "user \<Rightarrow> issued_tokens \<Rightarrow> bool \<Rightarrow> ygg_session ygg_result" where
  "session_document user tokens request_user =
     (case u_profile_uuid user of
        None \<Rightarrow> Inl YggForbidden
      | Some profile_uuid \<Rightarrow>
          let selected = \<lparr>ps_id = profile_uuid, ps_name = u_username user\<rparr> in
          Inr \<lparr>ys_access_token = it_access_token tokens, ys_client_token = it_client_token tokens,
               ys_available_profiles = [selected], ys_selected_profile = selected,
               ys_user = (if request_user then Some (u_id user) else None)\<rparr>)"

definition ygg_authenticate ::
  "ygg_params \<Rightarrow> env \<Rightarrow> config \<Rightarrow> authenticate_request \<Rightarrow> db \<Rightarrow> ygg_session ygg_result \<times> db" where
  "ygg_authenticate yp env cfg body d =
     (case authenticate_password (yp_crypt yp) env 0 (au_username body) (au_password body) d of
        Inl e \<Rightarrow> (Inl (ygg_from e), d)
      | Inr (user, d1) \<Rightarrow>
          if u_profile_uuid user = None then (Inl YggForbidden, d1)
          else
            (case issue_yggdrasil_tokens env 1 (u_id user) (au_client_token body)
                    (cf_yggdrasil_token_ttl cfg) (cf_max_tokens_per_user cfg) d1 of
               Inl e \<Rightarrow> (Inl (ygg_from e), d1)
             | Inr (tokens, d2) \<Rightarrow> (session_document user tokens (au_request_user body), d2)))"

text \<open>The pair has been rotated by the time the selected profile is looked at.\<close>

definition ygg_refresh ::
  "env \<Rightarrow> config \<Rightarrow> refresh_request \<Rightarrow> db \<Rightarrow> ygg_session ygg_result \<times> db" where
  "ygg_refresh env cfg body d =
     (case refresh_yggdrasil env 0 (re_access_token body) (re_client_token body)
             (cf_yggdrasil_token_ttl cfg) (cf_max_tokens_per_user cfg) d of
        (Inl e, d1) \<Rightarrow> (Inl (ygg_from e), d1)
      | (Inr (user, tokens), d1) \<Rightarrow>
          (case u_profile_uuid user of
             None \<Rightarrow> (Inl YggForbidden, d1)
           | Some profile_uuid \<Rightarrow>
               (case Option.bind (re_selected_profile body) (json_get ''id'') of
                  Some sel \<Rightarrow>
                    if json_as_str sel \<noteq> Some profile_uuid then (Inl YggForbidden, d1)
                    else (session_document user tokens (re_request_user body), d1)
                | None \<Rightarrow> (session_document user tokens (re_request_user body), d1))))"

definition ygg_validate :: "env \<Rightarrow> token_pair_request \<Rightarrow> db \<Rightarrow> unit ygg_result" where
  "ygg_validate env body d =
     (case validate_yggdrasil env (tk_access_token body) (tk_client_token body) d of
        Inl e \<Rightarrow> Inl (ygg_from e) | Inr _ \<Rightarrow> Inr ())"

definition ygg_invalidate :: "env \<Rightarrow> token_pair_request \<Rightarrow> db \<Rightarrow> unit ygg_result \<times> db" where
  "ygg_invalidate env body d =
     (Inr (), snd (invalidate_yggdrasil env (tk_access_token body) (tk_client_token body) d))"

section \<open>Joining a server\<close>

definition ygg_join ::
  "env \<Rightarrow> join_message \<Rightarrow> ygg_state \<Rightarrow> unit ygg_result \<times> ygg_state" where
  "ygg_join env body s =
     (case validate_yggdrasil env (jm_access_token body) None (yg_db s) of
        Inl e \<Rightarrow> (Inl (ygg_from e), s)
      | Inr user \<Rightarrow>
          (case u_profile_uuid user of
             None \<Rightarrow> (Inl YggForbidden, s)
           | Some profile_uuid \<Rightarrow>
               (case undash_uuid (jm_selected_profile body) of
                  Inl _ \<Rightarrow> (Inl YggForbidden, s)
                | Inr claimed \<Rightarrow>
                    if claimed \<noteq> profile_uuid then (Inl YggForbidden, s)
                    else (Inr (), s\<lparr>yg_joins := join_record (jm_server_id body) (u_id user) None
                            (e_utc env) (yg_joins s)\<rparr>))))"

text \<open>Only two addresses that are both present are compared.\<close>

definition ip_mismatch :: "string option \<Rightarrow> string option \<Rightarrow> bool" where
  "ip_mismatch recorded queried =
     (case (recorded, queried) of (Some r, Some q) \<Rightarrow> r \<noteq> q | _ \<Rightarrow> False)"

definition has_joined ::
  "ygg_params \<Rightarrow> env \<Rightarrow> config \<Rightarrow> has_joined_query \<Rightarrow> ygg_state
    \<Rightarrow> profile_response ygg_result \<times> ygg_state" where
  "has_joined yp env cfg query s =
     (let (taken, joins) = join_take (hq_server_id query) (e_utc env) (yg_joins s);
          s1 = s\<lparr>yg_joins := joins\<rparr> in
      (case taken of
         None \<Rightarrow> (Inr NoContent, s1)
       | Some session \<Rightarrow>
           if ip_mismatch (js_ip session) (hq_ip query) then (Inr NoContent, s1)
           else
             (case load_user (yg_db s1) (js_user_id session) of
                Inl e \<Rightarrow> (Inl (ygg_from e), s1)
              | Inr user \<Rightarrow>
                  if \<not> eq_ignore_ascii_case (u_username user) (trim (hq_username query))
                  then (Inr NoContent, s1)
                  else
                    (case u_profile_uuid user of
                       None \<Rightarrow> (Inl YggForbidden, s1)
                     | Some profile_uuid \<Rightarrow>
                         (case signing_key yp of
                            Inl e \<Rightarrow> (Inl e, s1)
                          | Inr key \<Rightarrow>
                              (case build_profile (yp_encode yp) env (yg_textures s1)
                                      (cf_yggdrasil_public_url cfg)
                                      \<lparr>pi_user_id = u_id user, pi_profile_uuid = profile_uuid,
                                       pi_username = u_username user\<rparr> (Some key) of
                                 Inl e \<Rightarrow> (Inl e, s1)
                               | Inr profile \<Rightarrow> (Inr (ProfileBody profile), s1)))))))"

section \<open>Profile lookups\<close>

definition profile_by_uuid ::
  "ygg_params \<Rightarrow> env \<Rightarrow> config \<Rightarrow> string \<Rightarrow> string option \<Rightarrow> ygg_state
    \<Rightarrow> profile_response ygg_result" where
  "profile_by_uuid yp env cfg uuid unsigned_flag s =
     (case undash_uuid uuid of
        Inl _ \<Rightarrow> Inr NoContent
      | Inr profile_uuid \<Rightarrow>
          (case find_by_profile_uuid profile_uuid (yg_db s) of
             None \<Rightarrow> Inr NoContent
           | Some user \<Rightarrow>
               (case u_profile_uuid user of
                  None \<Rightarrow> Inl YggForbidden
                | Some stored_uuid \<Rightarrow>
                    (case (if unsigned_flag = Some [] \<or> unsigned_flag = Some ''true'' then Inr None
                           else map_sum id Some (signing_key yp)) of
                       Inl e \<Rightarrow> Inl e
                     | Inr signing \<Rightarrow>
                         (case build_profile (yp_encode yp) env (yg_textures s)
                                 (cf_yggdrasil_public_url cfg)
                                 \<lparr>pi_user_id = u_id user, pi_profile_uuid = stored_uuid,
                                  pi_username = u_username user\<rparr> signing of
                            Inl e \<Rightarrow> Inl e
                          | Inr profile \<Rightarrow> Inr (ProfileBody profile))))))"

definition profiles_by_name :: "string list \<Rightarrow> db \<Rightarrow> profile_summary list" where
  "profiles_by_name names d =
     (let normalized = remdups_adj (sort (filter (\<lambda>n. n \<noteq> [])
            (map (\<lambda>name. to_ascii_lowercase (trim name)) (take 100 names)))) in
      map (\<lambda>u. \<lparr>ps_id = the (u_profile_uuid u), ps_name = u_username u\<rparr>)
        (filter (\<lambda>u. u_normalized_username u \<in> set normalized \<and> u_profile_uuid u \<noteq> None)
          (users d)))"

section \<open>The handshake over time\<close>

text \<open>
  The announcements and questions the server has answered, newest first: a join adds the account
  that presented its access token and the time, a question of a game server adds \<open>None\<close>.
\<close>

type_synonym handshake_log = "(string \<times> (uuid \<times> timestamp) option) list"

text \<open>Every other request may change the database and the textures, but not the join sessions.\<close>

inductive handshake :: "handshake_log \<Rightarrow> ygg_state \<Rightarrow> bool" where
  fresh: "yg_joins s = Map.empty \<Longrightarrow> handshake [] s"
| joined: "handshake h s \<Longrightarrow> validate_yggdrasil env (jm_access_token body) None (yg_db s) = Inr user
    \<Longrightarrow> ygg_join env body s = (Inr (), s')
    \<Longrightarrow> handshake ((jm_server_id body, Some (u_id user, e_utc env)) # h) s'"
| refused: "handshake h s \<Longrightarrow> ygg_join env body s = (Inl e, s') \<Longrightarrow> handshake h s'"
| asked: "handshake h s \<Longrightarrow> has_joined yp env cfg query s = (r, s')
    \<Longrightarrow> handshake ((hq_server_id query, None) # h) s'"
| other: "handshake h s \<Longrightarrow> yg_joins s' = yg_joins s \<Longrightarrow> handshake h s'"

lemma join_record_apply:
  "join_record server_id uid ip now m k =
    (if k = server_id then Some \<lparr>js_user_id = uid, js_ip = ip, js_expires_at = now + JOIN_SESSION_TTL\<rparr>
     else retain_live now m k)"
  by (simp add: join_record_def)

lemma retain_live_Some: "retain_live now m k = Some js \<Longrightarrow> m k = Some js"
  by (auto simp: retain_live_apply split: option.splits if_splits)

lemma join_take_store: "snd (join_take server_id now m) = (retain_live now m)(server_id := None)"
  by (auto simp: join_take_def Let_def fun_eq_iff split: option.splits)

lemma join_take_Some:
  "fst (join_take server_id now m) = Some js \<Longrightarrow> m server_id = Some js \<and> now < js_expires_at js"
  by (auto simp: join_take_def Let_def is_expired_def dest: retain_live_Some
      split: option.splits if_splits)

lemma has_joined_state:
  "snd (has_joined yp env cfg query s) =
    s\<lparr>yg_joins := (retain_live (e_utc env) (yg_joins s))(hq_server_id query := None)\<rparr>"
  by (auto simp: has_joined_def Let_def split_beta join_take_store
      split: option.splits sum.splits prod.splits)

lemma ygg_joinD:
  assumes "ygg_join env body s = (Inr (), s')"
    and "validate_yggdrasil env (jm_access_token body) None (yg_db s) = Inr user"
  shows "s' = s\<lparr>yg_joins := join_record (jm_server_id body) (u_id user) None (e_utc env) (yg_joins s)\<rparr>"
    "undash_uuid (jm_selected_profile body) = Inr (the (u_profile_uuid user))"
    "u_profile_uuid user \<noteq> None"
  using assms by (auto simp: ygg_join_def split: option.splits sum.splits if_splits)

lemma handshake_store:
  assumes "handshake h s" "yg_joins s server_id = Some js"
  shows "\<exists>t. map_of h server_id = Some (Some (js_user_id js, t))
    \<and> js_expires_at js = t + JOIN_SESSION_TTL"
  using assms
proof (induction arbitrary: js)
  case (joined h s env body user s')
  from joined.prems joined.IH ygg_joinD(1) [OF joined.hyps(3,2)] show ?case
    by (auto simp: join_record_apply split: if_splits dest: retain_live_Some)
next
  case (refused h s env body e s')
  then have "s' = s" by (auto simp: ygg_join_def split: option.splits sum.splits if_splits)
  with refused show ?case by simp
next
  case (asked h s yp env cfg query r s')
  have "s' = s\<lparr>yg_joins := (retain_live (e_utc env) (yg_joins s))(hq_server_id query := None)\<rparr>"
    using has_joined_state [of yp env cfg query s] asked.hyps(2) by simp
  with asked.prems asked.IH show ?case
    by (auto split: if_splits dest: retain_live_Some)
qed auto

lemma has_joinedD:
  assumes "has_joined yp env cfg query s = (Inr (ProfileBody p), s')"
  obtains js user where
    "join_take (hq_server_id query) (e_utc env) (yg_joins s) = (Some js, yg_joins s')"
    "load_user (yg_db s) (js_user_id js) = Inr user"
    "eq_ignore_ascii_case (u_username user) (trim (hq_username query))"
    "u_profile_uuid user = Some (gp_id p)" "u_username user = gp_name p"
proof -
  obtain taken joins where take: "join_take (hq_server_id query) (e_utc env) (yg_joins s) = (taken, joins)"
    by (cases "join_take (hq_server_id query) (e_utc env) (yg_joins s)")
  note unfolded = assms [unfolded has_joined_def Let_def take prod.case]
  obtain js where js: "taken = Some js" and same: "\<not> ip_mismatch (js_ip js) (hq_ip query)"
    using unfolded by (cases taken) (simp_all split: if_splits)
  note unfolded' = unfolded [unfolded js option.case if_not_P [OF same]]
  obtain user where user: "load_user (yg_db s) (js_user_id js) = Inr user"
    using unfolded' by (cases "load_user (yg_db s) (js_user_id js)") simp_all
  from unfolded' user have "eq_ignore_ascii_case (u_username user) (trim (hq_username query))"
    and "u_profile_uuid user \<noteq> None" and "joins = yg_joins s'"
    by (auto split: if_splits option.splits sum.splits)
  moreover from this unfolded' user
  have "u_profile_uuid user = Some (gp_id p)" "u_username user = gp_name p"
    by (auto dest!: build_profile_identity split: sum.splits)
  ultimately show thesis
    using take js user by (intro that [of js user]) simp_all
qed

section \<open>From the login to the server\<close>

text \<open>What a login leaves in the database, as far as the tokens are concerned.\<close>

lemma authenticate_stored:
  assumes "db_wf d" "authenticate_password cr env k i p d = Inr (u, d')"
  shows "db_wf d'" "find_user d' (u_id u) = Some u" "u_confirmed u" "\<not> u_blocked u"
    "yggdrasil_tokens d' = yggdrasil_tokens d"
proof -
  obtain v :: user where v: "v \<in> set (users d)" "u_confirmed v" "\<not> u_blocked v"
    and "assign_or_reconcile_profile_uuid cr env k v d = Inr (u, d')"
    using assms(2) by (auto simp: authenticate_password_def dest: sql_find_SomeD
        split: if_splits option.splits)
  then consider "u = v" "d' = d"
    | f where "update_user (u_id v) f d = Inr d'" "find_user d' (u_id v) = Some u"
        "\<And>w. u_id (f w) = u_id w" "u_confirmed (f v)" "\<not> u_blocked (f v)"
    by (fastforce simp: assign_or_reconcile_profile_uuid_def update_returning_def
        split: if_splits sum.splits option.splits)
  then have "find_user d' (u_id u) = Some u \<and> u_confirmed u \<and> \<not> u_blocked u
      \<and> yggdrasil_tokens d' = yggdrasil_tokens d"
  proof cases
    case 1
    with v find_user_unique [OF assms(1) v(1)] show ?thesis by simp
  next
    case (2 f)
    have "u = f v"
      using update_user_find [OF 2(1,3), of "u_id v"] find_user_unique [OF assms(1) v(1)] 2(2) by simp
    with 2 find_user_Some(2) [OF 2(2)] show ?thesis
      by (auto simp: update_user_Inr(1) [OF 2(1) find_user_unique [OF assms(1) v(1)]])
  qed
  then show "find_user d' (u_id u) = Some u" "u_confirmed u" "\<not> u_blocked u"
    "yggdrasil_tokens d' = yggdrasil_tokens d" by blast+
  show "db_wf d'" by (rule db_wf_authenticate [OF assms(2,1)])
qed

lemma build_profile_total:
  assumes "is_uuid_undashed (pi_profile_uuid identity)" "pi_username identity \<noteq> []"
    and "\<And>p. encode p \<noteq> None" "\<And>v. sign v \<noteq> None"
  shows "\<exists>p. build_profile encode env rows base identity (Some sign) = Inr p"
proof -
  let ?input = "textures_input_of env base identity (load_textures rows (pi_user_id identity))"
  obtain payload where payload: "build_textures_payload ?input = Inr payload"
    using assms(1,2) by (simp add: build_textures_payload_def textures_input_of_def)
  obtain v where v: "encode payload = Some v" using assms(3) [of payload] by blast
  obtain signature where "sign v = Some signature" using assms(4) [of v] by blast
  with payload v show ?thesis
    by (simp add: build_profile_def Let_def build_textures_value_def)
qed

text \<open>A join with a valid token of an account leaves the announcement its server will ask for.\<close>

lemma join_then_has_joined:
  assumes "validate_yggdrasil env1 tok None (yg_db s) = Inr user" "find_user (yg_db s) (u_id user) = Some user"
    and "u_profile_uuid user = Some pid" "undash_uuid claimed = Inr pid"
    and "e_utc env2 < e_utc env1 + seconds 30"
    and "yp_signing_key yp = Some key" "\<And>p. yp_encode yp p \<noteq> None" "\<And>v. key v \<noteq> None"
    and "is_uuid_undashed pid" "u_username user \<noteq> []"
    and "eq_ignore_ascii_case (u_username user) (trim name)"
  shows "\<exists>s2 p s3.
      ygg_join env1 \<lparr>jm_access_token = tok, jm_selected_profile = claimed, jm_server_id = server\<rparr> s
        = (Inr (), s2)
    \<and> has_joined yp env2 cfg \<lparr>hq_username = name, hq_server_id = server, hq_ip = ip\<rparr> s2
        = (Inr (ProfileBody p), s3)
    \<and> gp_id p = pid \<and> gp_name p = u_username user"
proof -
  let ?s2 = "s\<lparr>yg_joins := join_record server (u_id user) None (e_utc env1) (yg_joins s)\<rparr>"
  let ?identity = "\<lparr>pi_user_id = u_id user, pi_profile_uuid = pid, pi_username = u_username user\<rparr>"
  have join: "ygg_join env1 \<lparr>jm_access_token = tok, jm_selected_profile = claimed, jm_server_id = server\<rparr> s
      = (Inr (), ?s2)"
    using assms(1,3,4) by (simp add: ygg_join_def)
  obtain p where p: "build_profile (yp_encode yp) env2 (yg_textures s) (cf_yggdrasil_public_url cfg)
      ?identity (Some key) = Inr p"
    using build_profile_total [of ?identity "yp_encode yp" key] assms(7-10) by fastforce
  have take: "fst (join_take server (e_utc env2) (yg_joins ?s2)) =
      Some \<lparr>js_user_id = u_id user, js_ip = None, js_expires_at = e_utc env1 + JOIN_SESSION_TTL\<rparr>"
    using assms(5) by (simp add: join_take_def Let_def retain_live_apply join_record_apply
        is_expired_def JOIN_SESSION_TTL_def)
  have "fst (has_joined yp env2 cfg \<lparr>hq_username = name, hq_server_id = server, hq_ip = ip\<rparr> ?s2)
      = Inr (ProfileBody p)"
    using assms(2,3,6,11) p take
    by (simp add: has_joined_def Let_def split_beta ip_mismatch_def load_user_def signing_key_def)
  with join build_profile_identity [OF p] show ?thesis
    by (metis prod.collapse profile_identity.select_convs(2,3))
qed

section \<open>A concrete instance\<close>

definition sample_player :: user where
  "sample_player = bob\<lparr>u_password_hash := Some ''#pw'', u_minecraft_uuid := None,
     u_profile_uuid := Some (sample_hex (\<lambda>i. i))\<rparr>"

definition sample_ygg_state :: ygg_state where
  "sample_ygg_state =
     \<lparr>yg_db = empty_db
        \<lparr>users := [alice, sample_player],
         yggdrasil_tokens := [\<lparr>yt_id = 50, yt_user_id = 2, yt_access_token_hash = ''tok'',
           yt_client_token = ''client'', yt_issued_at = 0, yt_expires_at = days 15\<rparr>]\<rparr>,
      yg_textures =
        [\<lparr>ut_user_id = 2, ut_kind = ''skin'', ut_profile_uuid = ''stale'', ut_username = ''bob'',
          ut_file_path = ''p'', ut_file_url = ''u'', ut_file_size = 1, ut_variant = Some ''SLIM'',
          ut_updated_at = 0\<rparr>],
      yg_joins = Map.empty\<rparr>"

definition sample_ygg_params :: ygg_params where
  "sample_ygg_params =
     \<lparr>yp_crypt = sample_crypt, yp_encode = (\<lambda>p. Some (tp_profile_id p)),
      yp_signing_key = Some (\<lambda>v. Some (CHR ''s'' # v))\<rparr>"

definition sample_join :: join_message where
  "sample_join = \<lparr>jm_access_token = ''tok'', jm_selected_profile = sample_hex (\<lambda>i. i),
     jm_server_id = ''srv''\<rparr>"

definition sample_query :: has_joined_query where
  "sample_query = \<lparr>hq_username = '' BOB'', hq_server_id = ''srv'', hq_ip = None\<rparr>"

lemma sample_ygg_wf: "db_wf (yg_db sample_ygg_state)"
  by code_simp

section \<open>Properties\<close>





end
