(* ===== verification/Client_Ip.thy ===== *)
theory Client_Ip
  imports Sessions "HOL-Library.Product_Lexorder" "HOL-Library.Option_ord"
begin

text \<open>
  \<^verbatim>\<open>server/src/ip.rs\<close>: the address a request is accounted to. Parsing an address from text belongs
  to the standard library and is a parameter \<open>parse_ip\<close>; the header map is, as in \<open>Sessions\<close>, the
  function that returns the text of the first header of a name.
\<close>

datatype ip_addr = V4 "32 word" | V6 "128 word"

text \<open>The derived order of \<^verbatim>\<open>IpAddr\<close>: IPv4 before IPv6, then by octets.\<close>

instantiation ip_addr :: linorder
begin

fun less_eq_ip_addr :: "ip_addr \<Rightarrow> ip_addr \<Rightarrow> bool" where
  "less_eq_ip_addr (V4 a) (V4 b) = (a \<le> b)"
| "less_eq_ip_addr (V4 a) (V6 b) = True"
| "less_eq_ip_addr (V6 a) (V4 b) = False"
| "less_eq_ip_addr (V6 a) (V6 b) = (a \<le> b)"

definition less_ip_addr :: "ip_addr \<Rightarrow> ip_addr \<Rightarrow> bool" where
  "less_ip_addr a b \<longleftrightarrow> a \<le> b \<and> \<not> b \<le> a"

instance
proof
  fix a b c :: ip_addr
  show "a < b \<longleftrightarrow> a \<le> b \<and> \<not> b \<le> a" by (rule less_ip_addr_def)
  show "a \<le> a" by (cases a) auto
  show "a \<le> b \<Longrightarrow> b \<le> c \<Longrightarrow> a \<le> c" by (cases a; cases b; cases c) auto
  show "a \<le> b \<Longrightarrow> b \<le> a \<Longrightarrow> a = b" by (cases a; cases b) auto
  show "a \<le> b \<or> b \<le> a" by (cases a; cases b) auto
qed

end

definition forwarded_for_rightmost ::
  "(string \<Rightarrow> ip_addr option) \<Rightarrow> (string \<Rightarrow> string option) \<Rightarrow> ip_addr option" where
  "forwarded_for_rightmost parse_ip headers =
     Option.bind (headers ''x-forwarded-for'')
       (\<lambda>v. find_map (\<lambda>hop. parse_ip (trim hop)) (rev (split_on (CHR '','') v)))"

definition real_ip :: "(string \<Rightarrow> ip_addr option) \<Rightarrow> (string \<Rightarrow> string option) \<Rightarrow> ip_addr option" where
  "real_ip parse_ip headers = Option.bind (headers ''x-real-ip'') (\<lambda>raw. parse_ip (trim raw))"

definition client_ip ::
  "(string \<Rightarrow> ip_addr option) \<Rightarrow> (string \<Rightarrow> string option) \<Rightarrow> ip_addr option \<Rightarrow> bool
    \<Rightarrow> ip_addr option" where
  "client_ip parse_ip headers peer_addr trusted_proxy =
     (if \<not> trusted_proxy then peer_addr
      else
        (case forwarded_for_rightmost parse_ip headers of
           Some ip \<Rightarrow> Some ip
         | None \<Rightarrow>
             (case real_ip parse_ip headers of Some ip \<Rightarrow> Some ip | None \<Rightarrow> peer_addr)))"

section \<open>What a client can forge\<close>

lemma find_map_append:
  "find_map f (xs @ ys) = (case find_map f xs of Some y \<Rightarrow> Some y | None \<Rightarrow> find_map f ys)"
  by (induction xs) (auto split: option.splits)

lemma split_on_last:
  "CHR '','' \<notin> set hop \<Longrightarrow> rev (split_on (CHR '','') (forged @ CHR '','' # hop)) =
     hop # rev (split_on (CHR '','') forged)"
proof (induction forged)
  case Nil
  then show ?case by (simp add: split_on_single)
next
  case (Cons x xs)
  then show ?case
    by (cases "split_on (CHR '','') xs"; cases "split_on (CHR '','') (xs @ CHR '','' # hop)")
      (auto simp: Cons_eq_append_conv append_eq_Cons_conv rev_swap)
qed

text \<open>
  C16. The address a request is accounted to cannot be forged: without a trusted proxy it is the
  peer whatever headers the client sends, and behind one that appends the hop it saw it is that
  hop, whatever the client wrote before it.
\<close>

theorem client_ip_unforgeable:
  assumes "parse_ip (trim hop) = Some ip" "CHR '','' \<notin> set hop"
    and "headers ''x-forwarded-for'' = Some (forged @ CHR '','' # hop)"
  shows "client_ip parse_ip headers peer True = Some ip
    \<and> client_ip parse_ip headers' peer False = peer"
  using assms by (simp add: client_ip_def forwarded_for_rightmost_def split_on_last)

definition sample_parse_ip :: "string \<Rightarrow> ip_addr option" where
  "sample_parse_ip s = (if s \<noteq> [] \<and> list_all (\<lambda>c. is_digit c \<or> c = CHR ''.'') s
     then Some (V4 (of_nat (length s))) else None)"

theorem client_ip_unforgeable_witness:
  "client_ip sample_parse_ip
     (\<lambda>h. if h = ''x-forwarded-for'' then Some ''6.6.6.6, 10.0.0.1'' else None) None True
   = Some (V4 8)"
proof -
  have "sample_parse_ip (trim '' 10.0.0.1'') = Some (V4 8)" "CHR '','' \<notin> set '' 10.0.0.1''"
    by code_simp+
  then show ?thesis
    using client_ip_unforgeable [where parse_ip = sample_parse_ip and hop = "'' 10.0.0.1''"
        and ip = "V4 8" and forged = "''6.6.6.6''"
        and headers = "\<lambda>h. if h = ''x-forwarded-for'' then Some ''6.6.6.6, 10.0.0.1'' else None"]
    by simp
qed

text \<open>A hop that does not parse is skipped, so the client's own text before it decides.\<close>

lemma unparsable_hop_is_skipped:
  "parse_ip (trim hop) = None \<Longrightarrow> CHR '','' \<notin> set hop \<Longrightarrow> parse_ip (trim forged) = Some ip
    \<Longrightarrow> CHR '','' \<notin> set forged
    \<Longrightarrow> headers ''x-forwarded-for'' = Some (forged @ CHR '','' # hop)
    \<Longrightarrow> client_ip parse_ip headers peer True = Some ip"
  by (simp add: client_ip_def forwarded_for_rightmost_def split_on_last split_on_single)

end
