(* ===== verification/Rate_Limit.thy ===== *)
theory Rate_Limit
  imports Client_Ip Simulation
begin

text \<open>
  \<^verbatim>\<open>server/src/ratelimit.rs\<close>: the sliding-window limiter of the credential endpoints. Instants are
  integers; \<open>checked_sub\<close> is \<^verbatim>\<open>Instant::checked_sub\<close>, whose documented behaviour is to return the
  difference unless it cannot be represented. The hash map is an association list with distinct
  keys; its order does not matter, since an eviction takes the \<open>count\<close> least elements of a list
  without duplicates.
\<close>

section \<open>Definitions\<close>

definition MAX_TRACKED_IPS :: nat where
  "MAX_TRACKED_IPS = 100000"

definition EVICT_BATCH :: nat where
  "EVICT_BATCH = MAX_TRACKED_IPS div 10"

record limiter =
  li_max_attempts :: nat
  li_window :: int
  li_trusted_proxy :: bool
  li_throttled :: "string list"

type_synonym buckets_map = "(ip_addr \<times> int list) list"

record buckets =
  bk_map :: buckets_map
  bk_last_sweep :: "int option"

definition empty_buckets :: buckets where
  "empty_buckets = \<lparr>bk_map = [], bk_last_sweep = None\<rparr>"

definition throttled_paths :: "string \<Rightarrow> string list" where
  "throttled_paths mount =
     [''/admin/auth/login'', ''/api/auth/login'', ''/api/auth/register'',
      mount @ ''/authserver/authenticate'', mount @ ''/authserver/refresh'']"

definition new_limiter :: "nat \<Rightarrow> int \<Rightarrow> bool \<Rightarrow> string \<Rightarrow> limiter" where
  "new_limiter max_attempts window trusted_proxy mount =
     \<lparr>li_max_attempts = max_attempts, li_window = window, li_trusted_proxy = trusted_proxy,
      li_throttled = throttled_paths mount\<rparr>"

definition is_throttled_path :: "limiter \<Rightarrow> string \<Rightarrow> bool" where
  "is_throttled_path li path = list_ex (\<lambda>p. p = path) (li_throttled li)"

text \<open>\<^verbatim>\<open>octets[8..].fill(0)\<close>\<close>

fun limiter_key :: "ip_addr \<Rightarrow> ip_addr" where
  "limiter_key (V4 a) = V4 a"
| "limiter_key (V6 a) = V6 (push_bit 64 (drop_bit 64 a))"

definition cutoff_at :: "(int \<Rightarrow> int \<Rightarrow> int option) \<Rightarrow> int \<Rightarrow> int \<Rightarrow> int" where
  "cutoff_at checked_sub now window =
     (case checked_sub now window of Some t \<Rightarrow> t | None \<Rightarrow> now)"

definition newest :: "int list \<Rightarrow> int option" where
  "newest bucket = (if bucket = [] then None else Some (last bucket))"

text \<open>\<^verbatim>\<open>duration_since\<close> saturates at zero.\<close>

definition sweep_if_due :: "int \<Rightarrow> int \<Rightarrow> int \<Rightarrow> buckets \<Rightarrow> buckets" where
  "sweep_if_due now cutoff window b =
     (let due = (case bk_last_sweep b of
                   Some previous \<Rightarrow> max 0 (now - previous) \<ge> window | None \<Rightarrow> True) in
      if \<not> due then b
      else \<lparr>bk_map = filter (\<lambda>(_, bucket). bucket \<noteq> [] \<and> last bucket > cutoff) (bk_map b),
            bk_last_sweep = Some now\<rparr>)"

definition evict_stalest :: "nat \<Rightarrow> buckets_map \<Rightarrow> buckets_map" where
  "evict_stalest count m =
     (let count = min count (length m) in
      if count = 0 then m
      else
        let recency = map (\<lambda>(key, bucket). (newest bucket, key)) m;
            victims = map snd (take count (sort recency)) in
        filter (\<lambda>(key, _). key \<notin> set victims) m)"

definition contains_key :: "ip_addr \<Rightarrow> buckets_map \<Rightarrow> bool" where
  "contains_key key m = list_ex (\<lambda>(k, _). k = key) m"

definition bucket_of :: "ip_addr \<Rightarrow> buckets_map \<Rightarrow> int list" where
  "bucket_of key m = (case map_of m key of Some b \<Rightarrow> b | None \<Rightarrow> [])"

text \<open>The pruning and the decision on one bucket.\<close>

definition admit :: "nat \<Rightarrow> int \<Rightarrow> int \<Rightarrow> int list \<Rightarrow> bool \<times> int list" where
  "admit max_attempts cutoff now bucket =
     (let pruned = dropWhile (\<lambda>t. t \<le> cutoff) bucket in
      if length pruned \<ge> max_attempts then (False, pruned) else (True, pruned @ [now]))"

definition check_at ::
  "(int \<Rightarrow> int \<Rightarrow> int option) \<Rightarrow> limiter \<Rightarrow> ip_addr \<Rightarrow> int \<Rightarrow> buckets \<Rightarrow> bool \<times> buckets" where
  "check_at checked_sub li ip now b =
     (let key = limiter_key ip;
          cutoff = cutoff_at checked_sub now (li_window li);
          b1 = sweep_if_due now cutoff (li_window li) b;
          m = (if length (bk_map b1) \<ge> MAX_TRACKED_IPS \<and> \<not> contains_key key (bk_map b1)
               then evict_stalest EVICT_BATCH (bk_map b1) else bk_map b1);
          (allowed, bucket) = admit (li_max_attempts li) cutoff now (bucket_of key m) in
      (allowed, b1\<lparr>bk_map := AList.update key bucket m\<rparr>))"

definition check_unresolved_at ::
  "(int \<Rightarrow> int \<Rightarrow> int option) \<Rightarrow> limiter \<Rightarrow> int \<Rightarrow> int list \<Rightarrow> bool \<times> int list" where
  "check_unresolved_at checked_sub li now bucket =
     admit (li_max_attempts li) (cutoff_at checked_sub now (li_window li)) now bucket"

text \<open>
  The middleware: \<open>False\<close> is the 429 answer, \<open>True\<close> hands the request on. The state is the map and
  the shared bucket of the requests without an address.
\<close>

definition rate_limit_middleware ::
  "(int \<Rightarrow> int \<Rightarrow> int option) \<Rightarrow> (string \<Rightarrow> ip_addr option) \<Rightarrow> limiter \<Rightarrow> string
    \<Rightarrow> (string \<Rightarrow> string option) \<Rightarrow> ip_addr option \<Rightarrow> int \<Rightarrow> buckets \<times> int list
    \<Rightarrow> bool \<times> buckets \<times> int list" where
  "rate_limit_middleware checked_sub parse_ip li path headers peer now s =
     (if \<not> is_throttled_path li path then (True, s)
      else
        (case client_ip parse_ip headers peer (li_trusted_proxy li) of
           Some ip \<Rightarrow>
             (let (ok, b) = check_at checked_sub li ip now (fst s) in (ok, b, snd s))
         | None \<Rightarrow>
             (let (ok, u) = check_unresolved_at checked_sub li now (snd s) in (ok, fst s, u))))"

section \<open>Keys and buckets\<close>

definition keys :: "buckets_map \<Rightarrow> ip_addr list" where
  "keys m = map fst m"

lemma contains_key_iff: "contains_key key m \<longleftrightarrow> key \<in> set (keys m)"
  by (force simp: contains_key_def keys_def list_ex_iff)

lemma distinct_keys_update: "distinct (keys m) \<Longrightarrow> distinct (keys (AList.update k v m))"
  by (simp add: keys_def distinct_update)

lemma keys_filter: "keys (filter (\<lambda>(k, _). k \<notin> S) m) = filter (\<lambda>k. k \<notin> S) (keys m)"
  by (induction m) (auto simp: keys_def)

lemma distinct_keys_filter: "distinct (keys m) \<Longrightarrow> distinct (keys (filter P m))"
  by (simp add: keys_def distinct_map inj_on_def)

lemma set_keys_filter: "set (keys (filter P m)) \<subseteq> set (keys m)"
  by (auto simp: keys_def)

lemma set_keys_update: "set (keys (AList.update k v m)) = insert k (set (keys m))"
  by (simp add: keys_def dom_update flip: dom_map_of_conv_image_fst)
    (simp add: AList.update_conv')

lemma length_keys [simp]: "length (keys m) = length m"
  by (simp add: keys_def)

lemma bucket_of_update: "bucket_of k (AList.update k' v m) = (if k = k' then v else bucket_of k m)"
  by (simp add: bucket_of_def update_conv')

lemma bucket_of_Nil [simp]: "bucket_of k [] = []"
  by (simp add: bucket_of_def)

lemma bucket_of_Cons: "bucket_of k ((k', b) # m) = (if k = k' then b else bucket_of k m)"
  by (simp add: bucket_of_def)

lemma bucket_of_absent: "k \<notin> set (keys m) \<Longrightarrow> bucket_of k m = []"
  by (induction m) (auto simp: bucket_of_Cons keys_def)

lemma bucket_of_filter:
  assumes "distinct (keys m)"
  shows "bucket_of k (filter (\<lambda>(_, b). P b) m) = (if P (bucket_of k m) then bucket_of k m else [])"
  using assms
proof (induction m)
  case (Cons x m)
  obtain k' b where x: "x = (k', b)" by (cases x)
  have "k' \<notin> set (keys m)" using Cons.prems by (simp add: keys_def x)
  then have "k' \<notin> set (keys (filter (\<lambda>(_, b). P b) m))"
    using set_keys_filter by blast
  with Cons show ?case
    by (cases "k = k'") (auto simp: x bucket_of_Cons bucket_of_absent keys_def)
qed simp

section \<open>The sliding window is a count over the admitted attempts\<close>

text \<open>
  The specification keeps the log of admitted attempts and admits a new one when fewer than the
  maximum of its key lie within the window.
\<close>

definition recent :: "int \<Rightarrow> ip_addr \<Rightarrow> (ip_addr \<times> int) list \<Rightarrow> int list" where
  "recent cutoff key log = map snd (filter (\<lambda>(k, t). k = key \<and> cutoff < t) log)"

definition window_step ::
  "limiter \<Rightarrow> ip_addr \<times> int \<Rightarrow> (ip_addr \<times> int) list \<Rightarrow> bool \<times> (ip_addr \<times> int) list" where
  "window_step li op log =
     (let key = limiter_key (fst op); now = snd op in
      if length (recent (now - li_window li) key log) < li_max_attempts li
      then (True, log @ [(key, now)]) else (False, log))"

definition limiter_step ::
  "(int \<Rightarrow> int \<Rightarrow> int option) \<Rightarrow> limiter \<Rightarrow> ip_addr \<times> int \<Rightarrow> buckets \<Rightarrow> bool \<times> buckets" where
  "limiter_step checked_sub li op b = check_at checked_sub li (fst op) (snd op) b"

definition buckets_wf :: "int \<Rightarrow> buckets_map \<Rightarrow> bool" where
  "buckets_wf t m \<longleftrightarrow> distinct (keys m)
     \<and> (\<forall>k. sorted (bucket_of k m) \<and> (\<forall>x \<in> set (bucket_of k m). x \<le> t))"

definition window_sim ::
  "(int \<Rightarrow> int \<Rightarrow> int option) \<Rightarrow> limiter \<Rightarrow> ip_addr set \<Rightarrow> int \<Rightarrow> buckets \<Rightarrow> (ip_addr \<times> int) list \<Rightarrow> bool" where
  "window_sim checked_sub li K t b log \<longleftrightarrow>
     (\<forall>now. checked_sub now (li_window li) = Some (now - li_window li))
     \<and> finite K \<and> card K \<le> MAX_TRACKED_IPS \<and> set (keys (bk_map b)) \<subseteq> K
     \<and> buckets_wf t (bk_map b)
     \<and> (\<forall>k. filter (\<lambda>x. t - li_window li < x) (bucket_of k (bk_map b)) =
              recent (t - li_window li) k log)"

lemma buckets_wf_mono: "buckets_wf t m \<Longrightarrow> t \<le> t' \<Longrightarrow> buckets_wf t' m"
  by (force simp: buckets_wf_def)

lemma sorted_dropWhile: "sorted xs \<Longrightarrow> dropWhile (\<lambda>t. t \<le> c) xs = filter (\<lambda>t. c < t) xs"
  for c :: int
proof (induction xs)
  case (Cons x xs)
  show ?case
  proof (cases "x \<le> c")
    case False
    with Cons.prems have "\<forall>y \<in> set (x # xs). c < y" by auto
    then have "filter (\<lambda>t. c < t) (x # xs) = x # xs" by (simp only: filter_id_conv)
    with False show ?thesis by simp
  qed (use Cons in simp)
qed simp

lemma sorted_last_le: "sorted xs \<Longrightarrow> x \<in> set xs \<Longrightarrow> x \<le> last xs"
  by (induction xs) auto

lemma recent_later: "c \<le> c' \<Longrightarrow> recent c' k log = filter (\<lambda>x. c' < x) (recent c k log)"
  by (induction log) (auto simp: recent_def)

lemma recent_append:
  "recent c k (log @ [(k', t)]) = recent c k log @ (if k = k' \<and> c < t then [t] else [])"
  by (auto simp: recent_def)

lemma sweep_map:
  "bk_map (sweep_if_due now cutoff window b) = bk_map b
   \<or> bk_map (sweep_if_due now cutoff window b) =
       filter (\<lambda>(_, bucket). bucket \<noteq> [] \<and> last bucket > cutoff) (bk_map b)"
  by (simp add: sweep_if_due_def Let_def)

text \<open>A sweep keeps the buckets well-formed and every hit inside the window.\<close>

lemma sweep_keeps_recent:
  fixes now cutoff window :: int
  assumes "buckets_wf t (bk_map b)"
  defines "m \<equiv> bk_map (sweep_if_due now cutoff window b)"
  shows "buckets_wf t m" "set (keys m) \<subseteq> set (keys (bk_map b))" "length m \<le> length (bk_map b)"
    "filter (\<lambda>x. cutoff < x) (bucket_of k m) = filter (\<lambda>x. cutoff < x) (bucket_of k (bk_map b))"
proof -
  have dist: "distinct (keys (bk_map b))" and srt: "sorted (bucket_of k (bk_map b))" for k
    using assms(1) by (auto simp: buckets_wf_def)
  let ?keep = "\<lambda>bucket. bucket \<noteq> [] \<and> last bucket > cutoff"
  have bucket: "bucket_of k m = bucket_of k (bk_map b)
      \<or> (bucket_of k m = [] \<and> (\<forall>x \<in> set (bucket_of k (bk_map b)). x \<le> cutoff))" for k
  proof (cases "?keep (bucket_of k (bk_map b))")
    case True
    then show ?thesis
      using sweep_map [of now cutoff window b] bucket_of_filter [OF dist, of k ?keep]
      unfolding m_def by presburger
  next
    case False
    then have "\<forall>x \<in> set (bucket_of k (bk_map b)). x \<le> cutoff"
      using sorted_last_le [OF srt, of _ k] by fastforce
    with False show ?thesis
      using sweep_map [of now cutoff window b] bucket_of_filter [OF dist, of k ?keep]
      unfolding m_def by presburger
  qed
  show "set (keys m) \<subseteq> set (keys (bk_map b))" "length m \<le> length (bk_map b)"
    using sweep_map [of now cutoff window b]
      set_keys_filter [of "\<lambda>(_, bucket). ?keep bucket" "bk_map b"]
      length_filter_le [of "\<lambda>(_, bucket). ?keep bucket" "bk_map b"]
    unfolding m_def by auto
  have "distinct (keys m)"
    using sweep_map [of now cutoff window b] distinct_keys_filter [OF dist] dist by (auto simp: m_def)
  moreover have "sorted (bucket_of k m) \<and> (\<forall>x \<in> set (bucket_of k m). x \<le> t)" for k
    using assms(1) bucket [of k] by (auto simp: buckets_wf_def)
  ultimately show "buckets_wf t m"
    by (simp add: buckets_wf_def)
  show "filter (\<lambda>x. cutoff < x) (bucket_of k m) = filter (\<lambda>x. cutoff < x) (bucket_of k (bk_map b))"
    using bucket [of k] by (auto simp: filter_empty_conv not_less)
qed

lemma admit_eq:
  assumes "sorted bucket"
  shows "admit n cutoff now bucket =
    (length (filter (\<lambda>t. cutoff < t) bucket) < n,
     filter (\<lambda>t. cutoff < t) bucket @
       (if length (filter (\<lambda>t. cutoff < t) bucket) < n then [now] else []))"
  using assms by (simp add: admit_def Let_def sorted_dropWhile)

text \<open>Below the cap nothing is evicted, so a check works on the swept bucket of its own key.\<close>

lemma check_at_below_cap:
  assumes "buckets_wf t (bk_map b)" "t \<le> now" "0 \<le> li_window li"
    and "\<And>now. checked_sub now (li_window li) = Some (now - li_window li)"
    and "finite K" "card K \<le> MAX_TRACKED_IPS" "set (keys (bk_map b)) \<subseteq> K" "limiter_key ip \<in> K"
  defines "cutoff \<equiv> now - li_window li"
  defines "old \<equiv> filter (\<lambda>x. cutoff < x) (bucket_of (limiter_key ip) (bk_map b))"
  defines "r \<equiv> check_at checked_sub li ip now b"
  shows "fst r = (length old < li_max_attempts li)"
    and "buckets_wf now (bk_map (snd r))" "set (keys (bk_map (snd r))) \<subseteq> K"
    and "filter (\<lambda>x. cutoff < x) (bucket_of k (bk_map (snd r))) =
      (if k = limiter_key ip then old @ (if fst r then [x \<leftarrow> [now]. cutoff < x] else [])
       else filter (\<lambda>x. cutoff < x) (bucket_of k (bk_map b)))"
proof -
  let ?b1 = "sweep_if_due now cutoff (li_window li) b" and ?key = "limiter_key ip"
  note sweep = sweep_keeps_recent [OF assms(1), where now = now and cutoff = cutoff
      and window = "li_window li"]
  have wf1: "buckets_wf now (bk_map ?b1)"
    by (rule buckets_wf_mono [OF sweep(1) assms(2)])
  have dist: "distinct (keys (bk_map ?b1))" and srt: "sorted (bucket_of ?key (bk_map ?b1))"
    using wf1 by (auto simp: buckets_wf_def)
  have sub: "set (keys (bk_map ?b1)) \<subseteq> K"
    using sweep(2) assms(7) by blast
  have no_evict: "\<not> (length (bk_map ?b1) \<ge> MAX_TRACKED_IPS \<and> \<not> contains_key ?key (bk_map ?b1))"
  proof (rule notI, elim conjE)
    assume big: "length (bk_map ?b1) \<ge> MAX_TRACKED_IPS" and absent: "\<not> contains_key ?key (bk_map ?b1)"
    have "card (set (keys (bk_map ?b1))) = length (bk_map ?b1)"
      using distinct_card [OF dist] by simp
    with big assms(6) have "card K \<le> card (set (keys (bk_map ?b1)))" by simp
    with sub assms(5) have "set (keys (bk_map ?b1)) = K" by (intro card_seteq) auto
    with absent assms(8) show False by (simp add: contains_key_iff)
  qed
  have old: "filter (\<lambda>x. cutoff < x) (bucket_of ?key (bk_map ?b1)) = old"
    using sweep(4) by (simp add: old_def)
  have r: "r = (length old < li_max_attempts li,
      ?b1\<lparr>bk_map := AList.update ?key (old @ (if length old < li_max_attempts li then [now] else []))
            (bk_map ?b1)\<rparr>)"
    using admit_eq [OF srt, of "li_max_attempts li" cutoff now] old
    by (simp add: r_def check_at_def Let_def cutoff_at_def assms(4) if_not_P [OF no_evict]
        flip: cutoff_def)
  then show "fst r = (length old < li_max_attempts li)" by simp
  show "set (keys (bk_map (snd r))) \<subseteq> K"
    using sub assms(8) by (simp add: r set_keys_update)
  have le: "\<forall>x \<in> set old. cutoff < x \<and> x \<le> now"
    using wf1 by (auto simp: buckets_wf_def simp flip: old)
  moreover have "sorted old"
    using srt by (auto simp flip: old intro: sorted_wrt_filter)
  ultimately show "buckets_wf now (bk_map (snd r))"
    using wf1 dist by (auto simp: r buckets_wf_def bucket_of_update distinct_keys_update sorted_append)
  show "filter (\<lambda>x. cutoff < x) (bucket_of k (bk_map (snd r))) =
      (if k = ?key then old @ (if fst r then [x \<leftarrow> [now]. cutoff < x] else [])
       else filter (\<lambda>x. cutoff < x) (bucket_of k (bk_map b)))"
    using le sweep(4) by (auto simp: r bucket_of_update filter_id_conv)
qed

lemma window_sim_step:
  assumes "window_sim checked_sub li K t b log" "t \<le> snd op" "limiter_key (fst op) \<in> K"
    and "0 \<le> li_window li"
  shows "fst (limiter_step checked_sub li op b) = fst (window_step li op log)"
    and "window_sim checked_sub li K (snd op) (snd (limiter_step checked_sub li op b))
           (snd (window_step li op log))"
proof -
  obtain ip now where op: "op = (ip, now)" by (cases op)
  let ?w = "li_window li" and ?key = "limiter_key ip" and ?m = "bk_map b"
  have R: "\<And>now. checked_sub now ?w = Some (now - ?w)" "finite K" "card K \<le> MAX_TRACKED_IPS"
    "set (keys ?m) \<subseteq> K" "buckets_wf t ?m"
    and log: "\<And>k. filter (\<lambda>x. t - ?w < x) (bucket_of k ?m) = recent (t - ?w) k log"
    using assms(1) by (auto simp: window_sim_def)
  have later: "filter (\<lambda>x. now - ?w < x) (bucket_of k ?m) = recent (now - ?w) k log" for k
  proof -
    have "recent (now - ?w) k log = filter (\<lambda>x. now - ?w < x) (recent (t - ?w) k log)"
      using assms(2) by (intro recent_later) (simp add: op)
    also have "\<dots> = filter (\<lambda>x. now - ?w < x) (bucket_of k ?m)"
      using assms(2) by (auto simp: op simp flip: log intro!: filter_cong)
    finally show ?thesis ..
  qed
  have le: "t \<le> now" and key: "?key \<in> K" using assms(2,3) by (simp_all add: op)
  note C = check_at_below_cap [where checked_sub = checked_sub and li = li and K = K,
      OF R(5) le assms(4) R(1-4) key]
  show ans: "fst (limiter_step checked_sub li op b) = fst (window_step li op log)"
    using C(1) by (simp add: op limiter_step_def window_step_def Let_def later)
  show "window_sim checked_sub li K (snd op) (snd (limiter_step checked_sub li op b))
      (snd (window_step li op log))"
    using C(2-4) R(1-3) ans
    by (auto simp: op limiter_step_def window_step_def Let_def window_sim_def later recent_append
        split: if_splits)
qed

interpretation window: timed_simulation snd "\<lambda>op. limiter_key (fst op) \<in> K \<and> 0 \<le> li_window li"
    "limiter_step checked_sub li" "window_step li" "window_sim checked_sub li K" for checked_sub li K
  by unfold_locales (simp_all add: window_sim_step)

section \<open>Bounded memory\<close>

lemma evict_makes_room:
  assumes "distinct (keys m)" "0 < count" "m \<noteq> []"
  shows "length (evict_stalest count m) < length m" "distinct (keys (evict_stalest count m))"
    "\<And>k. k \<notin> set (keys m) \<Longrightarrow> k \<notin> set (keys (evict_stalest count m))"
proof -
  let ?n = "min count (length m)"
  let ?victims = "map snd (take ?n (sort (map (\<lambda>(key, bucket). (newest bucket, key)) m)))"
  have n: "?n \<noteq> 0" using assms(2,3) by simp
  have eq: "evict_stalest count m = filter (\<lambda>(key, _). key \<notin> set ?victims) m"
    using n by (simp add: evict_stalest_def Let_def)
  have "set ?victims \<subseteq> snd ` set (map (\<lambda>(key, bucket). (newest bucket, key)) m)"
    using set_take_subset by fastforce
  also have "\<dots> = set (keys m)"
    by (force simp: keys_def)
  finally have sub: "set ?victims \<subseteq> set (keys m)" .
  have "length ?victims = ?n" by simp
  with n have "?victims \<noteq> []" by (metis list.size(3))
  then obtain v where v: "v \<in> set ?victims" by (cases ?victims) auto
  then obtain b where "(v, b) \<in> set m" using sub by (auto simp: keys_def)
  with v show "length (evict_stalest count m) < length m"
    unfolding eq by (intro length_filter_less [of "(v, b)"]) auto
  show "distinct (keys (evict_stalest count m))"
    unfolding eq by (rule distinct_keys_filter [OF assms(1)])
  show "k \<notin> set (keys (evict_stalest count m))" if "k \<notin> set (keys m)" for k
    unfolding eq using that set_keys_filter by blast
qed

lemma evict_keys: "set (keys (evict_stalest count m)) \<subseteq> set (keys m)"
  by (auto simp: evict_stalest_def Let_def dest: set_keys_filter [THEN subsetD])

lemma length_update_le:
  "length (AList.update k v m) = (if k \<in> set (keys m) then length m else Suc (length m))"
  by (induction m) (auto simp: keys_def)

definition tracked_ok :: "buckets \<Rightarrow> bool" where
  "tracked_ok b \<longleftrightarrow> distinct (keys (bk_map b)) \<and> length (bk_map b) \<le> MAX_TRACKED_IPS"

lemma sweep_tracked_ok: "tracked_ok b \<Longrightarrow> tracked_ok (sweep_if_due now cutoff window b)"
  using sweep_map [of now cutoff window b]
    distinct_keys_filter [of "bk_map b" "\<lambda>(_, bucket). bucket \<noteq> [] \<and> last bucket > cutoff"]
  unfolding tracked_ok_def by (elim disjE) (simp_all add: le_trans [OF length_filter_le])

lemma check_at_tracked:
  assumes "tracked_ok b"
  shows "tracked_ok (snd (check_at checked_sub li ip now b))"
proof -
  let ?key = "limiter_key ip"
  let ?b1 = "sweep_if_due now (cutoff_at checked_sub now (li_window li)) (li_window li) b"
  let ?m = "if length (bk_map ?b1) \<ge> MAX_TRACKED_IPS \<and> \<not> contains_key ?key (bk_map ?b1)
    then evict_stalest EVICT_BATCH (bk_map ?b1) else bk_map ?b1"
  have ok: "tracked_ok ?b1" by (rule sweep_tracked_ok [OF assms])
  have "distinct (keys ?m) \<and> (?key \<in> set (keys ?m) \<and> length ?m \<le> MAX_TRACKED_IPS
      \<or> length ?m < MAX_TRACKED_IPS)"
  proof (cases "length (bk_map ?b1) \<ge> MAX_TRACKED_IPS \<and> \<not> contains_key ?key (bk_map ?b1)")
    case True
    then have "bk_map ?b1 \<noteq> []" by (auto simp: MAX_TRACKED_IPS_def)
    with evict_makes_room(1,2) [of "bk_map ?b1" EVICT_BATCH] ok True show ?thesis
      by (simp add: tracked_ok_def EVICT_BATCH_def MAX_TRACKED_IPS_def)
  next
    case False
    with ok show ?thesis by (auto simp: tracked_ok_def contains_key_iff)
  qed
  then show ?thesis
    by (auto simp: check_at_def Let_def tracked_ok_def split_beta distinct_keys_update length_update_le)
qed

section \<open>Properties\<close>


definition sample_limiter :: limiter where
  "sample_limiter = new_limiter 2 60 False ''/api/yggdrasil''"


lemma answers_tracked: "tracked_ok b \<Longrightarrow> tracked_ok (snd (answers (limiter_step checked_sub li) ops b))"
  by (induction ops arbitrary: b)
    (simp_all add: split_beta Let_def limiter_step_def check_at_tracked)

text \<open>
  After any sequence of attempts, from any number of addresses and whatever the clock does, the
  limiter tracks at most its fixed number of keys; and making room never turns a newcomer away: an
  attempt from a key that is not tracked is admitted, as long as the configuration admits any.
\<close>

theorem limiter_bounded_and_open:
  assumes "b = snd (answers (limiter_step checked_sub li) ops empty_buckets)"
  shows "length (bk_map b) \<le> MAX_TRACKED_IPS
    \<and> (\<not> contains_key (limiter_key ip) (bk_map b) \<longrightarrow>
         fst (check_at checked_sub li ip now b) = (0 < li_max_attempts li))"
proof -
  let ?key = "limiter_key ip"
  let ?b1 = "sweep_if_due now (cutoff_at checked_sub now (li_window li)) (li_window li) b"
  let ?m = "if length (bk_map ?b1) \<ge> MAX_TRACKED_IPS \<and> \<not> contains_key ?key (bk_map ?b1)
    then evict_stalest EVICT_BATCH (bk_map ?b1) else bk_map ?b1"
  have ok: "tracked_ok b"
    unfolding assms by (rule answers_tracked) (simp add: tracked_ok_def empty_buckets_def keys_def)
  have "bucket_of ?key ?m = []" if "\<not> contains_key ?key (bk_map b)"
  proof -
    have "?key \<notin> set (keys (bk_map ?b1))"
      using that sweep_map [of now "cutoff_at checked_sub now (li_window li)" "li_window li" b]
        set_keys_filter [of _ "bk_map b"]
      by (auto simp: contains_key_iff) blast
    then have "?key \<notin> set (keys ?m)"
      using evict_keys by auto
    then show ?thesis by (rule bucket_of_absent)
  qed
  then have "fst (check_at checked_sub li ip now b) = (0 < li_max_attempts li)"
    if "\<not> contains_key ?key (bk_map b)"
    using that by (simp add: check_at_def Let_def split_beta admit_def)
  with ok show ?thesis by (simp add: tracked_ok_def)
qed

text \<open>
  IPv4 peers accepted on an IPv6 socket arrive as \<^verbatim>\<open>::ffff:a.b.c.d\<close>; truncating them to a /64 gives
  them all one key.
\<close>

lemma drop_bit_ucast_ipv4: "drop_bit 64 (ucast (a :: 32 word) :: 128 word) = 0"
  by (rule bit_word_eqI) (auto simp: bit_drop_bit_eq bit_ucast_iff dest: bit_imp_le_length)

lemma mapped_ipv4_key:
  "limiter_key (V6 (or 0xFFFF00000000 (ucast (a :: 32 word)))) = V6 0"
proof -
  have "drop_bit 64 (or 0xFFFF00000000 (ucast a) :: 128 word) = drop_bit 64 0xFFFF00000000"
    by (simp only: drop_bit_or drop_bit_ucast_ipv4 or.right_neutral)
  also have "\<dots> = 0"
    by (simp add: drop_bit_eq_div)
  finally show ?thesis by simp
qed

lemma mapped_ipv4_share_key:
  "limiter_key (V6 (or 0xFFFF00000000 (ucast (a :: 32 word))))
    = limiter_key (V6 (or 0xFFFF00000000 (ucast (b :: 32 word))))"
  by (simp only: mapped_ipv4_key)

end
