(* ===== verification/Files.thy ===== *)
theory Files
  imports Text "HOL-Library.Sublist"
begin

text \<open>
  What the services use of \<^verbatim>\<open>std::fs\<close> and \<^verbatim>\<open>tokio::fs\<close>, on a POSIX file system without links.
  A path is the list of its components below \<^verbatim>\<open>/\<close>; a file system lists the paths that exist. Every
  operation may also fail for a reason outside the model (no space, no permission): \<open>io_ok\<close> says of
  each operation of a request whether the kernel performs it, \<open>io_mtime\<close> what it reports as the
  modification time of a path, \<open>io_text\<close> how an error is written out.
\<close>

section \<open>State\<close>

type_synonym path = "string list"

datatype entry = Directory | Regular string

type_synonym fs = "(path \<times> entry) list"

datatype fs_op =
  Mkdir path | Write path | Rename path path | Remove path | List path | Read path
| Create path | Append path | Flush path | Open path | Stat path

text \<open>The kind of a failure: the path does not exist, or anything else.\<close>

datatype io_error = Missing | Refused

record io =
  io_ok :: "fs_op \<Rightarrow> bool"
  io_mtime :: "path \<Rightarrow> int option"
  io_short :: "path \<Rightarrow> nat"
  io_text :: "io_error \<Rightarrow> string"

definition working :: io where
  "working = \<lparr>io_ok = (\<lambda>_. True), io_mtime = (\<lambda>_. None), io_short = (\<lambda>_. 0),
     io_text = (\<lambda>_. ''io error'')\<rparr>"

definition stat :: "fs \<Rightarrow> path \<Rightarrow> entry option" where
  "stat fs p = (if p = [] then Some Directory else map_of fs p)"

definition path_exists :: "fs \<Rightarrow> path \<Rightarrow> bool" where
  "path_exists fs p \<longleftrightarrow> stat fs p \<noteq> None"

text \<open>Every path is listed once, below a directory that is listed too.\<close>

definition fs_wf :: "fs \<Rightarrow> bool" where
  "fs_wf fs \<longleftrightarrow> distinct (map fst fs)
     \<and> list_all (\<lambda>(p, _). p \<noteq> [] \<and> stat fs (butlast p) = Some Directory) fs"

section \<open>Operations\<close>

text \<open>\<^verbatim>\<open>create_dir_all\<close>: the missing ancestors one by one; what was created before a failure stays.\<close>

fun make_dirs :: "io \<Rightarrow> path list \<Rightarrow> fs \<Rightarrow> (io_error + unit) \<times> fs" where
  "make_dirs io [] fs = (Inr (), fs)"
| "make_dirs io (p # ps) fs =
     (case stat fs p of
        Some Directory \<Rightarrow> make_dirs io ps fs
      | Some (Regular _) \<Rightarrow> (Inl Refused, fs)
      | None \<Rightarrow> if io_ok io (Mkdir p) then make_dirs io ps ((p, Directory) # fs) else (Inl Refused, fs))"

definition lineage :: "path \<Rightarrow> path list" where
  "lineage p = map (\<lambda>n. take n p) [1..<Suc (length p)]"

definition create_dir_all :: "io \<Rightarrow> path \<Rightarrow> fs \<Rightarrow> (io_error + unit) \<times> fs" where
  "create_dir_all io p fs = make_dirs io (lineage p) fs"

definition put_entry :: "path \<Rightarrow> entry \<Rightarrow> fs \<Rightarrow> fs" where
  "put_entry p e fs = (p, e) # filter (\<lambda>(q, _). q \<noteq> p) fs"

text \<open>\<^verbatim>\<open>fs::write\<close>, \<^verbatim>\<open>File::create\<close> followed by writes: the parent must be a directory.\<close>

definition write_path :: "io \<Rightarrow> path \<Rightarrow> string \<Rightarrow> fs \<Rightarrow> (io_error + unit) \<times> fs" where
  "write_path io p content fs =
     (if p = [] \<or> stat fs p = Some Directory then (Inl Refused, fs)
      else if stat fs (butlast p) = None then (Inl Missing, fs)
      else if stat fs (butlast p) \<noteq> Some Directory \<or> \<not> io_ok io (Write p) then (Inl Refused, fs)
      else (Inr (), put_entry p (Regular content) fs))"

text \<open>\<^verbatim>\<open>File::create\<close>: an empty file, or the file at that path truncated.\<close>

definition create_file :: "io \<Rightarrow> path \<Rightarrow> fs \<Rightarrow> (io_error + unit) \<times> fs" where
  "create_file io p fs =
     (if p = [] \<or> stat fs p = Some Directory then (Inl Refused, fs)
      else if stat fs (butlast p) = None then (Inl Missing, fs)
      else if stat fs (butlast p) \<noteq> Some Directory \<or> \<not> io_ok io (Create p) then (Inl Refused, fs)
      else (Inr (), put_entry p (Regular []) fs))"

text \<open>Writing to the file just created; a failing write leaves a part of the content behind.\<close>

definition fill_file :: "io \<Rightarrow> path \<Rightarrow> string \<Rightarrow> fs \<Rightarrow> (io_error + unit) \<times> fs" where
  "fill_file io p content fs =
     (if io_ok io (Append p) then (Inr (), put_entry p (Regular content) fs)
      else (Inl Refused, put_entry p (Regular (take (io_short io p) content)) fs))"

text \<open>\<^verbatim>\<open>File::open\<close>, which also opens a directory.\<close>

definition open_path :: "io \<Rightarrow> path \<Rightarrow> fs \<Rightarrow> io_error + unit" where
  "open_path io p fs =
     (if stat fs p = None then Inl Missing else if io_ok io (Open p) then Inr () else Inl Refused)"

definition read_path :: "io \<Rightarrow> path \<Rightarrow> fs \<Rightarrow> io_error + string" where
  "read_path io p fs =
     (case stat fs p of
        None \<Rightarrow> Inl Missing
      | Some Directory \<Rightarrow> Inl Refused
      | Some (Regular content) \<Rightarrow> if io_ok io (Read p) then Inr content else Inl Refused)"

definition remove_file :: "io \<Rightarrow> path \<Rightarrow> fs \<Rightarrow> (io_error + unit) \<times> fs" where
  "remove_file io p fs =
     (case stat fs p of
        None \<Rightarrow> (Inl Missing, fs)
      | Some Directory \<Rightarrow> (Inl Refused, fs)
      | Some (Regular _) \<Rightarrow>
          if io_ok io (Remove p) then (Inr (), filter (\<lambda>(q, _). q \<noteq> p) fs) else (Inl Refused, fs))"

definition cut_tree :: "path \<Rightarrow> fs \<Rightarrow> fs" where
  "cut_tree p fs = filter (\<lambda>(q, _). \<not> prefix p q) fs"

definition remove_dir_all :: "io \<Rightarrow> path \<Rightarrow> fs \<Rightarrow> (io_error + unit) \<times> fs" where
  "remove_dir_all io p fs =
     (case stat fs p of
        None \<Rightarrow> (Inl Missing, fs)
      | Some (Regular _) \<Rightarrow> (Inl Refused, fs)
      | Some Directory \<Rightarrow>
          if io_ok io (Remove p) then (Inr (), cut_tree p fs) else (Inl Refused, fs))"

definition regraft :: "path \<Rightarrow> path \<Rightarrow> path \<Rightarrow> path" where
  "regraft p q r = (if prefix p r then q @ drop (length p) r else r)"

text \<open>
  \<^verbatim>\<open>rename(2)\<close>: a file replaces a file, a directory replaces an empty directory, nothing else
  replaces anything; a directory does not move below itself.
\<close>

definition replaceable :: "fs \<Rightarrow> entry \<Rightarrow> path \<Rightarrow> bool" where
  "replaceable fs e q =
     (case (e, stat fs q) of
        (_, None) \<Rightarrow> True
      | (Regular _, Some (Regular _)) \<Rightarrow> True
      | (Directory, Some Directory) \<Rightarrow> list_all (\<lambda>(r, _). \<not> strict_prefix q r) fs
      | _ \<Rightarrow> False)"

definition rename_path :: "io \<Rightarrow> path \<Rightarrow> path \<Rightarrow> fs \<Rightarrow> (io_error + unit) \<times> fs" where
  "rename_path io p q fs =
     (case stat fs p of
        None \<Rightarrow> (Inl Missing, fs)
      | Some e \<Rightarrow>
          if p = [] \<or> q = [] then (Inl Refused, fs)
          else if stat fs (butlast q) = None then (Inl Missing, fs)
          else if stat fs (butlast q) \<noteq> Some Directory \<or> \<not> io_ok io (Rename p q) then (Inl Refused, fs)
          else if p = q then (Inr (), fs)
          else if strict_prefix p q \<or> \<not> replaceable fs e q then (Inl Refused, fs)
          else (Inr (), map (\<lambda>(r, e). (regraft p q r, e)) (filter (\<lambda>(r, _). r \<noteq> q) fs)))"

text \<open>\<^verbatim>\<open>read_dir\<close>: the entries of a directory, in the order the kernel keeps them.\<close>

definition children :: "path \<Rightarrow> fs \<Rightarrow> (path \<times> entry) list" where
  "children p fs = filter (\<lambda>(q, _). q \<noteq> [] \<and> butlast q = p) fs"

section \<open>Well-formed file systems\<close>

lemma stat_root [simp]: "stat fs [] = Some Directory"
  by (simp add: stat_def)

lemma stat_in: "fs_wf fs \<Longrightarrow> (p, e) \<in> set fs \<Longrightarrow> stat fs p = Some e"
  by (auto simp: fs_wf_def stat_def list_all_iff)

lemma stat_SomeD: "stat fs p = Some e \<Longrightarrow> p \<noteq> [] \<Longrightarrow> (p, e) \<in> set fs"
  by (auto simp: stat_def dest: map_of_SomeD)

lemma stat_iff: "fs_wf fs \<Longrightarrow> p \<noteq> [] \<Longrightarrow> stat fs p = Some e \<longleftrightarrow> (p, e) \<in> set fs"
  by (auto intro: stat_in dest: stat_SomeD)

lemma stat_parent: "fs_wf fs \<Longrightarrow> stat fs p = Some e \<Longrightarrow> p \<noteq> [] \<Longrightarrow> stat fs (butlast p) = Some Directory"
  using stat_SomeD [of fs p e] by (auto simp: fs_wf_def list_all_iff)

text \<open>Whatever exists lies below directories.\<close>

lemma stat_ancestor:
  assumes "fs_wf fs" "stat fs p = Some e" "strict_prefix q p"
  shows "stat fs q = Some Directory"
  using assms(2,3)
proof (induction p arbitrary: e rule: rev_induct)
  case (snoc x p)
  then have "stat fs p = Some Directory"
    using stat_parent [OF assms(1), of "p @ [x]" e] by simp
  with snoc show ?case
    by (cases "q = p") (auto simp: strict_prefix_def)
qed simp

lemma stat_below_file: "fs_wf fs \<Longrightarrow> stat fs q = Some (Regular c) \<Longrightarrow> strict_prefix q p \<Longrightarrow> stat fs p = None"
  using stat_ancestor [of fs p _ q] by (cases "stat fs p") auto

lemma stat_below_missing:
  assumes "fs_wf fs" "stat fs q = None" "prefix q p"
  shows "stat fs p = None"
proof (rule ccontr)
  assume "stat fs p \<noteq> None"
  then obtain e where e: "stat fs p = Some e" by auto
  with assms(2,3) have "strict_prefix q p" by (auto simp: strict_prefix_def)
  from stat_ancestor [OF assms(1) e this] assms(2) show False by simp
qed

section \<open>What the operations do\<close>

lemma map_of_filter_key:
  "map_of (filter (\<lambda>(q, _). P q) xs) p = (if P p then map_of xs p else None)"
  by (induction xs) auto

lemma stat_put: "p \<noteq> [] \<Longrightarrow> stat (put_entry p e fs) q = (if q = p then Some e else stat fs q)"
  by (auto simp: stat_def put_entry_def map_of_filter_key)

lemma stat_cut: "p \<noteq> [] \<Longrightarrow> stat (cut_tree p fs) q = (if prefix p q then None else stat fs q)"
  by (auto simp: stat_def cut_tree_def map_of_filter_key)

lemma stat_drop: "p \<noteq> [] \<Longrightarrow> stat (filter (\<lambda>(q, _). q \<noteq> p) fs) q = (if q = p then None else stat fs q)"
  by (auto simp: stat_def map_of_filter_key)

lemma distinct_filter_keys: "distinct (map fst xs) \<Longrightarrow> distinct (map fst (filter P xs))"
  by (simp add: distinct_map_filter)

lemma fs_wf_cons:
  "fs_wf fs \<Longrightarrow> stat fs p = None \<Longrightarrow> stat fs (butlast p) = Some Directory \<Longrightarrow> p \<noteq> []
     \<Longrightarrow> fs_wf ((p, e) # fs)"
proof -
  assume wf: "fs_wf fs" and p: "stat fs p = None" "stat fs (butlast p) = Some Directory" "p \<noteq> []"
  have st: "stat ((p, e) # fs) q = (if q = p then Some e else stat fs q)" for q
    using p(3) by (simp add: stat_def)
  have "butlast q \<noteq> p" if "(q, e') \<in> set fs" for q e'
    using that wf p(1) by (auto simp: fs_wf_def list_all_iff)
  moreover have "p \<notin> fst ` set fs"
    using p(1,3) by (auto simp: stat_def map_of_eq_None_iff)
  moreover have "butlast p \<noteq> p" using p(3) by (metis append_butlast_last_id not_Cons_self2 self_append_conv)
  ultimately show ?thesis using wf p by (auto simp: fs_wf_def list_all_iff st)
qed

lemma stat_Cons: "p \<noteq> [] \<Longrightarrow> stat ((p, e) # fs) q = (if q = p then Some e else stat fs q)"
  by (simp add: stat_def)

text \<open>Making directories only adds directories, all of them when it succeeds.\<close>

lemma stat_make_dirs:
  assumes "make_dirs io ps fs = (r, fs')" "[] \<notin> set ps"
  shows "stat fs' q = stat fs q \<or> stat fs q = None \<and> stat fs' q = Some Directory \<and> q \<in> set ps"
  using assms
proof (induction ps arbitrary: fs)
  case (Cons p ps)
  show ?case
  proof (cases "stat fs p = None \<and> io_ok io (Mkdir p)")
    case True
    with Cons.prems have "make_dirs io ps ((p, Directory) # fs) = (r, fs')" by simp
    from Cons.IH [OF this] Cons.prems(2) True show ?thesis
      by (cases "q = p") (auto simp: stat_Cons)
  next
    case False
    with Cons show ?thesis by (auto split: option.splits entry.splits if_splits)
  qed
qed simp

lemma stat_make_dirs_ok:
  assumes "make_dirs io ps fs = (Inr u, fs')" "[] \<notin> set ps" "q \<in> set ps"
  shows "stat fs' q = Some Directory"
  using assms
proof (induction ps arbitrary: fs)
  case (Cons p ps)
  show ?case
  proof (cases "q \<in> set ps")
    case True
    with Cons show ?thesis by (auto split: option.splits entry.splits if_splits)
  next
    case False
    with Cons.prems(3) have "q = p" by simp
    with Cons.prems(1) obtain fs1 where "make_dirs io ps fs1 = (Inr u, fs')" "stat fs1 q = Some Directory"
      using Cons.prems(2) by (auto simp: stat_Cons split: option.splits entry.splits if_splits)
    with stat_make_dirs [of io ps fs1 "Inr u" fs' q] Cons.prems(2) show ?thesis by auto
  qed
qed simp

lemma set_lineage [simp]: "set (lineage p) = {q. prefix q p \<and> q \<noteq> []}"
proof -
  have "q \<in> set (lineage p)" if "prefix q p" "q \<noteq> []" for q
  proof -
    have "q = take (length q) p" "length q \<in> set [1..<Suc (length p)]"
      using that by (auto simp: prefix_def Suc_le_eq)
    then show ?thesis unfolding lineage_def set_map by (rule image_eqI)
  qed
  then show ?thesis by (auto simp: lineage_def take_is_prefix)
qed

lemma stat_create_dir_all:
  assumes "create_dir_all io p fs = (r, fs')"
  shows "stat fs' q = stat fs q \<or> stat fs q = None \<and> stat fs' q = Some Directory \<and> prefix q p"
  using stat_make_dirs [OF assms [unfolded create_dir_all_def], of q] by auto

lemma stat_create_dir_all_ok:
  assumes "create_dir_all io p fs = (Inr u, fs')" "prefix q p"
  shows "stat fs' q = Some Directory"
  using stat_make_dirs_ok [OF assms(1) [unfolded create_dir_all_def], of q] assms(2)
  by (cases "q = []") auto

lemma fs_wf_make_dirs:
  assumes "make_dirs io (map (\<lambda>n. take n p) [k..<m]) fs = (r, fs')" "fs_wf fs" "0 < k" "m \<le> Suc (length p)"
    and "stat fs (take (k - 1) p) = Some Directory"
  shows "fs_wf fs'"
  using assms
proof (induction "m - k" arbitrary: k fs)
  case (Suc i)
  then have k: "[k..<m] = k # [Suc k..<m]" "k \<le> length p"
    by (auto simp: upt_rec)
  have parent: "butlast (take k p) = take (k - 1) p" "take k p \<noteq> []"
    using k(2) Suc.prems(3) by (auto simp: butlast_take)
  show ?case
  proof (cases "stat fs (take k p)")
    case None
    show ?thesis
    proof (cases "io_ok io (Mkdir (take k p))")
      case True
      have "fs_wf ((take k p, Directory) # fs)"
        using fs_wf_cons [OF Suc.prems(2) None] parent Suc.prems(5) by simp
      with Suc.hyps(1) [of "Suc k" "(take k p, Directory) # fs"] Suc.hyps(2) Suc.prems None True parent(2)
      show ?thesis by (simp add: k(1) stat_Cons)
    next
      case False
      with Suc.prems None show ?thesis by (simp add: k(1))
    qed
  next
    case (Some e)
    with Suc.hyps(1) [of "Suc k" fs] Suc.hyps(2) Suc.prems show ?thesis
      by (cases e) (auto simp: k(1))
  qed
qed simp

lemma fs_wf_create_dir_all: "create_dir_all io p fs = (r, fs') \<Longrightarrow> fs_wf fs \<Longrightarrow> fs_wf fs'"
  unfolding create_dir_all_def lineage_def by (erule fs_wf_make_dirs) auto

section \<open>Preservation of well-formedness\<close>

lemma butlast_neq: "p \<noteq> [] \<Longrightarrow> butlast p \<noteq> p"
  by (metis append_butlast_last_id not_Cons_self2 self_append_conv)

lemma fs_wf_put:
  assumes "fs_wf fs" "p \<noteq> []" "stat fs (butlast p) = Some Directory" "stat fs p \<noteq> Some Directory"
  shows "fs_wf (put_entry p (Regular c) fs)"
proof -
  have "butlast q \<noteq> p" if "(q, e) \<in> set fs" for q e
    using that assms(1,4) by (auto simp: fs_wf_def list_all_iff)
  with assms show ?thesis
    by (auto simp: fs_wf_def list_all_iff stat_put butlast_neq)
      (auto simp: put_entry_def distinct_filter_keys)
qed

lemma fs_wf_drop:
  assumes "fs_wf fs" "p \<noteq> []" "stat fs p \<noteq> Some Directory"
  shows "fs_wf (filter (\<lambda>(q, _). q \<noteq> p) fs)"
proof -
  have "butlast q \<noteq> p" if "(q, e) \<in> set fs" for q e
    using that assms(1,3) by (auto simp: fs_wf_def list_all_iff)
  with assms show ?thesis
    by (auto simp: fs_wf_def list_all_iff stat_drop distinct_filter_keys)
qed

lemma fs_wf_cut:
  assumes "fs_wf fs" "p \<noteq> []"
  shows "fs_wf (cut_tree p fs)"
proof -
  have "\<not> prefix p (butlast q)" if "\<not> prefix p q" for q
    using that by (metis prefix_order.trans prefixeq_butlast)
  with assms show ?thesis
    by (auto simp: fs_wf_def list_all_iff stat_cut) (auto simp: cut_tree_def distinct_filter_keys)
qed

lemma fs_wf_write_path: "write_path io p c fs = (r, fs') \<Longrightarrow> fs_wf fs \<Longrightarrow> fs_wf fs'"
  by (auto simp: write_path_def fs_wf_put split: if_splits)

lemma fs_wf_create_file: "create_file io p fs = (r, fs') \<Longrightarrow> fs_wf fs \<Longrightarrow> fs_wf fs'"
  by (auto simp: create_file_def fs_wf_put split: if_splits)

text \<open>A file that was just created takes the content.\<close>

lemma create_file_ok:
  assumes "create_file io p fs = (Inr u, fs')"
  shows "p \<noteq> []" "stat fs' p = Some (Regular [])" "stat fs' (butlast p) = Some Directory"
    "stat fs p \<noteq> Some Directory"
  using assms by (auto simp: create_file_def stat_put butlast_neq split: if_splits)

lemma stat_fill_file:
  assumes "fill_file io p c fs = (r, fs')" "p \<noteq> []"
  shows "q \<noteq> p \<Longrightarrow> stat fs' q = stat fs q" "r = Inr () \<Longrightarrow> stat fs' p = Some (Regular c)"
    "\<exists>d. stat fs' p = Some (Regular d)"
  using assms by (auto simp: fill_file_def stat_put split: if_splits)

lemma stat_create_file:
  assumes "create_file io p fs = (r, fs')"
  shows "q \<noteq> p \<Longrightarrow> stat fs' q = stat fs q"
  using assms by (auto simp: create_file_def stat_put split: if_splits)

lemma fs_wf_fill_file:
  "fill_file io p c fs = (r, fs') \<Longrightarrow> fs_wf fs \<Longrightarrow> stat fs p = Some (Regular d) \<Longrightarrow> p \<noteq> []
     \<Longrightarrow> fs_wf fs'"
  using stat_parent [of fs p] by (auto simp: fill_file_def fs_wf_put split: if_splits)

lemma fs_wf_remove_dir_all: "remove_dir_all io p fs = (r, fs') \<Longrightarrow> fs_wf fs \<Longrightarrow> p \<noteq> [] \<Longrightarrow> fs_wf fs'"
  by (auto simp: remove_dir_all_def fs_wf_cut split: option.splits entry.splits if_splits)

lemma fs_wf_remove_file: "remove_file io p fs = (r, fs') \<Longrightarrow> fs_wf fs \<Longrightarrow> fs_wf fs'"
  by (cases "p = []") (auto simp: remove_file_def fs_wf_drop split: option.splits entry.splits if_splits)

section \<open>Renaming\<close>

lemma regraft_simps [simp]: "regraft p q (p @ r) = q @ r" "regraft p q p = q" "\<not> prefix p r \<Longrightarrow> regraft p q r = r"
  by (simp_all add: regraft_def)

lemma rename_path_ok:
  assumes "rename_path io p q fs = (Inr u, fs')" "fs_wf fs" "p \<noteq> q"
  obtains e where "stat fs p = Some e" "p \<noteq> []" "q \<noteq> []" "stat fs (butlast q) = Some Directory"
    "\<not> prefix p q" "\<not> prefix q p" "\<And>r. strict_prefix q r \<Longrightarrow> stat fs r = None"
    "fs' = map (\<lambda>(r, e). (regraft p q r, e)) (filter (\<lambda>(r, _). r \<noteq> q) fs)"
    "e = Directory \<Longrightarrow> stat fs q \<in> {None, Some Directory}"
proof -
  obtain e where e: "stat fs p = Some e" "p \<noteq> []" "q \<noteq> []" "stat fs (butlast q) = Some Directory"
    "\<not> strict_prefix p q" and rep: "replaceable fs e q"
    and fs': "fs' = map (\<lambda>(r, e). (regraft p q r, e)) (filter (\<lambda>(r, _). r \<noteq> q) fs)"
    using assms(1,3) by (auto simp: rename_path_def split: option.splits if_splits)
  have below: "stat fs r = None" if "strict_prefix q r" for r
  proof (cases "stat fs q")
    case None
    with stat_below_missing [OF assms(2) None] that show ?thesis by (auto simp: strict_prefix_def)
  next
    case (Some e')
    show ?thesis
    proof (cases e')
      case Directory
      with Some rep have "list_all (\<lambda>(r, _). \<not> strict_prefix q r) fs"
        by (auto simp: replaceable_def split: entry.splits)
      with that show ?thesis
        by (cases "stat fs r") (auto simp: list_all_iff dest: stat_SomeD)
    next
      case (Regular c)
      with Some stat_below_file [OF assms(2) _ that] show ?thesis by simp
    qed
  qed
  have "\<not> prefix p q" using e(5) assms(3) by (auto simp: strict_prefix_def)
  moreover have "\<not> prefix q p" using below [of p] e(1) assms(3) by (auto simp: strict_prefix_def)
  moreover have "e = Directory \<Longrightarrow> stat fs q \<in> {None, Some Directory}"
    using rep by (auto simp: replaceable_def split: option.splits entry.splits)
  ultimately show thesis using that e(1-4) below fs' by blast
qed

lemma rename_distinct:
  assumes "distinct (map fst fs)" "\<And>r e. (r, e) \<in> set fs \<Longrightarrow> \<not> prefix q r"
  shows "distinct (map fst (map (\<lambda>(r, e). (regraft p q r, e)) fs))"
proof -
  have "inj_on (regraft p q) (set (map fst fs))"
    using assms(2) by (fastforce intro!: inj_onI simp: regraft_def prefix_def split: if_splits)
  moreover have "map fst (map (\<lambda>(r, e). (regraft p q r, e)) fs) = map (regraft p q) (map fst fs)"
    by (induction fs) auto
  ultimately show ?thesis using assms(1) by (simp only: distinct_map [of "regraft p q"])
qed

lemma option_eqI: "(\<And>v. a = Some v \<longleftrightarrow> b = Some v) \<Longrightarrow> a = b"
  by (cases a; cases b) auto

lemma map_of_Some_iff: "distinct (map fst xs) \<Longrightarrow> map_of xs k = Some v \<longleftrightarrow> (k, v) \<in> set xs"
  by auto

lemma stat_rename_path:
  assumes "rename_path io p q fs = (Inr u, fs')" "fs_wf fs" "p \<noteq> q"
  shows "stat fs' r = (if prefix q r then stat fs (p @ drop (length q) r)
    else if prefix p r then None else stat fs r)" (is "_ = ?rhs")
  using assms
proof (rule rename_path_ok)
  let ?fs1 = "filter (\<lambda>(r, _). r \<noteq> q) fs"
  fix e
  assume ne: "p \<noteq> []" "q \<noteq> []" and pq: "\<not> prefix p q" "\<not> prefix q p"
    and free: "\<And>r. strict_prefix q r \<Longrightarrow> stat fs r = None"
    and fs': "fs' = map (\<lambda>(r, e). (regraft p q r, e)) ?fs1"
  have out: "\<not> prefix q r" if "(r, e) \<in> set ?fs1" for r e
    using that free [of r] stat_in [OF assms(2), of r e] by (auto simp: strict_prefix_def)
  have dist: "distinct (map fst fs')"
    unfolding fs' using assms(2) by (intro rename_distinct out) (auto simp: fs_wf_def distinct_filter_keys)
  have mem: "(r, e) \<in> set fs' \<longleftrightarrow> (\<exists>r0. (r0, e) \<in> set ?fs1 \<and> regraft p q r0 = r)" for r e
    unfolding fs' by force
  show ?thesis
  proof (cases "r = []")
    case True
    with ne show ?thesis by simp
  next
    case False
    have "stat fs' r = Some e \<longleftrightarrow> ?rhs = Some e" for e
    proof -
      have "stat fs' r = Some e \<longleftrightarrow> (\<exists>r0. (r0, e) \<in> set ?fs1 \<and> regraft p q r0 = r)"
        using False dist mem by (simp add: stat_def)
      also have "\<dots> \<longleftrightarrow> ?rhs = Some e"
      proof (cases "prefix q r")
        case True
        then obtain d where r: "r = q @ d" by (auto simp: prefix_def)
        have "(\<exists>r0. (r0, e) \<in> set ?fs1 \<and> regraft p q r0 = r) \<longleftrightarrow> (p @ d, e) \<in> set fs"
        proof
          assume "\<exists>r0. (r0, e) \<in> set ?fs1 \<and> regraft p q r0 = r"
          then obtain r0 where r0: "(r0, e) \<in> set ?fs1" "regraft p q r0 = q @ d" by (auto simp: r)
          with out [OF r0(1)] have "prefix p r0" by (cases "prefix p r0") auto
          with r0 show "(p @ d, e) \<in> set fs" by (auto simp: prefix_def)
        next
          assume "(p @ d, e) \<in> set fs"
          with pq(1) show "\<exists>r0. (r0, e) \<in> set ?fs1 \<and> regraft p q r0 = r"
            by (intro exI [of _ "p @ d"]) (auto simp: r)
        qed
        with ne(1) show ?thesis by (simp add: r stat_iff [OF assms(2)])
      next
        case nq: False
        have "regraft p q r0 = r \<longleftrightarrow> \<not> prefix p r \<and> r0 = r" for r0
          using nq by (auto simp: regraft_def)
        with nq False show ?thesis by (auto simp: stat_iff [OF assms(2)])
      qed
      finally show ?thesis .
    qed
    then show ?thesis by (rule option_eqI)
  qed
qed

lemma fs_wf_rename_path:
  assumes "rename_path io p q fs = (r, fs')" "fs_wf fs"
  shows "fs_wf fs'"
proof (cases "isl r \<or> p = q")
  case True
  with assms show ?thesis by (auto simp: rename_path_def split: option.splits if_splits)
next
  case False
  then obtain u where r: "r = Inr u" and pq: "p \<noteq> q" by (cases r) auto
  note ren = assms(1) [unfolded r]
  from ren assms(2) pq show ?thesis
  proof (rule rename_path_ok)
    fix e
    assume ne: "p \<noteq> []" "q \<noteq> []" and par: "stat fs (butlast q) = Some Directory"
      and pq': "\<not> prefix p q" "\<not> prefix q p"
      and free: "\<And>r. strict_prefix q r \<Longrightarrow> stat fs r = None"
      and fs': "fs' = map (\<lambda>(r, e). (regraft p q r, e)) (filter (\<lambda>(r, _). r \<noteq> q) fs)"
    note st = stat_rename_path [OF ren assms(2) pq]
    have "stat fs' (butlast (regraft p q r)) = Some Directory \<and> regraft p q r \<noteq> []"
      if r: "(r, e) \<in> set fs" "r \<noteq> q" for r e
    proof (cases "prefix p r")
      case True
      then obtain d where d: "r = p @ d" by (auto simp: prefix_def)
      show ?thesis
      proof (cases "d = []")
        case True
        have "\<not> prefix q (butlast q)" using ne(2) by (metis butlast_neq prefix_order.antisym prefixeq_butlast)
        moreover have "\<not> prefix p (butlast q)" using pq'(1) by (metis prefix_order.trans prefixeq_butlast)
        ultimately show ?thesis using par ne(2) by (simp add: d True st)
      next
        case False
        have "stat fs (butlast r) = Some Directory"
          using r(1) assms(2) by (auto simp: fs_wf_def list_all_iff)
        with False show ?thesis by (simp add: d st butlast_append)
      qed
    next
      case False
      have "stat fs (butlast r) = Some Directory" "r \<noteq> []"
        using r(1) assms(2) by (auto simp: fs_wf_def list_all_iff)
      moreover have "\<not> prefix q (butlast r)"
      proof
        assume "prefix q (butlast r)"
        with calculation(2) have "strict_prefix q r"
          by (metis butlast_neq prefix_order.antisym prefix_order.trans prefixeq_butlast strict_prefix_def)
        with free stat_in [OF assms(2) r(1)] show False by simp
      qed
      moreover have "\<not> prefix p (butlast r)" using False by (metis prefix_order.trans prefixeq_butlast)
      ultimately show ?thesis using False by (simp add: st)
    qed
    moreover have "distinct (map fst fs')"
      unfolding fs' using assms(2) free
      by (intro rename_distinct)
        (auto simp: fs_wf_def distinct_filter_keys strict_prefix_def dest!: stat_in [OF assms(2)])
    ultimately show ?thesis unfolding fs_wf_def by (auto simp: list_all_iff fs')
  qed
qed

end
