(* ===== verification/Bundle_Paths.thy ===== *)
theory Bundle_Paths
  imports App_Error Files
begin

text \<open>
  \<^verbatim>\<open>bundles/src/storage.rs\<close>: where a build lives on disk, and the guard that keeps a supplied
  relative path below it. \<^verbatim>\<open>Path::components\<close> is the one of Unix, where the service is deployed: no
  prefixes, \<^verbatim>\<open>/\<close> the only separator, empty segments and inner \<^verbatim>\<open>.\<close> segments skipped.
\<close>

section \<open>Layout\<close>

definition builds_root :: "path \<Rightarrow> path" where
  "builds_root storage_root = storage_root @ [''builds'']"

definition build_path :: "path \<Rightarrow> string \<Rightarrow> path" where
  "build_path storage_root slug = builds_root storage_root @ [slug]"

definition files_path :: "path \<Rightarrow> string \<Rightarrow> path" where
  "files_path storage_root slug = build_path storage_root slug @ [''files'']"

definition manifest_path :: "path \<Rightarrow> string \<Rightarrow> path" where
  "manifest_path storage_root slug = build_path storage_root slug @ [''artifacts.json'']"

abbreviation slash :: char where "slash \<equiv> CHR ''/''"

abbreviation backslash :: char where "backslash \<equiv> CHR 0x5C"

definition validate_slug :: "string \<Rightarrow> unit app_result" where
  "validate_slug slug =
     (if slug = [] \<or> slug = ''.'' \<or> slug = ''..'' \<or> slash \<in> set slug \<or> backslash \<in> set slug
        \<or> CHR 0x00 \<in> set slug
      then Inl (BadRequest ''invalid slug'') else Inr ())"

text \<open>\<^verbatim>\<open>s.replace('\', "/")\<close>\<close>

definition unify_separators :: "string \<Rightarrow> string" where
  "unify_separators s = map (\<lambda>c. if c = backslash then slash else c) s"

definition public_url :: "string \<Rightarrow> string \<Rightarrow> string \<Rightarrow> string" where
  "public_url public_prefix slug relative_path =
     trim_end_matches slash public_prefix @ ''/builds/'' @ slug @ ''/files/''
       @ unify_separators relative_path"

section \<open>Relative paths\<close>

datatype component = RootDir | CurDir | ParentDir | Normal string

definition segment_component :: "string \<Rightarrow> component list" where
  "segment_component s =
     (if s = [] \<or> s = ''.'' then [] else if s = ''..'' then [ParentDir] else [Normal s])"

definition components :: "string \<Rightarrow> component list" where
  "components s =
     (let segments = split_on slash s in
      (if starts_with [slash] s then [RootDir] else if hd segments = ''.'' then [CurDir] else [])
        @ concat (map segment_component segments))"

text \<open>The loop over the components: \<open>None\<close> is its early return.\<close>

fun collect_normal :: "component list \<Rightarrow> string list option" where
  "collect_normal [] = Some []"
| "collect_normal (Normal s # cs) =
     map_option (\<lambda>parts. if s = [] then parts else s # parts) (collect_normal cs)"
| "collect_normal (CurDir # cs) = collect_normal cs"
| "collect_normal (ParentDir # cs) = None"
| "collect_normal (RootDir # cs) = None"

definition em_dash :: string where
  "em_dash = [CHR 0xE2, CHR 0x80, CHR 0x94]"

definition normalize_relative_path :: "string \<Rightarrow> string \<Rightarrow> string app_result" where
  "normalize_relative_path raw field =
     (let unified = unify_separators raw in
      if starts_with [slash] unified
      then Inl (BadRequest (''invalid '' @ field @ '' '' @ em_dash @ '' must be a relative path''))
      else
        (case collect_normal (components unified) of
           None \<Rightarrow> Inl (BadRequest (field @ '' escapes the build directory''))
         | Some parts \<Rightarrow>
             if parts = [] then Inl (BadRequest (field @ '' is required''))
             else Inr (join_with slash parts)))"

definition split_relative_path :: "string \<Rightarrow> string \<times> string" where
  "split_relative_path relative_path =
     (let parts = split_on slash relative_path in
      (last parts, if length parts > 1 then hd parts else ''root''))"

text \<open>
  \<^verbatim>\<open>join_files\<close> and \<^verbatim>\<open>rel_to_native\<close> of \<^verbatim>\<open>repo.rs\<close>; pushing an empty segment adds nothing.
\<close>

definition rel_to_native :: "string \<Rightarrow> path" where
  "rel_to_native relative_path = filter (\<lambda>s. s \<noteq> []) (split_on slash relative_path)"

definition join_files :: "path \<Rightarrow> string \<Rightarrow> path" where
  "join_files files_root relative_path = files_root @ rel_to_native relative_path"

section \<open>What the guard lets through\<close>

definition safe_segment :: "string \<Rightarrow> bool" where
  "safe_segment s \<longleftrightarrow> s \<noteq> [] \<and> s \<noteq> ''.'' \<and> s \<noteq> ''..'' \<and> slash \<notin> set s \<and> backslash \<notin> set s"

text \<open>The paths the registry stores: safe segments joined by slashes.\<close>

definition safe_path :: "string \<Rightarrow> bool" where
  "safe_path p \<longleftrightarrow> list_all safe_segment (split_on slash p)"

lemma collect_segments:
  assumes "\<And>s. s \<in> set ss \<Longrightarrow> backslash \<notin> set s \<and> slash \<notin> set s"
  shows "collect_normal (concat (map segment_component ss)) =
    (if ''..'' \<in> set ss then None else Some (filter safe_segment ss))"
  using assms
  by (induction ss) (auto simp: segment_component_def safe_segment_def)

lemma unify_no_backslash [simp]: "backslash \<notin> set (unify_separators s)"
  by (auto simp: unify_separators_def)

lemma unify_id: "backslash \<notin> set s \<Longrightarrow> unify_separators s = s"
  by (auto simp: unify_separators_def intro: map_idI)

lemma split_on_subset: "p \<in> set (split_on c s) \<Longrightarrow> set p \<subseteq> set s"
proof (induction s arbitrary: p)
  case (Cons x xs)
  then show ?case by (fastforce split: if_splits list.splits)
qed simp

lemma collect_components:
  assumes "backslash \<notin> set s" "\<not> starts_with [slash] s"
  shows "collect_normal (components s) =
    (if ''..'' \<in> set (split_on slash s) then None else Some (filter safe_segment (split_on slash s)))"
proof -
  have "backslash \<notin> set p \<and> slash \<notin> set p" if "p \<in> set (split_on slash s)" for p
    using split_on_no_sep [OF that] split_on_subset [OF that] assms(1) by auto
  from collect_segments [OF this] assms(2) show ?thesis
    by (simp add: components_def Let_def)
qed

lemma safe_path_join:
  assumes "parts \<noteq> []" "list_all safe_segment parts"
  shows "safe_path (join_with slash parts)" "split_on slash (join_with slash parts) = parts"
proof -
  show "split_on slash (join_with slash parts) = parts"
    using assms by (intro split_join_with) (auto simp: list_all_iff safe_segment_def)
  then show "safe_path (join_with slash parts)" by (simp add: safe_path_def assms(2))
qed

text \<open>Exactly when the guard accepts, and what it returns.\<close>

lemma normalize_iff:
  "normalize_relative_path raw field = Inr p \<longleftrightarrow>
     (let segments = split_on slash (unify_separators raw); parts = filter safe_segment segments in
      \<not> starts_with [slash] (unify_separators raw) \<and> ''..'' \<notin> set segments \<and> parts \<noteq> []
      \<and> p = join_with slash parts)"
  by (auto simp: normalize_relative_path_def Let_def collect_components split: option.splits if_splits)

lemma normalize_safe: "normalize_relative_path raw field = Inr p \<Longrightarrow> safe_path p"
  unfolding normalize_iff Let_def by (auto intro!: safe_path_join simp: list_all_iff)

lemma safe_path_segments: "safe_path p \<Longrightarrow> s \<in> set (split_on slash p) \<Longrightarrow> safe_segment s"
  by (simp add: safe_path_def list_all_iff)

lemma safe_path_native: "safe_path p \<Longrightarrow> rel_to_native p = split_on slash p"
  by (auto simp: rel_to_native_def safe_segment_def dest: safe_path_segments intro!: filter_True)

lemma native_inj: "safe_path p \<Longrightarrow> safe_path q \<Longrightarrow> rel_to_native p = rel_to_native q \<longleftrightarrow> p = q"
  by (metis join_split_on safe_path_native)

lemma native_ne [simp]: "safe_path p \<Longrightarrow> rel_to_native p \<noteq> []"
  by (simp add: safe_path_native)

lemma safe_path_chars:
  assumes "safe_path p"
  shows "backslash \<notin> set p" "\<not> starts_with [slash] p"
proof -
  have "set (join_with slash ss) \<subseteq> insert slash (\<Union>(set ` set ss))" for ss
    by (induction ss rule: join_with.induct) auto
  from this [of "split_on slash p"] show "backslash \<notin> set p"
    using safe_path_segments [OF assms] by (auto simp: safe_segment_def)
  show "\<not> starts_with [slash] p"
    using assms by (cases p) (auto simp: safe_path_def safe_segment_def starts_with_iff)
qed

lemma normalize_idem:
  assumes "safe_path p"
  shows "normalize_relative_path p field = Inr p"
proof -
  have "filter safe_segment (split_on slash p) = split_on slash p"
    using safe_path_segments [OF assms] by (auto intro: filter_True)
  moreover have "''..'' \<notin> set (split_on slash p)"
    using safe_path_segments [OF assms] by (auto simp: safe_segment_def)
  ultimately show ?thesis
    unfolding normalize_iff Let_def using safe_path_chars [OF assms] by (simp add: unify_id)
qed

text \<open>
  C22. A path that passes the guard stays inside its build: whatever an archive entry or an
  administrator supplies, the place on disk is the build's file directory followed by at least one
  plain segment and never climbs, the accepted spelling is a fixed point of the guard, and two
  accepted paths share a place on disk only if they are equal.
\<close>

theorem normalized_paths_confined:
  assumes "normalize_relative_path raw field = Inr p" "validate_slug slug = Inr ()"
  shows "\<exists>segments. join_files (files_path root slug) p = root @ [''builds'', slug, ''files''] @ segments
      \<and> segments \<noteq> [] \<and> list_all safe_segment segments
    \<and> slug \<notin> {[], ''.'', ''..''} \<and> slash \<notin> set slug
    \<and> normalize_relative_path p field' = Inr p
    \<and> (normalize_relative_path raw' field' = Inr p'
        \<and> join_files (files_path root slug) p' = join_files (files_path root slug) p \<longrightarrow> p' = p)"
proof -
  have safe: "safe_path p" by (rule normalize_safe [OF assms(1)])
  have "join_files (files_path root slug) p = root @ [''builds'', slug, ''files''] @ split_on slash p"
    by (simp add: join_files_def files_path_def build_path_def builds_root_def safe_path_native [OF safe])
  moreover have "list_all safe_segment (split_on slash p)" using safe by (simp add: safe_path_def)
  moreover have "p' = p" if "normalize_relative_path raw' field' = Inr p'"
    "join_files (files_path root slug) p' = join_files (files_path root slug) p"
    using that native_inj [OF normalize_safe [OF that(1)] safe] by (simp add: join_files_def)
  moreover have "slug \<notin> {[], ''.'', ''..''} \<and> slash \<notin> set slug"
    using assms(2) by (auto simp: validate_slug_def split: if_splits)
  ultimately show ?thesis using normalize_idem [OF safe, of field'] by (intro exI [of _ "split_on slash p"]) simp
qed

theorem normalized_paths_confined_witness:
  "\<exists>segments. join_files (files_path [''srv''] ''pack'') ''mods/a.jar'' =
    [''srv'', ''builds'', ''pack'', ''files''] @ segments \<and> segments \<noteq> [] \<and> list_all safe_segment segments"
proof -
  have "normalize_relative_path (''mods'' @ [backslash] @ ''./a.jar'') ''entry'' = Inr ''mods/a.jar''"
    "validate_slug ''pack'' = Inr ()"
    by code_simp+
  from normalized_paths_confined [OF this, where root = "[''srv'']" and field' = "[]" and raw' = "[]"
      and p' = "[]"]
  show ?thesis by auto
qed

lemma traversal_rejected:
  "normalize_relative_path ''../etc/passwd'' ''p'' = Inl (BadRequest ''p escapes the build directory'')"
  "normalize_relative_path ''a/../../b'' ''p'' = Inl (BadRequest ''p escapes the build directory'')"
  "normalize_relative_path ''./'' ''p'' = Inl (BadRequest ''p is required'')"
  by code_simp+

end
