(* ===== verification/Launcher_Store.thy ===== *)
theory Launcher_Store
  imports Queries Bundle_Paths
begin

text \<open>
  The tables of migrations 0006, 0007, 0009, 0013 and 0020 (the launcher catalog and the bundle
  registry) and the disk below the storage roots. Rows are records with the columns the code uses; the numeric
  \<^verbatim>\<open>seq\<close> columns of 0009 are never read. Both registries share the table of bundles, which a
  catalog client references with \<^verbatim>\<open>ON DELETE SET NULL\<close>.
\<close>

section \<open>Rows\<close>

record bundle_row =
  bu_id :: uuid
  bu_slug :: string
  bu_name :: string
  bu_description :: "string option"
  bu_version :: "string option"
  bu_status :: string
  bu_files_count :: "32 word"
  bu_total_size :: "64 word"
  bu_processing_error :: "string option"
  bu_last_generated_at :: "timestamp option"
  bu_created_at :: timestamp
  bu_updated_at :: timestamp

record artifact =
  ba_id :: uuid
  ba_bundle_id :: uuid
  ba_relative_path :: string
  ba_name :: string
  ba_category :: string
  ba_size :: "64 word"
  ba_sha256 :: "string option"
  ba_is_dir :: bool
  ba_download_once :: bool
  ba_file_modified_at :: "timestamp option"

record client =
  cl_id :: uuid
  cl_slug :: string
  cl_available :: bool
  cl_minecraft_version :: "string option"
  cl_forge_version :: "string option"
  cl_fabric_version :: "string option"
  cl_runtime_version :: "string option"
  cl_bundle_slug :: "string option"
  cl_bundle_id :: "uuid option"
  cl_sort_order :: int
  cl_published_at :: "timestamp option"
  cl_created_at :: timestamp
  cl_updated_at :: timestamp

record client_locale =
  lo_client_id :: uuid
  lo_locale :: string
  lo_title :: string
  lo_description :: "string option"
  lo_short_description :: "string option"

record media =
  me_id :: uuid
  me_client_id :: uuid
  me_role :: string
  me_url :: string
  me_ext :: string
  me_mime :: string
  me_width :: "32 word option"
  me_height :: "32 word option"
  me_size :: int
  me_sort_order :: int
  me_created_at :: timestamp

record keyword =
  kw_id :: uuid
  kw_slug :: string
  kw_published_at :: "timestamp option"
  kw_created_at :: timestamp
  kw_updated_at :: timestamp

record keyword_locale =
  kl_keyword_id :: uuid
  kl_locale :: string
  kl_title :: string

record server =
  sv_id :: uuid
  sv_slug :: string
  sv_name :: "string option"
  sv_address :: string
  sv_published_at :: "timestamp option"
  sv_created_at :: timestamp
  sv_updated_at :: timestamp

text \<open>\<^verbatim>\<open>catalog_client_keywords\<close> and \<^verbatim>\<open>catalog_client_servers\<close>.\<close>

record link =
  ln_client_id :: uuid
  ln_target_id :: uuid
  ln_sort_order :: int

record store =
  bundles :: "bundle_row list"
  artifacts :: "artifact list"
  clients :: "client list"
  client_locales :: "client_locale list"
  media_rows :: "media list"
  keyword_rows :: "keyword list"
  keyword_locales :: "keyword_locale list"
  servers :: "server list"
  client_keywords :: "link list"
  client_servers :: "link list"
  disk :: fs

definition empty_store :: store where
  "empty_store = \<lparr>bundles = [], artifacts = [], clients = [], client_locales = [], media_rows = [],
     keyword_rows = [], keyword_locales = [], servers = [], client_keywords = [], client_servers = [],
     disk = []\<rparr>"

type_synonym 'a store_handler = "store \<Rightarrow> 'a app_result \<times> store"

text \<open>The configuration the two registries read.\<close>

record launcher_config =
  lc_bundles_root :: path
  lc_bundles_public :: string
  lc_catalog_root :: path

section \<open>Constraints\<close>

definition artifact_key :: "artifact \<Rightarrow> uuid \<times> string" where
  "artifact_key a = (ba_bundle_id a, ba_relative_path a)"

definition bundle_tables_wf :: "store \<Rightarrow> bool" where
  "bundle_tables_wf s \<longleftrightarrow>
     unique_index always bu_id (bundles s) \<and> unique_index always bu_slug (bundles s)
   \<and> unique_index always ba_id (artifacts s) \<and> unique_index always artifact_key (artifacts s)
   \<and> fk ba_bundle_id (map bu_id (bundles s)) (artifacts s)"

definition client_tables_wf :: "store \<Rightarrow> bool" where
  "client_tables_wf s \<longleftrightarrow>
     unique_index always cl_id (clients s) \<and> unique_index always cl_slug (clients s)
   \<and> fk_opt cl_bundle_id (map bu_id (bundles s)) (clients s)
   \<and> unique_index always (\<lambda>l. (lo_client_id l, lo_locale l)) (client_locales s)
   \<and> fk lo_client_id (map cl_id (clients s)) (client_locales s)
   \<and> unique_index always me_id (media_rows s)
   \<and> fk me_client_id (map cl_id (clients s)) (media_rows s)"

definition entry_tables_wf :: "store \<Rightarrow> bool" where
  "entry_tables_wf s \<longleftrightarrow>
     unique_index always kw_id (keyword_rows s) \<and> unique_index always kw_slug (keyword_rows s)
   \<and> unique_index always (\<lambda>l. (kl_keyword_id l, kl_locale l)) (keyword_locales s)
   \<and> fk kl_keyword_id (map kw_id (keyword_rows s)) (keyword_locales s)
   \<and> unique_index always sv_id (servers s) \<and> unique_index always sv_slug (servers s)
   \<and> unique_index always (\<lambda>l. (ln_client_id l, ln_target_id l)) (client_keywords s)
   \<and> fk ln_client_id (map cl_id (clients s)) (client_keywords s)
   \<and> fk ln_target_id (map kw_id (keyword_rows s)) (client_keywords s)
   \<and> unique_index always (\<lambda>l. (ln_client_id l, ln_target_id l)) (client_servers s)
   \<and> fk ln_client_id (map cl_id (clients s)) (client_servers s)
   \<and> fk ln_target_id (map sv_id (servers s)) (client_servers s)"

definition store_wf :: "store \<Rightarrow> bool" where
  "store_wf s \<longleftrightarrow> bundle_tables_wf s \<and> client_tables_wf s \<and> entry_tables_wf s \<and> fs_wf (disk s)"

lemma store_wf_empty [simp]: "store_wf empty_store"
  by (simp add: store_wf_def bundle_tables_wf_def client_tables_wf_def entry_tables_wf_def
      empty_store_def fs_wf_def fk_def fk_opt_def)

text \<open>The tables an operation does not touch keep their constraints.\<close>

lemma tables_wf_disk [simp]:
  "bundle_tables_wf (s\<lparr>disk := fs\<rparr>) = bundle_tables_wf s"
  "client_tables_wf (s\<lparr>disk := fs\<rparr>) = client_tables_wf s"
  "entry_tables_wf (s\<lparr>disk := fs\<rparr>) = entry_tables_wf s"
  by (simp_all add: bundle_tables_wf_def client_tables_wf_def entry_tables_wf_def)

lemma tables_wf_artifacts [simp]:
  "client_tables_wf (s\<lparr>artifacts := as\<rparr>) = client_tables_wf s"
  "entry_tables_wf (s\<lparr>artifacts := as\<rparr>) = entry_tables_wf s"
  by (simp_all add: client_tables_wf_def entry_tables_wf_def)

lemma tables_wf_bundles [simp]: "entry_tables_wf (s\<lparr>bundles := bs\<rparr>) = entry_tables_wf s"
  by (simp add: entry_tables_wf_def)

lemma store_wf_disk [simp]: "store_wf (s\<lparr>disk := fs\<rparr>) \<longleftrightarrow> store_wf (s\<lparr>disk := []\<rparr>) \<and> fs_wf fs"
  by (simp add: store_wf_def) (auto simp: fs_wf_def)

lemma store_wfD:
  "store_wf s \<Longrightarrow> bundle_tables_wf s" "store_wf s \<Longrightarrow> client_tables_wf s"
  "store_wf s \<Longrightarrow> entry_tables_wf s" "store_wf s \<Longrightarrow> fs_wf (disk s)"
  by (simp_all add: store_wf_def)

end
