(* ===== verification/Bundle_Manifest.thy ===== *)
theory Bundle_Manifest
  imports Launcher_Store
begin

text \<open>
  \<^verbatim>\<open>bundles/src/manifest.rs\<close>: the manifest of a build, entries grouped by category in the order the
  categories first appear. \<^verbatim>\<open>IndexMap\<close> is a list of pairs with distinct keys. The counters keep the
  widths of the source and wrap as a release build does. The JSON text is \<^verbatim>\<open>serde_json\<close>'s and stays a
  parameter of the registry.
\<close>

section \<open>Definitions\<close>

record manifest_entry =
  en_path :: string
  en_name :: string
  en_size :: "64 word"
  en_is_dir :: bool
  en_sha256 :: "string option"
  en_url :: "string option"
  en_download_once :: "bool option"

type_synonym manifest = "(string \<times> manifest_entry list) list"

record built_manifest =
  bm_manifest :: manifest
  bm_files_count :: "32 word"
  bm_total_size :: "64 word"

text \<open>\<^verbatim>\<open>manifest.entry(category).or_default().push(entry)\<close>\<close>

fun index_push :: "'k \<Rightarrow> 'v \<Rightarrow> ('k \<times> 'v list) list \<Rightarrow> ('k \<times> 'v list) list" where
  "index_push k v [] = [(k, [v])]"
| "index_push k v ((k', vs) # m) = (if k' = k then (k', vs @ [v]) # m else (k', vs) # index_push k v m)"

definition category_of :: "artifact \<Rightarrow> string" where
  "category_of a = (if ba_category a = [] then ''root'' else ba_category a)"

definition entry_of :: "string \<Rightarrow> string \<Rightarrow> artifact \<Rightarrow> manifest_entry" where
  "entry_of slug public_prefix a =
     \<lparr>en_path = ba_relative_path a, en_name = ba_name a, en_size = ba_size a, en_is_dir = ba_is_dir a,
      en_sha256 = (if ba_is_dir a then None else ba_sha256 a),
      en_url = (if ba_is_dir a then None else Some (public_url public_prefix slug (ba_relative_path a))),
      en_download_once = (if ba_download_once a then Some True else None)\<rparr>"

text \<open>\<^verbatim>\<open>size.max(0)\<close> on a signed integer.\<close>

definition size_or_zero :: "64 word \<Rightarrow> 64 word" where
  "size_or_zero n = (if sint n < 0 then 0 else n)"

definition add_artifact ::
  "string \<Rightarrow> string \<Rightarrow> (artifact \<Rightarrow> bool) \<Rightarrow> artifact \<Rightarrow> built_manifest \<Rightarrow> built_manifest" where
  "add_artifact slug public_prefix exists a b =
     (if \<not> exists a then b
      else
        let b1 = (if ba_is_dir a then b
                  else b\<lparr>bm_files_count := bm_files_count b + 1,
                         bm_total_size := bm_total_size b + size_or_zero (ba_size a)\<rparr>) in
        b1\<lparr>bm_manifest := index_push (category_of a) (entry_of slug public_prefix a) (bm_manifest b1)\<rparr>)"

definition build_manifest ::
  "artifact list \<Rightarrow> string \<Rightarrow> string \<Rightarrow> (artifact \<Rightarrow> bool) \<Rightarrow> built_manifest" where
  "build_manifest as slug public_prefix exists =
     fold (add_artifact slug public_prefix exists) as
       \<lparr>bm_manifest = [], bm_files_count = 0, bm_total_size = 0\<rparr>"

section \<open>The manifest as a grouping\<close>

definition first_occurrences :: "'a list \<Rightarrow> 'a list" where
  "first_occurrences xs = rev (remdups (rev xs))"

definition grouped :: "('a \<Rightarrow> 'k) \<Rightarrow> ('a \<Rightarrow> 'v) \<Rightarrow> 'a list \<Rightarrow> ('k \<times> 'v list) list" where
  "grouped key f xs =
     map (\<lambda>k. (k, map f (filter (\<lambda>x. key x = k) xs))) (first_occurrences (map key xs))"

lemma first_occurrences_snoc:
  "first_occurrences (xs @ [x]) = (if x \<in> set xs then first_occurrences xs else first_occurrences xs @ [x])"
  by (simp add: first_occurrences_def)

lemma first_occurrences_props [simp]:
  "set (first_occurrences xs) = set xs" "distinct (first_occurrences xs)"
  by (simp_all add: first_occurrences_def)

lemma index_push_fresh: "k \<notin> fst ` set m \<Longrightarrow> index_push k v m = m @ [(k, [v])]"
  by (induction m) auto

lemma index_push_map:
  "distinct ks \<Longrightarrow> k \<in> set ks \<Longrightarrow>
     index_push k v (map (\<lambda>k. (k, g k)) ks) = map (\<lambda>k'. (k', if k' = k then g k' @ [v] else g k')) ks"
  by (induction ks) auto

lemma index_push_grouped: "index_push (key x) (f x) (grouped key f xs) = grouped key f (xs @ [x])"
proof (cases "key x \<in> set (map key xs)")
  case True
  then show ?thesis
    unfolding grouped_def
    by (simp add: first_occurrences_snoc index_push_map)
next
  case False
  then have ne: "key y \<noteq> key x" if "y \<in> set xs" for y
    using that by (metis image_eqI set_map)
  then have "filter (\<lambda>y. key y = key x) xs = []" by (simp add: filter_empty_conv)
  moreover from ne have "k \<noteq> key x" if "k \<in> set (first_occurrences (map key xs))" for k
    using that by auto
  moreover have "key x \<notin> fst ` set (grouped key f xs)"
    using False by (force simp: grouped_def)
  ultimately show ?thesis
    using False ne [THEN not_sym]
    by (simp add: index_push_fresh) (simp add: grouped_def first_occurrences_snoc)
qed

lemma add_artifact_grouped:
  assumes "bm_manifest b = grouped category_of (entry_of slug pre) xs" "exists a"
  shows "bm_manifest (add_artifact slug pre exists a b) = grouped category_of (entry_of slug pre) (xs @ [a])"
  using assms by (simp add: add_artifact_def Let_def index_push_grouped [of category_of _ "entry_of slug pre"])

lemma build_manifest_snoc:
  "build_manifest (as @ [a]) slug pre exists = add_artifact slug pre exists a (build_manifest as slug pre exists)"
  by (simp add: build_manifest_def)


lemma concat_grouped:
  "set (concat (map snd (grouped key f xs))) = f ` set xs"
  by (auto simp: grouped_def)

end
