(* ===== verification/Bundle_Repo.thy ===== *)
theory Bundle_Repo
  imports Bundle_Manifest Sample
begin

text \<open>
  \<^verbatim>\<open>bundles/src/repo.rs\<close> and the disk half of \<^verbatim>\<open>bundles/src/storage.rs\<close>: the statements over
  \<^verbatim>\<open>bundles\<close> and \<^verbatim>\<open>bundle_artifacts\<close>, the replacement of a build's rows by a scan, the move of a
  subtree and the regeneration of the manifest. A statement inside a transaction works on the store
  it is handed; the caller discards the tables of a failed transaction with \<open>roll_back\<close>, but what
  was done to the disk stays.
\<close>

section \<open>What a request brings along\<close>

text \<open>
  What the \<^verbatim>\<open>zip\<close> crate makes of an archive: its entries in the order of the central directory, each
  with the size it declares, the bytes that decode and the text of the error decoding ends in; or the
  text of the failure, of the archive or of one entry.
\<close>

record zip_entry =
  ze_name :: string
  ze_size :: "64 word"
  ze_is_dir :: bool
  ze_data :: string
  ze_broken :: "string option"

record host =
  ho_env :: env
  ho_io :: io
  ho_cfg :: launcher_config
  ho_json :: "manifest \<Rightarrow> string"
  ho_db_text :: "db_error \<Rightarrow> string"
  ho_uuid_text :: "uuid \<Rightarrow> string"
  ho_uuid_simple :: "uuid \<Rightarrow> string"
  ho_parse_uuid :: "string \<Rightarrow> uuid option"
  ho_zip :: "string \<Rightarrow> string + (string + zip_entry) list"

definition io_failure :: "host \<Rightarrow> string \<Rightarrow> io_error \<Rightarrow> app_error" where
  "io_failure h context e = Internal (context @ '': '' @ io_text (ho_io h) e)"

text \<open>\<^verbatim>\<open>err.to_string()\<close>\<close>

fun error_text :: "host \<Rightarrow> app_error \<Rightarrow> string" where
  "error_text h (BadRequest m) = m"
| "error_text h Unauthorized = ''unauthorized''"
| "error_text h Forbidden = ''forbidden''"
| "error_text h (NotFound m) = m"
| "error_text h (Conflict m) = m"
| "error_text h TooManyRequests = ''too many requests''"
| "error_text h (Database e) = ho_db_text h e"
| "error_text h (Internal m) = m"

definition roll_back :: "store \<Rightarrow> store \<Rightarrow> store" where
  "roll_back before after = before\<lparr>disk := disk after\<rparr>"

text \<open>A disk operation of a handler, its failure rendered.\<close>

definition on_disk ::
  "host \<Rightarrow> string \<Rightarrow> (fs \<Rightarrow> (io_error + 'a) \<times> fs) \<Rightarrow> store \<Rightarrow> 'a app_result \<times> store" where
  "on_disk h context f s =
     (let (r, fs) = f (disk s) in
      (case r of Inl e \<Rightarrow> Inl (io_failure h context e) | Inr v \<Rightarrow> Inr v, s\<lparr>disk := fs\<rparr>))"

section \<open>Bundles\<close>

definition list_bundles :: "store \<Rightarrow> bundle_row list" where
  "list_bundles s = newest_first bu_created_at (bundles s)"

definition find_by_slug :: "store \<Rightarrow> string \<Rightarrow> bundle_row option" where
  "find_by_slug s slug = sql_find (\<lambda>b. bu_slug b = slug) (bundles s)"

definition find_bundle_id_by_slug :: "store \<Rightarrow> string \<Rightarrow> uuid option" where
  "find_bundle_id_by_slug s slug = map_option bu_id (find_by_slug s slug)"

definition draft_bundle :: "env \<Rightarrow> nat \<Rightarrow> string \<Rightarrow> string \<Rightarrow> bundle_row" where
  "draft_bundle env k slug name =
     \<lparr>bu_id = e_uuid env k, bu_slug = slug, bu_name = name, bu_description = None, bu_version = None,
      bu_status = ''draft'', bu_files_count = 0, bu_total_size = 0, bu_processing_error = None,
      bu_last_generated_at = None, bu_created_at = e_now env, bu_updated_at = e_now env\<rparr>"

definition insert_bundle :: "bundle_row \<Rightarrow> store \<Rightarrow> db_error + store" where
  "insert_bundle r s =
     (case first_violation
         [(unique_violation always bu_id r (bundles s), UniqueViolation ''bundles_pkey''),
          (unique_violation always bu_slug r (bundles s), UniqueViolation ''bundles_slug_key'')] of
        Some e \<Rightarrow> Inl e
      | None \<Rightarrow> Inr (s\<lparr>bundles := bundles s @ [r]\<rparr>))"

definition provision_bundle_row ::
  "env \<Rightarrow> nat \<Rightarrow> string \<Rightarrow> string \<Rightarrow> store \<Rightarrow> (uuid \<times> store) app_result" where
  "provision_bundle_row env k slug name s =
     (case validate_slug slug of
        Inl e \<Rightarrow> Inl e
      | Inr _ \<Rightarrow>
          if find_bundle_id_by_slug s slug \<noteq> None
          then Inl (Conflict ''a build with this slug already exists'')
          else
            (case insert_bundle (draft_bundle env k slug name) s of
               Inl e \<Rightarrow> Inl (Database e)
             | Inr s' \<Rightarrow> Inr (e_uuid env k, s')))"

definition ensure_build_dir :: "io \<Rightarrow> path \<Rightarrow> string \<Rightarrow> fs \<Rightarrow> (io_error + unit) \<times> fs" where
  "ensure_build_dir io storage_root slug = create_dir_all io (files_path storage_root slug)"

definition ensure_bundle_dir :: "host \<Rightarrow> string \<Rightarrow> unit store_handler" where
  "ensure_bundle_dir h slug =
     on_disk h ''mkdir build dir'' (ensure_build_dir (ho_io h) (lc_bundles_root (ho_cfg h)) slug)"

definition provision_bundle :: "host \<Rightarrow> string \<Rightarrow> string \<Rightarrow> uuid store_handler" where
  "provision_bundle h slug name s =
     (case provision_bundle_row (ho_env h) 0 slug name s of
        Inl e \<Rightarrow> (Inl e, s)
      | Inr (x, s1) \<Rightarrow>
          (case ensure_bundle_dir h slug s1 of
             (Inl e, s2) \<Rightarrow> (Inl e, s2)
           | (Inr _, s2) \<Rightarrow> (Inr x, s2)))"

definition require_by_slug :: "store \<Rightarrow> string \<Rightarrow> bundle_row app_result" where
  "require_by_slug s slug = ok_or (NotFound ''build not found'') (find_by_slug s slug)"

text \<open>\<^verbatim>\<open>UPDATE bundles SET f WHERE id = x RETURNING ...\<close> read by \<^verbatim>\<open>fetch_one\<close>; \<open>f\<close> keeps id and slug.\<close>

definition update_bundle_returning ::
  "uuid \<Rightarrow> (bundle_row \<Rightarrow> bundle_row) \<Rightarrow> store \<Rightarrow> (bundle_row \<times> store) app_result" where
  "update_bundle_returning x f s =
     (let bs = sql_update (\<lambda>b. bu_id b = x) f (bundles s) in
      (case sql_find (\<lambda>b. bu_id b = x) bs of
         None \<Rightarrow> Inl (Database RowNotFound)
       | Some b \<Rightarrow> Inr (b, s\<lparr>bundles := bs\<rparr>)))"

definition update_bundle_meta ::
  "env \<Rightarrow> uuid \<Rightarrow> string option \<Rightarrow> string option \<Rightarrow> string option \<Rightarrow> store
    \<Rightarrow> (bundle_row \<times> store) app_result" where
  "update_bundle_meta env x name description version =
     update_bundle_returning x
       (\<lambda>b. b\<lparr>bu_name := coalesce_or name (bu_name b), bu_description := description,
              bu_version := version, bu_updated_at := e_now env\<rparr>)"

definition bundle_slug_by_id :: "store \<Rightarrow> uuid \<Rightarrow> string option" where
  "bundle_slug_by_id s x = map_option bu_slug (sql_find (\<lambda>b. bu_id b = x) (bundles s))"

definition count_artifacts :: "store \<Rightarrow> uuid \<Rightarrow> nat" where
  "count_artifacts s x = sql_affected (\<lambda>a. ba_bundle_id a = x) (artifacts s)"

text \<open>The row goes with its artifacts; a client that owned it keeps a null reference.\<close>

definition delete_bundle_row :: "uuid \<Rightarrow> store \<Rightarrow> store" where
  "delete_bundle_row x s = s
     \<lparr>bundles := sql_delete (\<lambda>b. bu_id b = x) (bundles s),
      artifacts := sql_delete (\<lambda>a. ba_bundle_id a = x) (artifacts s),
      clients := sql_update (\<lambda>c. cl_bundle_id c = Some x) (\<lambda>c. c\<lparr>cl_bundle_id := None\<rparr>) (clients s)\<rparr>"

definition remove_bundle_dir :: "host \<Rightarrow> string \<Rightarrow> store \<Rightarrow> store" where
  "remove_bundle_dir h slug s =
     (let p = build_path (lc_bundles_root (ho_cfg h)) slug in
      if path_exists (disk s) p then s\<lparr>disk := snd (remove_dir_all (ho_io h) p (disk s))\<rparr> else s)"

definition set_bundle_status :: "env \<Rightarrow> uuid \<Rightarrow> string \<Rightarrow> string option \<Rightarrow> store \<Rightarrow> store" where
  "set_bundle_status env x status processing_error s = s
     \<lparr>bundles := sql_update (\<lambda>b. bu_id b = x)
        (\<lambda>b. b\<lparr>bu_status := status, bu_processing_error := processing_error, bu_updated_at := e_now env\<rparr>)
        (bundles s)\<rparr>"

section \<open>Artifacts\<close>

definition list_artifacts :: "env \<Rightarrow> store \<Rightarrow> uuid \<Rightarrow> artifact list" where
  "list_artifacts env s x =
     order_by (\<lambda>a b. e_collate_le env (ba_relative_path a) (ba_relative_path b))
       (filter (\<lambda>a. ba_bundle_id a = x) (artifacts s))"

definition find_artifact :: "store \<Rightarrow> uuid \<Rightarrow> artifact option" where
  "find_artifact s x = sql_find (\<lambda>a. ba_id a = x) (artifacts s)"

record scan_entry =
  sc_relative_path :: string
  sc_name :: string
  sc_category :: string
  sc_size :: "64 word"
  sc_sha256 :: "string option"
  sc_is_dir :: bool
  sc_file_modified_at :: "timestamp option"

definition at_path :: "uuid \<Rightarrow> string \<Rightarrow> artifact \<Rightarrow> bool" where
  "at_path x p a \<longleftrightarrow> ba_bundle_id a = x \<and> ba_relative_path a = p"

definition scanned_row :: "uuid \<Rightarrow> uuid \<Rightarrow> scan_entry \<Rightarrow> artifact" where
  "scanned_row new_id x e =
     \<lparr>ba_id = new_id, ba_bundle_id = x, ba_relative_path = sc_relative_path e, ba_name = sc_name e,
      ba_category = sc_category e, ba_size = sc_size e, ba_sha256 = sc_sha256 e, ba_is_dir = sc_is_dir e,
      ba_download_once = False, ba_file_modified_at = sc_file_modified_at e\<rparr>"

definition rescanned :: "scan_entry \<Rightarrow> artifact \<Rightarrow> artifact" where
  "rescanned e a = a
     \<lparr>ba_name := sc_name e, ba_category := sc_category e, ba_size := sc_size e, ba_sha256 := sc_sha256 e,
      ba_is_dir := sc_is_dir e, ba_file_modified_at := sc_file_modified_at e\<rparr>"

text \<open>\<^verbatim>\<open>INSERT ... ON CONFLICT (bundle_id, relative_path) DO UPDATE\<close>; \<open>new_id\<close> is the default of the key.\<close>

definition upsert_artifact :: "uuid \<Rightarrow> uuid \<Rightarrow> scan_entry \<Rightarrow> store \<Rightarrow> db_error + store" where
  "upsert_artifact new_id x e s =
     (if sql_exists (at_path x (sc_relative_path e)) (artifacts s)
      then Inr (s\<lparr>artifacts := sql_update (at_path x (sc_relative_path e)) (rescanned e) (artifacts s)\<rparr>)
      else
        (case first_violation
            [(unique_violation always ba_id (scanned_row new_id x e) (artifacts s),
                UniqueViolation ''bundle_artifacts_pkey''),
             (x \<notin> set (map bu_id (bundles s)), ForeignKeyViolation ''bundle_artifacts_bundle_id_fkey'')] of
           Some err \<Rightarrow> Inl err
         | None \<Rightarrow> Inr (s\<lparr>artifacts := artifacts s @ [scanned_row new_id x e]\<rparr>)))"

definition UPSERT_CHUNK :: nat where
  "UPSERT_CHUNK = 10000"

function chunks :: "nat \<Rightarrow> 'a list \<Rightarrow> 'a list list" where
  "chunks n xs = (if n = 0 \<or> xs = [] then [] else take n xs # chunks n (drop n xs))"
  by auto
termination by (relation "measure (\<lambda>(n, xs). length xs)") auto

declare chunks.simps [simp del]

text \<open>One statement over a chunk; \<open>new_ids\<close> pairs every entry with its default key.\<close>

definition upsert_artifact_chunk :: "uuid \<Rightarrow> (uuid \<times> scan_entry) list \<Rightarrow> store \<Rightarrow> db_error + store" where
  "upsert_artifact_chunk x chunk s =
     (if \<not> distinct (map (sc_relative_path \<circ> snd) chunk) then Inl RepeatedRow
      else try_all (\<lambda>(new_id, e). upsert_artifact new_id x e) chunk s)"

definition keyed_scan :: "env \<Rightarrow> scan_entry list \<Rightarrow> (uuid \<times> scan_entry) list" where
  "keyed_scan env scan = zip (map (e_uuid env) [0..<length scan]) scan"

definition upsert_scan :: "env \<Rightarrow> uuid \<Rightarrow> scan_entry list \<Rightarrow> store \<Rightarrow> store app_result" where
  "upsert_scan env x scan s =
     (case try_all (upsert_artifact_chunk x) (chunks UPSERT_CHUNK (keyed_scan env scan)) s of
        Inl e \<Rightarrow> Inl (Database e)
      | Inr s' \<Rightarrow>
          Inr (s'\<lparr>artifacts := sql_delete
                (\<lambda>a. ba_bundle_id a = x \<and> ba_relative_path a \<notin> set (map sc_relative_path scan))
                (artifacts s')\<rparr>))"

definition update_artifact_sha :: "uuid \<Rightarrow> string \<Rightarrow> store \<Rightarrow> store" where
  "update_artifact_sha x sha256 s =
     s\<lparr>artifacts := sql_update (\<lambda>a. ba_id a = x) (\<lambda>a. a\<lparr>ba_sha256 := Some sha256\<rparr>) (artifacts s)\<rparr>"

definition set_download_once :: "uuid \<Rightarrow> bool \<Rightarrow> store \<Rightarrow> store" where
  "set_download_once x v s =
     s\<lparr>artifacts := sql_update (\<lambda>a. ba_id a = x) (\<lambda>a. a\<lparr>ba_download_once := v\<rparr>) (artifacts s)\<rparr>"

definition delete_artifact :: "uuid \<Rightarrow> store \<Rightarrow> store" where
  "delete_artifact x s = s\<lparr>artifacts := sql_delete (\<lambda>a. ba_id a = x) (artifacts s)\<rparr>"

text \<open>\<^verbatim>\<open>relative_path LIKE escape(prefix) || '%'\<close>\<close>

definition like_prefix :: "uuid \<Rightarrow> string \<Rightarrow> artifact \<Rightarrow> bool" where
  "like_prefix x p a \<longleftrightarrow> ba_bundle_id a = x \<and> like (escape_like_pattern p @ ''%'') (ba_relative_path a)"

definition delete_artifacts_with_prefix :: "uuid \<Rightarrow> string \<Rightarrow> store \<Rightarrow> store" where
  "delete_artifacts_with_prefix x p s = s\<lparr>artifacts := sql_delete (like_prefix x p) (artifacts s)\<rparr>"

definition artifact_exists_at :: "store \<Rightarrow> uuid \<Rightarrow> string \<Rightarrow> bool" where
  "artifact_exists_at s x p \<longleftrightarrow> sql_affected (at_path x p) (artifacts s) > 0"

definition any_artifact_with_prefix :: "store \<Rightarrow> uuid \<Rightarrow> string \<Rightarrow> bool" where
  "any_artifact_with_prefix s x p \<longleftrightarrow> sql_affected (like_prefix x p) (artifacts s) > 0"

lemma like_prefix_iff [sql_simps]:
  "like_prefix x p a \<longleftrightarrow> ba_bundle_id a = x \<and> prefix p (ba_relative_path a)"
proof -
  have "like ''%'' b" for b by (simp add: like_percent)
  then show ?thesis by (auto simp: like_prefix_def like_escaped prefix_def)
qed

section \<open>Moving a subtree\<close>

definition relocate :: "string \<Rightarrow> artifact \<Rightarrow> artifact" where
  "relocate p a =
     (let (name, category) = split_relative_path p in
      a\<lparr>ba_relative_path := p, ba_name := name, ba_category := category\<rparr>)"

definition update_artifact_path :: "uuid \<Rightarrow> string \<Rightarrow> store \<Rightarrow> db_error + store" where
  "update_artifact_path x p s =
     (case find_artifact s x of
        None \<Rightarrow> Inr s
      | Some a \<Rightarrow>
          if unique_violation always artifact_key (relocate p a) (sql_delete (\<lambda>b. ba_id b = x) (artifacts s))
          then Inl (UniqueViolation ''bundle_artifacts_bundle_path_uq'')
          else Inr (s\<lparr>artifacts := sql_update (\<lambda>b. ba_id b = x) (relocate p) (artifacts s)\<rparr>))"

definition move_child :: "string \<Rightarrow> string \<Rightarrow> artifact \<Rightarrow> store \<Rightarrow> db_error + store" where
  "move_child old_rel new_rel child s =
     (case strip_prefix (old_rel @ ''/'') (ba_relative_path child) of
        None \<Rightarrow> Inr s
      | Some rest \<Rightarrow> update_artifact_path (ba_id child) (new_rel @ ''/'' @ rest) s)"

definition move_rows :: "uuid \<Rightarrow> string \<Rightarrow> string \<Rightarrow> bool \<Rightarrow> store \<Rightarrow> store app_result" where
  "move_rows x old_rel new_rel is_dir s =
     (case sql_find (at_path x old_rel) (artifacts s) of
        None \<Rightarrow> Inl (NotFound ''file entry not found in this build'')
      | Some entry \<Rightarrow>
          (case update_artifact_path (ba_id entry) new_rel s of
             Inl e \<Rightarrow> Inl (Database e)
           | Inr s1 \<Rightarrow>
               if is_dir
               then (case try_all (move_child old_rel new_rel)
                             (filter (like_prefix x (old_rel @ ''/'')) (artifacts s1)) s1 of
                       Inl e \<Rightarrow> Inl (Database e) | Inr s2 \<Rightarrow> Inr s2)
               else Inr s1))"

definition rename_on_disk :: "host \<Rightarrow> path \<Rightarrow> path \<Rightarrow> unit store_handler" where
  "rename_on_disk h old_physical new_physical s =
     (if \<not> path_exists (disk s) old_physical then (Inr (), s)
      else
        (case on_disk h ''mkdir'' (create_dir_all (ho_io h) (butlast new_physical)) s of
           (Inl e, s1) \<Rightarrow> (Inl e, s1)
         | (Inr _, s1) \<Rightarrow> on_disk h ''rename'' (rename_path (ho_io h) old_physical new_physical) s1))"

text \<open>The rows first, the disk last: a failure of the rename leaves the caller a transaction to roll back.\<close>

definition move_subtree ::
  "host \<Rightarrow> uuid \<Rightarrow> path \<Rightarrow> string \<Rightarrow> string \<Rightarrow> bool \<Rightarrow> unit store_handler" where
  "move_subtree h x files_root old_rel new_rel is_dir s =
     (case move_rows x old_rel new_rel is_dir s of
        Inl e \<Rightarrow> (Inl e, s)
      | Inr s1 \<Rightarrow> rename_on_disk h (join_files files_root old_rel) (join_files files_root new_rel) s1)"

section \<open>Regenerating the manifest\<close>

definition present_paths :: "fs \<Rightarrow> path \<Rightarrow> string list \<Rightarrow> string list" where
  "present_paths fs files_root relative_paths =
     filter (\<lambda>rel. path_exists fs (join_files files_root rel)) relative_paths"

definition write_manifest_atomic :: "io \<Rightarrow> path \<Rightarrow> string \<Rightarrow> string \<Rightarrow> fs \<Rightarrow> (io_error + unit) \<times> fs" where
  "write_manifest_atomic io storage_root slug json fs =
     (let dir = build_path storage_root slug; tmp = dir @ [''artifacts.json.tmp''] in
      (case create_dir_all io dir fs of
         (Inl e, fs1) \<Rightarrow> (Inl e, fs1)
       | (Inr _, fs1) \<Rightarrow>
           (case write_path io tmp json fs1 of
              (Inl e, fs2) \<Rightarrow> (Inl e, fs2)
            | (Inr _, fs2) \<Rightarrow> rename_path io tmp (manifest_path storage_root slug) fs2)))"

definition manifest_now :: "host \<Rightarrow> bundle_row \<Rightarrow> store \<Rightarrow> built_manifest" where
  "manifest_now h b s =
     (let as = list_artifacts (ho_env h) s (bu_id b);
          present = present_paths (disk s) (files_path (lc_bundles_root (ho_cfg h)) (bu_slug b))
            (map ba_relative_path as) in
      build_manifest as (bu_slug b) (lc_bundles_public (ho_cfg h))
        (\<lambda>a. ba_relative_path a \<in> set present))"

definition generated :: "env \<Rightarrow> built_manifest \<Rightarrow> bundle_row \<Rightarrow> bundle_row" where
  "generated env built b = b
     \<lparr>bu_status := ''ready'', bu_files_count := bm_files_count built, bu_total_size := bm_total_size built,
      bu_last_generated_at := Some (e_now env), bu_processing_error := None, bu_updated_at := e_now env\<rparr>"

definition regenerate_manifest :: "host \<Rightarrow> bundle_row \<Rightarrow> bundle_row store_handler" where
  "regenerate_manifest h b s =
     (let built = manifest_now h b s in
      (case on_disk h ''write manifest''
              (write_manifest_atomic (ho_io h) (lc_bundles_root (ho_cfg h)) (bu_slug b)
                (ho_json h (bm_manifest built))) s of
         (Inl e, s1) \<Rightarrow> (Inl e, s1)
       | (Inr _, s1) \<Rightarrow>
           (case update_bundle_returning (bu_id b) (generated (ho_env h) built) s1 of
              Inl e \<Rightarrow> (Inl e, s1)
            | Inr (b', s2) \<Rightarrow> (Inr b', s2))))"

section \<open>A scan replaces the rows of its build\<close>

definition row_at :: "store \<Rightarrow> uuid \<Rightarrow> string \<Rightarrow> artifact option" where
  "row_at s x p = sql_find (at_path x p) (artifacts s)"

definition merged :: "store \<Rightarrow> uuid \<Rightarrow> uuid \<times> scan_entry \<Rightarrow> artifact" where
  "merged s x ke = (case row_at s x (sc_relative_path (snd ke)) of
     Some a \<Rightarrow> rescanned (snd ke) a | None \<Rightarrow> scanned_row (fst ke) x (snd ke))"

lemma at_path_key: "at_path x p a \<longleftrightarrow> artifact_key a = (x, p)"
  by (auto simp: at_path_def artifact_key_def)

lemma row_at_iff:
  assumes "bundle_tables_wf s"
  shows "row_at s x p = Some a \<longleftrightarrow> a \<in> set (artifacts s) \<and> ba_bundle_id a = x \<and> ba_relative_path a = p"
proof -
  have "unique_index always artifact_key (artifacts s)" using assms by (simp add: bundle_tables_wf_def)
  from sql_find_unique [OF this, of a "(x, p)"] show ?thesis
    unfolding row_at_def at_path_key by (auto simp: artifact_key_def dest: sql_find_SomeD)
qed

lemma bundle_tables_wfD:
  assumes "bundle_tables_wf s"
  shows "unique_index always ba_id (artifacts s)" "unique_index always artifact_key (artifacts s)"
    "fk ba_bundle_id (map bu_id (bundles s)) (artifacts s)"
    "unique_index always bu_id (bundles s)" "unique_index always bu_slug (bundles s)"
  using assms by (simp_all add: bundle_tables_wf_def)

text \<open>One upsert, on a fresh default key.\<close>

lemma rescanned_key [simp]: "artifact_key (rescanned e a) = artifact_key a" "ba_id (rescanned e a) = ba_id a"
    "ba_bundle_id (rescanned e a) = ba_bundle_id a" "ba_relative_path (rescanned e a) = ba_relative_path a"
  by (simp_all add: rescanned_def artifact_key_def)

lemma scanned_row_key [simp]:
  "artifact_key (scanned_row n x e) = (x, sc_relative_path e)" "ba_id (scanned_row n x e) = n"
  "ba_bundle_id (scanned_row n x e) = x" "ba_relative_path (scanned_row n x e) = sc_relative_path e"
  by (simp_all add: scanned_row_def artifact_key_def)

lemma sql_find_append: "sql_find p (xs @ ys) = (case sql_find p xs of Some r \<Rightarrow> Some r | None \<Rightarrow> sql_find p ys)"
  by (induction xs) (auto simp: sql_find_def)

lemma sql_find_single [simp]: "sql_find p [r] = (if p r then Some r else None)"
  by (simp add: sql_find_def)

lemma filter_sql_update_other:
  "(\<And>r. r \<in> set rs \<Longrightarrow> q r \<Longrightarrow> \<not> p r \<and> \<not> p (f r)) \<Longrightarrow> filter p (sql_update q f rs) = filter p rs"
  by (induction rs) auto

lemma row_at_update:
  assumes "\<And>r. artifact_key (f r) = artifact_key r"
  shows "row_at (s\<lparr>artifacts := sql_update q f (artifacts s)\<rparr>) y p =
    map_option (\<lambda>r. if q r then f r else r) (row_at s y p)"
proof -
  have "at_path y p = (\<lambda>a. artifact_key a = (y, p))" by (auto simp: at_path_key)
  with assms show ?thesis by (simp add: row_at_def sql_find_update)
qed

lemma upsert_artifact_ok:
  assumes "x \<in> set (map bu_id (bundles s))" "new_id \<notin> set (map ba_id (artifacts s))"
  shows "\<exists>s'. upsert_artifact new_id x e s = Inr s'"
  using assms by (auto simp: upsert_artifact_def unique_violation_def sql_exists_iff)

lemma upsert_artifact_effect:
  assumes "bundle_tables_wf s" "upsert_artifact new_id x e s = Inr s'"
  obtains as where "s' = s\<lparr>artifacts := as\<rparr>" "bundle_tables_wf (s\<lparr>artifacts := as\<rparr>)"
    "set (map ba_id as) \<subseteq> insert new_id (set (map ba_id (artifacts s)))"
    "\<And>y p. row_at (s\<lparr>artifacts := as\<rparr>) y p = (if y = x \<and> p = sc_relative_path e
        then Some (merged s x (new_id, e))
        else row_at s y p)"
    "filter (\<lambda>a. ba_bundle_id a \<noteq> x) as = filter (\<lambda>a. ba_bundle_id a \<noteq> x) (artifacts s)"
proof (cases "sql_exists (at_path x (sc_relative_path e)) (artifacts s)")
  case True
  let ?as = "sql_update (at_path x (sc_relative_path e)) (rescanned e) (artifacts s)"
  have "row_at s x (sc_relative_path e) \<noteq> None"
    using True by (auto simp: row_at_def sql_find_None_iff sql_exists_iff)
  then obtain a where a: "row_at s x (sc_relative_path e) = Some a" by auto
  have row: "row_at (s\<lparr>artifacts := ?as\<rparr>) y p = (if y = x \<and> p = sc_relative_path e
      then Some (merged s x (new_id, e))
      else row_at s y p)" for y p
    using a by (auto simp: merged_def row_at_update map_option_case at_path_def row_at_def [of s]
        split: option.split dest: sql_find_SomeD)
  have wf: "bundle_tables_wf (s\<lparr>artifacts := ?as\<rparr>)"
    using assms(1) unfolding bundle_tables_wf_def by (auto intro!: unique_index_update fk_update)
  show thesis
    by (rule that [of ?as])
      (use assms(2) in \<open>auto simp: upsert_artifact_def True wf row set_sql_update at_path_def intro!: filter_sql_update_other\<close>)
next
  case False
  let ?r = "scanned_row new_id x e"
  have none: "sql_find (at_path x (sc_relative_path e)) (artifacts s) = None"
    using False by (auto simp: sql_find_None_iff sql_exists_iff)
  have s': "\<not> unique_violation always ba_id ?r (artifacts s)" "x \<in> set (map bu_id (bundles s))"
    "s' = s\<lparr>artifacts := artifacts s @ [?r]\<rparr>"
    using assms(2) False by (auto simp: upsert_artifact_def split: if_splits)
  moreover have "\<not> unique_violation always artifact_key ?r (artifacts s)"
    using False by (auto simp: unique_violation_def sql_exists_iff at_path_key)
  ultimately have wf: "bundle_tables_wf (s\<lparr>artifacts := artifacts s @ [?r]\<rparr>)"
    using assms(1) by (auto simp: bundle_tables_wf_def fk_def)
  have row: "row_at (s\<lparr>artifacts := artifacts s @ [?r]\<rparr>) y p = (if y = x \<and> p = sc_relative_path e
      then Some (merged s x (new_id, e))
      else row_at s y p)" for y p
    using none by (auto simp: merged_def row_at_def sql_find_append at_path_def split: option.split)
  show thesis
    by (rule that [OF s'(3) wf _ row]) auto
qed

text \<open>The loop over a scan with distinct paths and fresh keys.\<close>

definition scan_ready :: "store \<Rightarrow> uuid \<Rightarrow> (uuid \<times> scan_entry) list \<Rightarrow> bool" where
  "scan_ready s x kes \<longleftrightarrow> bundle_tables_wf s \<and> x \<in> set (map bu_id (bundles s))
     \<and> distinct (map fst kes) \<and> set (map fst kes) \<inter> set (map ba_id (artifacts s)) = {}
     \<and> distinct (map (sc_relative_path \<circ> snd) kes)"

definition scan_result :: "store \<Rightarrow> uuid \<Rightarrow> (uuid \<times> scan_entry) list \<Rightarrow> artifact list \<Rightarrow> bool" where
  "scan_result s x kes as \<longleftrightarrow> bundle_tables_wf (s\<lparr>artifacts := as\<rparr>)
     \<and> (\<forall>ke\<in>set kes. row_at (s\<lparr>artifacts := as\<rparr>) x (sc_relative_path (snd ke)) = Some (merged s x ke))
     \<and> (\<forall>p. p \<notin> set (map (sc_relative_path \<circ> snd) kes) \<longrightarrow>
          row_at (s\<lparr>artifacts := as\<rparr>) x p = row_at s x p)
     \<and> filter (\<lambda>a. ba_bundle_id a \<noteq> x) as = filter (\<lambda>a. ba_bundle_id a \<noteq> x) (artifacts s)"

lemma upsert_all_ok:
  "scan_ready s x kes \<Longrightarrow> \<exists>s'. try_all (\<lambda>(n, e). upsert_artifact n x e) kes s = Inr s'"
proof (induction kes arbitrary: s)
  case (Cons ke kes)
  obtain n e where ke: "ke = (n, e)" by fastforce
  have wf: "bundle_tables_wf s" and n: "x \<in> set (map bu_id (bundles s))" "n \<notin> set (map ba_id (artifacts s))"
    using Cons.prems by (auto simp: scan_ready_def ke)
  from upsert_artifact_ok [OF n, of e] obtain s1 where s1: "upsert_artifact n x e s = Inr s1" by blast
  from upsert_artifact_effect [OF wf s1] obtain as1 where
    as1: "s1 = s\<lparr>artifacts := as1\<rparr>" "bundle_tables_wf s1" "set (map ba_id as1) \<subseteq> insert n (set (map ba_id (artifacts s)))"
    by metis
  have "n \<notin> set (map fst kes)" "set (map fst kes) \<inter> set (map ba_id (artifacts s)) = {}"
    using Cons.prems by (auto simp: scan_ready_def ke)
  with as1(3) have "set (map fst kes) \<inter> set (map ba_id as1) = {}" by blast
  with Cons.prems as1(1,2) have "scan_ready s1 x kes" by (simp add: scan_ready_def ke)
  from Cons.IH [OF this] s1 show ?case by (simp add: ke)
qed simp

lemma upsert_all_result:
  "try_all (\<lambda>(n, e). upsert_artifact n x e) kes s = Inr s' \<Longrightarrow> bundle_tables_wf s
     \<Longrightarrow> distinct (map (sc_relative_path \<circ> snd) kes)
     \<Longrightarrow> \<exists>as. s' = s\<lparr>artifacts := as\<rparr> \<and> scan_result s x kes as"
proof (induction kes arbitrary: s)
  case Nil
  then show ?case by (intro exI [of _ "artifacts s"]) (simp add: scan_result_def)
next
  case (Cons ke kes)
  obtain n e where ke: "ke = (n, e)" by fastforce
  obtain s1 where s1: "upsert_artifact n x e s = Inr s1" "try_all (\<lambda>(n, e). upsert_artifact n x e) kes s1 = Inr s'"
    using Cons.prems(1) by (auto simp: ke split: sum.splits)
  from Cons.prems(2) s1(1) obtain as1 where as1: "s1 = s\<lparr>artifacts := as1\<rparr>" "bundle_tables_wf (s\<lparr>artifacts := as1\<rparr>)"
    "set (map ba_id as1) \<subseteq> insert n (set (map ba_id (artifacts s)))"
    "\<And>y p. row_at (s\<lparr>artifacts := as1\<rparr>) y p = (if y = x \<and> p = sc_relative_path e
        then Some (merged s x ke) else row_at s y p)"
    "filter (\<lambda>a. ba_bundle_id a \<noteq> x) as1 = filter (\<lambda>a. ba_bundle_id a \<noteq> x) (artifacts s)"
    unfolding ke by (rule upsert_artifact_effect [where e = e]) blast
  let ?s1 = "s\<lparr>artifacts := as1\<rparr>"
  from Cons.IH [of s1] s1(2) as1(1,2) Cons.prems(3) obtain as where
    as: "s' = s\<lparr>artifacts := as\<rparr>" "scan_result ?s1 x kes as"
    by auto
  have "merged ?s1 x ke' = merged s x ke'" if "ke' \<in> set kes" for ke'
    using that Cons.prems(3) by (auto simp: merged_def as1(4) ke image_iff split: option.split)
  with as(2) as1(4,5) Cons.prems(3) have "scan_result s x (ke # kes) as"
    by (auto simp: scan_result_def ke)
  with as(1) show ?case by blast
qed

lemma chunks_unfold:
  "0 < n \<Longrightarrow> xs \<noteq> [] \<Longrightarrow> chunks n xs = take n xs # chunks n (drop n xs)" "chunks n [] = []" "chunks 0 xs = []"
  by (subst chunks.simps, simp)+

lemma concat_chunks: "0 < n \<Longrightarrow> concat (chunks n xs) = xs"
proof (induction n xs rule: chunks.induct)
  case (1 n xs)
  then show ?case by (cases "xs = []") (simp_all add: chunks_unfold)
qed

lemma set_chunks: "0 < n \<Longrightarrow> c \<in> set (chunks n xs) \<Longrightarrow> \<exists>ys zs. xs = ys @ c @ zs"
proof (induction n xs rule: chunks.induct)
  case (1 n xs)
  show ?case
  proof (cases "xs = []")
    case False
    with 1 have "c = take n xs \<or> (\<exists>ys zs. drop n xs = ys @ c @ zs)" by (simp add: chunks_unfold) blast
    then show ?thesis
      by (metis append.left_neutral append.assoc append_take_drop_id)
  qed (use 1 in \<open>simp add: chunks_unfold\<close>)
qed

lemma try_all_concat: "try_all (\<lambda>c. try_all f c) cs s = try_all f (concat cs) s"
  by (induction cs arbitrary: s) (auto simp: try_all_append split: sum.split)

lemma try_all_cong: "(\<And>x s. x \<in> set xs \<Longrightarrow> f x s = g x s) \<Longrightarrow> try_all f xs s = try_all g xs s"
  by (induction xs arbitrary: s) (auto split: sum.split)

lemma upsert_chunks:
  assumes "distinct (map (sc_relative_path \<circ> snd) kes)"
  shows "try_all (upsert_artifact_chunk x) (chunks UPSERT_CHUNK kes) s =
    try_all (\<lambda>(n, e). upsert_artifact n x e) kes s"
proof -
  have "try_all (upsert_artifact_chunk x) (chunks UPSERT_CHUNK kes) s =
      try_all (\<lambda>c. try_all (\<lambda>(n, e). upsert_artifact n x e) c) (chunks UPSERT_CHUNK kes) s"
  proof (intro try_all_cong)
    fix c t
    assume "c \<in> set (chunks UPSERT_CHUNK kes)"
    then obtain ys zs where "kes = ys @ c @ zs" using set_chunks [of UPSERT_CHUNK c kes] by (auto simp: UPSERT_CHUNK_def)
    with assms show "upsert_artifact_chunk x c t = try_all (\<lambda>(n, e). upsert_artifact n x e) c t"
      by (simp add: upsert_artifact_chunk_def)
  qed
  then show ?thesis by (simp add: try_all_concat concat_chunks UPSERT_CHUNK_def)
qed

lemma keyed_scan_props [simp]:
  "map (sc_relative_path \<circ> snd) (keyed_scan env scan) = map sc_relative_path scan"
  "map fst (keyed_scan env scan) = map (e_uuid env) [0..<length scan]"
  "i < length scan \<Longrightarrow> (e_uuid env i, scan ! i) \<in> set (keyed_scan env scan)"
  by (simp_all add: keyed_scan_def flip: map_map) (auto simp: in_set_zip intro!: exI [of _ i])

text \<open>The keys a scan draws collide neither with each other nor with a stored row.\<close>

definition fresh_keys :: "env \<Rightarrow> nat \<Rightarrow> store \<Rightarrow> bool" where
  "fresh_keys env n s \<longleftrightarrow> distinct (map (e_uuid env) [0..<n])
     \<and> set (map (e_uuid env) [0..<n]) \<inter> set (map ba_id (artifacts s)) = {}"

lemma filter_delete_other: "(\<And>r. p r \<Longrightarrow> \<not> q r) \<Longrightarrow> filter p (sql_delete q rs) = filter p rs"
  by (induction rs) (auto simp: sql_delete_def)

lemma upsert_scan_ok:
  assumes "bundle_tables_wf s" "x \<in> set (map bu_id (bundles s))"
    and "distinct (map sc_relative_path scan)" "fresh_keys env (length scan) s"
  shows "\<exists>s'. upsert_scan env x scan s = Inr s'"
proof -
  have "scan_ready s x (keyed_scan env scan)" using assms by (simp add: scan_ready_def fresh_keys_def)
  from upsert_all_ok [OF this] upsert_chunks [of "keyed_scan env scan" x s] assms(3)
  show ?thesis by (auto simp: upsert_scan_def)
qed

lemma upsert_scan_rows:
  assumes "upsert_scan env x scan s = Inr s'" "bundle_tables_wf s" "distinct (map sc_relative_path scan)"
  obtains as where "s' = s\<lparr>artifacts := as\<rparr>" "bundle_tables_wf (s\<lparr>artifacts := as\<rparr>)"
    "filter (\<lambda>a. ba_bundle_id a \<noteq> x) as = filter (\<lambda>a. ba_bundle_id a \<noteq> x) (artifacts s)"
    "\<And>p. p \<notin> set (map sc_relative_path scan) \<Longrightarrow> row_at (s\<lparr>artifacts := as\<rparr>) x p = None"
    "\<And>i. i < length scan \<Longrightarrow> row_at (s\<lparr>artifacts := as\<rparr>) x (sc_relative_path (scan ! i)) =
       Some (merged s x (e_uuid env i, scan ! i))"
proof -
  let ?kes = "keyed_scan env scan" and ?paths = "set (map sc_relative_path scan)"
  have dist: "distinct (map (sc_relative_path \<circ> snd) ?kes)" using assms(3) by simp
  obtain t where t: "try_all (upsert_artifact_chunk x) (chunks UPSERT_CHUNK ?kes) s = Inr t"
    using assms(1) by (auto simp: upsert_scan_def split: sum.splits)
  from upsert_all_result [OF _ assms(2) dist, of x t] t upsert_chunks [OF dist, of x s] obtain bs where
    bs: "t = s\<lparr>artifacts := bs\<rparr>" "scan_result s x ?kes bs"
    by auto
  let ?gone = "\<lambda>a. ba_bundle_id a = x \<and> ba_relative_path a \<notin> ?paths"
  let ?as = "sql_delete ?gone bs"
  have wf: "bundle_tables_wf (s\<lparr>artifacts := ?as\<rparr>)"
    using bs(2) by (auto simp: scan_result_def bundle_tables_wf_def)
  have row: "row_at (s\<lparr>artifacts := ?as\<rparr>) x p = (if p \<in> ?paths then row_at (s\<lparr>artifacts := bs\<rparr>) x p else None)" for p
    using wf bs(2)
    by (intro option_eqI) (auto simp: row_at_iff scan_result_def)
  show thesis
  proof (rule that [of ?as])
    show "s' = s\<lparr>artifacts := ?as\<rparr>" using assms(1) t by (simp add: upsert_scan_def bs(1))
    show "filter (\<lambda>a. ba_bundle_id a \<noteq> x) ?as = filter (\<lambda>a. ba_bundle_id a \<noteq> x) (artifacts s)"
      using bs(2) by (simp add: scan_result_def filter_delete_other)
    show "row_at (s\<lparr>artifacts := ?as\<rparr>) x (sc_relative_path (scan ! i)) = Some (merged s x (e_uuid env i, scan ! i))"
      if "i < length scan" for i
    proof -
      have "row_at (s\<lparr>artifacts := bs\<rparr>) x (sc_relative_path (scan ! i)) = Some (merged s x (e_uuid env i, scan ! i))"
        using bs(2) keyed_scan_props(3) [OF that, of env] unfolding scan_result_def by fastforce
      moreover have "sc_relative_path (scan ! i) \<in> ?paths" using that by simp
      ultimately show ?thesis by (simp only: row if_True)
    qed
  qed (use wf row in simp_all)
qed

text \<open>The rows of the build are those of the scan, merged with what the registry knew.\<close>

definition replaced_by_scan :: "uuid \<Rightarrow> scan_entry list \<Rightarrow> store \<Rightarrow> artifact list \<Rightarrow> bool" where
  "replaced_by_scan x scan s as \<longleftrightarrow> bundle_tables_wf (s\<lparr>artifacts := as\<rparr>)
    \<and> filter (\<lambda>a. ba_bundle_id a \<noteq> x) as = filter (\<lambda>a. ba_bundle_id a \<noteq> x) (artifacts s)
    \<and> (\<forall>p. p \<notin> set (map sc_relative_path scan) \<longrightarrow> row_at (s\<lparr>artifacts := as\<rparr>) x p = None)
    \<and> (\<forall>e\<in>set scan. \<exists>a. row_at (s\<lparr>artifacts := as\<rparr>) x (sc_relative_path e) = Some a
        \<and> ba_name a = sc_name e \<and> ba_category a = sc_category e \<and> ba_size a = sc_size e
        \<and> ba_sha256 a = sc_sha256 e \<and> ba_is_dir a = sc_is_dir e
        \<and> ba_file_modified_at a = sc_file_modified_at e
        \<and> ba_download_once a = (case row_at s x (sc_relative_path e) of
             Some old \<Rightarrow> ba_download_once old | None \<Rightarrow> False))"

lemma upsert_scan_replaced:
  assumes "upsert_scan env x scan s = Inr s'" "bundle_tables_wf s" "distinct (map sc_relative_path scan)"
  shows "\<exists>as. s' = s\<lparr>artifacts := as\<rparr> \<and> replaced_by_scan x scan s as"
  using assms
proof (rule upsert_scan_rows)
  fix as
  assume as: "s' = s\<lparr>artifacts := as\<rparr>" "bundle_tables_wf (s\<lparr>artifacts := as\<rparr>)"
    "filter (\<lambda>a. ba_bundle_id a \<noteq> x) as = filter (\<lambda>a. ba_bundle_id a \<noteq> x) (artifacts s)"
    "\<And>p. p \<notin> set (map sc_relative_path scan) \<Longrightarrow> row_at (s\<lparr>artifacts := as\<rparr>) x p = None"
    "\<And>i. i < length scan \<Longrightarrow> row_at (s\<lparr>artifacts := as\<rparr>) x (sc_relative_path (scan ! i)) =
       Some (merged s x (e_uuid env i, scan ! i))"
  show ?thesis
    by (rule exI [of _ as], unfold replaced_by_scan_def)
      (use as in \<open>auto simp: in_set_conv_nth merged_def rescanned_def scanned_row_def split: option.split\<close>)
qed

text \<open>
  C29. Ingesting a scan replaces the rows of its build and nothing else: afterwards the build has
  exactly one row per scanned path, carrying the scanned data, the operator's download-once flag
  survives for every path that already had a row and is off for a new one, rows of other builds are
  untouched, and all keys stay unique, whatever the size of the scan.
\<close>

theorem upsert_scan_replaces:
  assumes "bundle_tables_wf s" "x \<in> set (map bu_id (bundles s))"
    and "distinct (map sc_relative_path scan)" "fresh_keys env (length scan) s"
  shows "\<exists>as. upsert_scan env x scan s = Inr (s\<lparr>artifacts := as\<rparr>)
    \<and> replaced_by_scan x scan s as"
proof -
  from upsert_scan_ok [OF assms] obtain s' where "upsert_scan env x scan s = Inr s'" by blast
  with upsert_scan_replaced [OF this assms(1,3)] show ?thesis by blast
qed

text \<open>A build of two rows rescanned: one path is kept with its flag, one disappears, one is new.\<close>

definition demo_bundle :: bundle_row where
  "demo_bundle = draft_bundle sample_env 0 ''b'' ''B''"

definition demo_artifact :: "nat \<Rightarrow> string \<Rightarrow> artifact" where
  "demo_artifact n p =
     \<lparr>ba_id = of_nat n, ba_bundle_id = bu_id demo_bundle, ba_relative_path = p, ba_name = p,
      ba_category = ''root'', ba_size = 7, ba_sha256 = Some ''aa'', ba_is_dir = False,
      ba_download_once = True, ba_file_modified_at = None\<rparr>"

definition demo_store :: store where
  "demo_store = empty_store
     \<lparr>bundles := [demo_bundle], artifacts := [demo_artifact 1 ''x'', demo_artifact 2 ''y'']\<rparr>"

definition demo_scan :: "scan_entry list" where
  "demo_scan = map (\<lambda>p. \<lparr>sc_relative_path = p, sc_name = p, sc_category = ''root'', sc_size = 9,
     sc_sha256 = Some ''bb'', sc_is_dir = False, sc_file_modified_at = None\<rparr>) [''y'', ''z'']"

theorem upsert_scan_replaces_witness:
  "\<exists>as. upsert_scan sample_env (bu_id demo_bundle) demo_scan demo_store = Inr (demo_store\<lparr>artifacts := as\<rparr>)
    \<and> row_at (demo_store\<lparr>artifacts := as\<rparr>) (bu_id demo_bundle) ''x'' = None"
proof -
  have "bundle_tables_wf demo_store" "bu_id demo_bundle \<in> set (map bu_id (bundles demo_store))"
    "distinct (map sc_relative_path demo_scan)" "fresh_keys sample_env (length demo_scan) demo_store"
    "''x'' \<notin> set (map sc_relative_path demo_scan)"
    by code_simp+
  with upsert_scan_replaces [of demo_store "bu_id demo_bundle" demo_scan sample_env] show ?thesis
    unfolding replaced_by_scan_def by blast
qed

section \<open>A move takes a subtree along, and only that\<close>

text \<open>Where a row ends up when \<open>old\<close> becomes \<open>new\<close>.\<close>

definition moved_path :: "string \<Rightarrow> string \<Rightarrow> string \<Rightarrow> string" where
  "moved_path old new p = new @ drop (length old) p"

definition in_subtree :: "uuid \<Rightarrow> string \<Rightarrow> bool \<Rightarrow> artifact \<Rightarrow> bool" where
  "in_subtree x old is_dir a \<longleftrightarrow> at_path x old a \<or> is_dir \<and> like_prefix x (old @ ''/'') a"

definition moved :: "uuid \<Rightarrow> string \<Rightarrow> string \<Rightarrow> bool \<Rightarrow> artifact list \<Rightarrow> artifact list" where
  "moved x old new is_dir as =
     sql_update (in_subtree x old is_dir) (\<lambda>a. relocate (moved_path old new (ba_relative_path a)) a) as"

lemma relocate_simps [simp]:
  "ba_id (relocate p a) = ba_id a" "ba_bundle_id (relocate p a) = ba_bundle_id a"
  "ba_relative_path (relocate p a) = p" "artifact_key (relocate p a) = (ba_bundle_id a, p)"
  by (simp_all add: relocate_def artifact_key_def split: prod.split)

lemma unique_index_rekey:
  assumes "unique_index always k rs" "\<And>a b. a \<in> set rs \<Longrightarrow> b \<in> set rs \<Longrightarrow> h (g a) = h (g b) \<Longrightarrow> k a = k b"
  shows "unique_index always h (map g rs)"
proof -
  have d: "distinct rs" "inj_on k (set rs)"
    using assms(1) by (simp_all add: unique_index_def distinct_map)
  have "inj_on (h \<circ> g) (set rs)"
  proof (rule inj_onI)
    fix a b
    assume ab: "a \<in> set rs" "b \<in> set rs" "(h \<circ> g) a = (h \<circ> g) b"
    then have "k a = k b" by (intro assms(2)) simp_all
    from inj_onD [OF d(2) this ab(1,2)] show "a = b" .
  qed
  with d(1) show ?thesis by (simp add: unique_index_def distinct_map)
qed

lemma unique_index_new_value:
  assumes "unique_index always key rs" "unique_index always g rs"
    and "\<And>r. key (f r) = key r \<and> g (f r) = t" "\<not> sql_exists (\<lambda>r. key r \<noteq> x \<and> g r = t) rs"
  shows "unique_index always g (sql_update (\<lambda>r. key r = x) f rs)"
  unfolding sql_update_def
proof (rule unique_index_rekey [OF assms(1)])
  fix a b
  assume ab: "a \<in> set rs" "b \<in> set rs"
    "g (if key a = x then f a else a) = g (if key b = x then f b else b)"
  have free: "g r \<noteq> t" if "r \<in> set rs" "key r \<noteq> x" for r
    using assms(4) that by (auto simp: sql_exists_iff)
  show "key a = key b"
  proof (cases "key a = x \<or> key b = x")
    case True
    with ab(3) assms(3) free [OF ab(1)] free [OF ab(2)] show ?thesis by (auto split: if_splits)
  next
    case False
    with ab unique_indexD [OF assms(2) ab(1,2)] show ?thesis by simp
  qed
qed

lemma artifact_unique:
  "bundle_tables_wf s \<Longrightarrow> a \<in> set (artifacts s) \<Longrightarrow> b \<in> set (artifacts s) \<Longrightarrow> ba_id a = ba_id b \<Longrightarrow> a = b"
  "bundle_tables_wf s \<Longrightarrow> a \<in> set (artifacts s) \<Longrightarrow> b \<in> set (artifacts s)
     \<Longrightarrow> artifact_key a = artifact_key b \<Longrightarrow> a = b"
  by (auto dest: bundle_tables_wfD unique_indexD)

lemma update_artifact_path_ok:
  assumes "bundle_tables_wf s" "c \<in> set (artifacts s)"
    and "\<And>a. a \<in> set (artifacts s) \<Longrightarrow> artifact_key a \<noteq> (ba_bundle_id c, p)"
  shows "update_artifact_path (ba_id c) p s =
      Inr (s\<lparr>artifacts := sql_update (\<lambda>b. ba_id b = ba_id c) (relocate p) (artifacts s)\<rparr>)"
    and "bundle_tables_wf (s\<lparr>artifacts := sql_update (\<lambda>b. ba_id b = ba_id c) (relocate p) (artifacts s)\<rparr>)"
proof -
  note wf = bundle_tables_wfD [OF assms(1)]
  from sql_find_unique [OF wf(1) assms(2)] have "find_artifact s (ba_id c) = Some c"
    by (simp add: find_artifact_def)
  moreover have "\<not> unique_violation always artifact_key (relocate p c) (sql_delete (\<lambda>b. ba_id b = ba_id c) (artifacts s))"
    using assms(3) by (auto simp: unique_violation_def sql_exists_iff)
  ultimately show "update_artifact_path (ba_id c) p s =
      Inr (s\<lparr>artifacts := sql_update (\<lambda>b. ba_id b = ba_id c) (relocate p) (artifacts s)\<rparr>)"
    by (simp add: update_artifact_path_def)
  let ?g = "\<lambda>b. if ba_id b = ba_id c then relocate p b else b"
  have "unique_index always artifact_key (map ?g (artifacts s))"
  proof (rule unique_index_rekey [OF wf(2)])
    fix a b
    assume ab: "a \<in> set (artifacts s)" "b \<in> set (artifacts s)" "artifact_key (?g a) = artifact_key (?g b)"
    have same: "d = c" if "d \<in> set (artifacts s)" "ba_id d = ba_id c" for d
      using artifact_unique(1) [OF assms(1) that(1) assms(2) that(2)] .
    have other: "artifact_key d \<noteq> artifact_key (relocate p c)" if "d \<in> set (artifacts s)" for d
      using assms(3) [OF that] by simp
    show "artifact_key a = artifact_key b"
      using ab(3) same [OF ab(1)] same [OF ab(2)] other [OF ab(1)] other [OF ab(2)]
      by (cases "ba_id a = ba_id c"; cases "ba_id b = ba_id c") (auto simp del: relocate_simps(4))
  qed
  then have "unique_index always artifact_key (sql_update (\<lambda>b. ba_id b = ba_id c) (relocate p) (artifacts s))"
    by (simp add: sql_update_def)
  with assms(1) show "bundle_tables_wf (s\<lparr>artifacts := sql_update (\<lambda>b. ba_id b = ba_id c) (relocate p) (artifacts s)\<rparr>)"
    by (auto simp: bundle_tables_wf_def intro!: unique_index_update fk_update)
qed

text \<open>The loop over the children, each re-keyed to a path no row has.\<close>

definition rekey_all :: "(artifact \<Rightarrow> string) \<Rightarrow> artifact list \<Rightarrow> artifact list \<Rightarrow> artifact list" where
  "rekey_all t cs as = sql_update (\<lambda>a. a \<in> set cs) (\<lambda>a. relocate (t a) a) as"

lemma rekey_all_step:
  assumes "bundle_tables_wf s" "set (c # cs) \<subseteq> set (artifacts s)" "distinct (c # cs)"
  shows "rekey_all t cs (sql_update (\<lambda>b. ba_id b = ba_id c) (relocate (t c)) (artifacts s)) =
    rekey_all t (c # cs) (artifacts s)"
proof -
  have "(let b = if ba_id a = ba_id c then relocate (t c) a else a in if b \<in> set cs then relocate (t b) b else b)
      = (if a \<in> set (c # cs) then relocate (t a) a else a)" if a: "a \<in> set (artifacts s)" for a
  proof (cases "ba_id a = ba_id c")
    case True
    then have "a = c" using artifact_unique(1) [OF assms(1) a, of c] assms(2) by simp
    moreover have "relocate (t c) c \<notin> set cs"
    proof
      assume "relocate (t c) c \<in> set cs"
      with artifact_unique(1) [OF assms(1), of "relocate (t c) c" c] assms(2) have "relocate (t c) c = c" by auto
      with \<open>relocate (t c) c \<in> set cs\<close> assms(3) show False by simp
    qed
    ultimately show ?thesis by simp
  qed auto
  then show ?thesis by (simp add: rekey_all_def sql_update_def Let_def)
qed

lemma rekey_all_result:
  assumes "bundle_tables_wf s" "set cs \<subseteq> set (artifacts s)" "distinct cs"
    and "\<And>c. c \<in> set cs \<Longrightarrow> ba_bundle_id c = x" "inj_on t (set cs)"
    and "\<And>c a. c \<in> set cs \<Longrightarrow> a \<in> set (artifacts s) \<Longrightarrow> artifact_key a \<noteq> (x, t c)"
  shows "try_all (\<lambda>c. update_artifact_path (ba_id c) (t c)) cs s = Inr (s\<lparr>artifacts := rekey_all t cs (artifacts s)\<rparr>)
    \<and> bundle_tables_wf (s\<lparr>artifacts := rekey_all t cs (artifacts s)\<rparr>)"
  using assms
proof (induction cs arbitrary: s)
  case Nil
  then show ?case by (simp add: rekey_all_def sql_update_none)
next
  case (Cons c cs)
  let ?as = "sql_update (\<lambda>b. ba_id b = ba_id c) (relocate (t c)) (artifacts s)"
  have c: "c \<in> set (artifacts s)" "ba_bundle_id c = x" using Cons.prems by auto
  have "artifact_key a \<noteq> (ba_bundle_id c, t c)" if "a \<in> set (artifacts s)" for a
    using Cons.prems(6) [of c a] that c(2) by simp
  note step = update_artifact_path_ok [OF Cons.prems(1) c(1) this]
  have sub: "set cs \<subseteq> set ?as"
  proof
    fix d assume d: "d \<in> set cs"
    with Cons.prems have "d \<noteq> c" "d \<in> set (artifacts s)" by auto
    with artifact_unique(1) [OF Cons.prems(1), of d c] c(1) show "d \<in> set ?as" by (auto simp: set_sql_update)
  qed
  have fresh: "artifact_key a \<noteq> (x, t d)" if d: "d \<in> set cs" and a: "a \<in> set ?as" for d a
  proof -
    from a obtain b where b: "b \<in> set (artifacts s)" "a = (if ba_id b = ba_id c then relocate (t c) b else b)"
      by (auto simp: set_sql_update)
    have "t c \<noteq> t d" using Cons.prems(3,5) d by (auto simp: inj_on_def)
    with b Cons.prems(6) [of d b] d show ?thesis by auto
  qed
  have "try_all (\<lambda>c. update_artifact_path (ba_id c) (t c)) cs (s\<lparr>artifacts := ?as\<rparr>)
      = Inr (s\<lparr>artifacts := rekey_all t cs ?as\<rparr>) \<and> bundle_tables_wf (s\<lparr>artifacts := rekey_all t cs ?as\<rparr>)"
    using Cons.IH [OF step(2)] sub Cons.prems(3-5) fresh by auto
  with rekey_all_step [OF Cons.prems(1-3)] step(1) show ?case by simp
qed

text \<open>The destination is free and lies outside the subtree that moves.\<close>

definition move_free :: "store \<Rightarrow> uuid \<Rightarrow> string \<Rightarrow> string \<Rightarrow> bool" where
  "move_free s x old new \<longleftrightarrow> \<not> artifact_exists_at s x new
     \<and> \<not> any_artifact_with_prefix s x (new @ ''/'') \<and> \<not> prefix (old @ ''/'') new"

lemma move_freeD:
  assumes "move_free s x old new" "a \<in> set (artifacts s)" "ba_bundle_id a = x"
  shows "ba_relative_path a \<noteq> new" "\<not> prefix (new @ ''/'') (ba_relative_path a)"
  using assms by (auto simp: move_free_def artifact_exists_at_def any_artifact_with_prefix_def
      sql_affected_pos sql_exists_iff at_path_def like_prefix_iff)

lemma subtree_paths:
  assumes "move_free s x old new" "a \<in> set (artifacts s)" "in_subtree x old is_dir a"
  shows "ba_bundle_id a = x" "ba_relative_path a = old @ drop (length old) (ba_relative_path a)"
    "b \<in> set (artifacts s) \<Longrightarrow> artifact_key b \<noteq> (x, moved_path old new (ba_relative_path a))"
proof -
  show x: "ba_bundle_id a = x" using assms(3) by (auto simp: in_subtree_def at_path_def like_prefix_iff)
  have p: "ba_relative_path a = old \<or> (\<exists>r. ba_relative_path a = old @ ''/'' @ r)"
    using assms(3) by (auto simp: in_subtree_def at_path_def like_prefix_iff prefix_def)
  then show "ba_relative_path a = old @ drop (length old) (ba_relative_path a)" by auto
  assume b: "b \<in> set (artifacts s)"
  from p have "moved_path old new (ba_relative_path a) = new
      \<or> prefix (new @ ''/'') (moved_path old new (ba_relative_path a))"
    by (auto simp: moved_path_def prefix_def)
  then show "artifact_key b \<noteq> (x, moved_path old new (ba_relative_path a))"
    using move_freeD [OF assms(1) b] by (auto simp: artifact_key_def)
qed

text \<open>The rows a move rewrites, in the order it does: the entry, then what lies below it.\<close>

definition move_order :: "store \<Rightarrow> uuid \<Rightarrow> string \<Rightarrow> bool \<Rightarrow> artifact \<Rightarrow> artifact list" where
  "move_order s x old is_dir e = e # (if is_dir then filter (like_prefix x (old @ ''/'')) (artifacts s) else [])"

lemma move_order_members:
  assumes "bundle_tables_wf s" "row_at s x old = Some e"
  shows "set (move_order s x old is_dir e) \<subseteq> set (artifacts s)" "distinct (move_order s x old is_dir e)"
    "a \<in> set (artifacts s) \<Longrightarrow> a \<in> set (move_order s x old is_dir e) \<longleftrightarrow> in_subtree x old is_dir a"
proof -
  have e: "e \<in> set (artifacts s)" "ba_bundle_id e = x" "ba_relative_path e = old"
    using assms by (simp_all add: row_at_iff)
  show "set (move_order s x old is_dir e) \<subseteq> set (artifacts s)" using e(1) by (auto simp: move_order_def)
  have "distinct (map ba_id (artifacts s))" using assms(1) by (simp add: bundle_tables_wf_def unique_index_def)
  then have "distinct (artifacts s)" by (rule distinct_map [THEN iffD1, THEN conjunct1])
  then show "distinct (move_order s x old is_dir e)" using e by (auto simp: move_order_def like_prefix_iff)
  assume a: "a \<in> set (artifacts s)"
  have "at_path x old a \<longleftrightarrow> a = e"
    using artifact_unique(2) [OF assms(1) a e(1)] e by (auto simp: at_path_def artifact_key_def)
  then show "a \<in> set (move_order s x old is_dir e) \<longleftrightarrow> in_subtree x old is_dir a"
    using a by (auto simp: move_order_def in_subtree_def)
qed

lemma move_order_rekeyed:
  assumes "bundle_tables_wf s" "row_at s x old = Some e" "move_free s x old new"
  shows "try_all (\<lambda>c. update_artifact_path (ba_id c) (moved_path old new (ba_relative_path c)))
      (move_order s x old is_dir e) s = Inr (s\<lparr>artifacts := moved x old new is_dir (artifacts s)\<rparr>)
    \<and> bundle_tables_wf (s\<lparr>artifacts := moved x old new is_dir (artifacts s)\<rparr>)"
proof -
  let ?cs = "move_order s x old is_dir e" and ?t = "\<lambda>a. moved_path old new (ba_relative_path a)"
  note sub = move_order_members(1) [OF assms(1,2), of is_dir] and members = move_order_members(3) [OF assms(1,2), of _ is_dir]
  note paths = subtree_paths [OF assms(3)]
  have inj: "inj_on ?t (set ?cs)"
  proof (rule inj_onI)
    fix a b
    assume ab: "a \<in> set ?cs" "b \<in> set ?cs" "?t a = ?t b"
    then have as: "a \<in> set (artifacts s)" "in_subtree x old is_dir a" and bs: "b \<in> set (artifacts s)" "in_subtree x old is_dir b"
      using sub members by blast+
    from ab(3) have "ba_relative_path a = ba_relative_path b"
      using paths(2) [OF as] paths(2) [OF bs] by (simp add: moved_path_def)
    then show "a = b"
      using artifact_unique(2) [OF assms(1) as(1) bs(1)] paths(1) [OF as] paths(1) [OF bs] by (simp add: artifact_key_def)
  qed
  have res: "try_all (\<lambda>c. update_artifact_path (ba_id c) (?t c)) ?cs s
        = Inr (s\<lparr>artifacts := rekey_all ?t ?cs (artifacts s)\<rparr>)
      \<and> bundle_tables_wf (s\<lparr>artifacts := rekey_all ?t ?cs (artifacts s)\<rparr>)"
    by (rule rekey_all_result [OF assms(1) sub move_order_members(2) [OF assms(1,2)] _ inj, where x = x])
      (use sub members paths in blast)+
  have "rekey_all ?t ?cs (artifacts s) = moved x old new is_dir (artifacts s)"
    unfolding rekey_all_def moved_def sql_update_def by (rule map_cong [OF refl]) (simp only: members)
  with res show ?thesis by simp
qed

lemma move_child_path:
  assumes "like_prefix x (old @ ''/'') c"
  shows "move_child old new c = update_artifact_path (ba_id c) (moved_path old new (ba_relative_path c))"
proof -
  from assms obtain r where "ba_relative_path c = (old @ ''/'') @ r" by (auto simp: like_prefix_iff prefix_def)
  then show ?thesis by (auto simp: move_child_def moved_path_def strip_prefix_Some_iff [THEN iffD2])
qed

text \<open>
  Moving an entry to a free destination relocates the rows of its subtree and no other row:
  every path of the subtree keeps its tail below the new path, names and categories are derived
  from the new path, flags, sizes and digests stay, and the path index stays unique.
\<close>

theorem move_rows_exact:
  assumes "bundle_tables_wf s" "row_at s x old = Some e" "move_free s x old new"
  shows "move_rows x old new is_dir s = Inr (s\<lparr>artifacts := moved x old new is_dir (artifacts s)\<rparr>)
    \<and> bundle_tables_wf (s\<lparr>artifacts := moved x old new is_dir (artifacts s)\<rparr>)"
proof -
  let ?cs = "filter (like_prefix x (old @ ''/'')) (artifacts s)"
  have e: "e \<in> set (artifacts s)" "ba_bundle_id e = x" "ba_relative_path e = old"
    using assms(1,2) by (simp_all add: row_at_iff)
  have found: "sql_find (at_path x old) (artifacts s) = Some e" using assms(2) by (simp add: row_at_def)
  note res = move_order_rekeyed [OF assms, of is_dir]
  show ?thesis
  proof (cases is_dir)
    case False
    with res found show ?thesis by (simp add: move_rows_def move_order_def moved_path_def e split: sum.splits)
  next
    case True
    let ?s1 = "s\<lparr>artifacts := sql_update (\<lambda>b. ba_id b = ba_id e) (relocate new) (artifacts s)\<rparr>"
    have "update_artifact_path (ba_id e) new s = Inr ?s1"
      using update_artifact_path_ok(1) [OF assms(1) e(1), of new] move_freeD [OF assms(3)] e(2)
      by (auto simp: artifact_key_def)
    moreover have "filter (like_prefix x (old @ ''/'')) (artifacts ?s1) = ?cs"
    proof -
      have "\<not> like_prefix x (old @ ''/'') r \<and> \<not> like_prefix x (old @ ''/'') (relocate new r)"
        if "r \<in> set (artifacts s)" "ba_id r = ba_id e" for r
        using artifact_unique(1) [OF assms(1) that(1) e(1) that(2)] e assms(3)
        by (auto simp: like_prefix_iff move_free_def)
      then show ?thesis by (simp add: filter_sql_update_other)
    qed
    moreover have "try_all (move_child old new) ?cs ?s1
        = try_all (\<lambda>c. update_artifact_path (ba_id c) (moved_path old new (ba_relative_path c))) ?cs ?s1"
      by (rule try_all_cong) (auto intro: fun_cong [OF move_child_path])
    ultimately show ?thesis
      using res found True by (simp add: move_rows_def move_order_def moved_path_def e)
  qed
qed

text \<open>A directory with one file below it, renamed beside a file whose name begins alike.\<close>

definition demo_tree :: store where
  "demo_tree = empty_store\<lparr>bundles := [demo_bundle],
     artifacts := [demo_artifact 1 ''d'', demo_artifact 2 ''d/x'', demo_artifact 3 ''dx'']\<rparr>"

end
