(* ===== verification/Bundle_Archive.thy ===== *)
theory Bundle_Archive
  imports Bundle_Repo User_Rows
begin

text \<open>
  \<^verbatim>\<open>bundles/src/archive.rs\<close>: the extraction of an archive below a directory and the scan of a
  directory into artifact rows. Both are synchronous code on the file system alone; what the
  \<^verbatim>\<open>zip\<close> crate reads from the archive is \<open>ho_zip\<close>.
\<close>

type_synonym 'a disk_task = "fs \<Rightarrow> 'a app_result \<times> fs"

text \<open>\<^verbatim>\<open>?\<close> between two steps on a state.\<close>

definition and_then ::
  "('s \<Rightarrow> 'a app_result \<times> 's) \<Rightarrow> ('a \<Rightarrow> 's \<Rightarrow> 'b app_result \<times> 's) \<Rightarrow> 's \<Rightarrow> 'b app_result \<times> 's" where
  "and_then m f s = (case m s of (Inl e, s') \<Rightarrow> (Inl e, s') | (Inr x, s') \<Rightarrow> f x s')"

definition failing_as :: "host \<Rightarrow> string \<Rightarrow> (fs \<Rightarrow> (io_error + 'a) \<times> fs) \<Rightarrow> 'a disk_task" where
  "failing_as h context f fs =
     (case f fs of (Inl e, fs') \<Rightarrow> (Inl (io_failure h context e), fs') | (Inr x, fs') \<Rightarrow> (Inr x, fs'))"

section \<open>Extraction\<close>

definition MAX_UNCOMPRESSED :: int where
  "MAX_UNCOMPRESSED = 10 * 1024 * 1024 * 1024"

definition MAX_ENTRIES :: int where
  "MAX_ENTRIES = 100000"

text \<open>\<^verbatim>\<open>u64::saturating_add\<close>\<close>

definition saturating_add :: "int \<Rightarrow> int \<Rightarrow> int" where
  "saturating_add a b = min (2 ^ 64 - 1) (a + b)"

definition zip_slip :: "zip_entry \<Rightarrow> app_error" where
  "zip_slip e = BadRequest (''zip-slip detected for entry: '' @ ze_name e)"

text \<open>The guard on the name: \<open>None\<close> skips the entry.\<close>

definition entry_path :: "zip_entry \<Rightarrow> string option app_result" where
  "entry_path e =
     (let raw_name = ze_name e; trimmed = trim_start_matches slash raw_name in
      if raw_name = ''__MACOSX'' \<or> starts_with ''__MACOSX/'' raw_name then Inr None
      else if trimmed = [] then Inr None
      else
        (case normalize_relative_path trimmed ''entry'' of
           Inr p \<Rightarrow> Inr (Some p)
         | Inl (BadRequest msg) \<Rightarrow> if sublist ''is required'' msg then Inr None else Inl (zip_slip e)
         | Inl _ \<Rightarrow> Inl (zip_slip e)))"

definition is_within :: "path \<Rightarrow> path \<Rightarrow> bool" where
  "is_within candidate base \<longleftrightarrow> prefix base candidate \<and> ''..'' \<notin> set candidate"

definition copy_entry :: "host \<Rightarrow> zip_entry \<Rightarrow> path \<Rightarrow> string \<Rightarrow> unit disk_task" where
  "copy_entry h e dest_entry safe =
     and_then (failing_as h (''write '' @ safe) (fill_file (ho_io h) dest_entry (ze_data e)))
       (\<lambda>_ fs. (case ze_broken e of
          Some text \<Rightarrow> (Inl (Internal (''write '' @ safe @ '': '' @ text)), fs)
        | None \<Rightarrow> (Inr (), fs)))"

definition place_entry :: "host \<Rightarrow> zip_entry \<Rightarrow> path \<Rightarrow> string \<Rightarrow> unit disk_task" where
  "place_entry h e dest_entry safe =
     (if ze_is_dir e then failing_as h (''mkdir '' @ safe) (create_dir_all (ho_io h) dest_entry)
      else
        and_then (failing_as h (''mkdir parent '' @ safe) (create_dir_all (ho_io h) (butlast dest_entry)))
          (\<lambda>_. and_then (failing_as h (''create '' @ safe) (create_file (ho_io h) dest_entry))
            (\<lambda>_. copy_entry h e dest_entry safe)))"

fun extract_entries :: "host \<Rightarrow> path \<Rightarrow> int \<Rightarrow> (string + zip_entry) list \<Rightarrow> unit disk_task" where
  "extract_entries h dest used [] fs = (Inr (), fs)"
| "extract_entries h dest used (Inl text # es) fs = (Inl (BadRequest (''read ZIP entry: '' @ text)), fs)"
| "extract_entries h dest used (Inr e # es) fs =
     (case entry_path e of
        Inl err \<Rightarrow> (Inl err, fs)
      | Inr None \<Rightarrow> extract_entries h dest used es fs
      | Inr (Some safe) \<Rightarrow>
          let dest_entry = join_files dest safe; used' = saturating_add used (uint (ze_size e)) in
          if \<not> is_within dest_entry dest then (Inl (zip_slip e), fs)
          else if used' > MAX_UNCOMPRESSED
          then (Inl (BadRequest (''ZIP total uncompressed size exceeds limit of ''
                  @ decimal (nat MAX_UNCOMPRESSED) @ '' bytes.'')), fs)
          else
            (case place_entry h e dest_entry safe fs of
               (Inl err, fs') \<Rightarrow> (Inl err, fs')
             | (Inr _, fs') \<Rightarrow> extract_entries h dest used' es fs'))"

definition open_archive :: "host \<Rightarrow> path \<Rightarrow> fs \<Rightarrow> (string + zip_entry) list app_result" where
  "open_archive h archive_path fs =
     (case open_path (ho_io h) archive_path fs of
        Inl e \<Rightarrow> Inl (io_failure h ''open archive'' e)
      | Inr _ \<Rightarrow>
          (case (case read_path (ho_io h) archive_path fs of
                   Inl e \<Rightarrow> Inl (io_text (ho_io h) e) | Inr bytes \<Rightarrow> ho_zip h bytes) of
             Inl text \<Rightarrow> Inl (BadRequest (''invalid ZIP archive: '' @ text))
           | Inr es \<Rightarrow> Inr es))"

definition extract_zip :: "host \<Rightarrow> path \<Rightarrow> path \<Rightarrow> unit disk_task" where
  "extract_zip h archive_path dest fs =
     (case open_archive h archive_path fs of
        Inl err \<Rightarrow> (Inl err, fs)
      | Inr es \<Rightarrow>
          if int (length es) > MAX_ENTRIES
          then (Inl (BadRequest (''ZIP contains too many entries ('' @ decimal (length es)
                  @ ''). Limit is '' @ decimal (nat MAX_ENTRIES) @ ''.'')), fs)
          else extract_entries h dest 0 es fs)"

section \<open>Scan\<close>

text \<open>\<^verbatim>\<open>Path\<close>'s order on siblings: their names byte by byte.\<close>

fun byte_le :: "string \<Rightarrow> string \<Rightarrow> bool" where
  "byte_le [] t = True"
| "byte_le (c # s) [] = False"
| "byte_le (c # s) (d # t) =
     (if c = d then byte_le s t else (of_char c :: nat) < of_char d)"

definition hash_file :: "host \<Rightarrow> path \<Rightarrow> fs \<Rightarrow> string app_result" where
  "hash_file h p fs =
     (case open_path (ho_io h) p fs of
        Inl e \<Rightarrow> Inl (io_failure h ''open'' e)
      | Inr _ \<Rightarrow>
          (case read_path (ho_io h) p fs of
             Inl e \<Rightarrow> Inl (io_failure h ''read'' e)
           | Inr bytes \<Rightarrow> Inr (e_hex (ho_env h) (e_sha256 (ho_env h) bytes))))"

definition relative_forward_slash :: "path \<Rightarrow> path \<Rightarrow> string" where
  "relative_forward_slash p base =
     (if prefix base p then unify_separators (join_with slash (drop (length base) p)) else [])"

definition scanned_dir :: "host \<Rightarrow> path \<Rightarrow> string \<Rightarrow> scan_entry" where
  "scanned_dir h p rel =
     (let (name, category) = split_relative_path rel in
      \<lparr>sc_relative_path = rel, sc_name = name, sc_category = category, sc_size = 0, sc_sha256 = None,
       sc_is_dir = True, sc_file_modified_at = io_mtime (ho_io h) p\<rparr>)"

definition scanned_file :: "host \<Rightarrow> path \<Rightarrow> string \<Rightarrow> string \<Rightarrow> string \<Rightarrow> scan_entry" where
  "scanned_file h p rel bytes sha256 =
     (let (name, category) = split_relative_path rel in
      \<lparr>sc_relative_path = rel, sc_name = name, sc_category = category, sc_size = of_nat (length bytes),
       sc_sha256 = Some sha256, sc_is_dir = False, sc_file_modified_at = io_mtime (ho_io h) p\<rparr>)"

text \<open>What one entry pushes before the walk goes on below it; \<open>None\<close> pushes nothing and descends nowhere.\<close>

definition scan_one :: "host \<Rightarrow> path \<Rightarrow> fs \<Rightarrow> path \<times> entry \<Rightarrow> scan_entry option app_result" where
  "scan_one h base fs pe =
     (let (p, e) = pe; rel = relative_forward_slash p base in
      if rel = [] then Inr None
      else if \<not> io_ok (ho_io h) (Stat p) then Inl (io_failure h (''stat '' @ rel) Refused)
      else
        (case e of
           Directory \<Rightarrow> Inr (Some (scanned_dir h p rel))
         | Regular bytes \<Rightarrow>
             (case hash_file h p fs of
                Inl err \<Rightarrow> Inl err
              | Inr sha256 \<Rightarrow> Inr (Some (scanned_file h p rel bytes sha256)))))"

text \<open>The pushes in order, up to the first error.\<close>

fun collect :: "'a list app_result list \<Rightarrow> 'a list app_result" where
  "collect [] = Inr []"
| "collect (Inl e # rs) = Inl e"
| "collect (Inr xs # rs) = (case collect rs of Inl e \<Rightarrow> Inl e | Inr ys \<Rightarrow> Inr (xs @ ys))"

definition listing :: "io \<Rightarrow> path \<Rightarrow> fs \<Rightarrow> (path \<times> entry) list" where
  "listing io dir fs =
     (if stat fs dir = Some Directory \<and> io_ok io (List dir)
      then order_by (\<lambda>(p, _) (q, _). byte_le (last p) (last q)) (children dir fs) else [])"

definition depth_bound :: "fs \<Rightarrow> nat" where
  "depth_bound fs = foldr (\<lambda>(p, _) n. max (length p) n) fs 0"

lemma length_le_depth: "(p, e) \<in> set fs \<Longrightarrow> length p \<le> depth_bound fs"
  by (induction fs) (auto simp: depth_bound_def)

lemma in_listing: "(p, e) \<in> set (listing io dir fs) \<Longrightarrow> (p, e) \<in> set fs \<and> p \<noteq> [] \<and> butlast p = dir"
  by (auto simp: listing_def children_def split: if_splits)

lemma listing_deeper:
  assumes "(p, e) \<in> set (listing io dir fs)"
  shows "Suc (depth_bound fs) - length p < Suc (depth_bound fs) - length dir"
  using in_listing [OF assms] length_le_depth [of p e fs] by (cases p rule: rev_cases) auto

function walk :: "host \<Rightarrow> path \<Rightarrow> fs \<Rightarrow> path \<Rightarrow> scan_entry list app_result" where
  "walk h base fs dir =
     collect (map (\<lambda>(p, e).
         case scan_one h base fs (p, e) of
           Inl err \<Rightarrow> Inl err
         | Inr None \<Rightarrow> Inr []
         | Inr (Some sc) \<Rightarrow>
             if sc_is_dir sc then collect [Inr [sc], walk h base fs p] else Inr [sc])
       (listing (ho_io h) dir fs))"
  by pat_completeness auto
termination
  by (relation "measure (\<lambda>(h, base, fs, dir). Suc (depth_bound fs) - length dir)")
    (auto dest: listing_deeper)

declare walk.simps [simp del]

definition scan_directory :: "host \<Rightarrow> path \<Rightarrow> fs \<Rightarrow> scan_entry list app_result" where
  "scan_directory h files_root fs =
     (if path_exists fs files_root then walk h files_root fs files_root else Inr [])"

section \<open>What an archive can touch\<close>

definition within_only :: "path \<Rightarrow> fs \<Rightarrow> fs \<Rightarrow> bool" where
  "within_only dest fs fs' \<longleftrightarrow> fs_wf fs' \<and> (\<forall>p. \<not> strict_prefix dest p \<longrightarrow> stat fs' p = stat fs p)"

lemma within_only_refl: "fs_wf fs \<Longrightarrow> within_only dest fs fs"
  by (simp add: within_only_def)

lemma within_only_trans: "within_only dest fs fs1 \<Longrightarrow> within_only dest fs1 fs2 \<Longrightarrow> within_only dest fs fs2"
  by (simp add: within_only_def)

lemma within_only_dest: "within_only dest fs fs' \<Longrightarrow> stat fs dest = Some Directory \<Longrightarrow> stat fs' dest = Some Directory"
  by (simp add: within_only_def)

lemma within_only_create_dir_all:
  assumes "create_dir_all io q fs = (r, fs')" "fs_wf fs" "stat fs dest = Some Directory" "prefix dest q"
  shows "within_only dest fs fs'"
proof -
  have "stat fs' p = stat fs p" if p: "\<not> strict_prefix dest p" for p
  proof (rule ccontr)
    assume "stat fs' p \<noteq> stat fs p"
    with stat_create_dir_all [OF assms(1), of p] have none: "stat fs p = None" and pq: "prefix p q" by auto
    from pq assms(4) have "prefix p dest \<or> prefix dest p" by (rule prefix_same_cases)
    with p have "p = dest \<or> strict_prefix p dest" by (auto simp: strict_prefix_def)
    with stat_ancestor [OF assms(2,3), of p] assms(3) none show False by auto
  qed
  with fs_wf_create_dir_all [OF assms(1,2)] show ?thesis by (simp add: within_only_def)
qed

lemma within_only_create_file:
  "create_file io q fs = (r, fs') \<Longrightarrow> fs_wf fs \<Longrightarrow> strict_prefix dest q \<Longrightarrow> within_only dest fs fs'"
  using fs_wf_create_file [of io q fs r fs'] stat_create_file [of io q fs r fs']
  by (auto simp: within_only_def)

lemma within_only_fill_file:
  "fill_file io q c fs = (r, fs') \<Longrightarrow> fs_wf fs \<Longrightarrow> stat fs q = Some (Regular d) \<Longrightarrow> strict_prefix dest q
     \<Longrightarrow> within_only dest fs fs'"
  using fs_wf_fill_file [of io q c fs r fs' d] stat_fill_file(1) [of io q c fs r fs']
  by (cases "q = []") (auto simp: within_only_def)

lemmas task_defs = and_then_def failing_as_def

lemma copy_entry_within:
  assumes "copy_entry h e q safe fs = (r, fs')" "fs_wf fs" "stat fs q = Some (Regular d)" "strict_prefix dest q"
  shows "within_only dest fs fs'"
proof -
  obtain r1 where "fill_file (ho_io h) q (ze_data e) fs = (r1, fs')"
    using assms(1) by (auto simp: copy_entry_def task_defs split: prod.splits sum.splits option.splits)
  then show ?thesis using within_only_fill_file assms(2-4) by blast
qed

lemma place_entry_within:
  assumes "place_entry h e q safe fs = (r, fs')" "fs_wf fs" "stat fs dest = Some Directory" "strict_prefix dest q"
  shows "within_only dest fs fs'"
proof (cases "ze_is_dir e")
  case True
  then obtain r1 where "create_dir_all (ho_io h) q fs = (r1, fs')"
    using assms(1) by (auto simp: place_entry_def task_defs split: prod.splits sum.splits)
  with assms show ?thesis by (auto intro: within_only_create_dir_all simp: strict_prefix_def)
next
  case False
  obtain r1 fs1 where mk: "create_dir_all (ho_io h) (butlast q) fs = (r1, fs1)" by fastforce
  obtain r2 fs2 where cr: "create_file (ho_io h) q fs1 = (r2, fs2)" by fastforce
  have "prefix dest (butlast q)" using assms(4) by (auto simp: strict_prefix_def prefix_def butlast_append)
  with mk assms have w1: "within_only dest fs fs1" by (auto intro: within_only_create_dir_all)
  with cr assms(4) have w2: "within_only dest fs1 fs2"
    by (auto simp: within_only_def [of dest fs fs1] intro: within_only_create_file)
  have "fs' = fs1 \<or> fs' = fs2 \<or> (\<exists>u. r2 = Inr u) \<and> copy_entry h e q safe fs2 = (r, fs')"
    using assms(1) False mk cr by (auto simp: place_entry_def task_defs split: sum.splits)
  moreover have "within_only dest fs2 fs'" if "r2 = Inr u" "copy_entry h e q safe fs2 = (r, fs')" for u
    using copy_entry_within [OF that(2) _ _ assms(4)] create_file_ok(2) [of "ho_io h" q fs1 u fs2] cr that(1) w2
    by (auto simp: within_only_def [of dest fs1 fs2])
  ultimately show ?thesis using w1 w2 within_only_trans by blast
qed

lemma entry_below:
  assumes "entry_path e = Inr (Some safe)"
  shows "safe_path safe" "strict_prefix dest (join_files dest safe)"
proof -
  show "safe_path safe"
    using assms by (auto simp: entry_path_def Let_def split: if_splits sum.splits app_error.splits dest: normalize_safe)
  then show "strict_prefix dest (join_files dest safe)" by (simp add: join_files_def strict_prefix_def)
qed

lemma extract_entries_within:
  "extract_entries h dest used es fs = (r, fs') \<Longrightarrow> fs_wf fs \<Longrightarrow> stat fs dest = Some Directory
     \<Longrightarrow> within_only dest fs fs'"
proof (induction h dest used es fs rule: extract_entries.induct)
  case (3 h dest used e es fs)
  show ?case
  proof (cases "\<exists>safe r1 fs1. entry_path e = Inr (Some safe) \<and> is_within (join_files dest safe) dest
      \<and> saturating_add used (uint (ze_size e)) \<le> MAX_UNCOMPRESSED
      \<and> place_entry h e (join_files dest safe) safe fs = (r1, fs1)")
    case True
    then obtain safe r1 fs1 where safe: "entry_path e = Inr (Some safe)" "is_within (join_files dest safe) dest"
      "saturating_add used (uint (ze_size e)) \<le> MAX_UNCOMPRESSED"
      and pl: "place_entry h e (join_files dest safe) safe fs = (r1, fs1)" by blast
    have w1: "within_only dest fs fs1"
      by (rule place_entry_within [OF pl "3.prems"(2,3) entry_below(2) [OF safe(1)]])
    then have ok: "fs_wf fs1" "stat fs1 dest = Some Directory"
      using "3.prems"(3) by (simp_all add: within_only_def)
    show ?thesis
    proof (cases r1)
      case (Inl err)
      with "3.prems"(1) safe pl w1 show ?thesis by (simp add: Let_def)
    next
      case (Inr u)
      with "3.prems"(1) safe pl
      have "extract_entries h dest (saturating_add used (uint (ze_size e))) es fs1 = (r, fs')" by (simp add: Let_def)
      from "3.IH"(2) [OF safe(1) refl refl refl _ _ pl [symmetric] Inr this ok] safe(2,3) w1
      show ?thesis by (auto intro: within_only_trans)
    qed
  next
    case False
    with 3 show ?thesis
      by (auto simp: Let_def within_only_refl split: sum.splits option.splits if_splits prod.splits)
  qed
qed (auto simp: within_only_refl)

text \<open>The entries the guard on names keeps, and what they declare.\<close>

fun kept :: "(string + zip_entry) list \<Rightarrow> (string \<times> zip_entry) list" where
  "kept [] = []"
| "kept (Inl text # es) = kept es"
| "kept (Inr e # es) = (case entry_path e of Inr (Some safe) \<Rightarrow> (safe, e) # kept es | _ \<Rightarrow> kept es)"

definition declared_size :: "(string \<times> zip_entry) list \<Rightarrow> int" where
  "declared_size xs = sum_list (map (\<lambda>(_, e). uint (ze_size e)) xs)"

lemma saturating_add_le: "saturating_add a b \<le> MAX_UNCOMPRESSED \<longleftrightarrow> a + b \<le> MAX_UNCOMPRESSED"
  by (auto simp: saturating_add_def MAX_UNCOMPRESSED_def)

text \<open>A successful extraction decomposes into the placements of the kept entries, in order.\<close>

fun place_all :: "host \<Rightarrow> path \<Rightarrow> (string \<times> zip_entry) list \<Rightarrow> unit disk_task" where
  "place_all h dest [] fs = (Inr (), fs)"
| "place_all h dest ((safe, e) # xs) fs =
     and_then (place_entry h e (join_files dest safe) safe) (\<lambda>_. place_all h dest xs) fs"

lemma extract_entries_ok:
  "extract_entries h dest used es fs = (Inr u, fs') \<Longrightarrow> used \<le> MAX_UNCOMPRESSED
     \<Longrightarrow> place_all h dest (kept es) fs = (Inr (), fs') \<and> used + declared_size (kept es) \<le> MAX_UNCOMPRESSED"
proof (induction es arbitrary: used fs)
  case Nil
  then show ?case by (simp add: declared_size_def)
next
  case (Cons x es)
  show ?case
  proof (cases x)
    case (Inl msg)
    with Cons.prems show ?thesis by simp
  next
    case (Inr e)
    show ?thesis
    proof (cases "\<exists>safe. entry_path e = Inr (Some safe)")
      case True
      then obtain safe where safe: "entry_path e = Inr (Some safe)" by blast
      with Cons.prems(1) Inr obtain v fs1 where
        pl: "place_entry h e (join_files dest safe) safe fs = (Inr v, fs1)"
        and rest: "extract_entries h dest (saturating_add used (uint (ze_size e))) es fs1 = (Inr u, fs')"
        and cap: "saturating_add used (uint (ze_size e)) \<le> MAX_UNCOMPRESSED"
        by (auto simp: Let_def split: if_splits prod.splits sum.splits)
      from cap have le: "used + uint (ze_size e) \<le> MAX_UNCOMPRESSED" by (simp add: saturating_add_le)
      then have "saturating_add used (uint (ze_size e)) = used + uint (ze_size e)"
        by (auto simp: saturating_add_def MAX_UNCOMPRESSED_def)
      with Cons.IH [OF rest cap] pl safe Inr show ?thesis
        by (simp add: and_then_def declared_size_def add.assoc)
    next
      case False
      with Cons Inr show ?thesis by (auto split: sum.splits option.splits)
    qed
  qed
qed

lemma extract_zip_result:
  assumes "extract_zip h archive_path dest fs = (r, fs')" "fs_wf fs" "stat fs dest = Some Directory"
  shows "fs_wf fs' \<and> (\<forall>p. \<not> strict_prefix dest p \<longrightarrow> stat fs' p = stat fs p)
    \<and> (r = Inr () \<longrightarrow> (\<exists>es. open_archive h archive_path fs = Inr es
         \<and> place_all h dest (kept es) fs = (Inr (), fs')
         \<and> int (length es) \<le> MAX_ENTRIES \<and> declared_size (kept es) \<le> MAX_UNCOMPRESSED))"
proof (cases "\<exists>es. open_archive h archive_path fs = Inr es \<and> int (length es) \<le> MAX_ENTRIES")
  case True
  then obtain es where es: "open_archive h archive_path fs = Inr es" "int (length es) \<le> MAX_ENTRIES" by blast
  with assms(1) have run: "extract_entries h dest 0 es fs = (r, fs')" by (simp add: extract_zip_def)
  from extract_entries_within [OF this assms(2,3)] extract_entries_ok [of h dest 0 es fs "()" fs'] run es
  show ?thesis by (auto simp: within_only_def MAX_UNCOMPRESSED_def)
next
  case False
  with assms show ?thesis by (auto simp: extract_zip_def split: sum.splits if_splits)
qed

text \<open>
  C21. Whatever an archive contains, and wherever the extraction stops, nothing outside the
  destination changes and the file system stays a tree; an extraction that succeeds placed exactly
  the entries that pass the name guard, in their order, at most \<open>MAX_ENTRIES\<close> of them, and their
  declared sizes add up to at most \<open>MAX_UNCOMPRESSED\<close>.
\<close>

theorem extract_zip_confined:
  assumes "extract_zip h archive_path dest fs = (r, fs')" "fs_wf fs" "stat fs dest = Some Directory"
  shows "fs_wf fs' \<and> (\<forall>p. \<not> strict_prefix dest p \<longrightarrow> stat fs' p = stat fs p)
    \<and> (r = Inr () \<longrightarrow> (\<exists>es. open_archive h archive_path fs = Inr es
         \<and> place_all h dest (kept es) fs = (Inr (), fs')
         \<and> int (length es) \<le> MAX_ENTRIES \<and> declared_size (kept es) \<le> MAX_UNCOMPRESSED))"
  using assms by (rule extract_zip_result)

text \<open>An archive with a resource fork, a file and a climbing entry: the file arrives, the rest does not.\<close>

definition demo_host :: "(string \<Rightarrow> string + (string + zip_entry) list) \<Rightarrow> host" where
  "demo_host unzip =
     \<lparr>ho_env = sample_env, ho_io = working,
      ho_cfg = \<lparr>lc_bundles_root = [''r''], lc_bundles_public = ''u'', lc_catalog_root = [''c'']\<rparr>,
      ho_json = (\<lambda>_. ''{}''), ho_db_text = (\<lambda>_. ''db error''), ho_uuid_text = (\<lambda>_. ''u''),
      ho_uuid_simple = (\<lambda>_. ''x''), ho_parse_uuid = (\<lambda>_. None),
      ho_zip = unzip\<rparr>"

definition demo_entry :: "string \<Rightarrow> string \<Rightarrow> string + zip_entry" where
  "demo_entry name content =
     Inr \<lparr>ze_name = name, ze_size = of_nat (length content), ze_is_dir = False, ze_data = content, ze_broken = None\<rparr>"

definition demo_archive :: "string \<Rightarrow> string + (string + zip_entry) list" where
  "demo_archive _ = Inr [demo_entry ''__MACOSX/x'' ''m'', demo_entry ''d/f'' ''abc'', demo_entry ''../up'' ''no'']"

definition demo_disk :: fs where
  "demo_disk = [([''z''], Regular ''zip''), ([''t''], Directory), ([''up''], Regular ''keep'')]"

lemma demo_disk_wf [simp]: "fs_wf demo_disk" "stat demo_disk [''t''] = Some Directory"
  by code_simp+

theorem extract_zip_confined_witness:
  "stat (snd (extract_zip (demo_host demo_archive) [''z''] [''t''] demo_disk)) [''up''] = Some (Regular ''keep'')
   \<and> fst (extract_zip (demo_host demo_archive) [''z''] [''t''] demo_disk)
       = Inl (BadRequest ''zip-slip detected for entry: ../up'')
   \<and> stat (snd (extract_zip (demo_host demo_archive) [''z''] [''t''] demo_disk)) [''t'', ''d'', ''f''] = Some (Regular ''abc'')"
proof -
  let ?run = "extract_zip (demo_host demo_archive) [''z''] [''t''] demo_disk"
  have "?run = (fst ?run, snd ?run)" by simp
  from extract_zip_confined [OF this demo_disk_wf]
  have "stat (snd ?run) [''up''] = stat demo_disk [''up'']" by simp
  also have "stat demo_disk [''up''] = Some (Regular ''keep'')" by code_simp
  finally have "stat (snd ?run) [''up''] = Some (Regular ''keep'')" .
  moreover have "fst ?run = Inl (BadRequest ''zip-slip detected for entry: ../up'')" by code_simp
  moreover have "stat (snd ?run) [''t'', ''d'', ''f''] = Some (Regular ''abc'')" by code_simp
  ultimately show ?thesis by blast
qed

section \<open>What a scan lists\<close>

text \<open>Nothing the kernel refuses, and names the registry can write down.\<close>

definition reliable :: "io \<Rightarrow> bool" where
  "reliable io \<longleftrightarrow> (\<forall>op. io_ok io op)"

definition plain_below :: "path \<Rightarrow> fs \<Rightarrow> bool" where
  "plain_below root fs \<longleftrightarrow>
     list_all (\<lambda>(p, _). prefix root p \<longrightarrow> list_all safe_segment (drop (length root) p)) fs"

text \<open>The row a path below the root is due.\<close>

definition tree_path :: "path \<Rightarrow> path \<Rightarrow> string" where
  "tree_path root p = join_with slash (drop (length root) p)"

definition tree_row :: "host \<Rightarrow> path \<Rightarrow> path \<times> entry \<Rightarrow> scan_entry" where
  "tree_row h root pe = (case snd pe of
     Directory \<Rightarrow> scanned_dir h (fst pe) (tree_path root (fst pe))
   | Regular bytes \<Rightarrow> scanned_file h (fst pe) (tree_path root (fst pe)) bytes
       (e_hex (ho_env h) (e_sha256 (ho_env h) bytes)))"

definition subtree :: "path \<Rightarrow> fs \<Rightarrow> (path \<times> entry) set" where
  "subtree dir fs = {pe \<in> set fs. strict_prefix dir (fst pe)}"

lemma plain_segments:
  assumes "plain_below root fs" "(p, e) \<in> set fs" "strict_prefix root p"
  shows "drop (length root) p \<noteq> []" "list_all safe_segment (drop (length root) p)"
  using assms by (auto simp: plain_below_def list_all_iff strict_prefix_def prefix_def)

lemma tree_path_safe:
  assumes "plain_below root fs" "(p, e) \<in> set fs" "strict_prefix root p"
  shows "safe_path (tree_path root p)" "split_on slash (tree_path root p) = drop (length root) p"
  unfolding tree_path_def using safe_path_join [OF plain_segments [OF assms]] by simp_all

lemma safe_path_nonempty: "safe_path p \<Longrightarrow> p \<noteq> []"
  by (auto simp: safe_path_def safe_segment_def)

lemma relative_tree_path:
  assumes "plain_below root fs" "(p, e) \<in> set fs" "strict_prefix root p"
  shows "relative_forward_slash p root = tree_path root p"
  using safe_path_chars(1) [OF tree_path_safe(1) [OF assms]] assms(3)
  by (simp add: relative_forward_slash_def tree_path_def unify_id strict_prefix_def)

lemma scan_one_row:
  assumes "reliable (ho_io h)" "fs_wf fs" "plain_below root fs" "(p, e) \<in> set fs" "strict_prefix root p"
  shows "scan_one h root fs (p, e) = Inr (Some (tree_row h root (p, e)))"
proof -
  have "tree_path root p \<noteq> []" by (rule safe_path_nonempty [OF tree_path_safe(1) [OF assms(3-5)]])
  then show ?thesis
    using assms(1) stat_in [OF assms(2,4)] relative_tree_path [OF assms(3-5)]
    by (simp add: scan_one_def tree_row_def reliable_def hash_file_def open_path_def read_path_def split: entry.split)
qed

lemma tree_row_is_dir [simp]: "sc_is_dir (tree_row h root (p, e)) \<longleftrightarrow> e = Directory"
  "sc_relative_path (tree_row h root (p, e)) = tree_path root p"
  by (simp_all add: tree_row_def scanned_dir_def scanned_file_def split: entry.split prod.split)

lemma collect_rows:
  assumes "\<And>x. x \<in> set xs \<Longrightarrow> \<exists>ps. f x = Inr (map r ps) \<and> distinct ps \<and> set ps = S x"
    and "distinct xs" "\<And>x y. x \<in> set xs \<Longrightarrow> y \<in> set xs \<Longrightarrow> x \<noteq> y \<Longrightarrow> S x \<inter> S y = {}"
  shows "\<exists>ps. collect (map f xs) = Inr (map r ps) \<and> distinct ps \<and> set ps = (\<Union>x\<in>set xs. S x)"
  using assms
proof (induction xs)
  case (Cons x xs)
  obtain ps where ps: "f x = Inr (map r ps)" "distinct ps" "set ps = S x" using Cons.prems(1) [of x] by auto
  have "\<exists>qs. collect (map f xs) = Inr (map r qs) \<and> distinct qs \<and> set qs = (\<Union>x\<in>set xs. S x)"
    by (rule Cons.IH) (use Cons.prems in auto)
  then obtain qs where qs: "collect (map f xs) = Inr (map r qs)" "distinct qs" "set qs = (\<Union>x\<in>set xs. S x)"
    by blast
  have "S x \<inter> S y = {}" if "y \<in> set xs" for y
    using Cons.prems(2) that by (intro Cons.prems(3)) auto
  then have "set ps \<inter> set qs = {}" using ps(3) qs(3) by blast
  with ps qs show ?case by (intro exI [of _ "ps @ qs"]) simp
qed simp

text \<open>A subtree is the disjoint union of what lies at or below the children.\<close>

definition branch :: "path \<times> entry \<Rightarrow> fs \<Rightarrow> (path \<times> entry) set" where
  "branch x fs = {pe \<in> set fs. prefix (fst x) (fst pe)}"

lemma subtree_branches:
  assumes "reliable io" "fs_wf fs"
  shows "subtree dir fs = (\<Union>x\<in>set (listing io dir fs). branch x fs)"
proof (intro equalityI subsetI)
  fix pe assume "pe \<in> subtree dir fs"
  then obtain p e where pe: "pe = (p, e)" "(p, e) \<in> set fs" "strict_prefix dir p" by (cases pe) (auto simp: subtree_def)
  have st: "stat fs p = Some e" by (rule stat_in [OF assms(2) pe(2)])
  have dir: "stat fs dir = Some Directory" by (rule stat_ancestor [OF assms(2) st pe(3)])
  from pe(3) obtain x r where p: "p = dir @ x # r" by (elim strict_prefixE')
  let ?q = "dir @ [x]"
  have q: "prefix ?q p" "?q \<noteq> []" "butlast ?q = dir" using p by simp_all
  have "stat fs ?q \<noteq> None"
    using q(1) st stat_ancestor [OF assms(2) st, of ?q] by (cases "?q = p") (auto simp: strict_prefix_def)
  then obtain e' where "(?q, e') \<in> set fs" using q(2) by (auto dest: stat_SomeD)
  with q dir assms(1) have "(?q, e') \<in> set (listing io dir fs)"
    by (simp add: listing_def children_def reliable_def)
  moreover have "pe \<in> branch (?q, e') fs" using pe q(1) by (simp add: branch_def)
  ultimately show "pe \<in> (\<Union>x\<in>set (listing io dir fs). branch x fs)" by blast
next
  fix pe assume "pe \<in> (\<Union>x\<in>set (listing io dir fs). branch x fs)"
  then obtain q e' where "(q, e') \<in> set (listing io dir fs)" "pe \<in> set fs" "prefix q (fst pe)"
    by (auto simp: branch_def)
  moreover from this have "q = dir @ [last q]" using in_listing [of q e' io dir fs] by (metis append_butlast_last_id)
  then have "strict_prefix dir q" by (metis strict_prefixI' append.assoc append_Cons)
  ultimately have "pe \<in> set fs" "strict_prefix dir (fst pe)" by (auto intro: prefix_order.less_le_trans)
  then show "pe \<in> subtree dir fs" by (simp add: subtree_def)
qed

lemma branches_disjoint:
  assumes "x \<in> set (listing io dir fs)" "y \<in> set (listing io dir fs)" "x \<noteq> y" "fs_wf fs"
  shows "branch x fs \<inter> branch y fs = {}"
proof (rule ccontr)
  assume "branch x fs \<inter> branch y fs \<noteq> {}"
  then obtain pe where "prefix (fst x) (fst pe)" "prefix (fst y) (fst pe)" by (auto simp: branch_def)
  then have "prefix (fst x) (fst y) \<or> prefix (fst y) (fst x)" by (rule prefix_same_cases)
  moreover have "fst x \<noteq> []" "fst y \<noteq> []" "butlast (fst x) = dir" "butlast (fst y) = dir" "x \<in> set fs" "y \<in> set fs"
    using assms(1,2) in_listing [of "fst x" "snd x" io dir fs] in_listing [of "fst y" "snd y" io dir fs] by simp_all
  then have "length (fst x) = length (fst y)" by (metis append_butlast_last_id length_append_singleton)
  ultimately have "fst x = fst y" by (auto simp: prefix_def)
  moreover have "stat fs (fst x) = Some (snd x)" "stat fs (fst y) = Some (snd y)"
    using \<open>x \<in> set fs\<close> \<open>y \<in> set fs\<close> by (simp_all add: stat_in [OF assms(4)])
  ultimately show False using assms(3) by (simp add: prod_eq_iff)
qed

lemma branch_split:
  assumes "fs_wf fs" "(p, e) \<in> set fs"
  shows "branch (p, e) fs = insert (p, e) (subtree p fs)"
    and "e \<noteq> Directory \<Longrightarrow> subtree p fs = {}"
proof -
  have same: "e' = e" if "(p, e') \<in> set fs" for e'
    using stat_in [OF assms(1) that] stat_in [OF assms] by simp
  have "(q, e') \<in> branch (p, e) fs \<longleftrightarrow> (q, e') \<in> insert (p, e) (subtree p fs)" for q e'
    using same [of e'] assms(2) by (cases "q = p") (auto simp: branch_def subtree_def strict_prefix_def)
  then show "branch (p, e) fs = insert (p, e) (subtree p fs)" by (intro set_eqI) (simp only: split_paired_all)
  show "subtree p fs = {}" if "e \<noteq> Directory"
  proof -
    have "\<not> strict_prefix p q" if "(q, e') \<in> set fs" for q e'
      using stat_ancestor [OF assms(1) stat_in [OF assms(1) that], of p] stat_in [OF assms] \<open>e \<noteq> Directory\<close> by auto
    then show ?thesis by (auto simp: subtree_def)
  qed
qed

lemma distinct_listing [simp]: "fs_wf fs \<Longrightarrow> distinct (listing io dir fs)"
  by (simp add: listing_def children_def fs_wf_def distinct_map)

lemma walk_rows:
  assumes "reliable (ho_io h)" "fs_wf fs" "plain_below root fs" "prefix root dir"
  shows "\<exists>ps. walk h root fs dir = Inr (map (tree_row h root) ps) \<and> distinct ps \<and> set ps = subtree dir fs"
  using assms
proof (induction h root fs dir rule: walk.induct)
  case (1 h root fs dir)
  have "\<exists>ps. (case scan_one h root fs (p, e) of
             Inl err \<Rightarrow> Inl err
           | Inr None \<Rightarrow> Inr []
           | Inr (Some sc) \<Rightarrow> if sc_is_dir sc then collect [Inr [sc], walk h root fs p] else Inr [sc])
         = Inr (map (tree_row h root) ps) \<and> distinct ps \<and> set ps = branch (p, e) fs"
    if x: "(p, e) \<in> set (listing (ho_io h) dir fs)" for p e
  proof -
    have pe: "(p, e) \<in> set fs" "strict_prefix root p"
      using in_listing [OF x] "1.prems"(4)
      by (auto simp: strict_prefix_def prefixeq_butlast intro: prefix_order.trans)
        (metis butlast_neq prefix_order.antisym prefixeq_butlast)
    have one: "scan_one h root fs (p, e) = Inr (Some (tree_row h root (p, e)))"
      using scan_one_row "1.prems"(1-3) pe by blast
    show ?thesis
    proof (cases "e = Directory")
      case True
      then have dir: "sc_is_dir (tree_row h root (p, e))" by simp
      have "prefix root p" using pe(2) by (simp add: strict_prefix_def)
      from "1.IH" [OF x refl one refl dir "1.prems"(1-3) this] obtain ps where
        ps: "walk h root fs p = Inr (map (tree_row h root) ps)" "distinct ps" "set ps = subtree p fs" by blast
      moreover have "(p, e) \<notin> subtree p fs" by (simp add: subtree_def)
      ultimately show ?thesis
        using one dir branch_split(1) [OF "1.prems"(2) pe(1)] by (intro exI [of _ "(p, e) # ps"]) simp
    next
      case False
      then show ?thesis
        using one branch_split [OF "1.prems"(2) pe(1)] by (intro exI [of _ "[(p, e)]"]) simp
    qed
  qed
  then show ?case
    unfolding walk.simps [of h root fs dir] subtree_branches [OF "1.prems"(1,2), of dir]
    by (intro collect_rows) (auto simp: "1.prems"(2) branches_disjoint)
qed

lemma scan_directory_result:
  assumes "reliable (ho_io h)" "fs_wf fs" "plain_below root fs"
  shows "\<exists>rows. scan_directory h root fs = Inr rows \<and> set rows = tree_row h root ` subtree root fs
    \<and> distinct (map sc_relative_path rows) \<and> list_all (\<lambda>r. safe_path (sc_relative_path r)) rows"
proof -
  have "\<exists>ps. scan_directory h root fs = Inr (map (tree_row h root) ps) \<and> distinct ps \<and> set ps = subtree root fs"
  proof (cases "path_exists fs root")
    case True
    with walk_rows [OF assms, of root] show ?thesis by (simp add: scan_directory_def)
  next
    case False
    have "subtree root fs = {}"
    proof (rule ccontr)
      assume "subtree root fs \<noteq> {}"
      then obtain p e where "(p, e) \<in> set fs" "strict_prefix root p" by (auto simp: subtree_def)
      with stat_ancestor [OF assms(2) stat_in [OF assms(2)], of p e root] False show False
        by (simp add: path_exists_def)
    qed
    with False show ?thesis by (intro exI [of _ "[]"]) (simp add: scan_directory_def)
  qed
  then obtain ps where ps: "scan_directory h root fs = Inr (map (tree_row h root) ps)" "distinct ps"
    "set ps = subtree root fs" by blast
  have mem: "(p, e) \<in> set fs" "strict_prefix root p" if "(p, e) \<in> set ps" for p e
    using that ps(3) by (auto simp: subtree_def)
  have "inj_on (\<lambda>pe. tree_path root (fst pe)) (set ps)"
  proof (rule inj_onI, clarsimp)
    fix p e q d
    assume pq: "(p, e) \<in> set ps" "(q, d) \<in> set ps" "tree_path root p = tree_path root q"
    then have "drop (length root) p = drop (length root) q"
      using tree_path_safe(2) [OF assms(3) mem [OF pq(1)]] tree_path_safe(2) [OF assms(3) mem [OF pq(2)]] by simp
    moreover have "take (length root) p = root" "take (length root) q = root"
      using mem(2) [OF pq(1)] mem(2) [OF pq(2)] by (auto simp: strict_prefix_def prefix_def)
    ultimately have "p = q" by (metis append_take_drop_id)
    with stat_in [OF assms(2) mem(1) [OF pq(1)]] stat_in [OF assms(2) mem(1) [OF pq(2)]]
    show "p = q \<and> e = d" by simp
  qed
  moreover have "sc_relative_path \<circ> tree_row h root = (\<lambda>pe. tree_path root (fst pe))" by auto
  ultimately have "distinct (map sc_relative_path (map (tree_row h root) ps))"
    using ps(2) by (simp add: distinct_map)
  moreover have "list_all (\<lambda>r. safe_path (sc_relative_path r)) (map (tree_row h root) ps)"
    using tree_path_safe(1) [OF assms(3) mem] by (auto simp: list_all_iff)
  ultimately show ?thesis using ps by (intro exI [of _ "map (tree_row h root) ps"]) simp
qed



text \<open>What an archive leaves behind has plain names throughout.\<close>

lemma plain_below_stat:
  assumes "fs_wf fs"
  shows "plain_below root fs \<longleftrightarrow>
    (\<forall>p. prefix root p \<and> stat fs p \<noteq> None \<longrightarrow> list_all safe_segment (drop (length root) p))"
proof
  assume plain: "plain_below root fs"
  show "\<forall>p. prefix root p \<and> stat fs p \<noteq> None \<longrightarrow> list_all safe_segment (drop (length root) p)"
  proof (intro allI impI)
    fix p assume p: "prefix root p \<and> stat fs p \<noteq> None"
    show "list_all safe_segment (drop (length root) p)"
    proof (cases "p = []")
      case False
      with p obtain e where "(p, e) \<in> set fs" by (auto dest: stat_SomeD)
      with plain p show ?thesis by (auto simp: plain_below_def list_all_iff)
    qed simp
  qed
next
  assume all: "\<forall>p. prefix root p \<and> stat fs p \<noteq> None \<longrightarrow> list_all safe_segment (drop (length root) p)"
  have "list_all safe_segment (drop (length root) p)" if "(p, e) \<in> set fs" "prefix root p" for p e
    using all that stat_in [OF assms that(1)] by simp
  then show "plain_below root fs" unfolding plain_below_def by (auto simp: list_all_iff)
qed

text \<open>Every path a step adds leads to the path of the entry.\<close>

definition adds_towards :: "path \<Rightarrow> fs \<Rightarrow> fs \<Rightarrow> bool" where
  "adds_towards q fs fs' \<longleftrightarrow> (\<forall>p. stat fs' p \<noteq> None \<longrightarrow> stat fs p \<noteq> None \<or> prefix p q)"

lemma adds_towards_trans: "adds_towards q fs fs1 \<Longrightarrow> adds_towards q fs1 fs2 \<Longrightarrow> adds_towards q fs fs2"
  unfolding adds_towards_def by blast

lemma adds_towards_refl [simp]: "adds_towards q fs fs"
  by (simp add: adds_towards_def)

lemma create_dir_all_adds: "create_dir_all io p fs = (r, fs') \<Longrightarrow> prefix p q \<Longrightarrow> adds_towards q fs fs'"
  unfolding adds_towards_def using stat_create_dir_all [of io p fs r fs'] prefix_order.trans by metis

lemma create_file_adds: "create_file io q fs = (r, fs') \<Longrightarrow> adds_towards q fs fs'"
  unfolding adds_towards_def using stat_create_file [of io q fs r fs'] by (metis prefix_order.refl)

lemma fill_file_adds: "fill_file io q c fs = (r, fs') \<Longrightarrow> q \<noteq> [] \<Longrightarrow> adds_towards q fs fs'"
  unfolding adds_towards_def using stat_fill_file(1) [of io q c fs r fs'] by (metis prefix_order.refl)

lemma place_entry_adds:
  assumes "place_entry h e q safe fs = (r, fs')" "q \<noteq> []"
  shows "adds_towards q fs fs'"
proof (cases "ze_is_dir e")
  case True
  then obtain r1 where "create_dir_all (ho_io h) q fs = (r1, fs')"
    using assms(1) by (auto simp: place_entry_def task_defs split: prod.splits sum.splits)
  then show ?thesis by (rule create_dir_all_adds) simp
next
  case False
  obtain r1 fs1 where mk: "create_dir_all (ho_io h) (butlast q) fs = (r1, fs1)" by fastforce
  obtain r2 fs2 where cr: "create_file (ho_io h) q fs1 = (r2, fs2)" by fastforce
  obtain r3 fs3 where fi: "fill_file (ho_io h) q (ze_data e) fs2 = (r3, fs3)" by fastforce
  have "adds_towards q fs fs1" by (rule create_dir_all_adds [OF mk]) (simp add: prefixeq_butlast)
  moreover have "adds_towards q fs1 fs2" by (rule create_file_adds [OF cr])
  moreover have "adds_towards q fs2 fs3" by (rule fill_file_adds [OF fi assms(2)])
  moreover have "fs' \<in> {fs1, fs2, fs3}"
    using assms(1) False mk cr fi
    by (auto simp: place_entry_def copy_entry_def task_defs split: sum.splits option.splits)
  ultimately show ?thesis using adds_towards_trans by blast
qed

lemma place_entry_plain:
  assumes "place_entry h e (join_files dest safe) safe fs = (r, fs')" "safe_path safe"
    and "fs_wf fs" "fs_wf fs'" "plain_below dest fs"
  shows "plain_below dest fs'"
proof -
  have "join_files dest safe \<noteq> []" using assms(2) by (simp add: join_files_def)
  then have adds: "adds_towards (dest @ split_on slash safe) fs fs'"
    using place_entry_adds [OF assms(1)] by (simp add: join_files_def safe_path_native [OF assms(2)])
  have "list_all safe_segment (drop (length dest) p)" if p: "prefix dest p" "stat fs' p \<noteq> None" for p
  proof (cases "stat fs p = None")
    case False
    with assms(5) p(1) show ?thesis by (simp add: plain_below_stat [OF assms(3)])
  next
    case True
    with adds p(2) have "prefix p (dest @ split_on slash safe)" by (auto simp: adds_towards_def)
    with p(1) have "prefix (drop (length dest) p) (split_on slash safe)" by (auto simp: prefix_def)
    then have "set (drop (length dest) p) \<subseteq> set (split_on slash safe)" by (rule set_mono_prefix)
    with assms(2) show ?thesis by (auto simp: safe_path_def list_all_iff)
  qed
  then show ?thesis by (simp add: plain_below_stat [OF assms(4)])
qed

lemma place_all_plain:
  "place_all h dest xs fs = (r, fs') \<Longrightarrow> list_all (\<lambda>(safe, _). safe_path safe) xs \<Longrightarrow> fs_wf fs
     \<Longrightarrow> stat fs dest = Some Directory \<Longrightarrow> plain_below dest fs \<Longrightarrow> plain_below dest fs' \<and> fs_wf fs'"
proof (induction xs arbitrary: fs)
  case (Cons x xs)
  obtain safe e where x: "x = (safe, e)" by fastforce
  have safe: "safe_path safe" using Cons.prems(2) x by simp
  obtain r1 fs1 where pl: "place_entry h e (join_files dest safe) safe fs = (r1, fs1)" by fastforce
  have "strict_prefix dest (join_files dest safe)" using safe by (simp add: join_files_def strict_prefix_def)
  from place_entry_within [OF pl Cons.prems(3,4) this] have w: "within_only dest fs fs1" .
  then have ok: "fs_wf fs1" "stat fs1 dest = Some Directory" using Cons.prems(4) by (simp_all add: within_only_def)
  have plain: "plain_below dest fs1" by (rule place_entry_plain [OF pl safe Cons.prems(3) ok(1) Cons.prems(5)])
  show ?case
  proof (cases r1)
    case (Inl err)
    with Cons.prems(1) x pl ok plain show ?thesis by (simp add: and_then_def)
  next
    case (Inr u)
    with Cons.prems(1) x pl have "place_all h dest xs fs1 = (r, fs')" by (simp add: and_then_def)
    from Cons.IH [OF this _ ok plain] Cons.prems(2) show ?thesis by simp
  qed
qed simp

lemma kept_safe: "list_all (\<lambda>(safe, _). safe_path safe) (kept es)"
  by (induction es rule: kept.induct) (auto split: sum.split option.split dest: entry_below(1))

end
