(* ===== verification/Bundle_Admin.thy ===== *)
theory Bundle_Admin
  imports Bundle_Archive
begin

text \<open>
  \<^verbatim>\<open>bundles/src/admin.rs\<close> and \<^verbatim>\<open>bundles/src/public.rs\<close>: the administrator's operations on a build
  and the two public reads. A handler runs after the \<^verbatim>\<open>AdminUser\<close> guard of the sessions component;
  what it needs of the host is passed along. An upload is the list of its multipart fields, each
  with its chunks; a field or a chunk that cannot be read carries the text of the failure.
\<close>

section \<open>Addressing\<close>

definition on_store :: "'a disk_task \<Rightarrow> 'a store_handler" where
  "on_store f s = (let (r, fs) = f (disk s) in (r, s\<lparr>disk := fs\<rparr>))"

definition ask :: "(store \<Rightarrow> 'a app_result) \<Rightarrow> 'a store_handler" where
  "ask f s = (f s, s)"

text \<open>A statement, or a transaction of statements: a failure leaves the tables alone.\<close>

definition commit :: "(store \<Rightarrow> store app_result) \<Rightarrow> unit store_handler" where
  "commit f s = (case f s of Inl e \<Rightarrow> (Inl e, s) | Inr s' \<Rightarrow> (Inr (), s'))"

definition as_database :: "db_error + 'a \<Rightarrow> 'a app_result" where
  "as_database r = (case r of Inl e \<Rightarrow> Inl (Database e) | Inr v \<Rightarrow> Inr v)"

definition resolved_bundle :: "string \<Rightarrow> store \<Rightarrow> bundle_row app_result" where
  "resolved_bundle slug s =
     (case validate_slug slug of Inl e \<Rightarrow> Inl e | Inr _ \<Rightarrow> require_by_slug s slug)"

definition not_in_build :: app_error where
  "not_in_build = NotFound ''file entry not found in this build''"

definition artifact_in_bundle :: "uuid \<Rightarrow> uuid \<Rightarrow> store \<Rightarrow> artifact app_result" where
  "artifact_in_bundle bundle_id entry_id s =
     (case find_artifact s entry_id of
        Some a \<Rightarrow> if ba_bundle_id a = bundle_id then Inr a else Inl not_in_build
      | None \<Rightarrow> Inl not_in_build)"

text \<open>\<open>entry_id\<close> is the path parameter parsed as a UUID.\<close>

definition resolved_entry :: "string \<Rightarrow> uuid option \<Rightarrow> store \<Rightarrow> (bundle_row \<times> artifact) app_result" where
  "resolved_entry slug entry_id s =
     (case resolved_bundle slug s of
        Inl e \<Rightarrow> Inl e
      | Inr b \<Rightarrow>
          (case entry_id of
             None \<Rightarrow> Inl (BadRequest ''invalid entry id'')
           | Some x \<Rightarrow>
               (case artifact_in_bundle (bu_id b) x s of Inl e \<Rightarrow> Inl e | Inr a \<Rightarrow> Inr (b, a))))"

definition storage_root :: "host \<Rightarrow> path" where
  "storage_root h = lc_bundles_root (ho_cfg h)"

definition files_root :: "host \<Rightarrow> bundle_row \<Rightarrow> path" where
  "files_root h b = files_path (storage_root h) (bu_slug b)"

section \<open>Builds\<close>

definition builds_list :: "store \<Rightarrow> bundle_row list" where
  "builds_list s = list_bundles s"

definition builds_create ::
  "host \<Rightarrow> string \<Rightarrow> string \<Rightarrow> string option \<Rightarrow> string option \<Rightarrow> bundle_row store_handler" where
  "builds_create h name slug description version s =
     (if trim name = [] \<or> trim slug = [] then (Inl (BadRequest ''name and slug are required''), s)
      else
        and_then (provision_bundle h (trim slug) (trim name))
          (\<lambda>x s1.
             if description \<noteq> None \<or> version \<noteq> None
             then (case update_bundle_meta (ho_env h) x None description version s1 of
                     Inl e \<Rightarrow> (Inl e, s1) | Inr (b, s2) \<Rightarrow> (Inr b, s2))
             else (require_by_slug s1 (trim slug), s1)) s)"

definition builds_get :: "host \<Rightarrow> string \<Rightarrow> store \<Rightarrow> (bundle_row \<times> artifact list) app_result" where
  "builds_get h slug s =
     (case resolved_bundle slug s of
        Inl e \<Rightarrow> Inl e | Inr b \<Rightarrow> Inr (b, list_artifacts (ho_env h) s (bu_id b)))"

definition builds_update ::
  "host \<Rightarrow> string \<Rightarrow> string option \<Rightarrow> string option \<Rightarrow> string option \<Rightarrow> bundle_row store_handler" where
  "builds_update h slug name description version =
     and_then (ask (resolved_bundle slug))
       (\<lambda>b s. (case update_bundle_meta (ho_env h) (bu_id b) name description version s of
          Inl e \<Rightarrow> (Inl e, s) | Inr (b', s') \<Rightarrow> (Inr b', s')))"

text \<open>The row first, the tree after the commit and best-effort.\<close>

definition builds_delete :: "host \<Rightarrow> string \<Rightarrow> unit store_handler" where
  "builds_delete h slug =
     and_then (ask (resolved_bundle slug))
       (\<lambda>b s. (Inr (), remove_bundle_dir h (bu_slug b) (delete_bundle_row (bu_id b) s)))"

section \<open>Uploads\<close>

record upload_field =
  uf_name :: "string option"
  uf_file_name :: "string option"
  uf_chunks :: "(string + string) list"

type_synonym multipart = "(string + upload_field) list"

definition MAX_UPLOAD_BYTES :: int where
  "MAX_UPLOAD_BYTES = 10 * 1024 * 1024 * 1024"

definition drop_temp :: "host \<Rightarrow> path \<Rightarrow> store \<Rightarrow> store" where
  "drop_temp h tmp s = s\<lparr>disk := snd (remove_file (ho_io h) tmp (disk s))\<rparr>"

text \<open>\<^verbatim>\<open>TempUpload::new\<close>\<close>

definition temp_upload :: "host \<Rightarrow> string \<Rightarrow> path store_handler" where
  "temp_upload h slug =
     (let dir = build_path (storage_root h) slug in
      and_then (on_disk h ''mkdir for temp'' (create_dir_all (ho_io h) dir))
        (\<lambda>_ s. (Inr (dir @ [''upload-'' @ ho_uuid_text h (e_uuid (ho_env h) 0) @ ''.zip.tmp'']), s)))"

text \<open>The chunks, with what is written so far.\<close>

fun stream_chunks :: "host \<Rightarrow> path \<Rightarrow> string \<Rightarrow> (string + string) list \<Rightarrow> int disk_task" where
  "stream_chunks h dest written [] fs =
     (if io_ok (ho_io h) (Flush dest) then (Inr (int (length written)), fs)
      else (Inl (io_failure h ''flush upload'' Refused), fs))"
| "stream_chunks h dest written (Inl msg # cs) fs = (Inl (BadRequest (''read upload field: '' @ msg)), fs)"
| "stream_chunks h dest written (Inr chunk # cs) fs =
     (if int (length (written @ chunk)) > MAX_UPLOAD_BYTES
      then (Inl (BadRequest (''upload exceeds '' @ decimal (nat MAX_UPLOAD_BYTES) @ '' bytes'')), fs)
      else
        and_then (failing_as h ''write upload'' (fill_file (ho_io h) dest (written @ chunk)))
          (\<lambda>_. stream_chunks h dest (written @ chunk) cs) fs)"

definition stream_field_to_file :: "host \<Rightarrow> upload_field \<Rightarrow> path \<Rightarrow> int disk_task" where
  "stream_field_to_file h f dest =
     and_then (failing_as h ''create temp upload'' (create_file (ho_io h) dest))
       (\<lambda>_. stream_chunks h dest [] (uf_chunks f))"

text \<open>Whether an \<^verbatim>\<open>archive\<close> field was staged; the fields behind it are not read.\<close>

fun stage_archive :: "host \<Rightarrow> path \<Rightarrow> multipart \<Rightarrow> bool disk_task" where
  "stage_archive h tmp [] fs = (Inr False, fs)"
| "stage_archive h tmp (Inl msg # form) fs = (Inl (BadRequest (''invalid multipart: '' @ msg)), fs)"
| "stage_archive h tmp (Inr f # form) fs =
     (if uf_name f = Some ''archive''
      then and_then (stream_field_to_file h f tmp) (\<lambda>_ fs'. (Inr True, fs')) fs
      else stage_archive h tmp form fs)"

text \<open>The task off the runtime: clear, recreate, extract, unlink the archive, scan.\<close>

definition clear_dir :: "host \<Rightarrow> path \<Rightarrow> unit disk_task" where
  "clear_dir h dir fs =
     (if path_exists fs dir then failing_as h ''clear files dir'' (remove_dir_all (ho_io h) dir) fs
      else (Inr (), fs))"

definition unpack :: "host \<Rightarrow> path \<Rightarrow> path \<Rightarrow> scan_entry list disk_task" where
  "unpack h tmp root =
     and_then (clear_dir h root)
       (\<lambda>_. and_then (failing_as h ''recreate files dir'' (create_dir_all (ho_io h) root))
         (\<lambda>_. and_then (extract_zip h tmp root)
           (\<lambda>_ fs. let fs' = snd (remove_file (ho_io h) tmp fs) in (scan_directory h root fs', fs'))))"

definition ingest_archive :: "host \<Rightarrow> bundle_row \<Rightarrow> path \<Rightarrow> bundle_row store_handler" where
  "ingest_archive h b tmp =
     and_then (on_store (unpack h tmp (files_root h b)))
       (\<lambda>scan. and_then (commit (upsert_scan (ho_env h) (bu_id b) scan)) (\<lambda>_. regenerate_manifest h b))"

text \<open>A failure is recorded in the row before it is returned.\<close>

definition mark_failure :: "host \<Rightarrow> uuid \<Rightarrow> 'a app_result \<times> store \<Rightarrow> 'a app_result \<times> store" where
  "mark_failure h x rs =
     (case rs of
        (Inr v, s) \<Rightarrow> (Inr v, s)
      | (Inl err, s) \<Rightarrow> (Inl err, set_bundle_status (ho_env h) x ''failed'' (Some (error_text h err)) s))"

definition ingest_staged :: "host \<Rightarrow> bundle_row \<Rightarrow> path \<Rightarrow> multipart \<Rightarrow> bundle_row store_handler" where
  "ingest_staged h b tmp form =
     and_then (on_store (stage_archive h tmp form))
       (\<lambda>have_archive s.
          if \<not> have_archive
          then (Inl (BadRequest (''no archive file provided '' @ em_dash
                  @ '' send the ZIP as form field '' @ [CHR 0x22] @ ''archive'' @ [CHR 0x22])), s)
          else mark_failure h (bu_id b)
                 (ingest_archive h b tmp (set_bundle_status (ho_env h) (bu_id b) ''processing'' None s)))"

text \<open>The staged file goes when the handler returns.\<close>

definition upload_archive :: "host \<Rightarrow> string \<Rightarrow> multipart \<Rightarrow> bundle_row store_handler" where
  "upload_archive h slug form =
     and_then (ask (resolved_bundle slug))
       (\<lambda>b. and_then (on_disk h ''ensure dir'' (ensure_build_dir (ho_io h) (storage_root h) (bu_slug b)))
         (\<lambda>_. and_then (temp_upload h (bu_slug b))
           (\<lambda>tmp s. let (r, s') = ingest_staged h b tmp form s in (r, drop_temp h tmp s'))))"

section \<open>Single files\<close>

text \<open>\<^verbatim>\<open>Field::text\<close>: the chunks to the end, or the first failure.\<close>

fun field_text :: "(string + string) list \<Rightarrow> string + string" where
  "field_text [] = Inr []"
| "field_text (Inl msg # cs) = Inl msg"
| "field_text (Inr chunk # cs) = map_sum id (\<lambda>rest. chunk @ rest) (field_text cs)"

text \<open>What was received so far: size of the staged file, target path, original name.\<close>

record upload_parts =
  up_size :: "int option"
  up_target_path :: "string option"
  up_original_filename :: "string option"

definition no_parts :: upload_parts where
  "no_parts = \<lparr>up_size = None, up_target_path = None, up_original_filename = None\<rparr>"

fun read_upload_parts :: "host \<Rightarrow> path \<Rightarrow> upload_parts \<Rightarrow> multipart \<Rightarrow> upload_parts disk_task" where
  "read_upload_parts h staged acc [] fs = (Inr acc, fs)"
| "read_upload_parts h staged acc (Inl msg # form) fs = (Inl (BadRequest (''invalid multipart: '' @ msg)), fs)"
| "read_upload_parts h staged acc (Inr f # form) fs =
     (if uf_name f = Some ''file''
      then
        and_then (stream_field_to_file h f staged)
          (\<lambda>n. read_upload_parts h staged
             (acc\<lparr>up_size := Some n, up_original_filename := uf_file_name f\<rparr>) form) fs
      else if uf_name f = Some ''targetPath''
      then (case field_text (uf_chunks f) of
              Inl msg \<Rightarrow> (Inl (BadRequest (''read targetPath: '' @ msg)), fs)
            | Inr t \<Rightarrow> read_upload_parts h staged (acc\<lparr>up_target_path := Some t\<rparr>) form fs)
      else read_upload_parts h staged acc form fs)"

definition upload_target :: "upload_parts \<Rightarrow> (int \<times> string) app_result" where
  "upload_target parts =
     (case up_size parts of
        None \<Rightarrow> Inl (BadRequest (''no file provided '' @ em_dash @ '' send the file as form field ''
                  @ [CHR 0x22] @ ''file'' @ [CHR 0x22]))
      | Some len \<Rightarrow>
          (case (case up_target_path parts of
                   Some p \<Rightarrow> if trim p \<noteq> [] then Some p else up_original_filename parts
                 | None \<Rightarrow> up_original_filename parts) of
             None \<Rightarrow> Inl (BadRequest ''targetPath or a filename is required'')
           | Some raw_target \<Rightarrow>
               (case normalize_relative_path raw_target ''targetPath'' of
                  Inl e \<Rightarrow> Inl e | Inr p \<Rightarrow> Inr (len, p))))"

text \<open>Up to the point where the staged file would be moved: it still belongs to the guard.\<close>

definition receive_file :: "host \<Rightarrow> bundle_row \<Rightarrow> path \<Rightarrow> multipart \<Rightarrow> (int \<times> string) store_handler" where
  "receive_file h b tmp form =
     and_then (on_store (read_upload_parts h tmp no_parts form))
       (\<lambda>parts. and_then (ask (\<lambda>_. upload_target parts))
         (\<lambda>(len, p). and_then (on_disk h ''mkdir'' (create_dir_all (ho_io h) (butlast (join_files (files_root h b) p))))
           (\<lambda>_ s. (Inr (len, p), s))))"

definition uploaded_entry :: "host \<Rightarrow> path \<Rightarrow> int \<Rightarrow> string \<Rightarrow> string \<Rightarrow> scan_entry" where
  "uploaded_entry h dest len p sha256 =
     (let (name, category) = split_relative_path p in
      \<lparr>sc_relative_path = p, sc_name = name, sc_category = category, sc_size = word_of_int len,
       sc_sha256 = Some sha256, sc_is_dir = False,
       sc_file_modified_at = (if io_ok (ho_io h) (Stat dest) then io_mtime (ho_io h) dest else None)\<rparr>)"

text \<open>From the rename on: \<^verbatim>\<open>keep()\<close> has defused the guard, whether the rename succeeds or not.\<close>

definition install_file :: "host \<Rightarrow> bundle_row \<Rightarrow> path \<Rightarrow> int \<Rightarrow> string \<Rightarrow> bundle_row store_handler" where
  "install_file h b tmp len p =
     (let dest = join_files (files_root h b) p in
      and_then (on_disk h ''move file into place'' (rename_path (ho_io h) tmp dest))
        (\<lambda>_. and_then (ask (\<lambda>s. hash_file h dest (disk s)))
          (\<lambda>sha256. and_then (commit (\<lambda>s. as_database
               (upsert_artifact (e_uuid (ho_env h) 1) (bu_id b) (uploaded_entry h dest len p sha256) s)))
            (\<lambda>_. regenerate_manifest h b))))"

definition upload_file :: "host \<Rightarrow> string \<Rightarrow> multipart \<Rightarrow> bundle_row store_handler" where
  "upload_file h slug form =
     and_then (ask (resolved_bundle slug))
       (\<lambda>b. and_then (on_disk h ''ensure dir'' (ensure_build_dir (ho_io h) (storage_root h) (bu_slug b)))
         (\<lambda>_. and_then (temp_upload h (bu_slug b))
           (\<lambda>tmp s.
              (case receive_file h b tmp form s of
                 (Inl e, s') \<Rightarrow> (Inl e, drop_temp h tmp s')
               | (Inr (len, p), s') \<Rightarrow> install_file h b tmp len p s'))))"

section \<open>Folders\<close>

fun each :: "('x \<Rightarrow> unit store_handler) \<Rightarrow> 'x list \<Rightarrow> unit store_handler" where
  "each f [] s = (Inr (), s)"
| "each f (x # xs) s = and_then (f x) (\<lambda>_. each f xs) s"

definition folder_entry :: "string \<Rightarrow> scan_entry" where
  "folder_entry p =
     (let (name, category) = split_relative_path p in
      \<lparr>sc_relative_path = p, sc_name = name, sc_category = category, sc_size = 0, sc_sha256 = None,
       sc_is_dir = True, sc_file_modified_at = None\<rparr>)"

definition ancestors :: "string \<Rightarrow> string list" where
  "ancestors p = map (\<lambda>segments. join_with slash segments) (lineage (split_on slash p))"

text \<open>\<^verbatim>\<open>metadata(p).is_ok_and(is_file)\<close>\<close>

definition is_file :: "host \<Rightarrow> path \<Rightarrow> fs \<Rightarrow> bool" where
  "is_file h p fs =
     (case stat fs p of Some (Regular _) \<Rightarrow> io_ok (ho_io h) (Stat p) | _ \<Rightarrow> False)"

definition create_folder :: "host \<Rightarrow> string \<Rightarrow> string \<Rightarrow> bundle_row store_handler" where
  "create_folder h slug relative_path =
     and_then (ask (resolved_bundle slug))
       (\<lambda>b. and_then (ask (\<lambda>_. normalize_relative_path (trim relative_path) ''relativePath''))
         (\<lambda>p. and_then (on_disk h ''ensure dir'' (ensure_build_dir (ho_io h) (storage_root h) (bu_slug b)))
           (\<lambda>_ s. let full = join_files (files_root h b) p in
              if is_file h full (disk s)
              then (Inl (BadRequest ''a file already exists at that path''), s)
              else
                and_then (on_disk h ''mkdir'' (create_dir_all (ho_io h) full))
                  (\<lambda>_. and_then (each (\<lambda>(k, a). commit (\<lambda>s. as_database
                       (upsert_artifact (e_uuid (ho_env h) k) (bu_id b) (folder_entry a) s)))
                     (enumerate 0 (ancestors p)))
                    (\<lambda>_. regenerate_manifest h b)) s)))"

section \<open>Deletion\<close>

definition delete_entry_rows :: "uuid \<Rightarrow> artifact \<Rightarrow> store \<Rightarrow> store" where
  "delete_entry_rows bundle_id entry s =
     delete_artifact (ba_id entry)
       (if ba_is_dir entry then delete_artifacts_with_prefix bundle_id (ba_relative_path entry @ ''/'') s else s)"

definition unlink_entry :: "host \<Rightarrow> path \<Rightarrow> artifact \<Rightarrow> store \<Rightarrow> store" where
  "unlink_entry h root entry s =
     (let p = join_files root (ba_relative_path entry) in
      if path_exists (disk s) p
      then s\<lparr>disk := snd (if ba_is_dir entry then remove_dir_all (ho_io h) p (disk s)
                          else remove_file (ho_io h) p (disk s))\<rparr>
      else s)"

definition delete_file :: "host \<Rightarrow> string \<Rightarrow> uuid option \<Rightarrow> (string \<times> string) store_handler" where
  "delete_file h slug entry_id =
     and_then (ask (resolved_entry slug entry_id))
       (\<lambda>(b, entry) s.
          and_then (regenerate_manifest h b)
            (\<lambda>_ s'. (Inr (if ba_is_dir entry then ''folder deleted'' else ''file deleted'', bu_slug b), s'))
            (unlink_entry h (files_root h b) entry (delete_entry_rows (bu_id b) entry s)))"

text \<open>The entries to delete: a vanished id is skipped, a foreign one refused.\<close>

fun resolve_deletes :: "store \<Rightarrow> uuid \<Rightarrow> uuid list \<Rightarrow> artifact list app_result" where
  "resolve_deletes s bundle_id [] = Inr []"
| "resolve_deletes s bundle_id (x # xs) =
     (case find_artifact s x of
        None \<Rightarrow> resolve_deletes s bundle_id xs
      | Some a \<Rightarrow>
          if ba_bundle_id a = bundle_id
          then map_sum id (\<lambda>as. a # as) (resolve_deletes s bundle_id xs)
          else Inl not_in_build)"

definition no_ids :: app_error where
  "no_ids = BadRequest ''ids must be a non-empty array''"

definition bulk_delete :: "host \<Rightarrow> string \<Rightarrow> uuid list \<Rightarrow> nat store_handler" where
  "bulk_delete h slug ids =
     and_then (ask (resolved_bundle slug))
       (\<lambda>b. and_then (ask (\<lambda>s. if ids = [] then Inl no_ids else resolve_deletes s (bu_id b) ids))
         (\<lambda>entries s.
            and_then (regenerate_manifest h b) (\<lambda>_ s'. (Inr (length entries), s'))
              (fold (unlink_entry h (files_root h b)) entries
                (fold (delete_entry_rows (bu_id b)) entries s))))"

definition toggle_download_once :: "host \<Rightarrow> string \<Rightarrow> uuid option \<Rightarrow> bool \<Rightarrow> bundle_row store_handler" where
  "toggle_download_once h slug entry_id download_once =
     and_then (ask (resolved_entry slug entry_id))
       (\<lambda>(b, entry) s. regenerate_manifest h b (set_download_once (ba_id entry) download_once s))"

section \<open>Moves\<close>

definition join_target_dir :: "string \<Rightarrow> string \<Rightarrow> string app_result" where
  "join_target_dir target_dir name =
     (let target = trim target_dir in
      normalize_relative_path (if target = [] then name else target @ ''/'' @ name) ''targetDir'')"

definition validate_move :: "artifact \<Rightarrow> string \<Rightarrow> unit app_result" where
  "validate_move entry new_rel =
     (if new_rel = ba_relative_path entry then Inl (Conflict ''the entry is already at that path'')
      else if ba_is_dir entry \<and> starts_with (ba_relative_path entry @ ''/'') new_rel
      then Inl (BadRequest ''cannot move a folder into its own descendant'')
      else Inr ())"

definition path_taken :: app_error where
  "path_taken = Conflict ''a file or folder already exists at that path''"

definition check_destination_free :: "uuid \<Rightarrow> string \<Rightarrow> bool \<Rightarrow> store \<Rightarrow> unit app_result" where
  "check_destination_free bundle_id new_rel is_dir s =
     (if artifact_exists_at s bundle_id new_rel then Inl path_taken
      else if is_dir \<and> any_artifact_with_prefix s bundle_id (new_rel @ ''/'')
      then Inl (Conflict ''a folder already exists at that path'')
      else Inr ())"

text \<open>A transaction that reaches the disk: on an error the tables roll back, the disk does not.\<close>

definition in_transaction :: "'a store_handler \<Rightarrow> 'a store_handler" where
  "in_transaction f s = (case f s of (Inl e, s') \<Rightarrow> (Inl e, roll_back s s') | (Inr v, s') \<Rightarrow> (Inr v, s'))"

definition move_one :: "host \<Rightarrow> uuid \<Rightarrow> path \<Rightarrow> artifact \<times> string \<Rightarrow> unit store_handler" where
  "move_one h bundle_id root m =
     (let (entry, new_rel) = m in
      and_then (ask (check_destination_free bundle_id new_rel (ba_is_dir entry)))
        (\<lambda>_. move_subtree h bundle_id root (ba_relative_path entry) new_rel (ba_is_dir entry)))"

definition apply_move :: "host \<Rightarrow> bundle_row \<Rightarrow> artifact \<Rightarrow> string \<Rightarrow> unit store_handler" where
  "apply_move h b entry new_rel =
     and_then (ask (\<lambda>_. validate_move entry new_rel))
       (\<lambda>_. and_then (ask (\<lambda>s.
            if path_exists (disk s) (join_files (files_root h b) new_rel) \<and> new_rel \<noteq> ba_relative_path entry
            then Inl path_taken else Inr ()))
         (\<lambda>_. in_transaction (move_one h (bu_id b) (files_root h b) (entry, new_rel))))"

definition rename_file :: "host \<Rightarrow> string \<Rightarrow> uuid option \<Rightarrow> string \<Rightarrow> bundle_row store_handler" where
  "rename_file h slug entry_id new_relative_path =
     and_then (ask (resolved_entry slug entry_id))
       (\<lambda>(b, entry). and_then (ask (\<lambda>_. normalize_relative_path (trim new_relative_path) ''newRelativePath''))
         (\<lambda>p. and_then (apply_move h b entry p) (\<lambda>_. regenerate_manifest h b)))"

definition move_file :: "host \<Rightarrow> string \<Rightarrow> uuid option \<Rightarrow> string \<Rightarrow> bundle_row store_handler" where
  "move_file h slug entry_id target_dir =
     and_then (ask (resolved_entry slug entry_id))
       (\<lambda>(b, entry). and_then (ask (\<lambda>_. join_target_dir target_dir (ba_name entry)))
         (\<lambda>p. and_then (apply_move h b entry p) (\<lambda>_. regenerate_manifest h b)))"

definition resolve_move :: "uuid \<Rightarrow> string \<Rightarrow> store \<Rightarrow> uuid \<Rightarrow> (artifact \<times> string) app_result" where
  "resolve_move bundle_id target_dir s x =
     (case artifact_in_bundle bundle_id x s of
        Inl e \<Rightarrow> Inl e
      | Inr entry \<Rightarrow>
          (case join_target_dir target_dir (ba_name entry) of
             Inl e \<Rightarrow> Inl e
           | Inr new_rel \<Rightarrow>
               (case validate_move entry new_rel of Inl e \<Rightarrow> Inl e | Inr _ \<Rightarrow> Inr (entry, new_rel))))"

fun resolve_moves :: "uuid \<Rightarrow> string \<Rightarrow> store \<Rightarrow> uuid list \<Rightarrow> (artifact \<times> string) list app_result" where
  "resolve_moves bundle_id target_dir s [] = Inr []"
| "resolve_moves bundle_id target_dir s (x # xs) =
     (case resolve_move bundle_id target_dir s x of
        Inl e \<Rightarrow> Inl e
      | Inr m \<Rightarrow> map_sum id (\<lambda>ms. m # ms) (resolve_moves bundle_id target_dir s xs))"

definition move_files :: "host \<Rightarrow> string \<Rightarrow> uuid list \<Rightarrow> string \<Rightarrow> bundle_row store_handler" where
  "move_files h slug ids target_dir =
     and_then (ask (resolved_bundle slug))
       (\<lambda>b. and_then (ask (\<lambda>s. if ids = [] then Inl no_ids else resolve_moves (bu_id b) target_dir s ids))
         (\<lambda>moves. and_then (in_transaction (each (move_one h (bu_id b) (files_root h b)) moves))
           (\<lambda>_. regenerate_manifest h b)))"

section \<open>Checks\<close>

definition rehash_file :: "host \<Rightarrow> string \<Rightarrow> uuid option \<Rightarrow> bundle_row store_handler" where
  "rehash_file h slug entry_id =
     and_then (ask (resolved_entry slug entry_id))
       (\<lambda>(b, entry). let p = join_files (files_root h b) (ba_relative_path entry) in
          and_then (ask (\<lambda>s.
              if ba_is_dir entry then Inl (BadRequest ''cannot rehash a directory'')
              else if \<not> path_exists (disk s) p then Inl (BadRequest ''physical file not found on disk'')
              else hash_file h p (disk s)))
            (\<lambda>sha256 s. regenerate_manifest h b (update_artifact_sha (ba_id entry) sha256 s)))"

text \<open>Rows of files whose bytes are gone, in the order of the rows; files no row tracks, in the order of the scan.\<close>

definition diff_tree :: "host \<Rightarrow> path \<Rightarrow> artifact list \<Rightarrow> fs \<Rightarrow> (artifact list \<times> string list) app_result" where
  "diff_tree h root files fs =
     (let missing = filter (\<lambda>a. \<not> path_exists fs (join_files root (ba_relative_path a))) files;
          tracked = set (map ba_relative_path files) in
      (case scan_directory h root fs of
         Inl e \<Rightarrow> Inl e
       | Inr scan \<Rightarrow> Inr (missing, map sc_relative_path
           (filter (\<lambda>e. \<not> sc_is_dir e \<and> sc_relative_path e \<notin> tracked) scan))))"

definition validate_build :: "host \<Rightarrow> string \<Rightarrow> store \<Rightarrow> (artifact list \<times> string list) app_result" where
  "validate_build h slug s =
     (case resolved_bundle slug s of
        Inl e \<Rightarrow> Inl e
      | Inr b \<Rightarrow> diff_tree h (files_root h b)
          (filter (\<lambda>a. \<not> ba_is_dir a) (list_artifacts (ho_env h) s (bu_id b))) (disk s))"

definition regenerate_build :: "host \<Rightarrow> string \<Rightarrow> bundle_row store_handler" where
  "regenerate_build h slug =
     and_then (ask (resolved_bundle slug))
       (\<lambda>b s. mark_failure h (bu_id b)
          (regenerate_manifest h b (set_bundle_status (ho_env h) (bu_id b) ''processing'' None s)))"

section \<open>Public reads\<close>

definition get_manifest :: "host \<Rightarrow> string \<Rightarrow> store \<Rightarrow> string app_result" where
  "get_manifest h slug s =
     (case resolved_bundle slug s of
        Inl e \<Rightarrow> Inl e
      | Inr _ \<Rightarrow>
          (case read_path (ho_io h) (manifest_path (storage_root h) slug) (disk s) of
             Inr bytes \<Rightarrow> Inr bytes
           | Inl Missing \<Rightarrow> Inl (NotFound (''manifest not found '' @ em_dash @ '' build may not be ready yet''))
           | Inl Refused \<Rightarrow> Inl (io_failure h ''read manifest'' Refused)))"

definition content_type_for :: "string \<Rightarrow> string" where
  "content_type_for p =
     (let ext = to_ascii_lowercase (last (split_on (CHR ''.'') p)) in
      if ext = ''json'' then ''application/json''
      else if ext = ''jar'' then ''application/java-archive''
      else ''application/octet-stream'')"

text \<open>
  The file handed to \<^verbatim>\<open>ServeFile\<close> with the content type forced on its answer. Without links
  \<^verbatim>\<open>canonicalize\<close> of an existing path is the path itself.
\<close>

definition serve_file :: "host \<Rightarrow> string \<Rightarrow> string \<Rightarrow> store \<Rightarrow> (path \<times> string) app_result" where
  "serve_file h slug rel s =
     (case resolved_bundle slug s of
        Inl e \<Rightarrow> Inl e
      | Inr _ \<Rightarrow>
          (case normalize_relative_path rel ''path'' of
             Inl e \<Rightarrow> Inl e
           | Inr p \<Rightarrow>
               let root = files_path (storage_root h) slug; target = join_files root p in
               if \<not> path_exists (disk s) root \<or> \<not> path_exists (disk s) target \<or> \<not> prefix root target
               then Inl (NotFound ''file not found'')
               else Inr (target, content_type_for p)))"

end
