(* ===== verification/Bundle_Sync.thy ===== *)
theory Bundle_Sync
  imports Bundle_Admin
begin

text \<open>
  The rows of a build against the tree on disk: what \<^verbatim>\<open>validate\<close> compares. An uploaded archive, the
  deletion of an entry and a move leave them in step; a batch of moves that fails half-way and a
  failing rename of an upload do not, which the last section shows on concrete requests.
\<close>

section \<open>Rows in step with the disk\<close>

definition row_true :: "host \<Rightarrow> path \<Rightarrow> fs \<Rightarrow> artifact \<Rightarrow> bool" where
  "row_true h root fs a \<longleftrightarrow> safe_path (ba_relative_path a)
     \<and> (case stat fs (join_files root (ba_relative_path a)) of
          None \<Rightarrow> False
        | Some Directory \<Rightarrow> ba_is_dir a
        | Some (Regular bytes) \<Rightarrow> \<not> ba_is_dir a \<and> ba_size a = of_nat (length bytes)
            \<and> ba_sha256 a = Some (e_hex (ho_env h) (e_sha256 (ho_env h) bytes)))"

definition in_step :: "host \<Rightarrow> bundle_row \<Rightarrow> store \<Rightarrow> bool" where
  "in_step h b s \<longleftrightarrow>
     (\<forall>a\<in>set (artifacts s). ba_bundle_id a = bu_id b \<longrightarrow> row_true h (files_root h b) (disk s) a)
   \<and> (\<forall>p bytes. strict_prefix (files_root h b) p \<and> stat (disk s) p = Some (Regular bytes) \<longrightarrow>
        (\<exists>a\<in>set (artifacts s). ba_bundle_id a = bu_id b \<and> join_files (files_root h b) (ba_relative_path a) = p))"

lemma files_root_parts:
  "files_root h b = build_path (storage_root h) (bu_slug b) @ [''files'']"
  "files_root h b \<noteq> []" "build_path (storage_root h) (bu_slug b) \<noteq> []"
  by (simp_all add: files_root_def files_path_def build_path_def)

lemma safe_join_below: "safe_path p \<Longrightarrow> strict_prefix root (join_files root p)"
  by (simp add: join_files_def strict_prefix_def)

text \<open>Only what lies at or below the files directory and the build's own rows matter.\<close>

lemma in_step_cong:
  assumes "in_step h b s" "artifacts s' = artifacts s"
    and "\<And>p. strict_prefix (files_root h b) p \<Longrightarrow> stat (disk s') p = stat (disk s) p"
  shows "in_step h b s'"
proof -
  have "row_true h (files_root h b) (disk s') a = row_true h (files_root h b) (disk s) a" for a
    using assms(3) [OF safe_join_below] by (cases "safe_path (ba_relative_path a)") (simp_all add: row_true_def)
  moreover have "stat (disk s') p = Some (Regular bytes) \<longleftrightarrow> stat (disk s) p = Some (Regular bytes)"
    if "strict_prefix (files_root h b) p" for p bytes
    using assms(3) [OF that] by simp
  ultimately show ?thesis using assms(1,2) unfolding in_step_def by auto
qed

lemma in_step_same_build:
  "in_step h b s \<Longrightarrow> bu_id b' = bu_id b \<Longrightarrow> bu_slug b' = bu_slug b \<Longrightarrow> in_step h b' s"
  by (simp add: in_step_def files_root_def)

lemma in_step_bundles [simp]: "in_step h b (s\<lparr>bundles := bs\<rparr>) = in_step h b s"
  by (simp add: in_step_def)

text \<open>A file beside the files directory.\<close>

definition beside :: "host \<Rightarrow> bundle_row \<Rightarrow> path \<Rightarrow> bool" where
  "beside h b p \<longleftrightarrow> (\<exists>name. name \<noteq> ''files'' \<and> p = build_path (storage_root h) (bu_slug b) @ [name])"

lemma besideD:
  assumes "beside h b q" "strict_prefix (files_root h b) p"
  shows "p \<noteq> q" "\<not> prefix q p" "q \<noteq> []" "\<not> prefix p q"
  using assms by (auto simp: beside_def files_root_parts(1) strict_prefix_def prefix_def)

lemma build_dir_untouched:
  assumes "create_dir_all io (build_path (storage_root h) (bu_slug b)) fs = (r, fs')"
    and "strict_prefix (files_root h b) p"
  shows "stat fs' p = stat fs p"
  using stat_create_dir_all [OF assms(1), of p] assms(2)
  by (auto simp: files_root_parts(1) strict_prefix_def prefix_def)

lemma on_disk_cases:
  assumes "on_disk h context f s = (r, s')"
  obtains q fs where "f (disk s) = (q, fs)" "s' = s\<lparr>disk := fs\<rparr>" "(\<exists>u. r = Inr u) \<longleftrightarrow> (\<exists>u. q = Inr u)"
    "\<And>u. r = Inr u \<Longrightarrow> q = Inr u"
  using assms by (auto simp: on_disk_def Let_def split: prod.splits sum.splits)

text \<open>Writing the manifest stays beside the files.\<close>

lemma write_manifest_beside:
  assumes "write_manifest_atomic io (storage_root h) (bu_slug b) json fs = (r, fs')" "fs_wf fs"
  shows "fs_wf fs' \<and> (\<forall>p. strict_prefix (files_root h b) p \<longrightarrow> stat fs' p = stat fs p)"
proof -
  let ?dir = "build_path (storage_root h) (bu_slug b)"
  let ?tmp = "?dir @ [''artifacts.json.tmp'']" and ?dest = "manifest_path (storage_root h) (bu_slug b)"
  have bes: "beside h b ?tmp" "beside h b ?dest" and ne: "?tmp \<noteq> ?dest"
    by (simp_all add: beside_def manifest_path_def)
  obtain r1 fs1 where mk: "create_dir_all io ?dir fs = (r1, fs1)" by fastforce
  obtain r2 fs2 where wr: "write_path io ?tmp json fs1 = (r2, fs2)" by fastforce
  obtain r3 fs3 where rn: "rename_path io ?tmp ?dest fs2 = (r3, fs3)" by fastforce
  have 1: "fs_wf fs1" "strict_prefix (files_root h b) p \<Longrightarrow> stat fs1 p = stat fs p" for p
    using fs_wf_create_dir_all [OF mk assms(2)] build_dir_untouched [OF mk] by auto
  have 2: "fs_wf fs2" "strict_prefix (files_root h b) p \<Longrightarrow> stat fs2 p = stat fs1 p" for p
    using fs_wf_write_path [OF wr 1(1)] wr besideD [OF bes(1), of p]
    by (auto simp: write_path_def stat_put split: if_splits)
  have 3: "fs_wf fs3" by (rule fs_wf_rename_path [OF rn 2(1)])
  have 4: "stat fs3 p = stat fs2 p" if "strict_prefix (files_root h b) p" for p
  proof (cases r3)
    case (Inl e)
    with rn show ?thesis by (auto simp: rename_path_def split: option.splits if_splits)
  next
    case (Inr u)
    with stat_rename_path [OF _ 2(1) ne] rn besideD [OF bes(1) that] besideD [OF bes(2) that] show ?thesis by simp
  qed
  have "fs' \<in> {fs1, fs2, fs3}"
    using assms(1) mk wr rn by (auto simp: write_manifest_atomic_def Let_def split: sum.splits)
  with 1 2 3 4 show ?thesis by auto
qed

lemma regenerate_effect:
  assumes "regenerate_manifest h b s = (r, s')" "fs_wf (disk s)"
  obtains bs fs where "s' = s\<lparr>bundles := bs, disk := fs\<rparr>" "fs_wf fs"
    "\<And>p. strict_prefix (files_root h b) p \<Longrightarrow> stat fs p = stat (disk s) p"
    "map (\<lambda>b. (bu_id b, bu_slug b)) bs = map (\<lambda>b. (bu_id b, bu_slug b)) (bundles s)"
    "\<And>b'. r = Inr b' \<Longrightarrow> bu_id b' = bu_id b \<and> bu_status b' = ''ready'' \<and> b' \<in> set bs
       \<and> bs = sql_update (\<lambda>c. bu_id c = bu_id b) (generated (ho_env h) (manifest_now h b s)) (bundles s)"
proof -
  obtain r1 s1 where w: "on_disk h ''write manifest''
      (write_manifest_atomic (ho_io h) (lc_bundles_root (ho_cfg h)) (bu_slug b)
        (ho_json h (bm_manifest (manifest_now h b s)))) s = (r1, s1)" by fastforce
  then obtain q fs where q: "write_manifest_atomic (ho_io h) (storage_root h) (bu_slug b)
        (ho_json h (bm_manifest (manifest_now h b s))) (disk s) = (q, fs)" "s1 = s\<lparr>disk := fs\<rparr>"
    unfolding storage_root_def by (rule on_disk_cases)
  from write_manifest_beside [OF q(1) assms(2)] have
    fs: "fs_wf fs" "\<And>p. strict_prefix (files_root h b) p \<Longrightarrow> stat fs p = stat (disk s) p" by blast+
  let ?bs = "sql_update (\<lambda>c. bu_id c = bu_id b) (generated (ho_env h) (manifest_now h b s)) (bundles s)"
  show thesis
  proof (cases "r1 = Inr () \<and> sql_find (\<lambda>c. bu_id c = bu_id b) ?bs \<noteq> None")
    case True
    then obtain b' where b': "sql_find (\<lambda>c. bu_id c = bu_id b) ?bs = Some b'" by auto
    then have "b' \<in> set ?bs" "bu_id b' = bu_id b" by (auto dest: sql_find_SomeD)
    moreover from this have "bu_status b' = ''ready''" by (auto simp: set_sql_update generated_def split: if_splits)
    moreover have "r = Inr b'" "s' = s\<lparr>bundles := ?bs, disk := fs\<rparr>"
      using True b' w q(2) assms(1) by (auto simp: regenerate_manifest_def update_bundle_returning_def Let_def)
    ultimately show thesis using fs
      by (intro that [where bs = ?bs and fs = fs]) (auto simp: map_sql_update generated_def)
  next
    case False
    then have "isl r" "s' = s\<lparr>bundles := bundles s, disk := fs\<rparr>"
      using w q(2) assms(1)
      by (auto simp: regenerate_manifest_def update_bundle_returning_def Let_def split: sum.splits option.splits)
    then show thesis using fs by (intro that [where bs = "bundles s" and fs = fs]) auto
  qed
qed

section \<open>An uploaded archive\<close>

lemma stat_remove_file:
  assumes "remove_file io q fs = (r, fs')" "p \<noteq> q"
  shows "stat fs' p = stat fs p"
  using assms by (cases "q = []") (auto simp: remove_file_def stat_drop split: option.splits entry.splits if_splits)

lemma cleared:
  assumes "clear_dir h root fs = (Inr u, fs')" "fs_wf fs" "root \<noteq> []"
  shows "fs_wf fs'" "prefix root p \<Longrightarrow> stat fs' p = None"
proof -
  have "fs_wf fs' \<and> (prefix root p \<longrightarrow> stat fs' p = None)"
  proof (cases "path_exists fs root")
    case True
    then obtain v where "remove_dir_all (ho_io h) root fs = (Inr v, fs')"
      using assms(1) by (auto simp: clear_dir_def failing_as_def split: prod.splits sum.splits)
    then have "fs' = cut_tree root fs" by (auto simp: remove_dir_all_def split: option.splits entry.splits if_splits)
    with assms(2,3) show ?thesis by (simp add: fs_wf_cut stat_cut)
  next
    case False
    with assms show ?thesis using stat_below_missing [of fs root p] by (simp add: clear_dir_def path_exists_def)
  qed
  then show "fs_wf fs'" "prefix root p \<Longrightarrow> stat fs' p = None" by simp_all
qed

lemma unpack_result:
  assumes "unpack h tmp root fs = (Inr scan, fs')" "fs_wf fs" "root \<noteq> []" "\<not> prefix root tmp" "reliable (ho_io h)"
  shows "fs_wf fs'" "plain_below root fs'" "set scan = tree_row h root ` subtree root fs'"
    "distinct (map sc_relative_path scan)"
proof -
  obtain u fs1 where cl: "clear_dir h root fs = (Inr u, fs1)"
    using assms(1) by (auto simp: unpack_def and_then_def split: prod.splits sum.splits)
  obtain v fs2 where mk: "create_dir_all (ho_io h) root fs1 = (Inr v, fs2)"
    using assms(1) cl by (auto simp: unpack_def task_defs split: prod.splits sum.splits)
  obtain w fs3 where ex: "extract_zip h tmp root fs2 = (Inr w, fs3)"
    using assms(1) cl mk by (auto simp: unpack_def task_defs split: prod.splits sum.splits)
  have fs': "fs' = snd (remove_file (ho_io h) tmp fs3)" and sc: "scan_directory h root fs' = Inr scan"
    using assms(1) cl mk ex by (auto simp: unpack_def task_defs Let_def split: prod.splits sum.splits)
  note c = cleared [OF cl assms(2,3)]
  have wf2: "fs_wf fs2" by (rule fs_wf_create_dir_all [OF mk c(1)])
  have root2: "stat fs2 root = Some Directory" by (rule stat_create_dir_all_ok [OF mk]) simp
  have "list_all safe_segment (drop (length root) p)" if "prefix root p" "stat fs2 p \<noteq> None" for p
  proof -
    have "p = root" using stat_create_dir_all [OF mk, of p] c(2) [OF that(1)] that prefix_order.antisym by auto
    then show ?thesis by simp
  qed
  then have plain2: "plain_below root fs2" by (auto simp: plain_below_stat [OF wf2])
  from extract_zip_result [OF ex wf2 root2] obtain es where
    pl: "place_all h root (kept es) fs2 = (Inr (), fs3)" and wf3: "fs_wf fs3" by auto
  from place_all_plain [OF pl kept_safe wf2 root2 plain2] have plain3: "plain_below root fs3" ..
  obtain q where rm: "remove_file (ho_io h) tmp fs3 = (q, fs')" unfolding fs' by (metis prod.collapse)
  show wf': "fs_wf fs'" by (rule fs_wf_remove_file [OF rm wf3])
  have "stat fs' p = stat fs3 p" if "prefix root p" for p
    using stat_remove_file [OF rm, of p] that assms(4) by auto
  with plain3 show plain': "plain_below root fs'"
    unfolding plain_below_stat [OF wf'] plain_below_stat [OF wf3] by auto
  from scan_directory_result [OF assms(5) wf' plain'] sc
  show "set scan = tree_row h root ` subtree root fs'" "distinct (map sc_relative_path scan)" by auto
qed

text \<open>Rows that are exactly the scan of the tree are in step with it.\<close>

lemma tree_path_join:
  assumes "plain_below root fs" "(p, e) \<in> set fs" "strict_prefix root p"
  shows "join_files root (tree_path root p) = p"
  using tree_path_safe [OF assms] assms(3)
  by (simp add: join_files_def safe_path_native) (auto simp: strict_prefix_def prefix_def)

lemma rows_of_scan_true:
  assumes "fs_wf fs" "plain_below root fs" "(p, e) \<in> subtree root fs"
    and "ba_relative_path a = tree_path root p" "ba_size a = sc_size (tree_row h root (p, e))"
    and "ba_sha256 a = sc_sha256 (tree_row h root (p, e))" "ba_is_dir a = sc_is_dir (tree_row h root (p, e))"
  shows "row_true h root fs a"
proof -
  have mem: "(p, e) \<in> set fs" "strict_prefix root p" using assms(3) by (simp_all add: subtree_def)
  show ?thesis
    using assms(4-7) tree_path_join [OF assms(2) mem] tree_path_safe(1) [OF assms(2) mem] stat_in [OF assms(1) mem(1)]
    by (auto simp: row_true_def tree_row_def scanned_dir_def scanned_file_def split: entry.splits prod.splits)
qed

lemma bundle_tables_wf_bundles:
  "bundle_tables_wf s \<Longrightarrow> (\<And>b. bu_id (f b) = bu_id b \<and> bu_slug (f b) = bu_slug b)
     \<Longrightarrow> bundle_tables_wf (s\<lparr>bundles := sql_update p f (bundles s)\<rparr>)"
  by (auto simp: bundle_tables_wf_def map_sql_update intro!: unique_index_update)

lemma upsert_in_step:
  assumes "upsert_scan env (bu_id b) scan s = Inr s'" "bundle_tables_wf s"
    and "distinct (map sc_relative_path scan)" "fs_wf (disk s)" "plain_below (files_root h b) (disk s)"
    and "set scan = tree_row h (files_root h b) ` subtree (files_root h b) (disk s)"
  obtains as where "s' = s\<lparr>artifacts := as\<rparr>"
    "bundle_tables_wf (s\<lparr>artifacts := as\<rparr>)" "in_step h b (s\<lparr>artifacts := as\<rparr>)"
proof -
  let ?root = "files_root h b"
  from upsert_scan_replaced [OF assms(1-3)] obtain as where
    up: "s' = s\<lparr>artifacts := as\<rparr>" and
    wf: "bundle_tables_wf (s\<lparr>artifacts := as\<rparr>)" and
    none: "\<And>p. p \<notin> set (map sc_relative_path scan) \<Longrightarrow> row_at (s\<lparr>artifacts := as\<rparr>) (bu_id b) p = None" and
    some: "\<And>e. e \<in> set scan \<Longrightarrow> \<exists>a. row_at (s\<lparr>artifacts := as\<rparr>) (bu_id b) (sc_relative_path e) = Some a
        \<and> ba_size a = sc_size e \<and> ba_sha256 a = sc_sha256 e \<and> ba_is_dir a = sc_is_dir e"
    unfolding replaced_by_scan_def by blast
  have row: "row_at (s\<lparr>artifacts := as\<rparr>) (bu_id b) p = Some a \<longleftrightarrow> a \<in> set as \<and> ba_bundle_id a = bu_id b \<and> ba_relative_path a = p"
    for p a using row_at_iff [OF wf] by simp
  have "row_true h ?root (disk s) a" if a: "a \<in> set as" "ba_bundle_id a = bu_id b" for a
  proof -
    have r: "row_at (s\<lparr>artifacts := as\<rparr>) (bu_id b) (ba_relative_path a) = Some a" using a by (simp add: row)
    with none have "ba_relative_path a \<in> set (map sc_relative_path scan)" by force
    then obtain e where e: "e \<in> set scan" "sc_relative_path e = ba_relative_path a" by auto
    then obtain p d where pd: "(p, d) \<in> subtree ?root (disk s)" "e = tree_row h ?root (p, d)" using assms(6) by auto
    from some [OF e(1)] obtain a' where "row_at (s\<lparr>artifacts := as\<rparr>) (bu_id b) (ba_relative_path a) = Some a'"
      "ba_size a' = sc_size e" "ba_sha256 a' = sc_sha256 e" "ba_is_dir a' = sc_is_dir e"
      unfolding e(2) by blast
    with r have "ba_size a = sc_size e" "ba_sha256 a = sc_sha256 e" "ba_is_dir a = sc_is_dir e" by simp_all
    with pd e(2) show ?thesis by (intro rows_of_scan_true [OF assms(4,5) pd(1)]) auto
  qed
  moreover have "\<exists>a\<in>set as. ba_bundle_id a = bu_id b \<and> join_files ?root (ba_relative_path a) = p"
    if p: "strict_prefix ?root p" "stat (disk s) p = Some (Regular bytes)" for p bytes
  proof -
    have "p \<noteq> []" using p(1) by auto
    with p have mem: "(p, Regular bytes) \<in> set (disk s)" by (auto dest: stat_SomeD)
    with p(1) assms(6) have "tree_row h ?root (p, Regular bytes) \<in> set scan" by (auto simp: subtree_def)
    from some [OF this] obtain a where "a \<in> set as" "ba_bundle_id a = bu_id b" "ba_relative_path a = tree_path ?root p"
      by (auto simp: row)
    with tree_path_join [OF assms(5) mem p(1)] show ?thesis by auto
  qed
  ultimately have "in_step h b (s\<lparr>artifacts := as\<rparr>)" by (simp add: in_step_def)
  with up wf show thesis by (rule that)
qed

lemma and_then_ok:
  "and_then m f s = (Inr v, s') \<longleftrightarrow> (\<exists>x s1. m s = (Inr x, s1) \<and> f x s1 = (Inr v, s'))"
  by (auto simp: and_then_def split: prod.split sum.split)

lemma simple_handlers:
  "ask f s = (Inr v, s') \<longleftrightarrow> f s = Inr v \<and> s' = s"
  "commit g s = (Inr u, s') \<longleftrightarrow> g s = Inr s'"
  "on_store t s = (Inr v, s') \<longleftrightarrow> (\<exists>fs. t (disk s) = (Inr v, fs) \<and> s' = s\<lparr>disk := fs\<rparr>)"
  "mark_failure h x rs = (Inr v, s') \<longleftrightarrow> rs = (Inr v, s')"
  by (auto simp: ask_def commit_def on_store_def mark_failure_def Let_def split: sum.split prod.split)

lemma resolved_bundleD:
  assumes "resolved_bundle slug s = Inr b"
  shows "b \<in> set (bundles s)" "bu_slug b = slug" "validate_slug slug = Inr ()"
  using assms
  by (auto simp: resolved_bundle_def require_by_slug_def find_by_slug_def ok_or_def
      split: sum.splits option.splits dest: sql_find_SomeD)

lemma on_disk_mkdir:
  assumes "on_disk h context (create_dir_all io p) s = (r, s')" "fs_wf (disk s)"
  shows "\<exists>fs. s' = s\<lparr>disk := fs\<rparr> \<and> fs_wf fs"
  using assms(1)
proof (rule on_disk_cases)
  fix q fs
  assume "create_dir_all io p (disk s) = (q, fs)" "s' = s\<lparr>disk := fs\<rparr>"
  then show ?thesis using fs_wf_create_dir_all assms(2) by blast
qed

lemma stream_chunks_wf:
  "stream_chunks h dest written cs fs = (r, fs') \<Longrightarrow> fs_wf fs \<Longrightarrow> stat fs dest = Some (Regular d) \<Longrightarrow> dest \<noteq> []
     \<Longrightarrow> fs_wf fs'"
proof (induction h dest written cs fs arbitrary: d rule: stream_chunks.induct)
  case (3 h dest written chunk cs fs)
  obtain q fs1 where f: "fill_file (ho_io h) dest (written @ chunk) fs = (q, fs1)" by fastforce
  note ok = fs_wf_fill_file [OF f "3.prems"(2-4)] stat_fill_file(3) [OF f "3.prems"(4)]
  show ?case
  proof (cases "int (length (written @ chunk)) \<le> MAX_UPLOAD_BYTES \<and> q = Inr ()")
    case True
    with "3.prems"(1) f have "stream_chunks h dest (written @ chunk) cs fs1 = (r, fs')" by (simp add: task_defs)
    moreover obtain d' where "stat fs1 dest = Some (Regular d')" using ok(2) by blast
    ultimately show ?thesis using "3.IH" [of fs1 d'] True ok(1) "3.prems"(4) by simp
  next
    case False
    then have "fs' = fs \<or> fs' = fs1" using "3.prems"(1) f by (cases q) (auto simp: task_defs split: if_splits)
    with ok(1) "3.prems"(2) show ?thesis by blast
  qed
qed (auto split: if_splits)

lemma stream_field_wf:
  assumes "stream_field_to_file h f dest fs = (r, fs')" "fs_wf fs"
  shows "fs_wf fs'"
proof -
  obtain q fs1 where cr: "create_file (ho_io h) dest fs = (q, fs1)" by fastforce
  note wf1 = fs_wf_create_file [OF cr assms(2)]
  show ?thesis
  proof (cases q)
    case (Inl e)
    with cr assms(1) wf1 show ?thesis by (simp add: stream_field_to_file_def task_defs)
  next
    case (Inr u)
    with cr assms(1) have "stream_chunks h dest [] (uf_chunks f) fs1 = (r, fs')"
      by (simp add: stream_field_to_file_def task_defs)
    from stream_chunks_wf [OF this wf1] create_file_ok(1,2) [OF cr [unfolded Inr]] show ?thesis by blast
  qed
qed

lemma stage_archive_wf: "stage_archive h tmp form fs = (r, fs') \<Longrightarrow> fs_wf fs \<Longrightarrow> fs_wf fs'"
proof (induction h tmp form fs rule: stage_archive.induct)
  case (3 h tmp f form fs)
  obtain q fs1 where "stream_field_to_file h f tmp fs = (q, fs1)" by fastforce
  with 3 stream_field_wf [of h f tmp fs q fs1] show ?case
    by (auto simp: and_then_def split: if_splits sum.splits)
qed auto

lemma ingest_in_step:
  assumes "ingest_archive h b tmp s = (Inr b', s')" "bundle_tables_wf s"
    and "fs_wf (disk s)" "reliable (ho_io h)" "beside h b tmp"
  shows "in_step h b s' \<and> bundle_tables_wf s' \<and> fs_wf (disk s') \<and> bu_id b' = bu_id b \<and> bu_status b' = ''ready''"
proof -
  obtain scan fs1 s2 where un: "unpack h tmp (files_root h b) (disk s) = (Inr scan, fs1)"
    and up: "upsert_scan (ho_env h) (bu_id b) scan (s\<lparr>disk := fs1\<rparr>) = Inr s2"
    and re: "regenerate_manifest h b s2 = (Inr b', s')"
    using assms(1) by (auto simp: ingest_archive_def and_then_ok simple_handlers)
  have "\<not> prefix (files_root h b) tmp"
    using assms(5) by (auto simp: beside_def files_root_parts(1) prefix_def)
  note u = unpack_result [OF un assms(3) files_root_parts(2) this assms(4)]
  let ?s1 = "s\<lparr>disk := fs1\<rparr>"
  have s1: "bundle_tables_wf ?s1" "fs_wf (disk ?s1)" "plain_below (files_root h b) (disk ?s1)"
    "set scan = tree_row h (files_root h b) ` subtree (files_root h b) (disk ?s1)"
    using assms(2) u by simp_all
  from upsert_in_step [OF up s1(1) u(4) s1(2-4)] obtain as where
    as: "s2 = ?s1\<lparr>artifacts := as\<rparr>" "bundle_tables_wf s2" "in_step h b s2" by metis
  have "fs_wf (disk s2)" using as(1) u(1) by simp
  with re obtain bs fs2 where s': "s' = s2\<lparr>bundles := bs, disk := fs2\<rparr>" "fs_wf fs2"
    and same: "\<And>p. strict_prefix (files_root h b) p \<Longrightarrow> stat fs2 p = stat (disk s2) p"
    and b': "bu_id b' = bu_id b \<and> bu_status b' = ''ready'' \<and> b' \<in> set bs
       \<and> bs = sql_update (\<lambda>c. bu_id c = bu_id b) (generated (ho_env h) (manifest_now h b s2)) (bundles s2)"
    by (rule regenerate_effect) blast
  have "in_step h b s'" by (rule in_step_cong [OF as(3)]) (use s' same in simp_all)
  moreover have "bundle_tables_wf (s2\<lparr>bundles := bs\<rparr>)"
    using b' as(2) bundle_tables_wf_bundles [of s2 "generated (ho_env h) (manifest_now h b s2)"]
    by (simp add: generated_def)
  ultimately show ?thesis using s' b' by simp
qed

lemma upload_result:
  assumes "upload_archive h slug form s = (Inr b', s')"
    and "bundle_tables_wf s" "fs_wf (disk s)" "reliable (ho_io h)"
  shows "\<exists>b. resolved_bundle slug s = Inr b \<and> bu_id b' = bu_id b \<and> bu_status b' = ''ready''
    \<and> in_step h b s' \<and> bundle_tables_wf s' \<and> fs_wf (disk s')"
proof -
  obtain b where b: "resolved_bundle slug s = Inr b"
    using assms(1) by (auto simp: upload_archive_def and_then_ok simple_handlers)
  let ?dir = "build_path (storage_root h) (bu_slug b)"
  let ?tmp = "?dir @ [''upload-'' @ ho_uuid_text h (e_uuid (ho_env h) 0) @ ''.zip.tmp'']"
  obtain s1 where s1: "on_disk h ''ensure dir'' (ensure_build_dir (ho_io h) (storage_root h) (bu_slug b)) s = (Inr (), s1)"
    and rest: "and_then (temp_upload h (bu_slug b))
      (\<lambda>tmp s. let (r, s') = ingest_staged h b tmp form s in (r, drop_temp h tmp s')) s1 = (Inr b', s')"
    using assms(1) b by (auto simp: upload_archive_def and_then_ok simple_handlers)
  obtain s2 where s2: "on_disk h ''mkdir for temp'' (create_dir_all (ho_io h) ?dir) s1 = (Inr (), s2)"
    and tmp: "(let (r, s') = ingest_staged h b ?tmp form s2 in (r, drop_temp h ?tmp s')) = (Inr b', s')"
    using rest by (auto simp: temp_upload_def and_then_ok Let_def)
  obtain s3 where in3: "ingest_staged h b ?tmp form s2 = (Inr b', s3)" and s': "s' = drop_temp h ?tmp s3"
    using tmp by (auto simp: Let_def split: prod.splits)
  from in3 obtain fs4 where st: "stage_archive h ?tmp form (disk s2) = (Inr True, fs4)"
    and ing: "ingest_archive h b ?tmp (set_bundle_status (ho_env h) (bu_id b) ''processing'' None (s2\<lparr>disk := fs4\<rparr>)) = (Inr b', s3)"
    by (auto simp: ingest_staged_def and_then_ok simple_handlers split: if_splits)
  obtain fs1 fs2 where fs: "s1 = s\<lparr>disk := fs1\<rparr>" "s2 = s\<lparr>disk := fs2\<rparr>" "fs_wf fs1" "fs_wf fs2"
    using on_disk_mkdir [OF s1 [unfolded ensure_build_dir_def] assms(3)] on_disk_mkdir [OF s2] by auto
  let ?s = "set_bundle_status (ho_env h) (bu_id b) ''processing'' None (s2\<lparr>disk := fs4\<rparr>)"
  have "fs_wf fs4" by (rule stage_archive_wf [OF st]) (simp add: fs)
  moreover have "bundle_tables_wf ?s"
    using bundle_tables_wf_bundles [of "s2\<lparr>disk := fs4\<rparr>"] assms(2) fs by (simp add: set_bundle_status_def)
  moreover have bes: "beside h b ?tmp" by (simp add: beside_def)
  ultimately have res: "in_step h b s3" "bundle_tables_wf s3" "fs_wf (disk s3)" "bu_id b' = bu_id b" "bu_status b' = ''ready''"
    using ingest_in_step [OF ing] assms(4) by (simp_all add: set_bundle_status_def)
  obtain q fs5 where rm: "remove_file (ho_io h) ?tmp (disk s3) = (q, fs5)" by fastforce
  then have s5: "s' = s3\<lparr>disk := fs5\<rparr>" using s' by (simp add: drop_temp_def)
  have "in_step h b s'"
    by (rule in_step_cong [OF res(1)]) (use s5 stat_remove_file [OF rm] besideD(1) [OF bes] in auto)
  moreover have "fs_wf fs5" by (rule fs_wf_remove_file [OF rm res(3)])
  ultimately show ?thesis using b res s5 by auto
qed


text \<open>Two files arrive in an empty build.\<close>

definition two_files :: "string \<Rightarrow> string + (string + zip_entry) list" where
  "two_files _ = Inr [demo_entry ''d/f'' ''abc'', demo_entry ''g'' ''x'']"

definition demo_form :: multipart where
  "demo_form = [Inr \<lparr>uf_name = Some ''archive'', uf_file_name = None, uf_chunks = [Inr ''z'', Inr ''ip'']\<rparr>]"

definition one_build :: store where
  "one_build = empty_store\<lparr>bundles := [demo_bundle]\<rparr>"

lemma one_build_wf [simp]: "bundle_tables_wf one_build" "fs_wf (disk one_build)"
  by code_simp+

lemma demo_host_reliable [simp]: "reliable (ho_io (demo_host f))"
  by (simp add: demo_host_def working_def reliable_def)

definition after_upload :: "bundle_row app_result \<times> store" where
  "after_upload = upload_archive (demo_host two_files) ''b'' demo_form one_build"

text \<open>What the samples look at, so that a run is evaluated once.\<close>

definition rows_after :: "store \<Rightarrow> string list" where
  "rows_after s = map ba_relative_path (artifacts s)"

definition upload_outcome :: "bundle_row app_result \<times> store \<Rightarrow> app_error + string" where
  "upload_outcome rs = map_sum id bu_status (fst rs)"

definition looked_at :: "bundle_row app_result \<times> store
    \<Rightarrow> (app_error + string) \<times> string list \<times> (uuid \<times> string) list" where
  "looked_at rs = (upload_outcome rs, rows_after (snd rs), map (\<lambda>b. (bu_id b, bu_slug b)) (bundles (snd rs)))"

lemma after_upload_seen:
  "looked_at after_upload = (Inr ''ready'', [''d'', ''d/f'', ''g''], [(bu_id demo_bundle, ''b'')])"
  by code_simp

lemma after_upload_facts:
  "\<exists>b'. upload_archive (demo_host two_files) ''b'' demo_form one_build = (Inr b', snd after_upload)"
  "map ba_relative_path (artifacts (snd after_upload)) = [''d'', ''d/f'', ''g'']"
  "map (\<lambda>b. (bu_id b, bu_slug b)) (bundles (snd after_upload)) = [(bu_id demo_bundle, ''b'')]"
proof -
  note seen = after_upload_seen [unfolded looked_at_def upload_outcome_def rows_after_def prod.inject]
  then obtain b' where "fst after_upload = Inr b'" by (cases "fst after_upload") auto
  then show "\<exists>b'. upload_archive (demo_host two_files) ''b'' demo_form one_build = (Inr b', snd after_upload)"
    by (simp add: after_upload_def prod_eq_iff)
qed (use after_upload_seen in \<open>simp_all add: looked_at_def rows_after_def\<close>)


section \<open>Paths as strings and as places\<close>

lemma split_on_at: "split_on c (p @ c # r) = split_on c p @ split_on c r"
proof (induction p)
  case (Cons x p)
  then show ?case by (cases "split_on c p") auto
qed simp

lemma split_on_inj: "split_on c p = split_on c q \<longleftrightarrow> p = q"
  by (metis join_split_on)

lemma join_with_at: "xs \<noteq> [] \<Longrightarrow> ys \<noteq> [] \<Longrightarrow> join_with c (xs @ ys) = join_with c xs @ c # join_with c ys"
proof (induction xs)
  case (Cons x xs)
  then show ?case by (cases "xs = []") (simp_all add: join_with_Cons_ne)
qed simp

lemma prefix_slash_iff: "prefix (p @ ''/'') q \<longleftrightarrow> strict_prefix (split_on slash p) (split_on slash q)"
proof
  assume "prefix (p @ ''/'') q"
  then obtain r where "q = p @ slash # r" by (auto simp: prefix_def)
  then show "strict_prefix (split_on slash p) (split_on slash q)"
    by (simp add: split_on_at strict_prefix_def)
next
  assume "strict_prefix (split_on slash p) (split_on slash q)"
  then obtain x xs where "split_on slash q = split_on slash p @ x # xs" by (elim strict_prefixE')
  then have "q = p @ slash # join_with slash (x # xs)"
    using join_with_at [of "split_on slash p" "x # xs" slash] join_split_on [of slash q] by simp
  then show "prefix (p @ ''/'') q" by (simp add: prefix_def)
qed

lemma join_files_safe: "safe_path p \<Longrightarrow> join_files root p = root @ split_on slash p"
  by (simp add: join_files_def safe_path_native)

lemma join_files_inj: "safe_path p \<Longrightarrow> safe_path q \<Longrightarrow> join_files root p = join_files root q \<longleftrightarrow> p = q"
  by (simp add: join_files_safe split_on_inj)

lemma join_files_prefix:
  "safe_path p \<Longrightarrow> safe_path q \<Longrightarrow>
     prefix (join_files root p) (join_files root q) \<longleftrightarrow> p = q \<or> prefix (p @ ''/'') q"
  by (auto simp: join_files_safe prefix_slash_iff strict_prefix_def split_on_inj)

lemma row_trueD:
  assumes "row_true h root fs a"
  shows "safe_path (ba_relative_path a)" "stat fs (join_files root (ba_relative_path a)) \<noteq> None"
    "stat fs (join_files root (ba_relative_path a)) = Some Directory \<longleftrightarrow> ba_is_dir a"
  using assms by (auto simp: row_true_def split: option.splits entry.splits)

lemma row_true_moved:
  assumes "row_true h root fs a" "safe_path p" "ba_size a' = ba_size a" "ba_sha256 a' = ba_sha256 a"
    "ba_is_dir a' = ba_is_dir a" "ba_relative_path a' = p"
    "stat fs' (join_files root p) = stat fs (join_files root (ba_relative_path a))"
  shows "row_true h root fs' a'"
  using assms by (auto simp: row_true_def split: option.splits entry.splits)

lemma in_stepD:
  assumes "in_step h b s"
  shows "a \<in> set (artifacts s) \<Longrightarrow> ba_bundle_id a = bu_id b \<Longrightarrow> row_true h (files_root h b) (disk s) a"
    "strict_prefix (files_root h b) p \<Longrightarrow> stat (disk s) p = Some (Regular bytes)
       \<Longrightarrow> \<exists>a\<in>set (artifacts s). ba_bundle_id a = bu_id b \<and> join_files (files_root h b) (ba_relative_path a) = p"
  using assms by (auto simp: in_step_def)

lemma in_stepI:
  assumes "\<And>a. a \<in> set (artifacts s) \<Longrightarrow> ba_bundle_id a = bu_id b \<Longrightarrow> row_true h (files_root h b) (disk s) a"
    and "\<And>p bytes. strict_prefix (files_root h b) p \<Longrightarrow> stat (disk s) p = Some (Regular bytes)
       \<Longrightarrow> \<exists>a\<in>set (artifacts s). ba_bundle_id a = bu_id b \<and> join_files (files_root h b) (ba_relative_path a) = p"
  shows "in_step h b s"
  using assms by (simp add: in_step_def)

section \<open>A deleted entry\<close>

lemma resolved_entryD:
  assumes "resolved_entry slug x s = Inr (b, entry)"
  shows "resolved_bundle slug s = Inr b" "entry \<in> set (artifacts s)" "ba_bundle_id entry = bu_id b"
  using assms
  by (auto simp: resolved_entry_def artifact_in_bundle_def find_artifact_def
      split: sum.splits option.splits if_splits dest: sql_find_SomeD)

text \<open>What remains of a build when an entry and all that lies below it is gone on both sides.\<close>

lemma unlinked:
  assumes "reliable (ho_io h)" "fs_wf (disk s)" "row_true h root (disk s) entry" "prefix root p"
  shows "stat (disk (unlink_entry h root entry s)) p =
      (if prefix (join_files root (ba_relative_path entry)) p then None else stat (disk s) p)"
    "fs_wf (disk (unlink_entry h root entry s))" "artifacts (unlink_entry h root entry s) = artifacts s"
    "bundles (unlink_entry h root entry s) = bundles s"
proof -
  let ?q = "join_files root (ba_relative_path entry)"
  note row = row_trueD [OF assms(3)]
  have q: "?q \<noteq> []" using safe_join_below [OF row(1), of root] by auto
  show "artifacts (unlink_entry h root entry s) = artifacts s" "bundles (unlink_entry h root entry s) = bundles s"
    by (simp_all add: unlink_entry_def Let_def)
  have "stat (disk (unlink_entry h root entry s)) p =
        (if prefix ?q p then None else stat (disk s) p) \<and> fs_wf (disk (unlink_entry h root entry s))"
  proof (cases "ba_is_dir entry")
    case True
    then have "disk (unlink_entry h root entry s) = cut_tree ?q (disk s)"
      using row assms(1) by (simp add: unlink_entry_def path_exists_def remove_dir_all_def reliable_def Let_def)
    with q assms(2) show ?thesis by (simp add: stat_cut fs_wf_cut)
  next
    case False
    with row(2,3) obtain bytes where f: "stat (disk s) ?q = Some (Regular bytes)"
      by (metis entry.exhaust option.exhaust)
    then have "remove_file (ho_io h) ?q (disk s) = (Inr (), disk (unlink_entry h root entry s))"
      using False assms(1) by (simp add: unlink_entry_def path_exists_def remove_file_def reliable_def Let_def)
    moreover from this have "disk (unlink_entry h root entry s) = filter (\<lambda>(r, _). r \<noteq> ?q) (disk s)"
      using f assms(1) by (simp add: remove_file_def reliable_def)
    ultimately show ?thesis
      using fs_wf_remove_file [OF _ assms(2)] stat_below_file [OF assms(2) f, of p] q
      by (auto simp: stat_drop strict_prefix_def)
  qed
  then show "stat (disk (unlink_entry h root entry s)) p = (if prefix ?q p then None else stat (disk s) p)"
    "fs_wf (disk (unlink_entry h root entry s))" by simp_all
qed

lemma rows_deleted_wf:
  "bundle_tables_wf s \<Longrightarrow> bundle_tables_wf (s\<lparr>artifacts := sql_delete q (artifacts s)\<rparr>)"
  by (auto simp: bundle_tables_wf_def fk_def list_all_iff)

lemma delete_entry_rows_eq:
  "delete_entry_rows x entry s = s\<lparr>artifacts := sql_delete
     (\<lambda>a. ba_id a = ba_id entry \<or> ba_is_dir entry \<and> like_prefix x (ba_relative_path entry @ ''/'') a) (artifacts s)\<rparr>"
  by (simp add: delete_entry_rows_def delete_artifact_def delete_artifacts_with_prefix_def sql_delete_def conj_comms)

lemma delete_entry_in_step:
  assumes "in_step h b s" "bundle_tables_wf s" "fs_wf (disk s)" "reliable (ho_io h)"
    and "entry \<in> set (artifacts s)" "ba_bundle_id entry = bu_id b"
    and "s' = unlink_entry h (files_root h b) entry (delete_entry_rows (bu_id b) entry s)"
  shows "in_step h b s'" "bundle_tables_wf s'" "fs_wf (disk s')"
proof -
  let ?root = "files_root h b" and ?e = "ba_relative_path entry"
  let ?s1 = "delete_entry_rows (bu_id b) entry s"
  have true: "row_true h ?root (disk s) entry" by (rule in_stepD(1) [OF assms(1,5,6)])
  note e = row_trueD [OF true]
  have disk1: "disk ?s1 = disk s" by (simp add: delete_entry_rows_eq)
  note gone = unlinked [OF assms(4), of ?s1 ?root entry, unfolded disk1, OF assms(3) true, folded assms(7)]
  have rows: "a \<in> set (artifacts s') \<longleftrightarrow> a \<in> set (artifacts s) \<and> ba_id a \<noteq> ba_id entry
      \<and> \<not> (ba_is_dir entry \<and> ba_bundle_id a = bu_id b \<and> prefix (?e @ ''/'') (ba_relative_path a))" for a
    using gone(3) [of ?root] by (auto simp: delete_entry_rows_eq like_prefix_iff)
  have below: "prefix (join_files ?root ?e) (join_files ?root (ba_relative_path a)) \<longleftrightarrow>
      ba_id a = ba_id entry \<or> ba_is_dir entry \<and> prefix (?e @ ''/'') (ba_relative_path a)"
    if a: "a \<in> set (artifacts s)" "ba_bundle_id a = bu_id b" for a
  proof -
    have t: "row_true h ?root (disk s) a" by (rule in_stepD(1) [OF assms(1) a])
    have same: "?e = ba_relative_path a \<longleftrightarrow> ba_id a = ba_id entry"
      using artifact_unique [OF assms(2) a(1) assms(5)] a(2) assms(6) by (auto simp: artifact_key_def)
    have "\<not> prefix (?e @ ''/'') (ba_relative_path a)" if "\<not> ba_is_dir entry"
    proof
      assume "prefix (?e @ ''/'') (ba_relative_path a)"
      then have "strict_prefix (join_files ?root ?e) (join_files ?root (ba_relative_path a))"
        using join_files_safe [OF e(1)] join_files_safe [OF row_trueD(1) [OF t]]
        by (simp add: prefix_slash_iff strict_prefix_def)
      moreover obtain x where "stat (disk s) (join_files ?root (ba_relative_path a)) = Some x"
        using row_trueD(2) [OF t] by auto
      ultimately have "stat (disk s) (join_files ?root ?e) = Some Directory"
        using stat_ancestor [OF assms(3)] by blast
      with e(3) that show False by simp
    qed
    then show ?thesis using join_files_prefix [OF e(1) row_trueD(1) [OF t], of ?root] same by blast
  qed
  show "in_step h b s'"
  proof (rule in_stepI)
    fix a assume a: "a \<in> set (artifacts s')" "ba_bundle_id a = bu_id b"
    then have as: "a \<in> set (artifacts s)" using rows by blast
    have t: "row_true h ?root (disk s) a" by (rule in_stepD(1) [OF assms(1) as a(2)])
    have "\<not> prefix (join_files ?root ?e) (join_files ?root (ba_relative_path a))"
      using below [OF as a(2)] a rows by blast
    moreover have "prefix ?root (join_files ?root (ba_relative_path a))" by (simp add: join_files_def)
    ultimately show "row_true h ?root (disk s') a"
      using gone(1) by (intro row_true_moved [OF t row_trueD(1) [OF t]]) auto
  next
    fix p bytes assume p: "strict_prefix ?root p" "stat (disk s') p = Some (Regular bytes)"
    then have keep: "\<not> prefix (join_files ?root ?e) p" "stat (disk s) p = Some (Regular bytes)"
      using gone(1) [of p] by (auto simp: strict_prefix_def split: if_splits)
    from in_stepD(2) [OF assms(1) p(1) keep(2)] obtain a where
      a: "a \<in> set (artifacts s)" "ba_bundle_id a = bu_id b" "join_files ?root (ba_relative_path a) = p" by blast
    with below [OF a(1,2)] keep(1) rows have "a \<in> set (artifacts s')" by auto
    with a show "\<exists>a\<in>set (artifacts s'). ba_bundle_id a = bu_id b \<and> join_files ?root (ba_relative_path a) = p" by blast
  qed
  show "fs_wf (disk s')" using gone(2) [of ?root] by simp
  have "bundle_tables_wf ?s1" unfolding delete_entry_rows_eq by (rule rows_deleted_wf [OF assms(2)])
  moreover have "s' = ?s1\<lparr>disk := disk s'\<rparr>" using assms(7) by (simp add: unlink_entry_def Let_def)
  ultimately show "bundle_tables_wf s'" by (metis tables_wf_disk(1))
qed

section \<open>A moved entry\<close>

lemma rename_on_disk_result:
  assumes "rename_on_disk h p q s = (Inr u, s')" "fs_wf (disk s)" "stat (disk s) p = Some e" "p \<noteq> q"
    and "stat (disk s) q = None"
  shows "\<exists>fs. s' = s\<lparr>disk := fs\<rparr> \<and> fs_wf fs"
    "stat (disk s) r = Some (Regular c) \<Longrightarrow> \<not> strict_prefix r q"
    "stat (disk s') r = Some x \<Longrightarrow> x \<noteq> Directory \<or> stat (disk s) r \<noteq> None \<Longrightarrow> \<not> prefix q r
       \<Longrightarrow> \<not> prefix p r \<and> stat (disk s) r = Some x"
    "stat (disk s') (q @ d) = Some x \<Longrightarrow> x \<noteq> Directory \<Longrightarrow> stat (disk s) (p @ d) = Some x"
    "stat (disk s) r = Some x \<Longrightarrow> \<not> prefix p r \<Longrightarrow> \<not> prefix q r \<Longrightarrow> stat (disk s') r = Some x"
    "stat (disk s) (p @ d) = Some x \<Longrightarrow> stat (disk s') (q @ d) = Some x"
proof -
  have ex: "path_exists (disk s) p" using assms(3) by (simp add: path_exists_def)
  with assms(1) obtain s1 v where mk: "on_disk h ''mkdir'' (create_dir_all (ho_io h) (butlast q)) s = (Inr v, s1)"
    and rn: "on_disk h ''rename'' (rename_path (ho_io h) p q) s1 = (Inr u, s')"
    by (auto simp: rename_on_disk_def split: prod.splits sum.splits)
  from mk obtain fs1 where fs1: "create_dir_all (ho_io h) (butlast q) (disk s) = (Inr v, fs1)" "s1 = s\<lparr>disk := fs1\<rparr>"
    by (auto simp: on_disk_def Let_def split: prod.splits sum.splits)
  with rn obtain fs2 where fs2: "rename_path (ho_io h) p q fs1 = (Inr u, fs2)" "s' = s\<lparr>disk := fs2\<rparr>"
    by (auto simp: on_disk_def Let_def split: prod.splits sum.splits)
  have wf1: "fs_wf fs1" by (rule fs_wf_create_dir_all [OF fs1(1) assms(2)])
  have st2: "stat fs2 r = (if prefix q r then stat fs1 (p @ drop (length q) r)
      else if prefix p r then None else stat fs1 r)" for r
    by (rule stat_rename_path [OF fs2(1) wf1 assms(4)])
  have keep: "stat (disk s) r = Some x \<Longrightarrow> stat fs1 r = Some x" for r x
    using stat_create_dir_all [OF fs1(1), of r] by auto
  have held: "stat fs1 r = Some x \<Longrightarrow> x \<noteq> Directory \<or> stat (disk s) r \<noteq> None \<Longrightarrow> stat (disk s) r = Some x" for r x
    using stat_create_dir_all [OF fs1(1), of r] by auto
  show "\<exists>fs. s' = s\<lparr>disk := fs\<rparr> \<and> fs_wf fs" using fs2(2) fs_wf_rename_path [OF fs2(1) wf1] by blast
  show "\<not> strict_prefix r q" if "stat (disk s) r = Some (Regular c)"
  proof
    assume "strict_prefix r q"
    then have "prefix r (butlast q)" by (cases q rule: rev_cases) (auto simp: strict_prefix_def)
    from stat_create_dir_all_ok [OF fs1(1) this] keep [OF that] show False by simp
  qed
  show "\<not> prefix p r \<and> stat (disk s) r = Some x"
    if "stat (disk s') r = Some x" "x \<noteq> Directory \<or> stat (disk s) r \<noteq> None" "\<not> prefix q r" for x r
    using that st2 [of r] fs2(2) held [of r x] by (auto split: if_splits)
  show "stat (disk s) (p @ d) = Some x" if "stat (disk s') (q @ d) = Some x" "x \<noteq> Directory" for x d
    using that st2 [of "q @ d"] fs2(2) held [of "p @ d" x] by simp
  show "stat (disk s') r = Some x" if "stat (disk s) r = Some x" "\<not> prefix p r" "\<not> prefix q r" for r x
    using that st2 [of r] fs2(2) keep by simp
  show "stat (disk s') (q @ d) = Some x" if "stat (disk s) (p @ d) = Some x" for x d
    using st2 [of "q @ d"] fs2(2) keep [OF that] by simp
qed

lemma moved_rows:
  "a \<in> set (moved x old new is_dir as) \<longleftrightarrow>
     (\<exists>a0\<in>set as. a = (if in_subtree x old is_dir a0 then relocate (moved_path old new (ba_relative_path a0)) a0 else a0))"
  by (auto simp: moved_def set_sql_update)

lemma relocate_data [simp]:
  "ba_size (relocate p a) = ba_size a" "ba_sha256 (relocate p a) = ba_sha256 a" "ba_is_dir (relocate p a) = ba_is_dir a"
  by (simp_all add: relocate_def split: prod.split)

text \<open>The place of a path of the subtree, before and after.\<close>

lemma moved_place:
  assumes "safe_path old" "safe_path new" "safe_path p" "p = old \<or> prefix (old @ ''/'') p"
  shows "safe_path (moved_path old new p)"
    "\<exists>d. join_files root p = join_files root old @ d \<and> join_files root (moved_path old new p) = join_files root new @ d"
proof -
  obtain d where d: "split_on slash p = split_on slash old @ d" "split_on slash (moved_path old new p) = split_on slash new @ d"
    using assms(4)
  proof
    assume "p = old"
    then show ?thesis by (intro that [of "[]"]) (simp_all add: moved_path_def)
  next
    assume "prefix (old @ ''/'') p"
    then obtain r where "p = old @ slash # r" by (auto simp: prefix_def)
    then show ?thesis by (intro that [of "split_on slash r"]) (simp_all add: moved_path_def split_on_at)
  qed
  then show safe: "safe_path (moved_path old new p)" using assms(1-3) by (simp add: safe_path_def)
  show "\<exists>d. join_files root p = join_files root old @ d \<and> join_files root (moved_path old new p) = join_files root new @ d"
    using d assms(1-3) safe by (intro exI [of _ d]) (simp add: join_files_safe)
qed

lemma update_artifact_path_disk: "update_artifact_path x p s = Inr s' \<Longrightarrow> disk s' = disk s"
  by (auto simp: update_artifact_path_def split: option.splits if_splits)

lemma move_rows_disk:
  assumes "move_rows x old new is_dir s = Inr s'"
  shows "disk s' = disk s"
proof -
  have child: "disk s2 = disk s1" if "move_child old new c s1 = Inr s2" for c s1 s2
    using that by (auto simp: move_child_def update_artifact_path_disk split: option.splits)
  have "disk s2 = disk s1" if "try_all (move_child old new) cs s1 = Inr s2" for cs s1 s2
    by (rule try_all_invariant [OF that]) (simp_all add: child)
  with assms update_artifact_path_disk show ?thesis
    by (fastforce simp: move_rows_def split: option.splits sum.splits if_splits)
qed

lemma move_one_in_step:
  assumes "move_one h (bu_id b) (files_root h b) (entry, new) s = (Inr u, s')"
    and "validate_move entry new = Inr ()" "safe_path new" "stat (disk s) (join_files (files_root h b) new) = None"
    and "in_step h b s" "bundle_tables_wf s" "fs_wf (disk s)"
    and "entry \<in> set (artifacts s)" "ba_bundle_id entry = bu_id b"
  shows "in_step h b s'" "bundle_tables_wf s'" "fs_wf (disk s')" "bundles s' = bundles s"
proof -
  let ?root = "files_root h b" and ?old = "ba_relative_path entry" and ?dir = "ba_is_dir entry"
  let ?p = "join_files ?root ?old" and ?q = "join_files ?root new"
  have true: "row_true h ?root (disk s) entry" by (rule in_stepD(1) [OF assms(5,8,9)])
  note e = row_trueD [OF true]
  have valid: "new \<noteq> ?old" "?dir \<Longrightarrow> \<not> prefix (?old @ ''/'') new"
    using assms(2) by (auto simp: validate_move_def starts_with_iff prefix_def split: if_splits)
  from assms(1) obtain s1 where free: "check_destination_free (bu_id b) new ?dir s = Inr ()"
    and mv: "move_rows (bu_id b) ?old new ?dir s = Inr s1" and rn: "rename_on_disk h ?p ?q s1 = (Inr u, s')"
    by (auto simp: move_one_def move_subtree_def and_then_ok simple_handlers split: sum.splits)
  have disk1: "disk s1 = disk s" by (rule move_rows_disk [OF mv])
  obtain x where x: "stat (disk s) ?p = Some x" using e(2) by auto
  have pq: "?p \<noteq> ?q" using valid(1) e(1) assms(3) by (simp add: join_files_inj)
  note ren = rename_on_disk_result [OF rn, unfolded disk1, OF assms(7) x pq assms(4)]
  have below_new: "\<not> prefix ?q (join_files ?root (ba_relative_path a))"
    if "a \<in> set (artifacts s)" "ba_bundle_id a = bu_id b" for a
    using stat_below_missing [OF assms(7,4)] row_trueD(2) [OF in_stepD(1) [OF assms(5) that]] by auto
  have "\<not> prefix (?old @ ''/'') new"
  proof (cases ?dir)
    case False
    with e(3) x obtain c where "stat (disk s) ?p = Some (Regular c)" by (cases x) auto
    from ren(2) [OF this] show ?thesis
      using e(1) assms(3) by (auto simp: join_files_safe prefix_slash_iff strict_prefix_def)
  qed (use valid in blast)
  moreover have "\<not> prefix (new @ ''/'') (ba_relative_path a)" if a: "a \<in> set (artifacts s)" "ba_bundle_id a = bu_id b" for a
    using below_new [OF a] join_files_prefix [OF assms(3) row_trueD(1) [OF in_stepD(1) [OF assms(5) a]]] by blast
  ultimately have mf: "move_free s (bu_id b) ?old new"
    using free by (auto simp: move_free_def check_destination_free_def any_artifact_with_prefix_def
        sql_affected_pos sql_exists_iff like_prefix_iff split: if_splits)
  have "row_at s (bu_id b) ?old = Some entry" using assms(6,8,9) by (simp add: row_at_iff)
  from move_rows_exact [OF assms(6) this mf, of ?dir] mv
  have s1: "s1 = s\<lparr>artifacts := moved (bu_id b) ?old new ?dir (artifacts s)\<rparr>" and wf1: "bundle_tables_wf s1" by auto
  obtain fs where s': "s' = s1\<lparr>disk := fs\<rparr>" "fs_wf fs" using ren(1) by blast
  show "bundle_tables_wf s'" "fs_wf (disk s')" "bundles s' = bundles s" using s' s1 wf1 by simp_all
  have rows: "artifacts s' = moved (bu_id b) ?old new ?dir (artifacts s)" using s' s1 by simp
  have out: "\<not> prefix ?p (join_files ?root (ba_relative_path a))"
    if a: "a \<in> set (artifacts s)" "ba_bundle_id a = bu_id b" "\<not> in_subtree (bu_id b) ?old ?dir a" for a
  proof
    assume pre: "prefix ?p (join_files ?root (ba_relative_path a))"
    have t: "row_true h ?root (disk s) a" by (rule in_stepD(1) [OF assms(5) a(1,2)])
    have "?old \<noteq> ba_relative_path a" using a(2,3) by (auto simp: in_subtree_def at_path_def)
    with pre have sub: "prefix (?old @ ''/'') (ba_relative_path a)" "strict_prefix ?p (join_files ?root (ba_relative_path a))"
      using join_files_prefix [OF e(1) row_trueD(1) [OF t]] join_files_inj [OF e(1) row_trueD(1) [OF t]]
      by (auto simp: strict_prefix_def)
    with row_trueD(2) [OF t] e(3) stat_ancestor [OF assms(7)] have ?dir by fastforce
    with sub(1) a(2,3) show False by (simp add: in_subtree_def like_prefix_iff)
  qed
  have inside: "safe_path (moved_path ?old new (ba_relative_path a))
      \<and> (\<exists>d. join_files ?root (ba_relative_path a) = ?p @ d
          \<and> join_files ?root (moved_path ?old new (ba_relative_path a)) = ?q @ d)"
    if "a \<in> set (artifacts s)" "in_subtree (bu_id b) ?old ?dir a" for a
  proof -
    have "ba_bundle_id a = bu_id b" "ba_relative_path a = ?old \<or> prefix (?old @ ''/'') (ba_relative_path a)"
      using that(2) by (auto simp: in_subtree_def at_path_def like_prefix_iff)
    then show ?thesis
      using moved_place [OF e(1) assms(3) row_trueD(1) [OF in_stepD(1) [OF assms(5) that(1)]]] by blast
  qed
  show "in_step h b s'"
  proof (rule in_stepI)
    fix a assume "a \<in> set (artifacts s')" "ba_bundle_id a = bu_id b"
    then obtain a0 where a0: "a0 \<in> set (artifacts s)" "ba_bundle_id a0 = bu_id b"
      "a = (if in_subtree (bu_id b) ?old ?dir a0 then relocate (moved_path ?old new (ba_relative_path a0)) a0 else a0)"
      by (auto simp: rows moved_rows split: if_splits)
    have t: "row_true h ?root (disk s) a0" by (rule in_stepD(1) [OF assms(5) a0(1,2)])
    obtain y where y: "stat (disk s) (join_files ?root (ba_relative_path a0)) = Some y" using row_trueD(2) [OF t] by auto
    show "row_true h ?root (disk s') a"
    proof (cases "in_subtree (bu_id b) ?old ?dir a0")
      case True
      with inside [OF a0(1)] ren(6) y a0(3) show ?thesis
        by (intro row_true_moved [OF t, of "moved_path ?old new (ba_relative_path a0)"]) auto
    next
      case False
      with out [OF a0(1,2)] below_new [OF a0(1,2)] ren(5) [OF y] y a0(3) show ?thesis
        by (intro row_true_moved [OF t row_trueD(1) [OF t]]) auto
    qed
  next
    fix r bytes assume r: "strict_prefix ?root r" "stat (disk s') r = Some (Regular bytes)"
    show "\<exists>a\<in>set (artifacts s'). ba_bundle_id a = bu_id b \<and> join_files ?root (ba_relative_path a) = r"
    proof (cases "prefix ?q r")
      case True
      then obtain d where d: "r = ?q @ d" by (auto simp: prefix_def)
      with r(2) ren(4) have "stat (disk s) (?p @ d) = Some (Regular bytes)" by auto
      moreover have "strict_prefix ?root (?p @ d)" using safe_join_below [OF e(1), of ?root] by (auto simp: strict_prefix_def prefix_def)
      ultimately obtain a where a: "a \<in> set (artifacts s)" "ba_bundle_id a = bu_id b"
        "join_files ?root (ba_relative_path a) = ?p @ d" using in_stepD(2) [OF assms(5)] by blast
      with out [OF a(1,2)] have sub: "in_subtree (bu_id b) ?old ?dir a" by auto
      with inside [OF a(1)] a(3) d
      have "join_files ?root (ba_relative_path (relocate (moved_path ?old new (ba_relative_path a)) a)) = r" by auto
      with a sub show ?thesis unfolding rows by (intro bexI [of _ "relocate (moved_path ?old new (ba_relative_path a)) a"]) (auto simp: moved_rows)
    next
      case False
      with ren(3) [OF r(2)] have keep: "\<not> prefix ?p r" "stat (disk s) r = Some (Regular bytes)" by auto
      from in_stepD(2) [OF assms(5) r(1) keep(2)] obtain a where
        a: "a \<in> set (artifacts s)" "ba_bundle_id a = bu_id b" "join_files ?root (ba_relative_path a) = r" by blast
      have "\<not> in_subtree (bu_id b) ?old ?dir a" using inside [OF a(1)] keep(1) a(3) by (auto simp: prefix_def)
      with a show ?thesis unfolding rows by (intro bexI [of _ a]) (auto simp: moved_rows)
    qed
  qed
qed

section \<open>The operations on an entry\<close>

text \<open>Directories that appear on disk are nobody's business.\<close>

lemma in_step_mkdir:
  assumes "in_step h b s" "create_dir_all io p (disk s) = (r, fs)" "s' = s\<lparr>disk := fs\<rparr>"
  shows "in_step h b s'"
proof (rule in_stepI)
  fix a assume a: "a \<in> set (artifacts s')" "ba_bundle_id a = bu_id b"
  then have t: "row_true h (files_root h b) (disk s) a" using in_stepD(1) [OF assms(1)] assms(3) by simp
  with stat_create_dir_all [OF assms(2), of "join_files (files_root h b) (ba_relative_path a)"] row_trueD(2) [OF t] assms(3)
  show "row_true h (files_root h b) (disk s') a"
    by (intro row_true_moved [OF t row_trueD(1) [OF t]]) auto
next
  fix q bytes assume "strict_prefix (files_root h b) q" "stat (disk s') q = Some (Regular bytes)"
  with stat_create_dir_all [OF assms(2), of q] assms(1,3)
  show "\<exists>a\<in>set (artifacts s'). ba_bundle_id a = bu_id b \<and> join_files (files_root h b) (ba_relative_path a) = q"
    using in_stepD(2) [of h b s q bytes] by auto
qed

lemma rename_path_failed: "rename_path io p q fs = (Inl e, fs') \<Longrightarrow> fs' = fs"
  by (auto simp: rename_path_def split: option.splits if_splits)

lemma move_one_failed:
  assumes "move_one h x root m s = (Inl e, s')"
  shows "disk s' = disk s \<or> (\<exists>p r. create_dir_all (ho_io h) p (disk s) = (r, disk s'))"
proof -
  obtain entry new where m: "m = (entry, new)" by fastforce
  show ?thesis
  proof (cases "\<exists>s1. check_destination_free x new (ba_is_dir entry) s = Inr ()
      \<and> move_rows x (ba_relative_path entry) new (ba_is_dir entry) s = Inr s1")
    case True
    then obtain s1 where s1: "check_destination_free x new (ba_is_dir entry) s = Inr ()"
      "move_rows x (ba_relative_path entry) new (ba_is_dir entry) s = Inr s1" by blast
    note disk1 = move_rows_disk [OF s1(2)]
    have rn: "rename_on_disk h (join_files root (ba_relative_path entry)) (join_files root new) s1 = (Inl e, s')"
      using assms s1 by (simp add: m move_one_def move_subtree_def and_then_def ask_def)
    then show ?thesis
      by (auto simp: rename_on_disk_def on_disk_def Let_def disk1 dest: rename_path_failed
          split: if_splits prod.splits sum.splits)
  next
    case False
    with assms show ?thesis
      by (auto simp: m move_one_def move_subtree_def and_then_def ask_def check_destination_free_def
          split: sum.splits if_splits)
  qed
qed

lemma apply_move_in_step:
  assumes "apply_move h b entry new s = (r, s')" "safe_path new"
    and "in_step h b s" "bundle_tables_wf s" "fs_wf (disk s)"
    and "entry \<in> set (artifacts s)" "ba_bundle_id entry = bu_id b"
  shows "in_step h b s' \<and> bundle_tables_wf s' \<and> fs_wf (disk s') \<and> bundles s' = bundles s"
proof -
  obtain q s1 where one: "move_one h (bu_id b) (files_root h b) (entry, new) s = (q, s1)" by fastforce
  consider "s' = s" | "q = Inr ()" "s' = s1" "validate_move entry new = Inr ()"
      "stat (disk s) (join_files (files_root h b) new) = None"
    | e where "q = Inl e" "s' = roll_back s s1"
    using assms(1) one
    by (auto simp: apply_move_def and_then_def ask_def in_transaction_def path_exists_def validate_move_def
        split: sum.splits if_splits)
  then show ?thesis
  proof cases
    case 2
    from move_one_in_step [OF one [unfolded 2(1)] 2(3) assms(2) 2(4) assms(3-7)] 2(2) show ?thesis by simp
  next
    case 3
    have s': "s' = s\<lparr>disk := disk s1\<rparr>" using 3 by (simp add: roll_back_def)
    from move_one_failed [OF one [unfolded 3(1)]] show ?thesis
    proof
      assume "disk s1 = disk s"
      with s' assms show ?thesis by simp
    next
      assume "\<exists>p r. create_dir_all (ho_io h) p (disk s) = (r, disk s1)"
      then obtain p r1 where mk: "create_dir_all (ho_io h) p (disk s) = (r1, disk s1)" by blast
      from in_step_mkdir [OF assms(3) mk s'] fs_wf_create_dir_all [OF mk assms(5)] s' assms(4) show ?thesis by simp
    qed
  qed (use assms in simp)
qed

text \<open>What a build shows to its address.\<close>

definition synced :: "host \<Rightarrow> string \<Rightarrow> store \<Rightarrow> bool" where
  "synced h slug s \<longleftrightarrow> bundle_tables_wf s \<and> fs_wf (disk s)
     \<and> (\<forall>b. resolved_bundle slug s = Inr b \<longrightarrow> in_step h b s)"

datatype entry_op = RenameTo string | MoveInto string | DeleteEntry | Rehash | Toggle bool

definition perform :: "host \<Rightarrow> string \<Rightarrow> uuid option \<times> entry_op \<Rightarrow> store \<Rightarrow> store" where
  "perform h slug xo s =
     (let (x, op) = xo in
      case op of
        RenameTo p \<Rightarrow> snd (rename_file h slug x p s)
      | MoveInto d \<Rightarrow> snd (move_file h slug x d s)
      | DeleteEntry \<Rightarrow> snd (delete_file h slug x s)
      | Rehash \<Rightarrow> snd (rehash_file h slug x s)
      | Toggle v \<Rightarrow> snd (toggle_download_once h slug x v s))"

definition shape :: "store \<Rightarrow> (uuid \<times> string) list" where
  "shape s = map (\<lambda>b. (bu_id b, bu_slug b)) (bundles s)"

lemma find_map: "List.find (\<lambda>(_, z). z = slug) (map (\<lambda>b. (g b, f b)) bs) = map_option (\<lambda>b. (g b, f b)) (List.find (\<lambda>b. f b = slug) bs)"
  by (induction bs) auto

lemma shape_resolved:
  assumes "shape s' = shape s" "resolved_bundle slug s' = Inr b'"
  shows "\<exists>b. resolved_bundle slug s = Inr b \<and> bu_id b = bu_id b' \<and> bu_slug b = bu_slug b'"
proof -
  have find: "map_option (\<lambda>b. (bu_id b, bu_slug b)) (find_by_slug t slug) = List.find (\<lambda>(_, z). z = slug) (shape t)" for t
    by (simp add: find_by_slug_def sql_find_def shape_def find_map)
  have "map_option (\<lambda>b. (bu_id b, bu_slug b)) (find_by_slug s' slug) = Some (bu_id b', bu_slug b')"
    using assms(2) by (auto simp: resolved_bundle_def require_by_slug_def ok_or_def split: sum.splits option.splits)
  then have "map_option (\<lambda>b. (bu_id b, bu_slug b)) (find_by_slug s slug) = Some (bu_id b', bu_slug b')"
    using find [of s] find [of s'] assms(1) by simp
  with assms(2) show ?thesis
    by (auto simp: resolved_bundle_def require_by_slug_def ok_or_def split: sum.splits option.splits)
qed

lemma syncedI:
  assumes "resolved_bundle slug s = Inr b" "shape s' = shape s" "in_step h b s'" "bundle_tables_wf s'" "fs_wf (disk s')"
  shows "synced h slug s'"
  using assms shape_resolved [OF assms(2)] in_step_same_build [OF assms(3)] by (fastforce simp: synced_def)

lemma bundle_tables_wf_shape:
  assumes "bundle_tables_wf s" "map (\<lambda>b. (bu_id b, bu_slug b)) bs = map (\<lambda>b. (bu_id b, bu_slug b)) (bundles s)"
  shows "bundle_tables_wf (s\<lparr>bundles := bs\<rparr>)"
proof -
  have "map fst (map (\<lambda>b. (bu_id b, bu_slug b)) bs) = map fst (map (\<lambda>b. (bu_id b, bu_slug b)) (bundles s))"
    "map snd (map (\<lambda>b. (bu_id b, bu_slug b)) bs) = map snd (map (\<lambda>b. (bu_id b, bu_slug b)) (bundles s))"
    using assms(2) by simp_all
  then have "map bu_id bs = map bu_id (bundles s)" "map bu_slug bs = map bu_slug (bundles s)" by (simp_all add: comp_def)
  with assms(1) show ?thesis by (simp add: bundle_tables_wf_def unique_index_def)
qed

lemma regenerate_in_step:
  assumes "in_step h b t" "bundle_tables_wf t" "fs_wf (disk t)"
  shows "in_step h b (snd (regenerate_manifest h b t)) \<and> bundle_tables_wf (snd (regenerate_manifest h b t))
    \<and> fs_wf (disk (snd (regenerate_manifest h b t))) \<and> shape (snd (regenerate_manifest h b t)) = shape t"
proof -
  obtain r s' where r: "regenerate_manifest h b t = (r, s')" by fastforce
  from r assms(3) obtain bs fs where s': "s' = t\<lparr>bundles := bs, disk := fs\<rparr>" "fs_wf fs"
    "\<And>p. strict_prefix (files_root h b) p \<Longrightarrow> stat fs p = stat (disk t) p"
    "map (\<lambda>b. (bu_id b, bu_slug b)) bs = map (\<lambda>b. (bu_id b, bu_slug b)) (bundles t)"
    by (rule regenerate_effect) blast
  have "in_step h b s'" by (rule in_step_cong [OF assms(1)]) (use s' in simp_all)
  with r s' bundle_tables_wf_shape [OF assms(2) s'(4)] show ?thesis by (simp add: shape_def)
qed

lemma rows_updated_in_step:
  assumes "in_step h b s" "bundle_tables_wf s"
    and "\<And>a. ba_id (f a) = ba_id a \<and> artifact_key (f a) = artifact_key a"
    and "\<And>a. a \<in> set (artifacts s) \<Longrightarrow> q a \<Longrightarrow> row_true h (files_root h b) (disk s) a
      \<Longrightarrow> row_true h (files_root h b) (disk s) (f a)"
  shows "in_step h b (s\<lparr>artifacts := sql_update q f (artifacts s)\<rparr>)"
    "bundle_tables_wf (s\<lparr>artifacts := sql_update q f (artifacts s)\<rparr>)"
proof -
  have key: "ba_bundle_id (f a) = ba_bundle_id a" "ba_relative_path (f a) = ba_relative_path a" for a
    using assms(3) [of a] by (simp_all add: artifact_key_def)
  show "in_step h b (s\<lparr>artifacts := sql_update q f (artifacts s)\<rparr>)"
  proof (rule in_stepI)
    fix a assume "a \<in> set (artifacts (s\<lparr>artifacts := sql_update q f (artifacts s)\<rparr>))" "ba_bundle_id a = bu_id b"
    then obtain a0 where "a0 \<in> set (artifacts s)" "a = (if q a0 then f a0 else a0)" "ba_bundle_id a0 = bu_id b"
      by (auto simp: set_sql_update key split: if_splits)
    with in_stepD(1) [OF assms(1)] assms(4)
    show "row_true h (files_root h b) (disk (s\<lparr>artifacts := sql_update q f (artifacts s)\<rparr>)) a" by simp
  next
    fix p bytes
    assume "strict_prefix (files_root h b) p" "stat (disk (s\<lparr>artifacts := sql_update q f (artifacts s)\<rparr>)) p = Some (Regular bytes)"
    with in_stepD(2) [OF assms(1)] obtain a where "a \<in> set (artifacts s)" "ba_bundle_id a = bu_id b"
      "join_files (files_root h b) (ba_relative_path a) = p" by auto
    then show "\<exists>a\<in>set (artifacts (s\<lparr>artifacts := sql_update q f (artifacts s)\<rparr>)).
        ba_bundle_id a = bu_id b \<and> join_files (files_root h b) (ba_relative_path a) = p"
      by (intro bexI [of _ "if q a then f a else a"]) (auto simp: set_sql_update key)
  qed
  show "bundle_tables_wf (s\<lparr>artifacts := sql_update q f (artifacts s)\<rparr>)"
    using assms(2,3) by (auto simp: bundle_tables_wf_def key intro!: unique_index_update fk_update)
qed

lemma hash_file_ok:
  assumes "hash_file h p fs = Inr sha"
  obtains bytes where "stat fs p = Some (Regular bytes)" "sha = e_hex (ho_env h) (e_sha256 (ho_env h) bytes)"
  using assms by (auto simp: hash_file_def read_path_def split: sum.splits option.splits entry.splits if_splits)

text \<open>
  Each operation, on an entry of the build: the table and disk part first, then the manifest.
\<close>

lemma perform_steps:
  assumes "resolved_entry slug x s = Inr (b, entry)" "reliable (ho_io h)"
    and "in_step h b s" "bundle_tables_wf s" "fs_wf (disk s)"
  shows "\<exists>t. in_step h b t \<and> bundle_tables_wf t \<and> fs_wf (disk t) \<and> shape t = shape s
    \<and> perform h slug (x, op) s \<in> {s, t, snd (regenerate_manifest h b t)}"
proof -
  note entry = resolved_entryD [OF assms(1)]
  have true: "row_true h (files_root h b) (disk s) entry" by (rule in_stepD(1) [OF assms(3) entry(2,3)])
  have only: "a = entry" if "a \<in> set (artifacts s)" "ba_id a = ba_id entry" for a
    using artifact_unique(1) [OF assms(4) that(1) entry(2) that(2)] .
  have move: "\<exists>t. in_step h b t \<and> bundle_tables_wf t \<and> fs_wf (disk t) \<and> shape t = shape s
      \<and> snd (and_then (apply_move h b entry p) (\<lambda>_. regenerate_manifest h b) s) \<in> {s, t, snd (regenerate_manifest h b t)}"
    if p: "safe_path p" for p
  proof -
    obtain r t where t: "apply_move h b entry p s = (r, t)" by fastforce
    from apply_move_in_step [OF t p assms(3-5) entry(2,3)] have "in_step h b t" "bundle_tables_wf t" "fs_wf (disk t)"
      "shape t = shape s" by (simp_all add: shape_def)
    then show ?thesis
      by (intro exI [of _ t]) (auto simp: and_then_def t split: sum.split)
  qed
  show ?thesis
  proof (cases op)
    case (RenameTo p)
    have "perform h slug (x, op) s = (case normalize_relative_path (trim p) ''newRelativePath'' of
        Inl e \<Rightarrow> s | Inr q \<Rightarrow> snd (and_then (apply_move h b entry q) (\<lambda>_. regenerate_manifest h b) s))"
      by (simp add: perform_def RenameTo rename_file_def and_then_def ask_def assms(1) split: sum.split)
    with move normalize_safe assms(3-5) show ?thesis by (fastforce split: sum.splits)
  next
    case (MoveInto d)
    have "perform h slug (x, op) s = (case join_target_dir d (ba_name entry) of
        Inl e \<Rightarrow> s | Inr q \<Rightarrow> snd (and_then (apply_move h b entry q) (\<lambda>_. regenerate_manifest h b) s))"
      by (simp add: perform_def MoveInto move_file_def and_then_def ask_def assms(1) split: sum.split)
    with move normalize_safe assms(3-5) show ?thesis by (fastforce simp: join_target_dir_def Let_def split: sum.splits)
  next
    case DeleteEntry
    let ?t = "unlink_entry h (files_root h b) entry (delete_entry_rows (bu_id b) entry s)"
    have "perform h slug (x, op) s = snd (regenerate_manifest h b ?t)"
      by (simp add: perform_def DeleteEntry delete_file_def and_then_def ask_def assms(1) split: sum.split prod.split)
    moreover have "shape ?t = shape s" by (simp add: shape_def unlink_entry_def delete_entry_rows_eq Let_def)
    ultimately show ?thesis
      using delete_entry_in_step [OF assms(3-5,2) entry(2,3) refl] by (intro exI [of _ ?t]) simp
  next
    case Rehash
    let ?p = "join_files (files_root h b) (ba_relative_path entry)"
    show ?thesis
    proof (cases "\<exists>sha. \<not> ba_is_dir entry \<and> path_exists (disk s) ?p \<and> hash_file h ?p (disk s) = Inr sha")
      case True
      then obtain sha where sha: "\<not> ba_is_dir entry" "path_exists (disk s) ?p" "hash_file h ?p (disk s) = Inr sha" by blast
      let ?t = "update_artifact_sha (ba_id entry) sha s"
      have "perform h slug (x, op) s = snd (regenerate_manifest h b ?t)"
        using sha by (simp add: perform_def Rehash rehash_file_def and_then_def ask_def assms(1) Let_def)
      moreover obtain bytes where bytes: "stat (disk s) ?p = Some (Regular bytes)"
        "sha = e_hex (ho_env h) (e_sha256 (ho_env h) bytes)" by (rule hash_file_ok [OF sha(3)])
      have new: "row_true h (files_root h b) (disk s) (a\<lparr>ba_sha256 := Some sha\<rparr>)"
        if "a \<in> set (artifacts s)" "ba_id a = ba_id entry" for a
        using true bytes by (simp add: only [OF that] row_true_def)
      have "in_step h b ?t" "bundle_tables_wf ?t"
        unfolding update_artifact_sha_def
        by (rule rows_updated_in_step [OF assms(3,4)], simp add: artifact_key_def, rule new, assumption+)+
      ultimately show ?thesis using assms(5) by (intro exI [of _ ?t]) (simp add: shape_def update_artifact_sha_def)
    next
      case False
      then have "perform h slug (x, op) s = s"
        by (auto simp: perform_def Rehash rehash_file_def and_then_def ask_def assms(1) Let_def split: sum.splits)
      with assms(3-5) show ?thesis by (intro exI [of _ s]) simp
    qed
  next
    case (Toggle v)
    let ?t = "set_download_once (ba_id entry) v s"
    have "perform h slug (x, op) s = snd (regenerate_manifest h b ?t)"
      by (simp add: perform_def Toggle toggle_download_once_def and_then_def ask_def assms(1))
    moreover have new: "row_true h (files_root h b) (disk s) (a\<lparr>ba_download_once := v\<rparr>)"
      if "row_true h (files_root h b) (disk s) a" for a
      using that by (intro row_true_moved [OF that row_trueD(1) [OF that]]) simp_all
    have "in_step h b ?t" "bundle_tables_wf ?t"
      unfolding set_download_once_def
      by (rule rows_updated_in_step [OF assms(3,4)], simp add: artifact_key_def, rule new, assumption)+
    ultimately show ?thesis using assms(5) by (intro exI [of _ ?t]) (simp add: shape_def set_download_once_def)
  qed
qed


lemma upload_synced:
  assumes "upload_archive h slug form s = (Inr b', s')" "bundle_tables_wf s" "fs_wf (disk s)" "reliable (ho_io h)"
    and "shape s' = shape s"
  shows "synced h slug s'"
proof -
  from upload_result [OF assms(1-4)] obtain b where "resolved_bundle slug s = Inr b" "in_step h b s'"
    "bundle_tables_wf s'" "fs_wf (disk s')" by blast
  from syncedI [OF this(1) assms(5) this(2-4)] show ?thesis .
qed

text \<open>The uploaded build: its folder renamed, its other file moved into it, the first file deleted.\<close>

definition edits :: "(uuid option \<times> entry_op) list" where
  "edits = [(Some 100, RenameTo ''e''), (Some 102, MoveInto ''e''), (Some 101, DeleteEntry), (None, Rehash)]"


section \<open>Where registry and disk part\<close>

text \<open>
  Two files of the same name moved into one folder: the second collides, the transaction rolls both
  rows back, but the bytes of the first already lie at the new place.
\<close>

definition same_names :: "string \<Rightarrow> string + (string + zip_entry) list" where
  "same_names _ = Inr [demo_entry ''a/x'' ''1'', demo_entry ''b/x'' ''2'']"

definition twins :: store where
  "twins = snd (upload_archive (demo_host same_names) ''b'' demo_form one_build)"

definition batch :: "bundle_row app_result \<times> store" where
  "batch = move_files (demo_host same_names) ''b'' [101, 103] ''t'' twins"

definition file_form :: multipart where
  "file_form =
     [Inr \<lparr>uf_name = Some ''targetPath'', uf_file_name = None, uf_chunks = [Inr ''a'']\<rparr>,
      Inr \<lparr>uf_name = Some ''file'', uf_file_name = Some ''n'', uf_chunks = [Inr ''new'']\<rparr>]"

text \<open>The three requests on the same build, each with what it leaves behind.\<close>

definition batch_left :: "bundle_row app_result \<times> store
    \<Rightarrow> bool \<times> string list \<times> entry option \<times> entry option \<times> bool" where
  "batch_left rs =
     ((case fst rs of Inl e \<Rightarrow> e = path_taken | Inr _ \<Rightarrow> False), rows_after (snd rs),
      stat (disk (snd rs)) [''r'', ''builds'', ''b'', ''files'', ''a'', ''x''],
      stat (disk (snd rs)) [''r'', ''builds'', ''b'', ''files'', ''t'', ''x''],
      list_ex (\<lambda>a. ba_bundle_id a = bu_id demo_bundle
        \<and> \<not> row_true (demo_host same_names) (files_root (demo_host same_names) demo_bundle) (disk (snd rs)) a)
        (artifacts (snd rs)))"

definition upload_left :: "bundle_row app_result \<times> store \<Rightarrow> bool \<times> entry option" where
  "upload_left = map_prod isl (\<lambda>s. stat (disk s) [''r'', ''builds'', ''b'', ''upload-u.zip.tmp''])"

definition delete_left :: "nat app_result \<times> store \<Rightarrow> nat app_result \<times> string list" where
  "delete_left = map_prod id rows_after"

definition requests_on :: "store \<Rightarrow> (bool \<times> string list \<times> entry option \<times> entry option \<times> bool)
    \<times> (bool \<times> entry option) \<times> (nat app_result \<times> string list)" where
  "requests_on s =
     (batch_left (move_files (demo_host same_names) ''b'' [101, 103] ''t'' s),
      upload_left (upload_file (demo_host same_names) ''b'' file_form s),
      delete_left (bulk_delete (demo_host same_names) ''b'' [100, 102] s))"

lemma requests_on_twins:
  "requests_on twins =
     ((True, [''a'', ''a/x'', ''b'', ''b/x''], None, Some (Regular ''1''), True),
      (True, Some (Regular ''new'')), (Inr 2, []))"
  by code_simp

theorem failed_batch_moves_bytes:
  "fst batch = Inl path_taken \<and> map ba_relative_path (artifacts (snd batch)) = [''a'', ''a/x'', ''b'', ''b/x'']
   \<and> stat (disk (snd batch)) [''r'', ''builds'', ''b'', ''files'', ''a'', ''x''] = None
   \<and> stat (disk (snd batch)) [''r'', ''builds'', ''b'', ''files'', ''t'', ''x''] = Some (Regular ''1'')
   \<and> \<not> in_step (demo_host same_names) demo_bundle (snd batch)"
proof -
  have left: "batch_left batch = (True, [''a'', ''a/x'', ''b'', ''b/x''], None, Some (Regular ''1''), True)"
    using requests_on_twins by (simp add: requests_on_def batch_def)
  then have "\<not> in_step (demo_host same_names) demo_bundle (snd batch)"
    by (auto simp: batch_left_def list_ex_iff dest: in_stepD(1))
  with left show ?thesis by (simp add: batch_left_def rows_after_def split: sum.splits)
qed

text \<open>A file sent to the path of a folder: the request fails and the staged bytes stay for good.\<close>

lemma upload_over_folder_leaks:
  "upload_left (upload_file (demo_host same_names) ''b'' file_form twins) = (True, Some (Regular ''new''))"
  using requests_on_twins by (simp add: requests_on_def)

text \<open>Deleting a folder and a file inside it reports two rows where a third went along.\<close>

lemma bulk_delete_count:
  "delete_left (bulk_delete (demo_host same_names) ''b'' [100, 102] twins) = (Inr 2, [])"
  using requests_on_twins by (simp add: requests_on_def)

end
