(* ===== verification/Protocol_Png.thy ===== *)
theory Protocol_Png
  imports Protocol_Uuid
begin

text \<open>
  \<^verbatim>\<open>yggdrasil-protocol/src/png.rs\<close>: the header check of an uploaded skin or cape. A file is a list
  of bytes; a field is four bytes in network order, read at a fixed offset.
\<close>

section \<open>Definitions\<close>

type_synonym byte = "8 word"

definition PNG_SIGNATURE :: "byte list" where
  "PNG_SIGNATURE = [0x89, 0x50, 0x4E, 0x47, 0x0D, 0x0A, 0x1A, 0x0A]"

definition IHDR_LENGTH :: "32 word" where
  "IHDR_LENGTH = 13"

definition PNG_HEADER_MIN_BYTES :: nat where
  "PNG_HEADER_MIN_BYTES = 24"

text \<open>\<^verbatim>\<open>b"IHDR"\<close>\<close>

definition IHDR_TYPE :: "byte list" where
  "IHDR_TYPE = [0x49, 0x48, 0x44, 0x52]"

datatype png_kind = Skin | Cape

datatype png_error =
    TooSmall
  | BadSignature
  | BadIhdrLength "32 word"
  | BadIhdrType
  | BadDimensions "32 word" "32 word"

definition from_be_bytes :: "byte \<Rightarrow> byte \<Rightarrow> byte \<Rightarrow> byte \<Rightarrow> 32 word" where
  "from_be_bytes a b c d =
     or (push_bit 24 (ucast a)) (or (push_bit 16 (ucast b)) (or (push_bit 8 (ucast c)) (ucast d)))"

definition to_be_bytes :: "32 word \<Rightarrow> byte list" where
  "to_be_bytes w = [ucast (drop_bit 24 w), ucast (drop_bit 16 w), ucast (drop_bit 8 w), ucast w]"

definition read_u32_be :: "byte list \<Rightarrow> nat \<Rightarrow> 32 word" where
  "read_u32_be buf k =
     from_be_bytes (buf ! k) (buf ! (k + 1)) (buf ! (k + 2)) (buf ! (k + 3))"

definition parse_png_header :: "byte list \<Rightarrow> png_error + 32 word \<times> 32 word" where
  "parse_png_header buf =
     (if length buf < PNG_HEADER_MIN_BYTES then Inl TooSmall
      else if slice 0 8 buf \<noteq> PNG_SIGNATURE then Inl BadSignature
      else
        let ihdr_length = read_u32_be buf 8 in
        if ihdr_length \<noteq> IHDR_LENGTH then Inl (BadIhdrLength ihdr_length)
        else if slice 12 16 buf \<noteq> IHDR_TYPE then Inl BadIhdrType
        else Inr (read_u32_be buf 16, read_u32_be buf 20))"

fun allowed_dimensions :: "png_kind \<Rightarrow> 32 word \<Rightarrow> 32 word \<Rightarrow> bool" where
  "allowed_dimensions Skin width height \<longleftrightarrow> width = 64 \<and> (height = 64 \<or> height = 32)"
| "allowed_dimensions Cape width height \<longleftrightarrow> width = 64 \<and> height = 32"

definition validate_png :: "byte list \<Rightarrow> png_kind \<Rightarrow> png_error + 32 word \<times> 32 word" where
  "validate_png buf kind =
     (case parse_png_header buf of
        Inl e \<Rightarrow> Inl e
      | Inr (width, height) \<Rightarrow>
          if allowed_dimensions kind width height then Inr (width, height)
          else Inl (BadDimensions width height))"

definition validate_skin :: "byte list \<Rightarrow> png_error + 32 word \<times> 32 word" where
  "validate_skin buf = validate_png buf Skin"

definition validate_cape :: "byte list \<Rightarrow> png_error + 32 word \<times> 32 word" where
  "validate_cape buf = validate_png buf Cape"

text \<open>The header of the format: what a valid file starts with.\<close>

definition png_header :: "32 word \<Rightarrow> 32 word \<Rightarrow> byte list" where
  "png_header width height =
     PNG_SIGNATURE @ to_be_bytes IHDR_LENGTH @ IHDR_TYPE @ to_be_bytes width @ to_be_bytes height"

section \<open>Network order\<close>

lemma byte_bit: "bit (a :: byte) n \<Longrightarrow> n < 8"
  using bit_imp_le_length [of a n] by simp

lemma to_be_from_be: "to_be_bytes (from_be_bytes a b c d) = [a, b, c, d]"
  by (auto simp: to_be_bytes_def from_be_bytes_def intro!: bit_word_eqI)
    (auto simp: bit_simps dest: byte_bit)

lemma from_be_to_be:
  "from_be_bytes (ucast (drop_bit 24 w)) (ucast (drop_bit 16 w)) (ucast (drop_bit 8 w)) (ucast w) = w"
proof (rule bit_word_eqI)
  fix n assume n: "n < LENGTH(32)"
  have cases: "n < 8 \<or> (8 \<le> n \<and> n - 8 < 8) \<or> (16 \<le> n \<and> n - 16 < 8) \<or> 24 \<le> n"
    by linarith
  then show "bit (from_be_bytes (ucast (drop_bit 24 w)) (ucast (drop_bit 16 w))
      (ucast (drop_bit 8 w)) (ucast w)) n = bit w n"
    using n by (elim disjE conjE) (auto simp: from_be_bytes_def bit_simps)
qed

lemma from_be_eq_iff: "from_be_bytes a b c d = w \<longleftrightarrow> [a, b, c, d] = to_be_bytes w"
  using to_be_from_be [of a b c d] from_be_to_be [of w] by (auto simp: to_be_bytes_def)

lemma length_be [simp]: "length (to_be_bytes w) = 4" "length PNG_SIGNATURE = 8" "length IHDR_TYPE = 4"
  by (simp_all add: to_be_bytes_def PNG_SIGNATURE_def IHDR_TYPE_def)

lemma slice_four:
  assumes "k + 4 \<le> length buf"
  shows "slice k (k + 4) buf = [buf ! k, buf ! (k + 1), buf ! (k + 2), buf ! (k + 3)]"
proof -
  have "4 \<le> length (drop k buf)" using assms by simp
  then obtain a b c d r where eq: "drop k buf = a # b # c # d # r"
    by (simp only: numeral_eq_Suc pred_numeral_simps BitM.simps numerals Suc_le_length_iff) blast
  have "buf ! (k + i) = (a # b # c # d # r) ! i" for i
    using assms by (simp flip: eq)
  from this [of 0] this [of 1] this [of 2] this [of 3] show ?thesis
    by (simp add: slice_def eq)
qed

lemma read_u32_be_iff:
  "k + 4 \<le> length buf \<Longrightarrow> read_u32_be buf k = w \<longleftrightarrow> slice k (k + 4) buf = to_be_bytes w"
  by (simp only: slice_four read_u32_be_def from_be_eq_iff)

lemma slice_then_drop: "drop a buf = slice a (a + n) buf @ drop (a + n) buf"
  using append_take_drop_id [of n "drop a buf"] by (simp add: slice_def add.commute)

lemma header_split:
  "buf = slice 0 8 buf @ slice 8 12 buf @ slice 12 16 buf @ slice 16 20 buf @ slice 20 24 buf @ drop 24 buf"
  using slice_then_drop [of 0 buf 8] slice_then_drop [of 8 buf 4] slice_then_drop [of 12 buf 4]
    slice_then_drop [of 16 buf 4] slice_then_drop [of 20 buf 4] by simp

lemma slice_header:
  assumes "length a = 8" "length b = 4" "length c = 4" "length d = 4" "length e = 4"
    and "buf = a @ b @ c @ d @ e @ r"
  shows "slice 0 8 buf = a" "slice 8 12 buf = b" "slice 12 16 buf = c" "slice 16 20 buf = d"
    "slice 20 24 buf = e"
  using assms by (simp_all add: slice_def)

lemma parse_png_header_iff:
  "parse_png_header buf = Inr (w, h) \<longleftrightarrow> (\<exists>rest. buf = png_header w h @ rest)"
proof (cases "24 \<le> length buf")
  case True
  then have read: "read_u32_be buf 8 = v \<longleftrightarrow> slice 8 12 buf = to_be_bytes v"
    "read_u32_be buf 16 = v \<longleftrightarrow> slice 16 20 buf = to_be_bytes v"
    "read_u32_be buf 20 = v \<longleftrightarrow> slice 20 24 buf = to_be_bytes v" for v
    using read_u32_be_iff [of 8 buf v] read_u32_be_iff [of 16 buf v] read_u32_be_iff [of 20 buf v]
    by simp_all
  have "parse_png_header buf = Inr (w, h) \<longleftrightarrow> slice 0 8 buf = PNG_SIGNATURE
      \<and> slice 8 12 buf = to_be_bytes IHDR_LENGTH \<and> slice 12 16 buf = IHDR_TYPE
      \<and> slice 16 20 buf = to_be_bytes w \<and> slice 20 24 buf = to_be_bytes h"
    using True by (auto simp: parse_png_header_def PNG_HEADER_MIN_BYTES_def Let_def simp flip: read)
  also have "\<dots> \<longleftrightarrow> (\<exists>rest. buf = png_header w h @ rest)"
    using header_split [of buf]
      slice_header [of PNG_SIGNATURE "to_be_bytes IHDR_LENGTH" IHDR_TYPE "to_be_bytes w" "to_be_bytes h"]
    by (auto simp: png_header_def)
  finally show ?thesis .
qed (auto simp: parse_png_header_def png_header_def PNG_HEADER_MIN_BYTES_def)

section \<open>Properties\<close>

text \<open>
  C33. A file is accepted with a width and a height exactly when it starts with the signature, an
  IHDR chunk of thirteen bytes and these dimensions in network order, and the dimensions are
  allowed for its kind; whatever follows the header is never looked at.
\<close>

theorem validate_png_iff:
  "validate_png buf kind = Inr (w, h) \<longleftrightarrow>
    (\<exists>rest. buf = png_header w h @ rest) \<and> allowed_dimensions kind w h"
  unfolding parse_png_header_iff [symmetric]
  by (auto simp: validate_png_def split: sum.splits if_splits)

end
