(* ===== verification/Catalog_Read.thy ===== *)
theory Catalog_Read
  imports Bundle_Admin Protocol_Png
begin

text \<open>
  \<^verbatim>\<open>catalog/src/repo.rs\<close> and \<^verbatim>\<open>catalog/src/public.rs\<close>: the catalog as launchers read it. The relations
  of a whole set of clients are loaded in one statement per table and grouped in hash maps; the
  documents are then assembled from the maps. The theorem says that this is the same as assembling
  every client on its own, straight from the tables.
\<close>

definition DEFAULT_LOCALE :: string where
  "DEFAULT_LOCALE = ''en''"

section \<open>Documents\<close>

record media_dto =
  md_url :: string
  md_width :: "32 word option"
  md_height :: "32 word option"

record bundle_summary =
  bs_slug :: string
  bs_version :: "string option"
  bs_status :: string
  bs_files_count :: "64 word"
  bs_manifest_url :: string

record keyword_dto =
  kd_id :: string
  kd_title :: string

record server_dto =
  sd_id :: string
  sd_name :: "string option"
  sd_address :: string

record client_dto =
  cd_id :: string
  cd_slug :: string
  cd_title :: string
  cd_description :: string
  cd_short_description :: string
  cd_available :: bool
  cd_minecraft_version :: "string option"
  cd_forge_version :: "string option"
  cd_fabric_version :: "string option"
  cd_runtime_version :: "string option"
  cd_bundle_slug :: "string option"
  cd_background :: "media_dto option"
  cd_poster :: "media_dto option"
  cd_title_image :: "media_dto option"
  cd_screenshots :: "media_dto list"
  cd_keywords :: "keyword_dto list"
  cd_servers :: "server_dto list"
  cd_bundle :: "bundle_summary option"

text \<open>
  \<^verbatim>\<open>CatalogQuery::from_query\<close> on the pairs \<^verbatim>\<open>form_urlencoded\<close> yields: the last \<^verbatim>\<open>locale\<close> wins, an
  empty one reads as absent.
\<close>

definition from_query :: "(string \<times> string) list \<Rightarrow> string option" where
  "from_query pairs =
     fold (\<lambda>(key, value) locale.
       if key = ''locale'' then (if value = [] then None else Some value) else locale) pairs None"

definition unwrap_or :: "'a \<Rightarrow> 'a option \<Rightarrow> 'a" where
  "unwrap_or d x = (case x of None \<Rightarrow> d | Some v \<Rightarrow> v)"

section \<open>Assembling\<close>

definition id_hex :: "host \<Rightarrow> uuid \<Rightarrow> string" where
  "id_hex h x = ho_uuid_simple h x"

definition media_document :: "media \<Rightarrow> media_dto" where
  "media_document row = \<lparr>md_url = me_url row, md_width = me_width row, md_height = me_height row\<rparr>"

definition first :: "'a list \<Rightarrow> 'a option" where
  "first xs = (case xs of [] \<Rightarrow> None | x # _ \<Rightarrow> Some x)"

definition or_else :: "'a option \<Rightarrow> 'a option \<Rightarrow> 'a option" where
  "or_else x y = (case x of None \<Rightarrow> y | Some v \<Rightarrow> Some v)"

definition pick_locale :: "(string \<times> 'a) list \<Rightarrow> string \<Rightarrow> 'a option" where
  "pick_locale rows requested =
     map_option snd
       (or_else (sql_find (\<lambda>(l, _). l = requested) rows)
         (or_else (sql_find (\<lambda>(l, _). l = DEFAULT_LOCALE) rows) (first rows)))"

definition resolve_client_locale ::
  "(string \<times> client_locale) list \<Rightarrow> string \<Rightarrow> string \<times> string option \<times> string option" where
  "resolve_client_locale rows requested =
     (case pick_locale rows requested of
        Some row \<Rightarrow> (lo_title row, lo_description row, lo_short_description row)
      | None \<Rightarrow> ([], None, None))"

record media_slots =
  sl_background :: "media_dto option"
  sl_poster :: "media_dto option"
  sl_title_image :: "media_dto option"
  sl_screenshots :: "media_dto list"

definition no_slots :: media_slots where
  "no_slots = \<lparr>sl_background = None, sl_poster = None, sl_title_image = None, sl_screenshots = []\<rparr>"

definition put_media :: "media \<Rightarrow> media_slots \<Rightarrow> media_slots" where
  "put_media row m =
     (if me_role row = ''background'' \<and> sl_background m = None
      then m\<lparr>sl_background := Some (media_document row)\<rparr>
      else if me_role row = ''poster'' \<and> sl_poster m = None
      then m\<lparr>sl_poster := Some (media_document row)\<rparr>
      else if me_role row = ''titleImage'' \<and> sl_title_image m = None
      then m\<lparr>sl_title_image := Some (media_document row)\<rparr>
      else if me_role row = ''screenshot''
      then m\<lparr>sl_screenshots := sl_screenshots m @ [media_document row]\<rparr>
      else m)"

definition assemble_media :: "media list \<Rightarrow> media_slots" where
  "assemble_media rows = fold put_media rows no_slots"

text \<open>\<^verbatim>\<open>map.entry(k).or_default().push(v)\<close> for every row, in order; \<open>taken\<close> is \<^verbatim>\<open>remove(k).unwrap_or_default()\<close>.\<close>

type_synonym 'a grouping = "uuid \<rightharpoonup> 'a list"

definition push_entry :: "uuid \<Rightarrow> 'a \<Rightarrow> 'a grouping \<Rightarrow> 'a grouping" where
  "push_entry k v m = m(k \<mapsto> unwrap_or [] (m k) @ [v])"

definition group_rows :: "('r \<Rightarrow> uuid) \<Rightarrow> ('r \<Rightarrow> 'a) \<Rightarrow> 'r list \<Rightarrow> 'a grouping" where
  "group_rows key val rows = fold (\<lambda>r. push_entry (key r) (val r)) rows Map.empty"

definition taken :: "'a grouping \<Rightarrow> uuid \<Rightarrow> 'a list" where
  "taken m k = unwrap_or [] (m k)"

record relations =
  rl_locales :: "(string \<times> client_locale) grouping"
  rl_media :: "media grouping"
  rl_keywords :: "keyword_dto grouping"
  rl_servers :: "server_dto grouping"
  rl_bundles :: "uuid \<rightharpoonup> bundle_summary"

definition no_relations :: relations where
  "no_relations = \<lparr>rl_locales = Map.empty, rl_media = Map.empty, rl_keywords = Map.empty,
     rl_servers = Map.empty, rl_bundles = Map.empty\<rparr>"

section \<open>Loading\<close>

text \<open>\<^verbatim>\<open>sort_unstable(); dedup()\<close> before a lookup by \<^verbatim>\<open>ANY\<close>: the set of the ids.\<close>

definition sorted_ids :: "uuid list \<Rightarrow> uuid list" where
  "sorted_ids ids = remdups (order_by (\<le>) ids)"

definition load_keyword_titles :: "store \<Rightarrow> uuid list \<Rightarrow> string \<Rightarrow> (uuid \<rightharpoonup> string)" where
  "load_keyword_titles s ids requested =
     (let keyword_ids = sorted_ids ids;
          grouped = group_rows kl_keyword_id (\<lambda>l. (kl_locale l, kl_title l))
            (filter (\<lambda>l. kl_keyword_id l \<in> set keyword_ids) (keyword_locales s)) in
      fold (\<lambda>x out. out(x \<mapsto> unwrap_or [] (Option.bind (grouped x) (\<lambda>ls. pick_locale ls requested))))
        keyword_ids Map.empty)"

definition bundle_document :: "bundle_row \<Rightarrow> bundle_summary" where
  "bundle_document b =
     \<lparr>bs_slug = bu_slug b, bs_version = bu_version b, bs_status = bu_status b,
      bs_files_count = scast (bu_files_count b),
      bs_manifest_url = ''/api/bundle-registry/builds/'' @ bu_slug b @ ''/manifest''\<rparr>"

definition load_bundles :: "store \<Rightarrow> (uuid \<times> uuid) list \<Rightarrow> (uuid \<rightharpoonup> bundle_summary)" where
  "load_bundles s bundle_links =
     (let bundle_ids = sorted_ids (map snd bundle_links);
          by_bundle = fold (\<lambda>b m. m(bu_id b \<mapsto> b)) (filter (\<lambda>b. bu_id b \<in> set bundle_ids) (bundles s)) Map.empty in
      fold (\<lambda>(client_id, bundle_id) out.
          (case by_bundle bundle_id of Some b \<Rightarrow> out(client_id \<mapsto> bundle_document b) | None \<Rightarrow> out))
        bundle_links Map.empty)"

text \<open>The published targets linked to a set of clients, in the order of the statement.\<close>

definition by_client :: "(link \<times> 'r) \<Rightarrow> (link \<times> 'r) \<Rightarrow> ('r \<Rightarrow> timestamp) \<Rightarrow> bool" where
  "by_client x y created =
     (let (l, r) = x; (m, q) = y in
      ln_client_id l < ln_client_id m
      \<or> ln_client_id l = ln_client_id m
        \<and> (ln_sort_order l < ln_sort_order m \<or> ln_sort_order l = ln_sort_order m \<and> created r \<le> created q))"

definition linked ::
  "('r \<Rightarrow> uuid) \<Rightarrow> ('r \<Rightarrow> timestamp option) \<Rightarrow> ('r \<Rightarrow> timestamp) \<Rightarrow> 'r list \<Rightarrow> link list \<Rightarrow> uuid list
    \<Rightarrow> (link \<times> 'r) list" where
  "linked key published created rows links client_ids =
     order_by (\<lambda>x y. by_client x y created)
       (filter (\<lambda>(l, r). ln_target_id l = key r \<and> ln_client_id l \<in> set client_ids \<and> published r \<noteq> None)
         (concat (map (\<lambda>r. map (\<lambda>l. (l, r)) links) rows)))"

definition media_le :: "media \<Rightarrow> media \<Rightarrow> bool" where
  "media_le a b \<longleftrightarrow> me_sort_order a < me_sort_order b
     \<or> me_sort_order a = me_sort_order b \<and> me_created_at a \<le> me_created_at b"

definition server_document :: "host \<Rightarrow> server \<Rightarrow> server_dto" where
  "server_document h r = \<lparr>sd_id = id_hex h (sv_id r), sd_name = sv_name r, sd_address = sv_address r\<rparr>"

definition load_client_relations ::
  "host \<Rightarrow> store \<Rightarrow> uuid list \<Rightarrow> (uuid \<times> uuid) list \<Rightarrow> string \<Rightarrow> relations" where
  "load_client_relations h s client_ids bundle_links locale =
     (if client_ids = [] then no_relations
      else
        let keyword_rows = linked kw_id kw_published_at kw_created_at (keyword_rows s) (client_keywords s) client_ids;
            keyword_titles = load_keyword_titles s (map (kw_id \<circ> snd) keyword_rows) locale in
        \<lparr>rl_locales = group_rows lo_client_id (\<lambda>l. (lo_locale l, l))
           (filter (\<lambda>l. lo_client_id l \<in> set client_ids) (client_locales s)),
         rl_media = group_rows me_client_id (\<lambda>r. r)
           (order_by (\<lambda>a b. me_client_id a < me_client_id b \<or> me_client_id a = me_client_id b \<and> media_le a b)
             (filter (\<lambda>r. me_client_id r \<in> set client_ids) (media_rows s))),
         rl_keywords = group_rows (ln_client_id \<circ> fst)
           (\<lambda>(_, k). \<lparr>kd_id = id_hex h (kw_id k), kd_title = unwrap_or [] (keyword_titles (kw_id k))\<rparr>) keyword_rows,
         rl_servers = group_rows (ln_client_id \<circ> fst) (\<lambda>(_, r). server_document h r)
           (linked sv_id sv_published_at sv_created_at (servers s) (client_servers s) client_ids),
         rl_bundles = load_bundles s bundle_links\<rparr>)"

definition client_document ::
  "host \<Rightarrow> client \<Rightarrow> (string \<times> client_locale) list \<Rightarrow> media list \<Rightarrow> keyword_dto list \<Rightarrow> server_dto list
    \<Rightarrow> bundle_summary option \<Rightarrow> string \<Rightarrow> client_dto" where
  "client_document h row locale_rows media keywords_of servers_of bundle_of locale =
     (let (title, description, short_description) = resolve_client_locale locale_rows locale;
          m = assemble_media media in
      \<lparr>cd_id = id_hex h (cl_id row), cd_slug = cl_slug row, cd_title = title,
       cd_description = unwrap_or [] description, cd_short_description = unwrap_or [] short_description,
       cd_available = cl_available row, cd_minecraft_version = cl_minecraft_version row,
       cd_forge_version = cl_forge_version row, cd_fabric_version = cl_fabric_version row,
       cd_runtime_version = cl_runtime_version row, cd_bundle_slug = map_option bs_slug bundle_of,
       cd_background = sl_background m, cd_poster = sl_poster m, cd_title_image = sl_title_image m,
       cd_screenshots = sl_screenshots m, cd_keywords = keywords_of, cd_servers = servers_of,
       cd_bundle = bundle_of\<rparr>)"

text \<open>What a client is assembled from leaves the maps.\<close>

definition assemble_client_dto :: "host \<Rightarrow> client \<Rightarrow> string \<Rightarrow> relations \<Rightarrow> client_dto \<times> relations" where
  "assemble_client_dto h row locale rel =
     (client_document h row (taken (rl_locales rel) (cl_id row)) (taken (rl_media rel) (cl_id row))
        (taken (rl_keywords rel) (cl_id row)) (taken (rl_servers rel) (cl_id row)) (rl_bundles rel (cl_id row)) locale,
      rel\<lparr>rl_locales := (rl_locales rel)(cl_id row := None), rl_media := (rl_media rel)(cl_id row := None),
          rl_keywords := (rl_keywords rel)(cl_id row := None), rl_servers := (rl_servers rel)(cl_id row := None),
          rl_bundles := (rl_bundles rel)(cl_id row := None)\<rparr>)"

fun assemble_all :: "host \<Rightarrow> string \<Rightarrow> client list \<Rightarrow> relations \<Rightarrow> client_dto list" where
  "assemble_all h locale [] rel = []"
| "assemble_all h locale (row # rows) rel =
     (let (dto, rel') = assemble_client_dto h row locale rel in dto # assemble_all h locale rows rel')"

definition links_of :: "client list \<Rightarrow> (uuid \<times> uuid) list" where
  "links_of rows = concat (map (\<lambda>r. (case cl_bundle_id r of None \<Rightarrow> [] | Some b \<Rightarrow> [(cl_id r, b)])) rows)"

definition documents :: "host \<Rightarrow> store \<Rightarrow> client list \<Rightarrow> string option \<Rightarrow> client_dto list" where
  "documents h s rows query =
     (let locale = unwrap_or DEFAULT_LOCALE query in
      assemble_all h locale rows
        (load_client_relations h s (map cl_id rows) (links_of rows) locale))"

definition client_le :: "client \<Rightarrow> client \<Rightarrow> bool" where
  "client_le a b \<longleftrightarrow> cl_sort_order a < cl_sort_order b
     \<or> cl_sort_order a = cl_sort_order b \<and> cl_created_at a \<le> cl_created_at b"

definition list_clients :: "host \<Rightarrow> store \<Rightarrow> string option \<Rightarrow> client_dto list" where
  "list_clients h s query =
     documents h s (order_by client_le (filter (\<lambda>c. cl_published_at c \<noteq> None) (clients s))) query"

text \<open>All clients, each with its \<^verbatim>\<open>published\<close> flag.\<close>

definition list_clients_admin :: "host \<Rightarrow> store \<Rightarrow> string option \<Rightarrow> (client_dto \<times> bool) list" where
  "list_clients_admin h s query =
     (let rows = order_by client_le (clients s) in
      zip (documents h s rows query) (map (\<lambda>c. cl_published_at c \<noteq> None) rows))"

text \<open>\<^verbatim>\<open>WHERE published AND (id = $1 OR slug = $2) ORDER BY (id = $1) DESC LIMIT 1\<close>\<close>

definition load_published_by_ident ::
  "host \<Rightarrow> ('r \<Rightarrow> uuid) \<Rightarrow> ('r \<Rightarrow> string) \<Rightarrow> ('r \<Rightarrow> timestamp option) \<Rightarrow> 'r list \<Rightarrow> string \<Rightarrow> 'r option" where
  "load_published_by_ident h key slug_of published rows ident =
     (let by_id = (\<lambda>r. ho_parse_uuid h ident = Some (key r)) in
      first (order_by (\<lambda>a b. by_id b \<longrightarrow> by_id a)
        (filter (\<lambda>r. published r \<noteq> None \<and> (by_id r \<or> slug_of r = ident)) rows)))"

definition load_client :: "host \<Rightarrow> store \<Rightarrow> string \<Rightarrow> string option \<Rightarrow> client_dto option" where
  "load_client h s ident query =
     (case load_published_by_ident h cl_id cl_slug cl_published_at (clients s) ident of
        None \<Rightarrow> None
      | Some row \<Rightarrow> first (documents h s [row] query))"

definition list_keywords :: "host \<Rightarrow> store \<Rightarrow> string \<Rightarrow> keyword_dto list" where
  "list_keywords h s locale =
     (let ids = map kw_id (order_by (\<lambda>a b. kw_created_at a \<le> kw_created_at b)
            (filter (\<lambda>k. kw_published_at k \<noteq> None) (keyword_rows s)));
          titles = load_keyword_titles s ids locale in
      map (\<lambda>x. \<lparr>kd_id = id_hex h x, kd_title = unwrap_or [] (titles x)\<rparr>) ids)"

definition load_keyword :: "host \<Rightarrow> store \<Rightarrow> string \<Rightarrow> string \<Rightarrow> keyword_dto option" where
  "load_keyword h s ident locale =
     map_option (\<lambda>row. \<lparr>kd_id = id_hex h (kw_id row),
         kd_title = unwrap_or [] (load_keyword_titles s [kw_id row] locale (kw_id row))\<rparr>)
       (load_published_by_ident h kw_id kw_slug kw_published_at (keyword_rows s) ident)"

definition list_servers :: "host \<Rightarrow> store \<Rightarrow> server_dto list" where
  "list_servers h s =
     map (server_document h) (order_by (\<lambda>a b. sv_created_at a \<le> sv_created_at b)
       (filter (\<lambda>r. sv_published_at r \<noteq> None) (servers s)))"

definition load_server :: "host \<Rightarrow> store \<Rightarrow> string \<Rightarrow> server_dto option" where
  "load_server h s ident =
     map_option (server_document h)
       (load_published_by_ident h sv_id sv_slug sv_published_at (servers s) ident)"

section \<open>Handlers\<close>

definition get_client :: "host \<Rightarrow> store \<Rightarrow> string \<Rightarrow> string option \<Rightarrow> client_dto app_result" where
  "get_client h s ident query = ok_or (NotFound ''client not found'') (load_client h s ident query)"

definition get_keyword :: "host \<Rightarrow> store \<Rightarrow> string \<Rightarrow> string option \<Rightarrow> keyword_dto app_result" where
  "get_keyword h s ident query =
     ok_or (NotFound ''keyword not found'') (load_keyword h s ident (unwrap_or DEFAULT_LOCALE query))"

definition get_server :: "host \<Rightarrow> store \<Rightarrow> string \<Rightarrow> server_dto app_result" where
  "get_server h s ident = ok_or (NotFound ''server not found'') (load_server h s ident)"

section \<open>Ordering and grouping\<close>

definition total_le :: "('a \<Rightarrow> 'a \<Rightarrow> bool) \<Rightarrow> bool" where
  "total_le le \<longleftrightarrow> (\<forall>x y. le x y \<or> le y x) \<and> (\<forall>x y z. le x y \<longrightarrow> le y z \<longrightarrow> le x z)"

lemma sorted_insert_by:
  assumes "total_le le" "sorted_wrt le ys"
  shows "sorted_wrt le (insert_by le x ys)"
  using assms(2) by (induction ys) (use assms(1) in \<open>auto simp: total_le_def\<close>)

lemma sorted_order_by: "total_le le \<Longrightarrow> sorted_wrt le (order_by le xs)"
  by (induction xs) (auto intro: sorted_insert_by)

lemma insert_by_first: "\<forall>y\<in>set ys. le x y \<Longrightarrow> insert_by le x ys = x # ys"
  by (cases ys) auto

lemma filter_insert_by:
  assumes "total_le le" "sorted_wrt le ys"
  shows "filter p (insert_by le x ys) = (if p x then insert_by le x (filter p ys) else filter p ys)"
  using assms(2)
proof (induction ys)
  case (Cons y ys)
  have "\<forall>z\<in>set (filter p (y # ys)). le x z" if "le x y"
    using that Cons.prems assms(1) by (auto simp: total_le_def)
  then show ?case
    using Cons insert_by_first [of "filter p (y # ys)" le x] by (auto split: if_splits)
qed simp

lemma filter_order_by: "total_le le \<Longrightarrow> filter p (order_by le xs) = order_by le (filter p xs)"
  by (induction xs) (auto simp: filter_insert_by sorted_order_by)

lemma insert_by_cong: "(\<And>y. y \<in> set ys \<Longrightarrow> le x y = le' x y) \<Longrightarrow> insert_by le x ys = insert_by le' x ys"
  by (induction ys) auto

lemma order_by_cong:
  assumes "\<And>x y. x \<in> set xs \<Longrightarrow> y \<in> set xs \<Longrightarrow> le x y = le' x y"
  shows "order_by le xs = order_by le' xs"
  using assms
proof (induction xs)
  case (Cons x xs)
  then have "order_by le xs = order_by le' xs" by simp
  moreover have "insert_by le x (order_by le' xs) = insert_by le' x (order_by le' xs)"
    using Cons.prems by (intro insert_by_cong) simp
  ultimately show ?case by simp
qed simp

text \<open>A map built by pushing holds, per key, the rows of that key in their order.\<close>

lemma fold_push_entry:
  "unwrap_or [] (fold (\<lambda>r. push_entry (key r) (val r)) rows m k) =
     unwrap_or [] (m k) @ map val (filter (\<lambda>r. key r = k) rows)"
  by (induction rows arbitrary: m) (auto simp: push_entry_def unwrap_or_def)

lemma taken_group_rows [simp]: "taken (group_rows key val rows) k = map val (filter (\<lambda>r. key r = k) rows)"
  unfolding taken_def group_rows_def fold_push_entry by (simp add: unwrap_or_def)

lemma unwrap_or_Some [simp]: "unwrap_or d (Some x) = x"
  by (simp add: unwrap_or_def)

lemma pick_locale_Nil [simp]: "pick_locale [] requested = None"
  by (simp add: pick_locale_def or_else_def sql_find_def first_def)

lemma group_rows_lookup:
  "Option.bind (group_rows key val rows k) (\<lambda>xs. pick_locale xs requested) =
     pick_locale (map val (filter (\<lambda>r. key r = k) rows)) requested"
  using taken_group_rows [of key val rows k]
  by (cases "group_rows key val rows k") (auto simp: taken_def unwrap_or_def)

lemma fold_update: "fold (\<lambda>x out. out(x \<mapsto> f x)) xs m k = (if k \<in> set xs then Some (f k) else m k)"
  by (induction xs arbitrary: m) auto

section \<open>The reference: every client on its own\<close>

definition title_of :: "store \<Rightarrow> string \<Rightarrow> uuid \<Rightarrow> string" where
  "title_of s locale k =
     unwrap_or [] (pick_locale (map (\<lambda>l. (kl_locale l, kl_title l))
       (filter (\<lambda>l. kl_keyword_id l = k) (keyword_locales s))) locale)"

definition linked_le :: "('r \<Rightarrow> timestamp) \<Rightarrow> link \<times> 'r \<Rightarrow> link \<times> 'r \<Rightarrow> bool" where
  "linked_le created x y \<longleftrightarrow> ln_sort_order (fst x) < ln_sort_order (fst y)
     \<or> ln_sort_order (fst x) = ln_sort_order (fst y) \<and> created (snd x) \<le> created (snd y)"

definition linked_to ::
  "('r \<Rightarrow> uuid) \<Rightarrow> ('r \<Rightarrow> timestamp option) \<Rightarrow> ('r \<Rightarrow> timestamp) \<Rightarrow> 'r list \<Rightarrow> link list \<Rightarrow> uuid \<Rightarrow> 'r list" where
  "linked_to key published created rows links c =
     map snd (order_by (linked_le created)
       (filter (\<lambda>(l, r). ln_target_id l = key r \<and> ln_client_id l = c \<and> published r \<noteq> None)
         (concat (map (\<lambda>r. map (\<lambda>l. (l, r)) links) rows))))"

definition client_view :: "host \<Rightarrow> store \<Rightarrow> string \<Rightarrow> client \<Rightarrow> client_dto" where
  "client_view h s locale c =
     client_document h c
       (map (\<lambda>l. (lo_locale l, l)) (filter (\<lambda>l. lo_client_id l = cl_id c) (client_locales s)))
       (order_by media_le (filter (\<lambda>m. me_client_id m = cl_id c) (media_rows s)))
       (map (\<lambda>k. \<lparr>kd_id = id_hex h (kw_id k), kd_title = title_of s locale (kw_id k)\<rparr>)
         (linked_to kw_id kw_published_at kw_created_at (keyword_rows s) (client_keywords s) (cl_id c)))
       (map (server_document h)
         (linked_to sv_id sv_published_at sv_created_at (servers s) (client_servers s) (cl_id c)))
       (Option.bind (cl_bundle_id c) (\<lambda>b. map_option bundle_document (sql_find (\<lambda>r. bu_id r = b) (bundles s))))
       locale"

lemma total_by_client: "total_le (\<lambda>x y. by_client x y created)"
  unfolding total_le_def by_client_def Let_def by (auto split: prod.splits)

lemma linked_filter:
  assumes "c \<in> set client_ids"
  shows "map snd (filter (\<lambda>x. ln_client_id (fst x) = c) (linked key published created rows links client_ids)) =
    linked_to key published created rows links c"
proof -
  let ?pairs = "concat (map (\<lambda>r. map (\<lambda>l. (l, r)) links) rows)"
  let ?mine = "filter (\<lambda>(l, r). ln_target_id l = key r \<and> ln_client_id l = c \<and> published r \<noteq> None) ?pairs"
  have mine: "filter (\<lambda>x. ln_client_id (fst x) = c)
      (filter (\<lambda>(l, r). ln_target_id l = key r \<and> ln_client_id l \<in> set client_ids \<and> published r \<noteq> None) ?pairs) = ?mine"
    unfolding filter_filter by (rule filter_cong) (use assms in auto)
  have same: "order_by (\<lambda>x y. by_client x y created) ?mine = order_by (linked_le created) ?mine"
  proof (rule order_by_cong)
    fix x y assume "x \<in> set ?mine" "y \<in> set ?mine"
    then have "ln_client_id (fst x) = c" "ln_client_id (fst y) = c" by (auto split: prod.splits)
    then show "by_client x y created = linked_le created x y"
      by (simp add: by_client_def linked_le_def case_prod_unfold)
  qed
  show ?thesis unfolding linked_def linked_to_def filter_order_by [OF total_by_client] mine same ..
qed

lemma keyword_titles:
  assumes "k \<in> set ids"
  shows "load_keyword_titles s ids locale k = Some (title_of s locale k)"
proof -
  have k: "k \<in> set (sorted_ids ids)" using assms by (simp add: sorted_ids_def)
  then have "filter (\<lambda>l. kl_keyword_id l = k) (filter (\<lambda>l. kl_keyword_id l \<in> set (sorted_ids ids)) (keyword_locales s))
      = filter (\<lambda>l. kl_keyword_id l = k) (keyword_locales s)"
    unfolding filter_filter by (intro filter_cong) auto
  with k show ?thesis
    by (simp add: load_keyword_titles_def Let_def fold_update group_rows_lookup title_of_def)
qed

lemma fold_by_id:
  assumes "distinct (map key rows)"
  shows "fold (\<lambda>b m. m(key b \<mapsto> b)) rows m k =
    (case sql_find (\<lambda>b. key b = k) rows of Some b \<Rightarrow> Some b | None \<Rightarrow> m k)"
  using assms
proof (induction rows arbitrary: m)
  case (Cons r rows)
  have "sql_find (\<lambda>b. key b = key r) rows = None"
    using Cons.prems by (simp add: sql_find_None_iff) (metis imageI)
  with Cons show ?case by (auto simp: sql_find_def split: option.split)
qed (simp add: sql_find_def)

lemma sql_find_filter:
  "(\<And>b. p b \<Longrightarrow> q b) \<Longrightarrow> sql_find p (filter q rows) = sql_find p rows"
  by (induction rows) (auto simp: sql_find_def)

lemma fold_links:
  assumes "distinct (map fst links)"
  shows "fold (\<lambda>(c, b) out. (case look b of Some r \<Rightarrow> out(c \<mapsto> g r) | None \<Rightarrow> out)) links m k =
    (case map_of links k of None \<Rightarrow> m k | Some b \<Rightarrow> (case look b of Some r \<Rightarrow> Some (g r) | None \<Rightarrow> m k))"
  using assms
proof (induction links arbitrary: m)
  case (Cons x links)
  obtain c b where x: "x = (c, b)" by fastforce
  have "map_of links c = None" using Cons.prems x by (simp add: map_of_eq_None_iff)
  with Cons x show ?case by (auto split: option.split)
qed simp

lemma map_of_links: "distinct (map cl_id rows) \<Longrightarrow> c \<in> set rows \<Longrightarrow> map_of (links_of rows) (cl_id c) = cl_bundle_id c"
  "set (map fst (links_of rows)) \<subseteq> set (map cl_id rows)"
  "distinct (map cl_id rows) \<Longrightarrow> distinct (map fst (links_of rows))"
proof -
  show sub: "set (map fst (links_of rows)) \<subseteq> set (map cl_id rows)" for rows
    by (auto simp: links_of_def split: option.splits)
  show "distinct (map cl_id rows) \<Longrightarrow> distinct (map fst (links_of rows))"
  proof (induction rows)
    case (Cons r rows)
    with sub [of rows] show ?case by (auto simp: links_of_def split: option.split)
  qed (simp add: links_of_def)
  show "distinct (map cl_id rows) \<Longrightarrow> c \<in> set rows \<Longrightarrow> map_of (links_of rows) (cl_id c) = cl_bundle_id c"
  proof (induction rows)
    case (Cons r rows)
    have none: "map_of (links_of rows) (cl_id r) = None"
      using sub [of rows] Cons.prems(1) by (auto simp: map_of_eq_None_iff)
    have step: "links_of (r # rows) = (case cl_bundle_id r of None \<Rightarrow> [] | Some b \<Rightarrow> [(cl_id r, b)]) @ links_of rows"
      by (simp add: links_of_def)
    show ?case
    proof (cases "c = r")
      case True
      with none show ?thesis by (simp add: step split: option.split)
    next
      case False
      with Cons.prems(2) have c: "c \<in> set rows" by simp
      with Cons.prems(1) have "cl_id c \<noteq> cl_id r" by simp (metis imageI)
      with Cons step c show ?thesis by (auto split: option.split)
    qed
  qed simp
qed

lemma loaded_bundle:
  assumes "distinct (map bu_id (bundles s))" "distinct (map cl_id rows)" "c \<in> set rows"
  shows "load_bundles s (links_of rows) (cl_id c) =
    Option.bind (cl_bundle_id c) (\<lambda>b. map_option bundle_document (sql_find (\<lambda>r. bu_id r = b) (bundles s)))"
proof -
  let ?ids = "set (sorted_ids (map snd (links_of rows)))"
  have link: "map_of (links_of rows) (cl_id c) = cl_bundle_id c" by (rule map_of_links(1) [OF assms(2,3)])
  have fetched: "fold (\<lambda>b m. m(bu_id b \<mapsto> b)) (filter (\<lambda>b. bu_id b \<in> ?ids) (bundles s)) Map.empty b
      = sql_find (\<lambda>r. bu_id r = b) (bundles s)" if "cl_bundle_id c = Some b" for b
  proof -
    have "(cl_id c, b) \<in> set (links_of rows)" using link that by (auto dest: map_of_SomeD)
    then have "b \<in> ?ids" by (force simp: sorted_ids_def)
    then have "sql_find (\<lambda>r. bu_id r = b) (filter (\<lambda>b. bu_id b \<in> ?ids) (bundles s)) = sql_find (\<lambda>r. bu_id r = b) (bundles s)"
      by (intro sql_find_filter) simp
    moreover have "distinct (map bu_id (filter (\<lambda>b. bu_id b \<in> ?ids) (bundles s)))"
      using assms(1) by (rule distinct_map_filter)
    ultimately show ?thesis by (simp add: fold_by_id split: option.split)
  qed
  show ?thesis
    using fetched link
    by (simp add: load_bundles_def Let_def fold_links [OF map_of_links(3) [OF assms(2)]] split: option.split)
qed

lemma assemble_all_documents:
  "distinct (map cl_id rows) \<Longrightarrow> assemble_all h locale rows rel =
     map (\<lambda>c. client_document h c (taken (rl_locales rel) (cl_id c)) (taken (rl_media rel) (cl_id c))
       (taken (rl_keywords rel) (cl_id c)) (taken (rl_servers rel) (cl_id c)) (rl_bundles rel (cl_id c)) locale) rows"
proof (induction rows arbitrary: rel)
  case (Cons r rows)
  have "cl_id c \<noteq> cl_id r" if "c \<in> set rows" for c
    using that Cons.prems by simp (metis imageI)
  with Cons show ?case by (simp add: assemble_client_dto_def Let_def taken_def cong: map_cong)
qed simp

text \<open>What one client finds in the maps of a batch that includes it.\<close>

lemma loaded_locales:
  assumes "x \<in> set ids"
  shows "taken (rl_locales (load_client_relations h s ids links locale)) x =
    map (\<lambda>l. (lo_locale l, l)) (filter (\<lambda>l. lo_client_id l = x) (client_locales s))"
proof -
  have "filter (\<lambda>l. lo_client_id l = x) (filter (\<lambda>l. lo_client_id l \<in> set ids) (client_locales s))
      = filter (\<lambda>l. lo_client_id l = x) (client_locales s)"
    unfolding filter_filter by (rule filter_cong) (use assms in auto)
  with assms show ?thesis by (auto simp: load_client_relations_def Let_def simp del: filter_filter)
qed

lemma loaded_media:
  assumes "x \<in> set ids"
  shows "taken (rl_media (load_client_relations h s ids links locale)) x =
    order_by media_le (filter (\<lambda>m. me_client_id m = x) (media_rows s))"
proof -
  let ?le = "\<lambda>a b. me_client_id a < me_client_id b \<or> me_client_id a = me_client_id b \<and> media_le a b"
  have "total_le ?le" unfolding total_le_def media_le_def by auto
  note sorted = filter_order_by [OF this]
  have "filter (\<lambda>m. me_client_id m = x) (filter (\<lambda>r. me_client_id r \<in> set ids) (media_rows s))
      = filter (\<lambda>m. me_client_id m = x) (media_rows s)"
    unfolding filter_filter by (rule filter_cong) (use assms in auto)
  moreover have "order_by ?le (filter (\<lambda>m. me_client_id m = x) (media_rows s))
      = order_by media_le (filter (\<lambda>m. me_client_id m = x) (media_rows s))"
    by (rule order_by_cong) simp
  moreover have "ids \<noteq> []" using assms by auto
  ultimately show ?thesis by (simp add: load_client_relations_def Let_def sorted)
qed

lemma loaded_keywords:
  assumes "x \<in> set ids"
  shows "taken (rl_keywords (load_client_relations h s ids links locale)) x =
    map (\<lambda>k. \<lparr>kd_id = id_hex h (kw_id k), kd_title = title_of s locale (kw_id k)\<rparr>)
      (linked_to kw_id kw_published_at kw_created_at (keyword_rows s) (client_keywords s) x)"
proof -
  let ?rows = "linked kw_id kw_published_at kw_created_at (keyword_rows s) (client_keywords s) ids"
  let ?mine = "map snd (filter (\<lambda>x'. ln_client_id (fst x') = x) ?rows)"
  have "ids \<noteq> []" using assms by auto
  then have "taken (rl_keywords (load_client_relations h s ids links locale)) x = map (\<lambda>k. \<lparr>kd_id = id_hex h (kw_id k),
      kd_title = unwrap_or [] (load_keyword_titles s (map (kw_id \<circ> snd) ?rows) locale (kw_id k))\<rparr>) ?mine"
    by (simp add: load_client_relations_def Let_def comp_def case_prod_unfold)
  also have "\<dots> = map (\<lambda>k. \<lparr>kd_id = id_hex h (kw_id k), kd_title = title_of s locale (kw_id k)\<rparr>) ?mine"
  proof (rule map_cong [OF refl])
    fix k assume "k \<in> set ?mine"
    then have "kw_id k \<in> set (map (kw_id \<circ> snd) ?rows)" by force
    from keyword_titles [OF this]
    show "\<lparr>kd_id = id_hex h (kw_id k),
        kd_title = unwrap_or [] (load_keyword_titles s (map (kw_id \<circ> snd) ?rows) locale (kw_id k))\<rparr>
      = \<lparr>kd_id = id_hex h (kw_id k), kd_title = title_of s locale (kw_id k)\<rparr>"
      by (simp only: unwrap_or_Some)
  qed
  finally show ?thesis unfolding linked_filter [OF assms] .
qed

lemma loaded_servers:
  assumes "x \<in> set ids"
  shows "taken (rl_servers (load_client_relations h s ids links locale)) x =
    map (server_document h) (linked_to sv_id sv_published_at sv_created_at (servers s) (client_servers s) x)"
proof -
  have "ids \<noteq> []" using assms by auto
  with linked_filter [OF assms, of sv_id sv_published_at sv_created_at "servers s" "client_servers s", symmetric]
  show ?thesis by (simp add: load_client_relations_def Let_def comp_def case_prod_unfold)
qed

text \<open>
  C27. Batch loading is invisible: the documents of a set of clients, built from one statement per
  table and grouped in memory, are those of every client assembled on its own, in the same order:
  each in the requested locale or its fallback, with its media, published keywords and servers in
  their stored order and the summary of its bundle.
\<close>

theorem documents_eq_views:
  assumes "distinct (map cl_id rows)" "distinct (map bu_id (bundles s))"
  shows "documents h s rows query = map (client_view h s (unwrap_or DEFAULT_LOCALE query)) rows"
proof (cases "rows = []")
  case False
  let ?lang = "unwrap_or DEFAULT_LOCALE query" and ?ids = "map cl_id rows"
  let ?rel = "load_client_relations h s ?ids (links_of rows) ?lang"
  have "client_document h c (taken (rl_locales ?rel) (cl_id c)) (taken (rl_media ?rel) (cl_id c))
       (taken (rl_keywords ?rel) (cl_id c)) (taken (rl_servers ?rel) (cl_id c)) (rl_bundles ?rel (cl_id c)) ?lang
     = client_view h s ?lang c" if c: "c \<in> set rows" for c
  proof -
    have mem: "cl_id c \<in> set ?ids" using c by simp
    have "rl_bundles ?rel (cl_id c) =
        Option.bind (cl_bundle_id c) (\<lambda>b. map_option bundle_document (sql_find (\<lambda>r. bu_id r = b) (bundles s)))"
      using False loaded_bundle [OF assms(2,1) c] by (simp add: load_client_relations_def Let_def)
    then show ?thesis
      unfolding client_view_def loaded_locales [OF mem] loaded_media [OF mem] loaded_keywords [OF mem]
        loaded_servers [OF mem] by simp
  qed
  then show ?thesis
    unfolding documents_def Let_def assemble_all_documents [OF assms(1)] by (intro map_cong) auto
qed (simp add: documents_def)

text \<open>Two clients launched from one bundle, the first with a French title, a poster and a server.\<close>

definition demo_client :: "nat \<Rightarrow> string \<Rightarrow> client" where
  "demo_client n slug =
     \<lparr>cl_id = of_nat n, cl_slug = slug, cl_available = True, cl_minecraft_version = Some ''1.21'',
      cl_forge_version = None, cl_fabric_version = None, cl_runtime_version = None,
      cl_bundle_slug = Some ''b'', cl_bundle_id = Some (bu_id demo_bundle), cl_sort_order = 0,
      cl_published_at = Some 1, cl_created_at = 0, cl_updated_at = 0\<rparr>"

definition demo_locale :: "nat \<Rightarrow> string \<Rightarrow> string \<Rightarrow> client_locale" where
  "demo_locale n l title =
     \<lparr>lo_client_id = of_nat n, lo_locale = l, lo_title = title, lo_description = None, lo_short_description = None\<rparr>"

definition demo_catalog :: store where
  "demo_catalog = demo_store
     \<lparr>clients := [demo_client 1 ''one'', demo_client 2 ''two''],
      client_locales := [demo_locale 1 ''en'' ''One'', demo_locale 1 ''fr'' ''Un'', demo_locale 2 ''en'' ''Two''],
      media_rows := [\<lparr>me_id = 7, me_client_id = 1, me_role = ''poster'', me_url = ''/catalog-media/x/poster-r.png'',
        me_ext = ''png'', me_mime = ''image/png'', me_width = Some 4, me_height = Some 4, me_size = 9,
        me_sort_order = 0, me_created_at = 0\<rparr>],
      servers := [\<lparr>sv_id = 8, sv_slug = ''hub'', sv_name = None, sv_address = ''play'',
        sv_published_at = Some 1, sv_created_at = 0, sv_updated_at = 0\<rparr>],
      client_servers := [\<lparr>ln_client_id = 1, ln_target_id = 8, ln_sort_order = 0\<rparr>]\<rparr>"

lemma documents_eq_views_witness:
  "map cd_title (documents (demo_host demo_archive) demo_catalog (clients demo_catalog) (Some ''fr'')) = [''Un'', ''Two'']
   \<and> map (map sd_address \<circ> cd_servers)
       (documents (demo_host demo_archive) demo_catalog (clients demo_catalog) (Some ''fr'')) = [[''play''], []]"
proof -
  have "distinct (map cl_id (clients demo_catalog))" "distinct (map bu_id (bundles demo_catalog))" by code_simp+
  note view = documents_eq_views [OF this, of "demo_host demo_archive" "Some ''fr''"]
  have "map cd_title (map (client_view (demo_host demo_archive) demo_catalog (unwrap_or DEFAULT_LOCALE (Some ''fr'')))
      (clients demo_catalog)) = [''Un'', ''Two'']" by code_simp
  moreover have "map (map sd_address \<circ> cd_servers)
      (map (client_view (demo_host demo_archive) demo_catalog (unwrap_or DEFAULT_LOCALE (Some ''fr'')))
      (clients demo_catalog)) = [[''play''], []]" by code_simp
  ultimately show ?thesis unfolding view by blast
qed

end
