(* ===== verification/Catalog_Admin.thy ===== *)
theory Catalog_Admin
  imports Catalog_Read
begin

text \<open>
  \<^verbatim>\<open>catalog/src/admin.rs\<close>, \<^verbatim>\<open>catalog/src/storage.rs\<close> and \<^verbatim>\<open>serve_media\<close>: what administrators do to
  clients, keywords, servers and media. The statements of a transaction work on the store they are
  handed; a transaction that fails leaves the tables as they were. Directories are created and
  removed after the commit.
\<close>

section \<open>Requests\<close>

record locale_input =
  li_locale :: string
  li_title :: string
  li_description :: "string option"
  li_short_description :: "string option"

text \<open>\<open>uc_bundle_slug\<close> is \<^verbatim>\<open>None\<close> when the field is absent, \<^verbatim>\<open>Some None\<close> when it is null.\<close>

record upsert_client =
  uc_slug :: string
  uc_available :: bool
  uc_minecraft_version :: "string option"
  uc_forge_version :: "string option"
  uc_fabric_version :: "string option"
  uc_runtime_version :: "string option"
  uc_bundle_slug :: "string option option"
  uc_sort_order :: "int option"
  uc_publish :: "bool option"
  uc_locales :: "locale_input list"
  uc_replace_locales :: bool
  uc_delete_orphaned_bundle :: bool

definition try_next :: "'a app_result \<Rightarrow> ('a \<Rightarrow> 'b app_result) \<Rightarrow> 'b app_result" where
  "try_next r f = (case r of Inl e \<Rightarrow> Inl e | Inr x \<Rightarrow> f x)"

section \<open>Clients\<close>

definition client_row :: "env \<Rightarrow> uuid \<Rightarrow> upsert_client \<Rightarrow> client" where
  "client_row env x body =
     \<lparr>cl_id = x, cl_slug = uc_slug body, cl_available = uc_available body,
      cl_minecraft_version = uc_minecraft_version body, cl_forge_version = uc_forge_version body,
      cl_fabric_version = uc_fabric_version body, cl_runtime_version = uc_runtime_version body,
      cl_bundle_slug = None, cl_bundle_id = None, cl_sort_order = unwrap_or 0 (uc_sort_order body),
      cl_published_at = (if uc_publish body = Some True then Some (e_now env) else None),
      cl_created_at = e_now env, cl_updated_at = e_now env\<rparr>"

definition insert_client :: "client \<Rightarrow> store \<Rightarrow> db_error + store" where
  "insert_client r s =
     (case first_violation
         [(unique_violation always cl_id r (clients s), UniqueViolation ''catalog_clients_pkey''),
          (unique_violation always cl_slug r (clients s), UniqueViolation ''catalog_clients_slug_key'')] of
        Some e \<Rightarrow> Inl e
      | None \<Rightarrow> Inr (s\<lparr>clients := clients s @ [r]\<rparr>))"

definition conflict_as :: "string \<Rightarrow> db_error + 'a \<Rightarrow> 'a app_result" where
  "conflict_as entity r = (case r of Inl e \<Rightarrow> Inl (slug_conflict entity e) | Inr v \<Rightarrow> Inr v)"

text \<open>\<^verbatim>\<open>INSERT ... ON CONFLICT (client_id, locale) DO UPDATE\<close>\<close>

definition upsert_client_locale :: "uuid \<Rightarrow> locale_input \<Rightarrow> store \<Rightarrow> db_error + store" where
  "upsert_client_locale x l s =
     (let here = (\<lambda>r. lo_client_id r = x \<and> lo_locale r = li_locale l) in
      if sql_exists here (client_locales s)
      then Inr (s\<lparr>client_locales := sql_update here
             (\<lambda>r. r\<lparr>lo_title := li_title l, lo_description := li_description l,
                    lo_short_description := li_short_description l\<rparr>) (client_locales s)\<rparr>)
      else if x \<notin> set (map cl_id (clients s))
      then Inl (ForeignKeyViolation ''catalog_client_locales_client_id_fkey'')
      else Inr (s\<lparr>client_locales := client_locales s @
             [\<lparr>lo_client_id = x, lo_locale = li_locale l, lo_title = li_title l,
               lo_description = li_description l, lo_short_description = li_short_description l\<rparr>]\<rparr>))"

definition write_client_locales :: "uuid \<Rightarrow> locale_input list \<Rightarrow> store \<Rightarrow> store app_result" where
  "write_client_locales x ls s = as_database (try_all (upsert_client_locale x) ls s)"

definition requested_bundle_slug :: "upsert_client \<Rightarrow> string option" where
  "requested_bundle_slug body =
     (case uc_bundle_slug body of
        Some (Some t) \<Rightarrow> if trim t = [] then None else Some (trim t)
      | _ \<Rightarrow> None)"

text \<open>The linked bundle, whether its row was provisioned, and the store; \<open>k\<close> numbers the key drawn.\<close>

definition link_owned_bundle ::
  "env \<Rightarrow> nat \<Rightarrow> uuid \<Rightarrow> string \<Rightarrow> locale_input list \<Rightarrow> store \<Rightarrow> (uuid \<times> bool \<times> store) app_result" where
  "link_owned_bundle env k client_id effective_slug ls s =
     try_next
       (case find_bundle_id_by_slug s effective_slug of
          Some existing \<Rightarrow> Inr (existing, False, s)
        | None \<Rightarrow>
            try_next (provision_bundle_row env k effective_slug
                (case first ls of Some l \<Rightarrow> li_title l | None \<Rightarrow> effective_slug) s)
              (\<lambda>(x, s'). Inr (x, True, s')))
       (\<lambda>(bundle_id, provisioned, s1). Inr (bundle_id, provisioned,
          s1\<lparr>clients := sql_update (\<lambda>c. cl_id c = client_id)
            (\<lambda>c. c\<lparr>cl_bundle_id := Some bundle_id, cl_bundle_slug := Some effective_slug\<rparr>) (clients s1)\<rparr>))"

definition create_client_tx :: "env \<Rightarrow> upsert_client \<Rightarrow> store \<Rightarrow> ((uuid \<times> string \<times> bool) \<times> store) app_result" where
  "create_client_tx env body s =
     (let x = e_uuid env 0; owned_slug = unwrap_or (trim (uc_slug body)) (requested_bundle_slug body) in
      try_next (conflict_as ''client'' (insert_client (client_row env x body) s))
        (\<lambda>s1. try_next (write_client_locales x (uc_locales body) s1)
          (\<lambda>s2. try_next (link_owned_bundle env 1 x owned_slug (uc_locales body) s2)
            (\<lambda>(_, provisioned, s3). Inr ((x, owned_slug, provisioned), s3)))))"

definition create_client :: "host \<Rightarrow> upsert_client \<Rightarrow> (uuid \<times> string) store_handler" where
  "create_client h body s =
     (case create_client_tx (ho_env h) body s of
        Inl e \<Rightarrow> (Inl e, s)
      | Inr ((x, effective_slug, provisioned), s1) \<Rightarrow>
          if provisioned
          then (case ensure_bundle_dir h effective_slug s1 of
                  (Inl e, s2) \<Rightarrow> (Inl e, s2) | (Inr _, s2) \<Rightarrow> (Inr (x, effective_slug), s2))
          else (Inr (x, effective_slug), s1))"

definition replaced_client :: "env \<Rightarrow> upsert_client \<Rightarrow> client \<Rightarrow> client" where
  "replaced_client env body c = c
     \<lparr>cl_slug := uc_slug body, cl_available := uc_available body,
      cl_minecraft_version := uc_minecraft_version body, cl_forge_version := uc_forge_version body,
      cl_fabric_version := uc_fabric_version body, cl_runtime_version := uc_runtime_version body,
      cl_sort_order := unwrap_or (cl_sort_order c) (uc_sort_order body), cl_updated_at := e_now env\<rparr>"

text \<open>\<^verbatim>\<open>UPDATE catalog_clients SET slug = $2, ... WHERE id = $1\<close>; another row may hold the slug.\<close>

definition update_client_row :: "env \<Rightarrow> uuid \<Rightarrow> upsert_client \<Rightarrow> store \<Rightarrow> db_error + store" where
  "update_client_row env x body s =
     (if sql_exists (\<lambda>c. cl_id c = x) (clients s)
         \<and> sql_exists (\<lambda>c. cl_id c \<noteq> x \<and> cl_slug c = uc_slug body) (clients s)
      then Inl (UniqueViolation ''catalog_clients_slug_key'')
      else Inr (s\<lparr>clients := sql_update (\<lambda>c. cl_id c = x) (replaced_client env body) (clients s)\<rparr>))"

definition drop_other_locales :: "uuid \<Rightarrow> locale_input list \<Rightarrow> store \<Rightarrow> store" where
  "drop_other_locales x ls s = s\<lparr>client_locales :=
     sql_delete (\<lambda>r. lo_client_id r = x \<and> lo_locale r \<notin> set (map li_locale ls)) (client_locales s)\<rparr>"

definition resolve_owned_bundle_slug :: "upsert_client \<Rightarrow> uuid option \<Rightarrow> store \<Rightarrow> string" where
  "resolve_owned_bundle_slug body old_bundle_id s =
     (case requested_bundle_slug body of
        Some explicit \<Rightarrow> explicit
      | None \<Rightarrow>
          let client_slug = trim (uc_slug body) in
          if uc_bundle_slug body \<noteq> None then client_slug
          else
            (case old_bundle_id of
               Some old \<Rightarrow> unwrap_or client_slug (bundle_slug_by_id s old)
             | None \<Rightarrow> client_slug))"

datatype stranded = Deleted string | Kept string | NotStranded

definition strand_old_bundle :: "uuid \<Rightarrow> bool \<Rightarrow> store \<Rightarrow> stranded \<times> store" where
  "strand_old_bundle old delete_orphaned s =
     (if sql_affected (\<lambda>c. cl_bundle_id c = Some old) (clients s) > 0 then (NotStranded, s)
      else
        (case bundle_slug_by_id s old of
           None \<Rightarrow> (NotStranded, s)
         | Some slug \<Rightarrow>
             if delete_orphaned \<or> count_artifacts s old = 0
             then (Deleted slug, delete_bundle_row old s)
             else (Kept slug, s)))"

definition update_client_tx ::
  "env \<Rightarrow> uuid \<Rightarrow> upsert_client \<Rightarrow> store \<Rightarrow> ((stranded \<times> string \<times> bool) \<times> store) app_result" where
  "update_client_tx env x body s =
     (case sql_find (\<lambda>c. cl_id c = x) (clients s) of
        None \<Rightarrow> Inl (NotFound ''client not found'')
      | Some c \<Rightarrow>
          try_next (conflict_as ''client'' (update_client_row env x body s))
            (\<lambda>s1. try_next (write_client_locales x (uc_locales body) s1)
              (\<lambda>s2.
                let s3 = (if uc_replace_locales body then drop_other_locales x (uc_locales body) s2 else s2);
                    owned_slug = resolve_owned_bundle_slug body (cl_bundle_id c) s3 in
                try_next (link_owned_bundle env 0 x owned_slug (uc_locales body) s3)
                  (\<lambda>(new_bundle_id, provisioned, s4).
                     let (st, s5) = (case cl_bundle_id c of
                            Some old \<Rightarrow> if old \<noteq> new_bundle_id
                              then strand_old_bundle old (uc_delete_orphaned_bundle body) s4
                              else (NotStranded, s4)
                          | None \<Rightarrow> (NotStranded, s4)) in
                     Inr ((st, owned_slug, provisioned), s5)))))"

definition after_stranding :: "host \<Rightarrow> stranded \<Rightarrow> store \<Rightarrow> string option \<times> store" where
  "after_stranding h st s =
     (case st of
        Deleted slug \<Rightarrow> (None, remove_bundle_dir h slug s)
      | Kept slug \<Rightarrow> (Some slug, s)
      | NotStranded \<Rightarrow> (None, s))"

definition update_client :: "host \<Rightarrow> uuid \<Rightarrow> upsert_client \<Rightarrow> (uuid \<times> string option) store_handler" where
  "update_client h x body s =
     (case update_client_tx (ho_env h) x body s of
        Inl e \<Rightarrow> (Inl e, s)
      | Inr ((st, effective_slug, provisioned), s1) \<Rightarrow>
          (case (if provisioned then ensure_bundle_dir h effective_slug s1 else (Inr (), s1)) of
             (Inl e, s2) \<Rightarrow> (Inl e, s2)
           | (Inr _, s2) \<Rightarrow>
               let (orphaned, s3) = after_stranding h st s2 in (Inr (x, orphaned), s3)))"

text \<open>\<^verbatim>\<open>DELETE FROM catalog_clients\<close> with its cascades.\<close>

definition delete_client_row :: "uuid \<Rightarrow> store \<Rightarrow> store" where
  "delete_client_row x s = s
     \<lparr>clients := sql_delete (\<lambda>c. cl_id c = x) (clients s),
      client_locales := sql_delete (\<lambda>r. lo_client_id r = x) (client_locales s),
      media_rows := sql_delete (\<lambda>m. me_client_id m = x) (media_rows s),
      client_keywords := sql_delete (\<lambda>l. ln_client_id l = x) (client_keywords s),
      client_servers := sql_delete (\<lambda>l. ln_client_id l = x) (client_servers s)\<rparr>"

definition client_media_dir :: "host \<Rightarrow> uuid \<Rightarrow> path" where
  "client_media_dir h x = lc_catalog_root (ho_cfg h) @ [ho_uuid_simple h x]"

definition delete_client :: "host \<Rightarrow> uuid \<Rightarrow> unit store_handler" where
  "delete_client h x s =
     (case sql_find (\<lambda>c. cl_id c = x) (clients s) of
        None \<Rightarrow> (Inl (NotFound ''client not found''), s)
      | Some c \<Rightarrow>
          let s1 = delete_client_row x s;
              (slug, s2) = (case cl_bundle_id c of
                 Some b \<Rightarrow> (bundle_slug_by_id s1 b, delete_bundle_row b s1)
               | None \<Rightarrow> (None, s1));
              s3 = (case slug of Some t \<Rightarrow> remove_bundle_dir h t s2 | None \<Rightarrow> s2) in
          (Inr (), s3\<lparr>disk := snd (remove_dir_all (ho_io h) (client_media_dir h x) (disk s3))\<rparr>))"

section \<open>Publishing\<close>

datatype publishable = Clients | Keywords | Servers

definition entity :: "publishable \<Rightarrow> string" where
  "entity t = (case t of Clients \<Rightarrow> ''client'' | Keywords \<Rightarrow> ''keyword'' | Servers \<Rightarrow> ''server'')"

definition set_published :: "env \<Rightarrow> publishable \<Rightarrow> uuid \<Rightarrow> bool \<Rightarrow> store \<Rightarrow> (uuid \<times> bool) app_result \<times> store" where
  "set_published env t x published s =
     (let stamp = (if published then Some (e_now env) else None);
          (affected, s') = (case t of
             Clients \<Rightarrow> (sql_affected (\<lambda>c. cl_id c = x) (clients s),
               s\<lparr>clients := sql_update (\<lambda>c. cl_id c = x)
                 (\<lambda>c. c\<lparr>cl_published_at := stamp, cl_updated_at := e_now env\<rparr>) (clients s)\<rparr>)
           | Keywords \<Rightarrow> (sql_affected (\<lambda>k. kw_id k = x) (keyword_rows s),
               s\<lparr>keyword_rows := sql_update (\<lambda>k. kw_id k = x)
                 (\<lambda>k. k\<lparr>kw_published_at := stamp, kw_updated_at := e_now env\<rparr>) (keyword_rows s)\<rparr>)
           | Servers \<Rightarrow> (sql_affected (\<lambda>r. sv_id r = x) (servers s),
               s\<lparr>servers := sql_update (\<lambda>r. sv_id r = x)
                 (\<lambda>r. r\<lparr>sv_published_at := stamp, sv_updated_at := e_now env\<rparr>) (servers s)\<rparr>)) in
      (case found affected (entity t) of
         Inl e \<Rightarrow> (Inl e, s')
       | Inr _ \<Rightarrow> (Inr (x, published), s')))"

section \<open>Stored files\<close>

text \<open>\<^verbatim>\<open>core/src/storage.rs\<close>. The revision is drawn from the generator; the file is buffered under a cap.\<close>

definition revision_hex :: "env \<Rightarrow> string" where
  "revision_hex env = e_hex env (e_random env 0)"

definition write_file :: "io \<Rightarrow> path \<Rightarrow> string \<Rightarrow> fs \<Rightarrow> (io_error + unit) \<times> fs" where
  "write_file io p bytes fs =
     (case create_dir_all io (butlast p) fs of
        (Inl e, fs') \<Rightarrow> (Inl e, fs')
      | (Inr _, fs') \<Rightarrow> write_path io p bytes fs')"

definition unlink_quiet :: "io \<Rightarrow> path \<Rightarrow> fs \<Rightarrow> fs" where
  "unlink_quiet io p fs = snd (remove_file io p fs)"

fun read_capped :: "nat \<Rightarrow> string \<Rightarrow> (string + string) list \<Rightarrow> string app_result" where
  "read_capped max_bytes buf [] = Inr buf"
| "read_capped max_bytes buf (Inl msg # cs) = Inl (BadRequest (''reading file: '' @ msg))"
| "read_capped max_bytes buf (Inr chunk # cs) =
     (if length buf + length chunk > max_bytes
      then Inl (BadRequest (''file is too large (max '' @ decimal max_bytes @ '' bytes)''))
      else read_capped max_bytes (buf @ chunk) cs)"

fun read_capped_upload ::
  "nat \<Rightarrow> string \<Rightarrow> string option \<times> string option \<Rightarrow> multipart
    \<Rightarrow> (string option \<times> string option) app_result" where
  "read_capped_upload max_bytes text_field acc [] = Inr acc"
| "read_capped_upload max_bytes text_field acc (Inl msg # form) =
     Inl (BadRequest (''malformed multipart: '' @ msg))"
| "read_capped_upload max_bytes text_field acc (Inr f # form) =
     (if uf_name f = Some ''file''
      then (case read_capped max_bytes [] (uf_chunks f) of
              Inl e \<Rightarrow> Inl e
            | Inr buf \<Rightarrow> read_capped_upload max_bytes text_field (Some buf, snd acc) form)
      else if uf_name f = Some text_field
      then (case field_text (uf_chunks f) of
              Inl msg \<Rightarrow> Inl (BadRequest (''reading '' @ text_field @ '': '' @ msg))
            | Inr value \<Rightarrow> read_capped_upload max_bytes text_field
                (fst acc, if trim value = [] then snd acc else Some (trim value)) form)
      else read_capped_upload max_bytes text_field acc form)"

definition media_disk_path :: "path \<Rightarrow> string \<Rightarrow> string \<Rightarrow> string \<Rightarrow> string \<Rightarrow> path" where
  "media_disk_path root client_id role revision ext =
     root @ [client_id, role @ ''-'' @ revision @ ''.'' @ ext]"

definition media_public_url :: "string \<Rightarrow> string \<Rightarrow> string \<Rightarrow> string \<Rightarrow> string" where
  "media_public_url client_id role revision ext =
     ''/catalog-media/'' @ client_id @ ''/'' @ role @ ''-'' @ revision @ ''.'' @ ext"

text \<open>\<^verbatim>\<open>url_to_disk_path\<close>: \<^verbatim>\<open>join\<close> adds the non-empty segments; an absolute rest would replace the root.\<close>

definition url_to_disk_path :: "path \<Rightarrow> string \<Rightarrow> path option" where
  "url_to_disk_path root url =
     (case strip_prefix ''/catalog-media/'' url of
        None \<Rightarrow> None
      | Some rel \<Rightarrow>
          if rel = [] \<or> sublist ''..'' rel then None
          else
            Some ((if starts_with [slash] rel then [] else root)
              @ filter (\<lambda>t. t \<noteq> [] \<and> t \<noteq> ''.'') (split_on slash rel)))"

section \<open>Media\<close>

definition MAX_MEDIA_UPLOAD_BYTES :: nat where
  "MAX_MEDIA_UPLOAD_BYTES = 32 * 1024 * 1024"

definition MEDIA_ROLES :: "string list" where
  "MEDIA_ROLES = [''poster'', ''background'', ''titleImage'', ''screenshot'']"

definition SINGULAR_ROLES :: "string list" where
  "SINGULAR_ROLES = [''poster'', ''background'', ''titleImage'']"

definition require_client :: "uuid \<Rightarrow> store \<Rightarrow> unit app_result" where
  "require_client x s =
     (if sql_exists (\<lambda>c. cl_id c = x) (clients s) then Inr () else Inl (NotFound ''client not found''))"

definition bytes_of :: "string \<Rightarrow> byte list" where
  "bytes_of s = map of_char s"

text \<open>Extension and media type.\<close>

definition sniff_image :: "byte list \<Rightarrow> (string \<times> string) option" where
  "sniff_image bytes =
     (if prefix [0x89, 0x50, 0x4E, 0x47] bytes then Some (''png'', ''image/png'')
      else if prefix [0xFF, 0xD8, 0xFF] bytes then Some (''jpg'', ''image/jpeg'')
      else if length bytes \<ge> 12 \<and> slice 0 4 bytes = bytes_of ''RIFF'' \<and> slice 8 12 bytes = bytes_of ''WEBP''
      then Some (''webp'', ''image/webp'')
      else if prefix (bytes_of ''GIF8'') bytes then Some (''gif'', ''image/gif'')
      else None)"

definition png_dimensions :: "byte list \<Rightarrow> 32 word option \<times> 32 word option" where
  "png_dimensions bytes =
     (case parse_png_header bytes of Inr (width, height) \<Rightarrow> (Some width, Some height) | Inl _ \<Rightarrow> (None, None))"

text \<open>The role and the bytes of an upload.\<close>

definition media_upload :: "multipart \<Rightarrow> (string \<times> string \<times> string \<times> string) app_result" where
  "media_upload form =
     (case read_capped_upload MAX_MEDIA_UPLOAD_BYTES ''role'' (None, None) form of
        Inl e \<Rightarrow> Inl e
      | Inr (file, role) \<Rightarrow>
          (case role of
             None \<Rightarrow> Inl (BadRequest ''missing role field'')
           | Some role \<Rightarrow>
               if role \<notin> set MEDIA_ROLES
               then Inl (BadRequest (''invalid media role '' @ [CHR 0x27] @ role @ [CHR 0x27]))
               else
                 (case file of
                    None \<Rightarrow> Inl (BadRequest ''missing file field'')
                  | Some bytes \<Rightarrow>
                      (case sniff_image (bytes_of bytes) of
                         None \<Rightarrow> Inl (BadRequest (''unsupported image type '' @ em_dash
                           @ '' use PNG, JPG, WebP, or GIF''))
                       | Some (ext, mime) \<Rightarrow> Inr (role, bytes, ext, mime)))))"

definition media_row :: "env \<Rightarrow> uuid \<Rightarrow> string \<Rightarrow> string \<Rightarrow> string \<Rightarrow> string \<Rightarrow> string \<Rightarrow> media" where
  "media_row env client_id role url ext mime bytes =
     (let (width, height) = png_dimensions (bytes_of bytes) in
      \<lparr>me_id = e_uuid env 0, me_client_id = client_id, me_role = role, me_url = url, me_ext = ext, me_mime = mime,
       me_width = width, me_height = height, me_size = sint (of_nat (length bytes) :: 32 word),
       me_sort_order = 0, me_created_at = e_now env\<rparr>)"

definition insert_media :: "media \<Rightarrow> store \<Rightarrow> db_error + store" where
  "insert_media r s =
     (case first_violation
         [(unique_violation always me_id r (media_rows s), UniqueViolation ''catalog_media_pkey''),
          (me_client_id r \<notin> set (map cl_id (clients s)), ForeignKeyViolation ''catalog_media_client_id_fkey'')] of
        Some e \<Rightarrow> Inl e
      | None \<Rightarrow> Inr (s\<lparr>media_rows := media_rows s @ [r]\<rparr>))"

text \<open>The rows of a singular role go, and their files with them, before the insert is known to succeed.\<close>

definition clear_role :: "host \<Rightarrow> uuid \<Rightarrow> string \<Rightarrow> store \<Rightarrow> store" where
  "clear_role h client_id role s =
     (if role \<in> set SINGULAR_ROLES
      then
        let old = filter (\<lambda>m. me_client_id m = client_id \<and> me_role m = role) (media_rows s) in
        s\<lparr>media_rows := sql_delete (\<lambda>m. me_client_id m = client_id \<and> me_role m = role) (media_rows s),
          disk := fold (\<lambda>m fs. (case url_to_disk_path (lc_catalog_root (ho_cfg h)) (me_url m) of
             Some p \<Rightarrow> unlink_quiet (ho_io h) p fs | None \<Rightarrow> fs)) old (disk s)\<rparr>
      else s)"

definition upload_media :: "host \<Rightarrow> uuid \<Rightarrow> multipart \<Rightarrow> (uuid \<times> string) store_handler" where
  "upload_media h client_id form =
     and_then (ask (require_client client_id))
       (\<lambda>_. and_then (ask (\<lambda>_. media_upload form))
         (\<lambda>(role, bytes, ext, mime).
            let client_hex = ho_uuid_simple h client_id; revision = revision_hex (ho_env h);
                p = media_disk_path (lc_catalog_root (ho_cfg h)) client_hex role revision ext;
                url = media_public_url client_hex role revision ext;
                row = media_row (ho_env h) client_id role url ext mime bytes in
            and_then (on_disk h ''write catalog media'' (write_file (ho_io h) p bytes))
              (\<lambda>_. in_transaction (\<lambda>s.
                 let s1 = clear_role h client_id role s in
                 (case insert_media row s1 of
                    Inl e \<Rightarrow> (Inl (Database e), s1)
                  | Inr s2 \<Rightarrow> (Inr (me_id row, url), s2))))))"

definition list_media :: "store \<Rightarrow> uuid \<Rightarrow> media list app_result" where
  "list_media s client_id =
     (case require_client client_id s of
        Inl e \<Rightarrow> Inl e
      | Inr _ \<Rightarrow> Inr (order_by media_le (filter (\<lambda>m. me_client_id m = client_id) (media_rows s))))"

definition delete_media :: "host \<Rightarrow> uuid \<Rightarrow> uuid \<Rightarrow> unit store_handler" where
  "delete_media h client_id media_id s =
     (let mine = (\<lambda>m. me_id m = media_id \<and> me_client_id m = client_id) in
      (case sql_find mine (media_rows s) of
         None \<Rightarrow> (Inl (NotFound ''media not found''), s)
       | Some m \<Rightarrow>
           let s1 = s\<lparr>media_rows := sql_delete mine (media_rows s)\<rparr> in
           (Inr (), (case url_to_disk_path (lc_catalog_root (ho_cfg h)) (me_url m) of
              Some p \<Rightarrow> s1\<lparr>disk := unlink_quiet (ho_io h) p (disk s1)\<rparr> | None \<Rightarrow> s1))))"

definition media_content_type :: "string \<Rightarrow> string" where
  "media_content_type p =
     (let ext = to_ascii_lowercase (last (split_on (CHR ''.'') p)) in
      if ext = ''png'' then ''image/png''
      else if ext = ''jpg'' \<or> ext = ''jpeg'' then ''image/jpeg''
      else if ext = ''webp'' then ''image/webp''
      else if ext = ''gif'' then ''image/gif''
      else ''application/octet-stream'')"

text \<open>\<^verbatim>\<open>serve_media\<close>: bytes and type of a stored file; every failure is the same 404.\<close>

definition no_media :: app_error where
  "no_media = NotFound ''media not found''"

definition serve_media :: "host \<Rightarrow> store \<Rightarrow> string \<Rightarrow> string \<Rightarrow> (string \<times> string) app_result" where
  "serve_media h s client_id rel =
     (if client_id = [] \<or> slash \<in> set client_id \<or> sublist ''..'' client_id then Inl no_media
      else if rel = [] \<or> sublist ''..'' rel then Inl no_media
      else
        let plain = (\<lambda>t. filter (\<lambda>x. x \<noteq> [] \<and> x \<noteq> ''.'') (split_on slash t));
            root = lc_catalog_root (ho_cfg h) @ plain client_id;
            target = (if starts_with [slash] rel then plain rel else root @ plain rel) in
        if \<not> path_exists (disk s) root \<or> \<not> path_exists (disk s) target \<or> \<not> prefix root target then Inl no_media
        else
          (case read_path (ho_io h) target (disk s) of
             Inl e \<Rightarrow> Inl no_media
           | Inr bytes \<Rightarrow> Inr (bytes, media_content_type rel)))"

section \<open>Keywords and servers\<close>

definition upsert_keyword_locale :: "uuid \<Rightarrow> string \<times> string \<Rightarrow> store \<Rightarrow> db_error + store" where
  "upsert_keyword_locale x lt s =
     (let (l, t) = lt; here = (\<lambda>r. kl_keyword_id r = x \<and> kl_locale r = l) in
      if sql_exists here (keyword_locales s)
      then Inr (s\<lparr>keyword_locales := sql_update here (\<lambda>r. r\<lparr>kl_title := t\<rparr>) (keyword_locales s)\<rparr>)
      else if x \<notin> set (map kw_id (keyword_rows s))
      then Inl (ForeignKeyViolation ''catalog_keyword_locales_keyword_id_fkey'')
      else Inr (s\<lparr>keyword_locales := keyword_locales s
             @ [\<lparr>kl_keyword_id = x, kl_locale = l, kl_title = t\<rparr>]\<rparr>))"

definition insert_keyword :: "keyword \<Rightarrow> store \<Rightarrow> db_error + store" where
  "insert_keyword r s =
     (case first_violation
         [(unique_violation always kw_id r (keyword_rows s), UniqueViolation ''catalog_keywords_pkey''),
          (unique_violation always kw_slug r (keyword_rows s), UniqueViolation ''catalog_keywords_slug_key'')] of
        Some e \<Rightarrow> Inl e
      | None \<Rightarrow> Inr (s\<lparr>keyword_rows := keyword_rows s @ [r]\<rparr>))"

definition create_keyword :: "env \<Rightarrow> string \<Rightarrow> (string \<times> string) list \<Rightarrow> uuid store_handler" where
  "create_keyword env slug ls s =
     (let x = e_uuid env 0;
          row = \<lparr>kw_id = x, kw_slug = slug, kw_published_at = Some (e_now env),
                 kw_created_at = e_now env, kw_updated_at = e_now env\<rparr> in
      (case try_next (conflict_as ''keyword'' (insert_keyword row s))
              (\<lambda>s1. as_database (try_all (upsert_keyword_locale x) ls s1)) of
         Inl e \<Rightarrow> (Inl e, s)
       | Inr s' \<Rightarrow> (Inr x, s')))"

definition deleted_if_found :: "nat \<Rightarrow> string \<Rightarrow> store \<Rightarrow> unit app_result \<times> store" where
  "deleted_if_found affected what s' = (found affected what, s')"

definition delete_keyword :: "uuid \<Rightarrow> unit store_handler" where
  "delete_keyword x s =
     deleted_if_found (sql_affected (\<lambda>k. kw_id k = x) (keyword_rows s)) ''keyword''
       (s\<lparr>keyword_rows := sql_delete (\<lambda>k. kw_id k = x) (keyword_rows s),
          keyword_locales := sql_delete (\<lambda>l. kl_keyword_id l = x) (keyword_locales s),
          client_keywords := sql_delete (\<lambda>l. ln_target_id l = x) (client_keywords s)\<rparr>)"

definition insert_server :: "server \<Rightarrow> store \<Rightarrow> db_error + store" where
  "insert_server r s =
     (case first_violation
         [(unique_violation always sv_id r (servers s), UniqueViolation ''catalog_servers_pkey''),
          (unique_violation always sv_slug r (servers s), UniqueViolation ''catalog_servers_slug_key'')] of
        Some e \<Rightarrow> Inl e
      | None \<Rightarrow> Inr (s\<lparr>servers := servers s @ [r]\<rparr>))"

definition create_server :: "env \<Rightarrow> string \<Rightarrow> string option \<Rightarrow> string \<Rightarrow> uuid store_handler" where
  "create_server env slug name address s =
     (let row = \<lparr>sv_id = e_uuid env 0, sv_slug = slug, sv_name = name, sv_address = address,
            sv_published_at = Some (e_now env), sv_created_at = e_now env, sv_updated_at = e_now env\<rparr> in
      (case conflict_as ''server'' (insert_server row s) of
         Inl e \<Rightarrow> (Inl e, s)
       | Inr s' \<Rightarrow> (Inr (sv_id row), s')))"

definition update_server :: "env \<Rightarrow> uuid \<Rightarrow> string \<Rightarrow> string option \<Rightarrow> string \<Rightarrow> uuid store_handler" where
  "update_server env x slug name address s =
     (if sql_exists (\<lambda>r. sv_id r = x) (servers s)
         \<and> sql_exists (\<lambda>r. sv_id r \<noteq> x \<and> sv_slug r = slug) (servers s)
      then (Inl (slug_conflict ''server'' (UniqueViolation ''catalog_servers_slug_key'')), s)
      else
        let s' = s\<lparr>servers := sql_update (\<lambda>r. sv_id r = x)
              (\<lambda>r. r\<lparr>sv_slug := slug, sv_name := name, sv_address := address, sv_updated_at := e_now env\<rparr>)
              (servers s)\<rparr> in
        (case found (sql_affected (\<lambda>r. sv_id r = x) (servers s)) ''server'' of
           Inl e \<Rightarrow> (Inl e, s')
         | Inr _ \<Rightarrow> (Inr x, s')))"

definition delete_server :: "uuid \<Rightarrow> unit store_handler" where
  "delete_server x s =
     deleted_if_found (sql_affected (\<lambda>r. sv_id r = x) (servers s)) ''server''
       (s\<lparr>servers := sql_delete (\<lambda>r. sv_id r = x) (servers s),
          client_servers := sql_delete (\<lambda>l. ln_target_id l = x) (client_servers s)\<rparr>)"

text \<open>\<^verbatim>\<open>INSERT ... ON CONFLICT DO NOTHING\<close> into a link table.\<close>

definition attach :: "uuid list \<Rightarrow> uuid list \<Rightarrow> uuid \<Rightarrow> uuid \<Rightarrow> link list \<Rightarrow> link list app_result" where
  "attach client_ids target_ids client_id target_id links =
     (if sql_exists (\<lambda>l. ln_client_id l = client_id \<and> ln_target_id l = target_id) links then Inr links
      else if client_id \<notin> set client_ids \<or> target_id \<notin> set target_ids
      then Inl (NotFound ''client, keyword, or server not found'')
      else Inr (links @ [\<lparr>ln_client_id = client_id, ln_target_id = target_id, ln_sort_order = 0\<rparr>]))"

definition detach :: "uuid \<Rightarrow> uuid \<Rightarrow> link list \<Rightarrow> link list" where
  "detach client_id target_id links =
     sql_delete (\<lambda>l. ln_client_id l = client_id \<and> ln_target_id l = target_id) links"

definition attach_keyword :: "uuid \<Rightarrow> uuid \<Rightarrow> unit store_handler" where
  "attach_keyword client_id keyword_id =
     commit (\<lambda>s. try_next (attach (map cl_id (clients s)) (map kw_id (keyword_rows s)) client_id keyword_id
         (client_keywords s)) (\<lambda>links. Inr (s\<lparr>client_keywords := links\<rparr>)))"

definition attach_server :: "uuid \<Rightarrow> uuid \<Rightarrow> unit store_handler" where
  "attach_server client_id server_id =
     commit (\<lambda>s. try_next (attach (map cl_id (clients s)) (map sv_id (servers s)) client_id server_id
         (client_servers s)) (\<lambda>links. Inr (s\<lparr>client_servers := links\<rparr>)))"

definition detach_keyword :: "uuid \<Rightarrow> uuid \<Rightarrow> unit store_handler" where
  "detach_keyword client_id keyword_id s =
     (Inr (), s\<lparr>client_keywords := detach client_id keyword_id (client_keywords s)\<rparr>)"

definition detach_server :: "uuid \<Rightarrow> uuid \<Rightarrow> unit store_handler" where
  "detach_server client_id server_id s =
     (Inr (), s\<lparr>client_servers := detach client_id server_id (client_servers s)\<rparr>)"

end
