(* ===== verification/Catalog_Safety.thy ===== *)
theory Catalog_Safety
  imports Catalog_Admin
begin

text \<open>
  What the administration of the catalog preserves: the keys, foreign keys and unique indexes of the
  ten tables under every operation, the bundle of a client that is only renamed, and the single
  slot of a singular media role. The last section shows a deletion that takes along the bundle of
  another client.
\<close>

section \<open>Every operation keeps the constraints\<close>

definition tables_wf :: "store \<Rightarrow> bool" where
  "tables_wf s \<longleftrightarrow> bundle_tables_wf s \<and> client_tables_wf s \<and> entry_tables_wf s"

datatype catalog_op =
    CreateClient upsert_client
  | UpdateClient uuid upsert_client
  | DeleteClient uuid
  | SetPublished publishable uuid bool
  | UploadMedia uuid multipart
  | DeleteMedia uuid uuid
  | CreateKeyword string "(string \<times> string) list"
  | DeleteKeyword uuid
  | CreateServer string "string option" string
  | UpdateServer uuid string "string option" string
  | DeleteServer uuid
  | AttachKeyword uuid uuid
  | AttachServer uuid uuid
  | DetachKeyword uuid uuid
  | DetachServer uuid uuid

fun catalog_step :: "host \<Rightarrow> catalog_op \<Rightarrow> store \<Rightarrow> store" where
  "catalog_step h (CreateClient body) s = snd (create_client h body s)"
| "catalog_step h (UpdateClient x body) s = snd (update_client h x body s)"
| "catalog_step h (DeleteClient x) s = snd (delete_client h x s)"
| "catalog_step h (SetPublished t x v) s = snd (set_published (ho_env h) t x v s)"
| "catalog_step h (UploadMedia x form) s = snd (upload_media h x form s)"
| "catalog_step h (DeleteMedia x m) s = snd (delete_media h x m s)"
| "catalog_step h (CreateKeyword slug ls) s = snd (create_keyword (ho_env h) slug ls s)"
| "catalog_step h (DeleteKeyword x) s = snd (delete_keyword x s)"
| "catalog_step h (CreateServer slug name address) s = snd (create_server (ho_env h) slug name address s)"
| "catalog_step h (UpdateServer x slug name address) s = snd (update_server (ho_env h) x slug name address s)"
| "catalog_step h (DeleteServer x) s = snd (delete_server x s)"
| "catalog_step h (AttachKeyword x k) s = snd (attach_keyword x k s)"
| "catalog_step h (AttachServer x r) s = snd (attach_server x r s)"
| "catalog_step h (DetachKeyword x k) s = snd (detach_keyword x k s)"
| "catalog_step h (DetachServer x r) s = snd (detach_server x r s)"

lemma tables_wf_on_other_disk [simp]: "tables_wf (s\<lparr>disk := fs\<rparr>) = tables_wf s"
  by (simp add: tables_wf_def)

lemmas tables_defs = tables_wf_def bundle_tables_wf_def client_tables_wf_def entry_tables_wf_def

lemmas fk_defs = fk_def fk_opt_def list_all_iff

lemma on_disk_tables: "on_disk h what f s = (r, s') \<Longrightarrow> \<exists>fs. s' = s\<lparr>disk := fs\<rparr>"
  by (auto simp: on_disk_def Let_def split: prod.splits)

lemma tables_wf_on_disk: "tables_wf s \<Longrightarrow> tables_wf (snd (on_disk h what f s))"
  using on_disk_tables [of h what f s] by (cases "on_disk h what f s") auto

lemma tables_wf_remove_bundle_dir [simp]: "tables_wf (remove_bundle_dir h slug s) = tables_wf s"
  by (simp add: remove_bundle_dir_def Let_def)

lemma tables_wf_ensure_bundle_dir: "tables_wf s \<Longrightarrow> tables_wf (snd (ensure_bundle_dir h slug s))"
  by (simp add: ensure_bundle_dir_def tables_wf_on_disk)

lemma fk_more [simp]: "fk f ks rs \<Longrightarrow> fk f (ks @ js) rs" "fk_opt g ks rs \<Longrightarrow> fk_opt g (ks @ js) rs"
  by (auto simp: fk_defs)

text \<open>Rows of one table updated without touching a key.\<close>

lemma unique_violation_iff: "unique_violation always k r rs \<longleftrightarrow> k r \<in> k ` set rs"
  by (auto simp: unique_violation_def sql_exists_iff) (metis imageI)

lemma tables_wf_clients_update:
  assumes "tables_wf s" "\<And>c. cl_id (f c) = cl_id c \<and> cl_slug (f c) = cl_slug c \<and> cl_bundle_id (f c) = cl_bundle_id c"
  shows "tables_wf (s\<lparr>clients := sql_update q f (clients s)\<rparr>)"
  using assms by (auto simp: tables_defs map_sql_update intro!: unique_index_update fk_opt_update)

lemma tables_wf_link_bundle:
  assumes "tables_wf s" "b \<in> set (map bu_id (bundles s))"
  shows "tables_wf (s\<lparr>clients := sql_update q (\<lambda>c. c\<lparr>cl_bundle_id := Some b, cl_bundle_slug := t\<rparr>) (clients s)\<rparr>)"
  using assms by (auto simp: tables_defs map_sql_update intro!: unique_index_update fk_opt_update)

lemma tables_wf_keywords_update:
  assumes "tables_wf s" "\<And>c. kw_id (f c) = kw_id c \<and> kw_slug (f c) = kw_slug c"
  shows "tables_wf (s\<lparr>keyword_rows := sql_update q f (keyword_rows s)\<rparr>)"
  using assms by (auto simp: tables_defs map_sql_update intro!: unique_index_update)

lemma tables_wf_servers_update:
  assumes "tables_wf s" "\<And>c. sv_id (f c) = sv_id c \<and> sv_slug (f c) = sv_slug c"
  shows "tables_wf (s\<lparr>servers := sql_update q f (servers s)\<rparr>)"
  using assms by (auto simp: tables_defs map_sql_update intro!: unique_index_update)

lemma tables_wf_delete_bundle_row:
  assumes "tables_wf s"
  shows "tables_wf (delete_bundle_row x s)"
proof -
  have ids: "map cl_id (sql_update (\<lambda>c. cl_bundle_id c = Some x) (\<lambda>c. c\<lparr>cl_bundle_id := None\<rparr>) (clients s))
      = map cl_id (clients s)"
    by (rule map_sql_update) simp
  have "fk_opt cl_bundle_id (map bu_id (sql_delete (\<lambda>b. bu_id b = x) (bundles s)))
      (sql_update (\<lambda>c. cl_bundle_id c = Some x) (\<lambda>c. c\<lparr>cl_bundle_id := None\<rparr>) (clients s))"
    using assms by (fastforce simp: tables_defs fk_defs set_sql_update)
  moreover have "fk ba_bundle_id (map bu_id (sql_delete (\<lambda>b. bu_id b = x) (bundles s)))
      (sql_delete (\<lambda>a. ba_bundle_id a = x) (artifacts s))"
    using assms by (auto simp: tables_defs fk_defs)
  ultimately show ?thesis
    using assms by (auto simp: delete_bundle_row_def tables_defs ids intro!: unique_index_update)
qed

lemma tables_wf_delete_client_row:
  assumes "tables_wf s"
  shows "tables_wf (delete_client_row x s)"
  using assms by (auto simp: delete_client_row_def tables_defs fk_defs)

lemma tables_wf_insert_client:
  assumes "tables_wf s" "insert_client r s = Inr s'" "cl_bundle_id r = None"
  shows "tables_wf s'"
  using assms by (auto simp: insert_client_def tables_defs split: if_splits)

lemma tables_wf_upsert_client_locale:
  assumes "upsert_client_locale x l s = Inr s'" "tables_wf s"
  shows "tables_wf s'"
proof (cases "sql_exists (\<lambda>r. lo_client_id r = x \<and> lo_locale r = li_locale l) (client_locales s)")
  case True
  with assms show ?thesis
    by (auto simp: upsert_client_locale_def Let_def tables_defs intro!: unique_index_update fk_update)
next
  case False
  then have "(x, li_locale l) \<notin> (\<lambda>r. (lo_client_id r, lo_locale r)) ` set (client_locales s)"
    by (auto simp: sql_exists_iff)
  with False assms show ?thesis
    by (auto simp: upsert_client_locale_def Let_def tables_defs unique_violation_iff split: if_splits)
qed

lemma tables_wf_write_client_locales:
  "write_client_locales x ls s = Inr s' \<Longrightarrow> tables_wf s \<Longrightarrow> tables_wf s'"
  unfolding write_client_locales_def as_database_def
  by (auto split: sum.splits intro: try_all_invariant [where P = tables_wf] tables_wf_upsert_client_locale)

lemma tables_wf_update_client_row:
  assumes "update_client_row env x body s = Inr s'" "tables_wf s"
  shows "tables_wf s'"
proof (cases "sql_exists (\<lambda>c. cl_id c = x) (clients s)")
  case True
  let ?cs = "sql_update (\<lambda>c. cl_id c = x) (replaced_client env body) (clients s)"
  have row: "cl_id (replaced_client env body c) = cl_id c \<and> cl_slug (replaced_client env body c) = uc_slug body"
    "cl_bundle_id (replaced_client env body c) = cl_bundle_id c" for c by (simp_all add: replaced_client_def)
  have s': "s' = s\<lparr>clients := ?cs\<rparr>" and free: "\<not> sql_exists (\<lambda>c. cl_id c \<noteq> x \<and> cl_slug c = uc_slug body) (clients s)"
    using assms(1) True by (simp_all add: update_client_row_def split: if_splits)
  have "unique_index always cl_slug ?cs"
    by (rule unique_index_new_value [OF _ _ row(1) free]) (use assms(2) in \<open>simp_all add: tables_defs\<close>)
  moreover have "map cl_id ?cs = map cl_id (clients s)" by (rule map_sql_update) (simp add: row)
  moreover have "unique_index always cl_id ?cs" "fk_opt cl_bundle_id (map bu_id (bundles s)) ?cs"
    using assms(2) by (auto simp: tables_defs row intro!: unique_index_update fk_opt_update)
  ultimately show ?thesis using assms(2) by (simp add: s' tables_defs)
next
  case False
  with assms show ?thesis by (auto simp: update_client_row_def sql_exists_iff sql_update_none)
qed

lemma tables_wf_drop_other_locales [simp]: "tables_wf s \<Longrightarrow> tables_wf (drop_other_locales x ls s)"
  by (simp add: drop_other_locales_def tables_defs)

lemma provision_bundle_row_effect:
  assumes "provision_bundle_row env k slug name s = Inr (x, s')" "tables_wf s"
  shows "tables_wf s'" "x \<in> set (map bu_id (bundles s'))" "s' = s\<lparr>bundles := bundles s @ [draft_bundle env k slug name]\<rparr>"
proof -
  have s': "insert_bundle (draft_bundle env k slug name) s = Inr s'" "x = e_uuid env k"
    using assms(1) by (auto simp: provision_bundle_row_def split: sum.splits if_splits)
  then show eq: "s' = s\<lparr>bundles := bundles s @ [draft_bundle env k slug name]\<rparr>"
    by (auto simp: insert_bundle_def split: if_splits)
  show "tables_wf s'" using s'(1) assms(2) by (auto simp: insert_bundle_def tables_defs split: if_splits)
  show "x \<in> set (map bu_id (bundles s'))" by (simp add: eq s'(2) draft_bundle_def)
qed

lemma tables_wf_link_owned_bundle:
  assumes "link_owned_bundle env k x slug ls s = Inr (b, provisioned, s')" "tables_wf s"
  shows "tables_wf s'"
proof -
  obtain s1 where s1: "tables_wf s1" "b \<in> set (map bu_id (bundles s1))"
    "s' = s1\<lparr>clients := sql_update (\<lambda>c. cl_id c = x)
       (\<lambda>c. c\<lparr>cl_bundle_id := Some b, cl_bundle_slug := Some slug\<rparr>) (clients s1)\<rparr>"
  proof (cases "find_bundle_id_by_slug s slug")
    case None
    with assms(1) obtain t s1 where "provision_bundle_row env k slug t s = Inr (b, s1)"
      "s' = s1\<lparr>clients := sql_update (\<lambda>c. cl_id c = x)
         (\<lambda>c. c\<lparr>cl_bundle_id := Some b, cl_bundle_slug := Some slug\<rparr>) (clients s1)\<rparr>"
      by (auto simp: link_owned_bundle_def try_next_def split: sum.splits prod.splits)
    with that provision_bundle_row_effect(1,2) assms(2) show ?thesis by blast
  next
    case (Some e)
    then have "e \<in> set (map bu_id (bundles s))"
      by (auto simp: find_bundle_id_by_slug_def find_by_slug_def dest: sql_find_SomeD)
    with Some assms that [of s] show ?thesis by (auto simp: link_owned_bundle_def try_next_def)
  qed
  then show ?thesis by (simp add: tables_wf_link_bundle)
qed

lemma try_next_ok: "try_next r f = Inr v \<longleftrightarrow> (\<exists>x. r = Inr x \<and> f x = Inr v)"
  by (cases r) (auto simp: try_next_def)

lemma conflict_as_ok: "conflict_as what r = Inr v \<longleftrightarrow> r = Inr v" "as_database q = Inr w \<longleftrightarrow> q = Inr w"
  by (auto simp: conflict_as_def as_database_def split: sum.split)

lemma tables_wf_create_client_tx:
  assumes "create_client_tx env body s = Inr (v, s')" "tables_wf s"
  shows "tables_wf s'"
proof -
  obtain s1 s2 b p where "insert_client (client_row env (e_uuid env 0) body) s = Inr s1"
    "write_client_locales (e_uuid env 0) (uc_locales body) s1 = Inr s2"
    "link_owned_bundle env 1 (e_uuid env 0) (unwrap_or (trim (uc_slug body)) (requested_bundle_slug body))
       (uc_locales body) s2 = Inr (b, p, s')"
    using assms(1) by (auto simp: create_client_tx_def Let_def try_next_ok conflict_as_ok)
  moreover have "cl_bundle_id (client_row env (e_uuid env 0) body) = None" by (simp add: client_row_def)
  ultimately show ?thesis
    using tables_wf_insert_client tables_wf_write_client_locales tables_wf_link_owned_bundle assms(2) by metis
qed

lemma tables_wf_strand: "tables_wf s \<Longrightarrow> tables_wf (snd (strand_old_bundle old v s))"
  by (auto simp: strand_old_bundle_def tables_wf_delete_bundle_row split: option.split)

text \<open>A successful update, step by step.\<close>

definition updated_by :: "env \<Rightarrow> uuid \<Rightarrow> upsert_client \<Rightarrow> store \<Rightarrow> stranded \<Rightarrow> string \<Rightarrow> bool
    \<Rightarrow> client \<Rightarrow> store \<Rightarrow> store \<Rightarrow> uuid \<Rightarrow> store \<Rightarrow> store \<Rightarrow> bool" where
  "updated_by env x body s st slug provisioned c s1 s2 b s4 s' \<longleftrightarrow>
     sql_find (\<lambda>c. cl_id c = x) (clients s) = Some c \<and> update_client_row env x body s = Inr s1
   \<and> write_client_locales x (uc_locales body) s1 = Inr s2
   \<and> (let s3 = (if uc_replace_locales body then drop_other_locales x (uc_locales body) s2 else s2) in
      slug = resolve_owned_bundle_slug body (cl_bundle_id c) s3
    \<and> link_owned_bundle env 0 x slug (uc_locales body) s3 = Inr (b, provisioned, s4))
   \<and> (st, s') = (case cl_bundle_id c of
        Some old \<Rightarrow> if old \<noteq> b then strand_old_bundle old (uc_delete_orphaned_bundle body) s4 else (NotStranded, s4)
      | None \<Rightarrow> (NotStranded, s4))"

lemma update_client_txD:
  assumes "update_client_tx env x body s = Inr ((st, slug, provisioned), s')"
  shows "\<exists>c s1 s2 b s4. updated_by env x body s st slug provisioned c s1 s2 b s4 s'"
proof -
  have "sql_find (\<lambda>c. cl_id c = x) (clients s) \<noteq> None"
    using assms by (cases "sql_find (\<lambda>c. cl_id c = x) (clients s)") (simp_all add: update_client_tx_def)
  then obtain c where c: "sql_find (\<lambda>c. cl_id c = x) (clients s) = Some c" by blast
  from assms [unfolded update_client_tx_def c option.case try_next_ok conflict_as_ok Let_def] obtain s1 s2 q where
    row: "update_client_row env x body s = Inr s1" and loc: "write_client_locales x (uc_locales body) s1 = Inr s2"
    and link: "link_owned_bundle env 0 x
        (resolve_owned_bundle_slug body (cl_bundle_id c)
          (if uc_replace_locales body then drop_other_locales x (uc_locales body) s2 else s2)) (uc_locales body)
        (if uc_replace_locales body then drop_other_locales x (uc_locales body) s2 else s2) = Inr q"
    and rest: "(case q of (b, p, s4) \<Rightarrow>
        case (case cl_bundle_id c of None \<Rightarrow> (NotStranded, s4)
              | Some old \<Rightarrow> if old \<noteq> b then strand_old_bundle old (uc_delete_orphaned_bundle body) s4
                             else (NotStranded, s4)) of
          (st, s5) \<Rightarrow> Inr ((st, resolve_owned_bundle_slug body (cl_bundle_id c)
            (if uc_replace_locales body then drop_other_locales x (uc_locales body) s2 else s2), p), s5))
        = (Inr ((st, slug, provisioned), s') :: ((stranded \<times> string \<times> bool) \<times> store) app_result)"
    by blast
  obtain b p s4 where q: "q = (b, p, s4)" by (cases q) auto
  have "updated_by env x body s st slug provisioned c s1 s2 b s4 s'"
    using c row loc link rest unfolding q updated_by_def Let_def prod.case
    by (auto simp: case_prod_unfold prod_eq_iff split del: if_split)
  then show ?thesis by blast
qed

lemma tables_wf_update_client_tx:
  assumes "update_client_tx env x body s = Inr (v, s')" "tables_wf s"
  shows "tables_wf s'"
proof -
  obtain st slug p where v: "v = (st, slug, p)" by (cases v) auto
  from update_client_txD [OF assms(1) [unfolded v]] obtain c s1 s2 b s4 where
    "updated_by env x body s st slug p c s1 s2 b s4 s'" by blast
  note u = this [unfolded updated_by_def Let_def]
  from u have row: "update_client_row env x body s = Inr s1" and loc: "write_client_locales x (uc_locales body) s1 = Inr s2"
    and link: "link_owned_bundle env 0 x slug (uc_locales body)
      (if uc_replace_locales body then drop_other_locales x (uc_locales body) s2 else s2) = Inr (b, p, s4)"
    and fate: "(st, s') = (case cl_bundle_id c of
        Some old \<Rightarrow> if old \<noteq> b then strand_old_bundle old (uc_delete_orphaned_bundle body) s4 else (NotStranded, s4)
      | None \<Rightarrow> (NotStranded, s4))" by blast+
  have "tables_wf s2"
    by (rule tables_wf_write_client_locales [OF loc tables_wf_update_client_row [OF row assms(2)]])
  then have "tables_wf (if uc_replace_locales body then drop_other_locales x (uc_locales body) s2 else s2)" by simp
  from tables_wf_link_owned_bundle [OF link this] have s4: "tables_wf s4" .
  have "s' = snd (st, s')" by simp
  also have "tables_wf \<dots>" unfolding fate using s4 tables_wf_strand [OF s4] by (simp split: option.split)
  finally show ?thesis .
qed

lemma tables_wf_clear_role [simp]: "tables_wf s \<Longrightarrow> tables_wf (clear_role h x role s)"
  by (simp add: clear_role_def Let_def tables_defs)

lemma tables_wf_insert_media: "insert_media r s = Inr s' \<Longrightarrow> tables_wf s \<Longrightarrow> tables_wf s'"
  by (auto simp: insert_media_def tables_defs split: if_splits)

lemma tables_wf_upsert_keyword_locale:
  assumes "upsert_keyword_locale x lt s = Inr s'" "tables_wf s"
  shows "tables_wf s'"
proof (cases "sql_exists (\<lambda>r. kl_keyword_id r = x \<and> kl_locale r = fst lt) (keyword_locales s)")
  case True
  with assms show ?thesis
    by (auto simp: upsert_keyword_locale_def Let_def case_prod_unfold tables_defs intro!: unique_index_update fk_update)
next
  case False
  then have "(x, fst lt) \<notin> (\<lambda>r. (kl_keyword_id r, kl_locale r)) ` set (keyword_locales s)"
    by (auto simp: sql_exists_iff)
  with False assms show ?thesis
    by (auto simp: upsert_keyword_locale_def Let_def case_prod_unfold tables_defs unique_violation_iff split: if_splits)
qed

lemma tables_wf_insert_keyword: "insert_keyword r s = Inr s' \<Longrightarrow> tables_wf s \<Longrightarrow> tables_wf s'"
  by (auto simp: insert_keyword_def tables_defs split: if_splits)

lemma tables_wf_insert_server: "insert_server r s = Inr s' \<Longrightarrow> tables_wf s \<Longrightarrow> tables_wf s'"
  by (auto simp: insert_server_def tables_defs split: if_splits)

lemma attach_wf:
  assumes "attach cs ts c t links = Inr links'"
    and "unique_index always (\<lambda>l. (ln_client_id l, ln_target_id l)) links" "fk ln_client_id cs links" "fk ln_target_id ts links"
  shows "unique_index always (\<lambda>l. (ln_client_id l, ln_target_id l)) links' \<and> fk ln_client_id cs links' \<and> fk ln_target_id ts links'"
  using assms
  by (auto simp: attach_def unique_violation_def sql_exists_iff split: if_splits)

lemma tables_wf_unlinked:
  assumes "tables_wf s"
  shows "tables_wf (s\<lparr>client_keywords := sql_delete q (client_keywords s)\<rparr>)"
    "tables_wf (s\<lparr>client_servers := sql_delete q' (client_servers s)\<rparr>)"
    "tables_wf (s\<lparr>media_rows := sql_delete q'' (media_rows s)\<rparr>)"
  using assms by (simp_all add: tables_defs)

subsection \<open>The handlers\<close>

lemma tables_wf_create_client: "tables_wf s \<Longrightarrow> tables_wf (snd (create_client h body s))"
  by (auto simp: create_client_def dest!: tables_wf_create_client_tx
      split: sum.splits prod.splits if_splits dest: tables_wf_ensure_bundle_dir
      intro: subst [OF sndI, of _ _ _ tables_wf])

lemma tables_wf_after_stranding: "tables_wf s \<Longrightarrow> tables_wf (snd (after_stranding h st s))"
  by (simp add: after_stranding_def split: stranded.split)

lemma tables_wf_update_client: "tables_wf s \<Longrightarrow> tables_wf (snd (update_client h x body s))"
proof (cases "update_client_tx (ho_env h) x body s")
  case (Inr v)
  obtain st slug p s1 where v: "v = ((st, slug, p), s1)" by (cases v) auto
  assume "tables_wf s"
  with tables_wf_update_client_tx Inr v have s1: "tables_wf s1" by blast
  obtain r s2 where d: "(if p then ensure_bundle_dir h slug s1 else (Inr (), s1)) = (r, s2)" by (rule prod.exhaust)
  with s1 tables_wf_ensure_bundle_dir [OF s1, of h slug] have "tables_wf s2" by (auto split: if_splits)
  with Inr v d tables_wf_after_stranding [OF this, of h st] show ?thesis
    by (auto simp: update_client_def case_prod_unfold Let_def split: sum.split)
qed (simp add: update_client_def)

lemma tables_wf_delete_client: "tables_wf s \<Longrightarrow> tables_wf (snd (delete_client h x s))"
  by (auto simp: delete_client_def Let_def tables_wf_delete_client_row tables_wf_delete_bundle_row
      split: option.split prod.split)

lemma tables_wf_set_published: "tables_wf s \<Longrightarrow> tables_wf (snd (set_published env t x v s))"
  by (cases t) (auto simp: set_published_def Let_def tables_wf_clients_update tables_wf_keywords_update
      tables_wf_servers_update split: sum.split)

lemma tables_wf_delete_media: "tables_wf s \<Longrightarrow> tables_wf (snd (delete_media h x m s))"
  by (auto simp: delete_media_def Let_def tables_wf_unlinked split: option.split)

lemma tables_wf_upload_media:
  assumes "tables_wf s" shows "tables_wf (snd (upload_media h x form s))"
proof -
  note written = tables_wf_on_disk [OF assms]
  show ?thesis
    by (auto simp: upload_media_def and_then_def ask_def in_transaction_def roll_back_def Let_def case_prod_unfold assms written
        intro: tables_wf_insert_media [OF _ tables_wf_clear_role [OF written]] split: sum.split)
qed

lemma tables_wf_create_keyword:
  assumes "tables_wf s" shows "tables_wf (snd (create_keyword env slug ls s))"
proof (cases "try_next (conflict_as ''keyword'' (insert_keyword
      \<lparr>kw_id = e_uuid env 0, kw_slug = slug, kw_published_at = Some (e_now env),
       kw_created_at = e_now env, kw_updated_at = e_now env\<rparr> s))
    (\<lambda>s1. as_database (try_all (upsert_keyword_locale (e_uuid env 0)) ls s1))")
  case (Inr s')
  then have "tables_wf s'"
    using assms by (auto simp: try_next_ok conflict_as_ok
        intro: try_all_invariant [where P = tables_wf] tables_wf_upsert_keyword_locale tables_wf_insert_keyword)
  with Inr show ?thesis by (simp add: create_keyword_def Let_def)
qed (simp add: create_keyword_def Let_def assms)

lemma tables_wf_delete_keyword: "tables_wf s \<Longrightarrow> tables_wf (snd (delete_keyword x s))"
  by (auto simp: delete_keyword_def deleted_if_found_def tables_defs fk_defs)

lemma tables_wf_create_server: "tables_wf s \<Longrightarrow> tables_wf (snd (create_server env slug name address s))"
  by (auto simp: create_server_def Let_def conflict_as_def intro: tables_wf_insert_server split: sum.split)

lemma tables_wf_delete_server: "tables_wf s \<Longrightarrow> tables_wf (snd (delete_server x s))"
  by (auto simp: delete_server_def deleted_if_found_def tables_defs fk_defs)

lemma tables_wf_update_server:
  assumes "tables_wf s" shows "tables_wf (snd (update_server env x slug name address s))"
proof -
  let ?f = "\<lambda>r. r\<lparr>sv_slug := slug, sv_name := name, sv_address := address, sv_updated_at := e_now env\<rparr>"
  let ?rs = "sql_update (\<lambda>r. sv_id r = x) ?f (servers s)"
  have "tables_wf (s\<lparr>servers := ?rs\<rparr>)"
    if "\<not> sql_exists (\<lambda>r. sv_id r \<noteq> x \<and> sv_slug r = slug) (servers s)"
  proof -
    have "unique_index always sv_slug ?rs"
      by (rule unique_index_new_value [OF _ _ _ that]) (use assms in \<open>simp_all add: tables_defs\<close>)
    moreover have "map sv_id ?rs = map sv_id (servers s)" by (rule map_sql_update) simp
    ultimately show ?thesis using assms by (auto simp: tables_defs intro!: unique_index_update)
  qed
  moreover have "?rs = servers s" if "\<not> sql_exists (\<lambda>r. sv_id r = x) (servers s)"
    using that by (auto simp: sql_exists_iff intro!: sql_update_none)
  ultimately show ?thesis
    using assms by (auto simp: update_server_def Let_def split: sum.split)
qed

lemma tables_wf_attach:
  assumes "tables_wf s"
  shows "tables_wf (snd (attach_keyword x k s))" "tables_wf (snd (attach_server x r s))"
    "tables_wf (snd (detach_keyword x k s))" "tables_wf (snd (detach_server x r s))"
proof -
  have "tables_wf (s\<lparr>client_keywords := links\<rparr>)"
    if "attach (map cl_id (clients s)) (map kw_id (keyword_rows s)) x k (client_keywords s) = Inr links" for links
    using attach_wf [OF that] assms by (simp add: tables_defs)
  moreover have "tables_wf (s\<lparr>client_servers := links\<rparr>)"
    if "attach (map cl_id (clients s)) (map sv_id (servers s)) x r (client_servers s) = Inr links" for links
    using attach_wf [OF that] assms by (simp add: tables_defs)
  ultimately show "tables_wf (snd (attach_keyword x k s))" "tables_wf (snd (attach_server x r s))"
    "tables_wf (snd (detach_keyword x k s))" "tables_wf (snd (detach_server x r s))"
    using assms by (auto simp: attach_keyword_def attach_server_def detach_keyword_def detach_server_def
        detach_def commit_def try_next_ok tables_wf_unlinked split: sum.split)
qed

lemmas catalog_handlers_wf =
  tables_wf_create_client tables_wf_update_client tables_wf_delete_client tables_wf_set_published
  tables_wf_upload_media tables_wf_delete_media tables_wf_create_keyword tables_wf_delete_keyword
  tables_wf_create_server tables_wf_update_server tables_wf_delete_server tables_wf_attach


section \<open>A client that is only renamed\<close>

lemma write_client_locales_only:
  assumes "write_client_locales x ls s = Inr s'"
  shows "\<exists>rows. s' = s\<lparr>client_locales := rows\<rparr>"
proof -
  have keep: "\<exists>rows. s2 = s\<lparr>client_locales := rows\<rparr>"
    if "upsert_client_locale x l s1 = Inr s2" "\<exists>rows. s1 = s\<lparr>client_locales := rows\<rparr>" for l s1 s2
    using that by (auto simp: upsert_client_locale_def Let_def split: if_splits)
  have "try_all (upsert_client_locale x) ls s = Inr s'"
    using assms by (simp add: write_client_locales_def conflict_as_ok)
  then show ?thesis
    by (rule try_all_invariant [where P = "\<lambda>s'. \<exists>rows. s' = s\<lparr>client_locales := rows\<rparr>"])
      (auto intro: keep exI [of _ "client_locales s"])
qed

lemma owned_slug_resolves:
  assumes "tables_wf s" "sql_find (\<lambda>c. cl_id c = x) (clients s) = Some c" "cl_bundle_id c = Some b"
    and "uc_bundle_slug body = None" "bundles s3 = bundles s"
  shows "find_bundle_id_by_slug s3 (resolve_owned_bundle_slug body (Some b) s3) = Some b"
proof -
  have "b \<in> set (map bu_id (bundles s))"
    using assms(1,3) sql_find_SomeD [OF assms(2)] by (auto simp: tables_defs fk_defs)
  then obtain r where r: "r \<in> set (bundles s)" "bu_id r = b" by auto
  with assms(1) have "sql_find (\<lambda>b'. bu_id b' = b) (bundles s) = Some r"
    "sql_find (\<lambda>b'. bu_slug b' = bu_slug r) (bundles s) = Some r"
    by (auto simp: tables_defs intro!: sql_find_unique)
  with r assms(4,5) show ?thesis
    by (simp add: resolve_owned_bundle_slug_def requested_bundle_slug_def bundle_slug_by_id_def
        find_bundle_id_by_slug_def find_by_slug_def unwrap_or_def)
qed

text \<open>
  C28. Saving a client whose request leaves the bundle field out keeps the bundle the client is linked
  to, also under a new slug: the link, every bundle and every artifact row are those of before, and
  nothing is reported as stranded.
\<close>

theorem rename_keeps_bundle:
  assumes "update_client_tx env x body s = Inr ((st, slug, provisioned), s')" "tables_wf s"
    and "sql_find (\<lambda>c. cl_id c = x) (clients s) = Some c" "cl_bundle_id c = Some b" "uc_bundle_slug body = None"
  shows "st = NotStranded \<and> \<not> provisioned \<and> bundles s' = bundles s \<and> artifacts s' = artifacts s
    \<and> map_option cl_bundle_id (sql_find (\<lambda>c. cl_id c = x) (clients s')) = Some (Some b)
    \<and> map_option cl_slug (sql_find (\<lambda>c. cl_id c = x) (clients s')) = Some (uc_slug body)"
proof -
  obtain s1 s2 b' s4 where u: "updated_by env x body s st slug provisioned c s1 s2 b' s4 s'"
    using update_client_txD [OF assms(1)] assms(3) by (auto simp: updated_by_def)
  define s3 where "s3 = (if uc_replace_locales body then drop_other_locales x (uc_locales body) s2 else s2)"
  note u = u [unfolded updated_by_def Let_def, folded s3_def]
  let ?cs = "sql_update (\<lambda>c. cl_id c = x) (replaced_client env body) (clients s)"
  from u have "s1 = s\<lparr>clients := ?cs\<rparr>" by (auto simp: update_client_row_def split: if_splits)
  with u write_client_locales_only [of x "uc_locales body" s1 s2]
  obtain rows where "s2 = s\<lparr>clients := ?cs, client_locales := rows\<rparr>" by auto
  then obtain rows' where s3: "s3 = s\<lparr>clients := ?cs, client_locales := rows'\<rparr>"
    by (cases "uc_replace_locales body") (auto simp: s3_def drop_other_locales_def)
  have "find_bundle_id_by_slug s3 slug = Some b"
    using owned_slug_resolves [OF assms(2-5), of s3] u assms(4) by (simp add: s3)
  with u have s4: "b' = b" "\<not> provisioned" "s4 = s3\<lparr>clients := sql_update (\<lambda>c. cl_id c = x)
      (\<lambda>c. c\<lparr>cl_bundle_id := Some b, cl_bundle_slug := Some slug\<rparr>) (clients s3)\<rparr>"
    by (auto simp: link_owned_bundle_def try_next_def)
  with u assms(4) have "st = NotStranded" "s' = s4" by auto
  with s4 s3 assms(3) show ?thesis
    by (simp add: sql_find_update_self [of cl_id] replaced_client_def)
qed

section \<open>Samples\<close>

lemma demo_catalog_wf: "tables_wf demo_catalog"
  by code_simp


definition demo_rename :: upsert_client where
  "demo_rename =
     \<lparr>uc_slug = ''uno'', uc_available = True, uc_minecraft_version = None, uc_forge_version = None,
      uc_fabric_version = None, uc_runtime_version = None, uc_bundle_slug = None, uc_sort_order = None,
      uc_publish = None, uc_locales = [], uc_replace_locales = True, uc_delete_orphaned_bundle = True\<rparr>"

lemma rename_keeps_bundle_witness:
  "\<exists>s'. update_client_tx sample_env 1 demo_rename demo_catalog = Inr ((NotStranded, ''b'', False), s')
    \<and> bundles s' = bundles demo_catalog \<and> artifacts s' = artifacts demo_catalog"
proof -
  have "map_sum id fst (update_client_tx sample_env 1 demo_rename demo_catalog) = Inr (NotStranded, ''b'', False)"
    by code_simp
  then obtain s' where s': "update_client_tx sample_env 1 demo_rename demo_catalog = Inr ((NotStranded, ''b'', False), s')"
    by (cases "update_client_tx sample_env 1 demo_rename demo_catalog") auto
  have "sql_find (\<lambda>c. cl_id c = 1) (clients demo_catalog) = Some (demo_client 1 ''one'')"
    "cl_bundle_id (demo_client 1 ''one'') = Some (bu_id demo_bundle)" "uc_bundle_slug demo_rename = None"
    by code_simp+
  from rename_keeps_bundle [OF s' demo_catalog_wf this] s' show ?thesis by blast
qed

text \<open>Deleting a client takes its bundle along although another client is launched from it.\<close>

lemma delete_takes_shared_bundle:
  "bundles (snd (delete_client (demo_host demo_archive) 1 demo_catalog)) = []
   \<and> artifacts (snd (delete_client (demo_host demo_archive) 1 demo_catalog)) = []
   \<and> map cl_bundle_id (clients (snd (delete_client (demo_host demo_archive) 1 demo_catalog))) = [None]"
  by code_simp

end
