(* ===== verification/Config_Env.thy ===== *)
theory Config_Env
  imports Database Text
begin

text \<open>
  \<^verbatim>\<open>core/src/config.rs\<close>: the configuration, read once from the environment at start-up. The
  environment is the function that returns a variable's value when it is set (and is text). Parsing a
  number is that of the standard library, at the width of the field.
\<close>

section \<open>Values\<close>

definition digits_value :: "string \<Rightarrow> int" where
  "digits_value s = foldl (\<lambda>n c. 10 * n + (of_char c - 48)) 0 s"

text \<open>\<^verbatim>\<open>str::parse\<close>: an optional sign (a minus only for a signed type), then digits, in range.\<close>

definition parse_num :: "bool \<Rightarrow> nat \<Rightarrow> string \<Rightarrow> int option" where
  "parse_num has_sign width s =
     (let (negative, ds) = (case s of
            [] \<Rightarrow> (False, [])
          | c # cs \<Rightarrow> if c = CHR ''-'' \<and> has_sign then (True, cs) else if c = CHR ''+'' then (False, cs) else (False, s));
          n = (if negative then - digits_value ds else digits_value ds);
          (least, bound) = (if has_sign then (- (2 ^ (width - 1)), 2 ^ (width - 1)) else (0, 2 ^ width)) in
      if ds = [] \<or> \<not> list_all is_digit ds \<or> n < least \<or> bound \<le> n then None else Some n)"

type_synonym environment = "string \<Rightarrow> string option"

definition parse_env :: "environment \<Rightarrow> (string \<Rightarrow> int option) \<Rightarrow> string \<Rightarrow> int \<Rightarrow> int" where
  "parse_env vars parse key fallback =
     (case vars key of Some v \<Rightarrow> (case parse v of Some n \<Rightarrow> n | None \<Rightarrow> fallback) | None \<Rightarrow> fallback)"

definition parse_bool_env :: "environment \<Rightarrow> string \<Rightarrow> bool \<Rightarrow> bool" where
  "parse_bool_env vars key fallback =
     (case vars key of
        Some v \<Rightarrow> to_ascii_lowercase (trim v) \<in> {''true'', ''1'', ''yes'', ''on''}
      | None \<Rightarrow> fallback)"

text \<open>The comma-separated lists: blanks trimmed, empty entries dropped.\<close>

definition parse_list :: "string \<Rightarrow> string list" where
  "parse_list raw = filter (\<lambda>d. d \<noteq> []) (map trim (split_on (CHR '','') raw))"

definition DEFAULT_SKIN_DOMAINS :: string where
  "DEFAULT_SKIN_DOMAINS = ''.loontail.dev,localhost''"

definition nonempty :: "string option \<Rightarrow> string option" where
  "nonempty v = (case v of Some t \<Rightarrow> if t = [] then None else Some t | None \<Rightarrow> None)"

section \<open>The configuration\<close>

record server_config =
  sv_http_host :: string
  sv_http_port :: int
  sv_database_url :: string
  sv_cors_allowed_origins :: "string list"
  sv_trusted_proxy :: bool
  sv_metrics_token :: "string option"
  sv_config :: config
  sv_max_attempts :: int
  sv_window :: duration
  sv_log_retention_days :: int
  sv_key_path :: string
  sv_skin_domains :: "string list"
  sv_textures_root :: string
  sv_catalog_root :: string
  sv_bundles_root :: string
  sv_bundles_public_url :: string
  sv_bootstrap_username :: string
  sv_bootstrap_password :: "string option"

definition handler_config :: "environment \<Rightarrow> config" where
  "handler_config vars =
     (let u64 = parse_env vars (parse_num False 64); i64 = parse_env vars (parse_num True 64);
          i32 = parse_env vars (parse_num True 32) in
      \<lparr>cf_session_ttl = seconds (u64 ''SESSION_TTL_SECONDS'' 86400),
       cf_heartbeat_timeout = seconds (u64 ''HEARTBEAT_TIMEOUT_SECONDS'' 60),
       cf_max_players_per_world = i32 ''MAX_PLAYERS_PER_WORLD'' 5,
       cf_join_request_ttl = seconds (u64 ''JOIN_REQUEST_TTL_SECONDS'' 60),
       cf_join_ticket_ttl = seconds (u64 ''JOIN_TICKET_TTL_SECONDS'' 60),
       cf_invite_ttl = seconds (u64 ''INVITE_TTL_SECONDS'' 600),
       cf_search_min_query_length = nat (u64 ''SEARCH_MIN_QUERY_LENGTH'' 2),
       cf_search_max_results = i64 ''SEARCH_MAX_RESULTS'' 20,
       cf_event_retention_days = i64 ''EVENT_RETENTION_DAYS'' 30,
       cf_yggdrasil_token_ttl = seconds (u64 ''YGGDRASIL_TOKEN_TTL_SECONDS'' 1296000),
       cf_max_tokens_per_user = i64 ''YGGDRASIL_MAX_TOKENS_PER_USER'' 10,
       cf_cookie_name = coalesce_or (vars ''ADMIN_COOKIE_NAME'') ''loontail_admin'',
       cf_admin_session_ttl = seconds (u64 ''ADMIN_SESSION_TTL_SECONDS'' 604800),
       cf_yggdrasil_public_url = coalesce_or (vars ''YGGDRASIL_PUBLIC_URL'') ''/api/yggdrasil''\<rparr>)"

definition config_from_env :: "environment \<Rightarrow> string + server_config" where
  "config_from_env vars =
     (case vars ''DATABASE_URL'' of
        None \<Rightarrow> Inl ''DATABASE_URL must be set''
      | Some database_url \<Rightarrow>
          Inr \<lparr>sv_http_host = coalesce_or (vars ''HTTP_HOST'') ''0.0.0.0'',
               sv_http_port = parse_env vars (parse_num False 16) ''HTTP_PORT'' 8080,
               sv_database_url = database_url,
               sv_cors_allowed_origins = parse_list (coalesce_or (vars ''CORS_ALLOWED_ORIGINS'') []),
               sv_trusted_proxy = parse_bool_env vars ''TRUSTED_PROXY'' False,
               sv_metrics_token = nonempty (vars ''METRICS_TOKEN''),
               sv_config = handler_config vars,
               sv_max_attempts = parse_env vars (parse_num False 32) ''RATE_LIMIT_MAX_ATTEMPTS'' 10,
               sv_window = seconds (parse_env vars (parse_num False 64) ''RATE_LIMIT_WINDOW_SECONDS'' 60),
               sv_log_retention_days = parse_env vars (parse_num True 64) ''REQUEST_LOG_RETENTION_DAYS'' 7,
               sv_key_path = coalesce_or (vars ''YGGDRASIL_KEY_PATH'') ''data/yggdrasil/keys/active.key.pem'',
               sv_skin_domains = parse_list (coalesce_or (vars ''YGGDRASIL_SKIN_DOMAINS'') DEFAULT_SKIN_DOMAINS),
               sv_textures_root = coalesce_or (vars ''TEXTURES_STORAGE_ROOT'') ''data/textures'',
               sv_catalog_root = coalesce_or (vars ''CATALOG_MEDIA_STORAGE_ROOT'') ''data/catalog-media'',
               sv_bundles_root = coalesce_or (vars ''BUNDLES_STORAGE_ROOT'') ''data/bundle-registry'',
               sv_bundles_public_url = coalesce_or (vars ''BUNDLES_PUBLIC_URL'') ''/bundle-registry'',
               sv_bootstrap_username = coalesce_or (vars ''ADMIN_BOOTSTRAP_USERNAME'') ''admin'',
               sv_bootstrap_password = nonempty (vars ''ADMIN_BOOTSTRAP_PASSWORD'')\<rparr>)"

section \<open>Public addresses\<close>

fun find_str :: "string \<Rightarrow> string \<Rightarrow> nat option" where
  "find_str pat [] = (if pat = [] then Some 0 else None)"
| "find_str pat (c # cs) = (if starts_with pat (c # cs) then Some 0 else map_option Suc (find_str pat cs))"

definition parse_public_url :: "string \<Rightarrow> string option \<times> string" where
  "parse_public_url address =
     (case find_str ''://'' address of
        None \<Rightarrow> (None, address)
      | Some scheme_end \<Rightarrow>
          let after_scheme = scheme_end + 3; rest = drop after_scheme address;
              authority_len = coalesce_or (find_str ''/'' rest) (length rest) in
          if authority_len = 0 then (None, rest)
          else (Some (take (after_scheme + authority_len) address), drop (after_scheme + authority_len) address))"

section \<open>Facts\<close>

text \<open>A value that is none of the accepted words means no, whatever the fallback is.\<close>

lemma bool_env_ignores_fallback:
  "vars key = Some v \<Longrightarrow> to_ascii_lowercase (trim v) \<notin> {''true'', ''1'', ''yes'', ''on''}
    \<Longrightarrow> \<not> parse_bool_env vars key fallback"
  by (simp add: parse_bool_env_def)

text \<open>An address is cut in two without losing anything but a scheme that names no host.\<close>

lemma parse_public_url_split:
  "case parse_public_url address of
     (Some origin, p) \<Rightarrow> origin @ p = address | (None, p) \<Rightarrow> \<exists>scheme. address = scheme @ p"
  by (auto simp: parse_public_url_def Let_def split: option.split)
    (metis append_take_drop_id)

text \<open>Nothing that is unset or unreadable opens the service.\<close>

lemma config_closed_by_default:
  assumes "config_from_env vars = Inr c"
  shows "vars ''TRUSTED_PROXY'' = None \<Longrightarrow> \<not> sv_trusted_proxy c"
    and "vars ''CORS_ALLOWED_ORIGINS'' = None \<Longrightarrow> sv_cors_allowed_origins c = []"
    and "sv_metrics_token c \<noteq> Some []" "sv_bootstrap_password c \<noteq> Some []"
proof -
  have never: "nonempty v \<noteq> Some []" for v by (simp add: nonempty_def split: option.split)
  obtain url where url: "vars ''DATABASE_URL'' = Some url"
    using assms by (cases "vars ''DATABASE_URL''") (auto simp: config_from_env_def)
  have "\<not> sv_trusted_proxy c" if "vars ''TRUSTED_PROXY'' = None"
    using assms that by (auto simp: config_from_env_def url parse_bool_env_def)
  moreover have "sv_cors_allowed_origins c = []" if "vars ''CORS_ALLOWED_ORIGINS'' = None"
    using assms that by (auto simp: config_from_env_def url parse_list_def coalesce_or_def trim_def trim_start_def trim_end_def)
  moreover have "sv_metrics_token c \<noteq> Some []" "sv_bootstrap_password c \<noteq> Some []"
    using assms by (auto simp: config_from_env_def url never)
  ultimately show "vars ''TRUSTED_PROXY'' = None \<Longrightarrow> \<not> sv_trusted_proxy c"
    "vars ''CORS_ALLOWED_ORIGINS'' = None \<Longrightarrow> sv_cors_allowed_origins c = []"
    "sv_metrics_token c \<noteq> Some []" "sv_bootstrap_password c \<noteq> Some []" by blast+
qed

end
