(* ===== verification/Textures.thy ===== *)
theory Textures
  imports Catalog_Admin Profiles Config_Env
begin

text \<open>
  \<^verbatim>\<open>textures/src\<close>: the registry of skins and capes. A row of \<^verbatim>\<open>user_textures\<close> (migration 0017)
  names the file of one user's skin or cape below the storage root; every upload writes a new
  revision, points the row at it and unlinks the one before. The file system is that of \<open>Files\<close>; a
  stored path is the text of a path below the root.
\<close>

section \<open>State\<close>

record texture_store =
  tx_users :: "user list"
  tx_rows :: "user_texture list"
  tx_disk :: fs

type_synonym 'a texture_handler = "texture_store \<Rightarrow> 'a app_result \<times> texture_store"

record texture_host =
  th_host :: host
  th_root :: path
  th_public_url :: string

datatype texture_kind = SkinTexture | CapeTexture

fun kind_as_str :: "texture_kind \<Rightarrow> string" where
  "kind_as_str SkinTexture = ''skin''"
| "kind_as_str CapeTexture = ''cape''"

fun storage_dir :: "texture_kind \<Rightarrow> string" where
  "storage_dir SkinTexture = ''skins''"
| "storage_dir CapeTexture = ''capes''"

definition kind_parse :: "string \<Rightarrow> texture_kind option" where
  "kind_parse segment =
     (if segment = ''skin'' then Some SkinTexture else if segment = ''cape'' then Some CapeTexture else None)"

definition texture_disk_path :: "path \<Rightarrow> texture_kind \<Rightarrow> string \<Rightarrow> string \<Rightarrow> path" where
  "texture_disk_path root kind profile_uuid revision =
     root @ [storage_dir kind, profile_uuid @ ''-'' @ revision @ ''.png'']"

text \<open>\<^verbatim>\<open>to_string_lossy\<close> and \<^verbatim>\<open>Path::new\<close> of the stored text.\<close>

definition path_text :: "path \<Rightarrow> string" where
  "path_text p = join_with slash p"

definition text_path :: "string \<Rightarrow> path" where
  "text_path t = filter (\<lambda>x. x \<noteq> [] \<and> x \<noteq> ''.'') (split_on slash t)"

definition ensure_dirs :: "texture_host \<Rightarrow> fs \<Rightarrow> (io_error + unit) \<times> fs" where
  "ensure_dirs th fs =
     (case create_dir_all (ho_io (th_host th)) (th_root th @ [storage_dir SkinTexture]) fs of
        (Inl e, fs1) \<Rightarrow> (Inl e, fs1)
      | (Inr _, fs1) \<Rightarrow> create_dir_all (ho_io (th_host th)) (th_root th @ [storage_dir CapeTexture]) fs1)"

section \<open>Public addresses\<close>

definition public_origin :: "string \<Rightarrow> string option" where
  "public_origin address = fst (parse_public_url address)"

definition relative_texture_url :: "string \<Rightarrow> string \<Rightarrow> string" where
  "relative_texture_url profile_uuid kind = ''/textures/'' @ profile_uuid @ ''/'' @ kind"

definition absolutize_url :: "texture_host \<Rightarrow> string \<Rightarrow> string" where
  "absolutize_url th relative =
     (case public_origin (th_public_url th) of Some origin \<Rightarrow> origin @ relative | None \<Rightarrow> relative)"

section \<open>Reads\<close>

record lookup_skin =
  lk_url :: string
  lk_variant :: skin_variant

record textures_lookup =
  tl_skin :: "lookup_skin option"
  tl_cape :: "string option"

text \<open>The stored spelling, read back exactly; \<open>parse_variant\<close> of the profile ignores the case.\<close>

definition stored_variant :: "string \<Rightarrow> skin_variant" where
  "stored_variant v = (if v = ''SLIM'' \<or> v = ''slim'' then Slim else Classic)"

definition variant_str :: "skin_variant \<Rightarrow> string" where
  "variant_str v = (case v of Slim \<Rightarrow> ''SLIM'' | Classic \<Rightarrow> ''CLASSIC'')"

definition resolve_user_id :: "texture_store \<Rightarrow> string \<Rightarrow> uuid option" where
  "resolve_user_id s profile_uuid =
     map_option u_id (sql_find (\<lambda>u. u_profile_uuid u = Some profile_uuid) (tx_users s))"

definition put_lookup ::
  "texture_host \<Rightarrow> string \<Rightarrow> user_texture \<Rightarrow> textures_lookup \<Rightarrow> textures_lookup" where
  "put_lookup th profile_uuid r response =
     (let url = absolutize_url th (relative_texture_url profile_uuid (ut_kind r)) in
      case kind_parse (ut_kind r) of
        Some SkinTexture \<Rightarrow> response\<lparr>tl_skin := Some
          \<lparr>lk_url = url, lk_variant = stored_variant (unwrap_or [] (ut_variant r))\<rparr>\<rparr>
      | Some CapeTexture \<Rightarrow> response\<lparr>tl_cape := Some url\<rparr>
      | None \<Rightarrow> response)"

definition lookup_textures :: "texture_host \<Rightarrow> texture_store \<Rightarrow> string \<Rightarrow> textures_lookup app_result" where
  "lookup_textures th s uuid =
     (case undash_uuid uuid of
        Inl e \<Rightarrow> Inl (BadRequest ''invalid profile uuid'')
      | Inr profile_uuid \<Rightarrow>
          Inr (case resolve_user_id s profile_uuid of
                 None \<Rightarrow> \<lparr>tl_skin = None, tl_cape = None\<rparr>
               | Some user_id \<Rightarrow>
                   fold (put_lookup th profile_uuid) (filter (\<lambda>r. ut_user_id r = user_id) (tx_rows s))
                     \<lparr>tl_skin = None, tl_cape = None\<rparr>))"

definition texture_at :: "uuid \<Rightarrow> texture_kind \<Rightarrow> user_texture \<Rightarrow> bool" where
  "texture_at user_id kind r \<longleftrightarrow> ut_user_id r = user_id \<and> ut_kind r = kind_as_str kind"

definition read_png :: "texture_host \<Rightarrow> texture_store \<Rightarrow> string \<Rightarrow> string \<Rightarrow> string app_result" where
  "read_png th s uuid kind =
     (case kind_parse kind of
        None \<Rightarrow> Inl (NotFound ''unknown texture'')
      | Some kind \<Rightarrow>
          (case undash_uuid uuid of
             Inl e \<Rightarrow> Inl (BadRequest ''invalid profile uuid'')
           | Inr profile_uuid \<Rightarrow>
               (case Option.bind (resolve_user_id s profile_uuid) (\<lambda>x. sql_find (texture_at x kind) (tx_rows s)) of
                  None \<Rightarrow> Inl (NotFound ''texture not found'')
                | Some r \<Rightarrow>
                    (case read_path (ho_io (th_host th)) (text_path (ut_file_path r)) (tx_disk s) of
                       Inl e \<Rightarrow> Inl (NotFound ''texture file missing'')
                     | Inr bytes \<Rightarrow> Inr bytes))))"

section \<open>Uploads\<close>

definition MAX_TEXTURE_BYTES :: nat where
  "MAX_TEXTURE_BYTES = 256 * 1024"

fun png_error_text :: "png_error \<Rightarrow> string" where
  "png_error_text TooSmall = ''file too small to be a PNG (need at least '' @ decimal PNG_HEADER_MIN_BYTES @ '' bytes)''"
| "png_error_text BadSignature = ''file is not a PNG (bad signature)''"
| "png_error_text (BadIhdrLength n) =
     ''IHDR chunk length is '' @ decimal (unat n) @ '', expected '' @ decimal (unat IHDR_LENGTH)"
| "png_error_text BadIhdrType = ''first PNG chunk is not '' @ [CHR 0x22] @ ''IHDR'' @ [CHR 0x22]"
| "png_error_text (BadDimensions width height) =
     ''unsupported dimensions '' @ decimal (unat width) @ ''x'' @ decimal (unat height)"

fun validate_texture :: "texture_kind \<Rightarrow> byte list \<Rightarrow> png_error + 32 word \<times> 32 word" where
  "validate_texture SkinTexture file = validate_skin file"
| "validate_texture CapeTexture file = validate_cape file"

text \<open>The bytes and the variant of an accepted upload.\<close>

definition accepted_texture :: "texture_kind \<Rightarrow> multipart \<Rightarrow> (string \<times> string option) app_result" where
  "accepted_texture kind form =
     (case read_capped_upload MAX_TEXTURE_BYTES ''variant'' (None, None) form of
        Inl e \<Rightarrow> Inl e
      | Inr (None, _) \<Rightarrow> Inl (BadRequest ''missing file field'')
      | Inr (Some file, variant) \<Rightarrow>
          (case validate_texture kind (bytes_of file) of
             Inl err \<Rightarrow> Inl (BadRequest (''invalid '' @ kind_as_str kind @ '' png: '' @ png_error_text err))
           | Inr _ \<Rightarrow> Inr (file, (case kind of
                 SkinTexture \<Rightarrow> Some (variant_str (unwrap_or Classic (map_option stored_variant variant)))
               | CapeTexture \<Rightarrow> None))))"

definition texture_row :: "env \<Rightarrow> user \<Rightarrow> texture_kind \<Rightarrow> string \<Rightarrow> path \<Rightarrow> string \<Rightarrow> string option \<Rightarrow> user_texture" where
  "texture_row env u kind profile_uuid p file variant =
     \<lparr>ut_user_id = u_id u, ut_kind = kind_as_str kind, ut_profile_uuid = profile_uuid, ut_username = u_username u,
      ut_file_path = path_text p, ut_file_url = relative_texture_url profile_uuid (kind_as_str kind),
      ut_file_size = int (length file), ut_variant = variant, ut_updated_at = e_now env\<rparr>"

definition rewritten :: "user_texture \<Rightarrow> user_texture \<Rightarrow> user_texture" where
  "rewritten new r = r
     \<lparr>ut_profile_uuid := ut_profile_uuid new, ut_username := ut_username new, ut_file_path := ut_file_path new,
      ut_file_url := ut_file_url new, ut_file_size := ut_file_size new, ut_variant := ut_variant new,
      ut_updated_at := ut_updated_at new\<rparr>"

definition variant_fits :: "user_texture \<Rightarrow> bool" where
  "variant_fits r \<longleftrightarrow> (ut_kind r = ''skin'') = (ut_variant r \<noteq> None)"

text \<open>\<^verbatim>\<open>INSERT ... ON CONFLICT (user_id, kind) DO UPDATE\<close>\<close>

definition upsert_texture :: "user_texture \<Rightarrow> texture_store \<Rightarrow> db_error + texture_store" where
  "upsert_texture new s =
     (let here = (\<lambda>r. ut_user_id r = ut_user_id new \<and> ut_kind r = ut_kind new) in
      (case first_violation
          [(\<not> variant_fits new, CheckViolation ''user_textures_variant_kind''),
           (\<not> sql_exists here (tx_rows s) \<and> ut_user_id new \<notin> set (map u_id (tx_users s)),
              ForeignKeyViolation ''user_textures_user_id_fkey'')] of
         Some e \<Rightarrow> Inl e
       | None \<Rightarrow>
           Inr (s\<lparr>tx_rows := (if sql_exists here (tx_rows s) then sql_update here (rewritten new) (tx_rows s)
                              else tx_rows s @ [new])\<rparr>)))"

definition unlink_texture :: "texture_host \<Rightarrow> string \<Rightarrow> texture_store \<Rightarrow> texture_store" where
  "unlink_texture th t s = s\<lparr>tx_disk := unlink_quiet (ho_io (th_host th)) (text_path t) (tx_disk s)\<rparr>"

text \<open>The path an upload writes to.\<close>

definition new_path :: "texture_host \<Rightarrow> texture_kind \<Rightarrow> string \<Rightarrow> path" where
  "new_path th kind profile_uuid =
     texture_disk_path (th_root th) kind profile_uuid (revision_hex (ho_env (th_host th)))"

definition store_texture ::
  "texture_host \<Rightarrow> user \<Rightarrow> texture_kind \<Rightarrow> string \<Rightarrow> string \<Rightarrow> string option \<Rightarrow> unit texture_handler" where
  "store_texture th u kind profile_uuid file variant s =
     (let h = th_host th; p = new_path th kind profile_uuid;
          (written, fs) = write_file (ho_io h) p file (tx_disk s); s1 = s\<lparr>tx_disk := fs\<rparr> in
      (case written of
         Inl e \<Rightarrow> (Inl (io_failure h ''write texture'' e), s1)
       | Inr _ \<Rightarrow>
           let old_path = map_option ut_file_path (sql_find (texture_at (u_id u) kind) (tx_rows s1)) in
           (case upsert_texture (texture_row (ho_env h) u kind profile_uuid p file variant) s1 of
              Inl e \<Rightarrow> (Inl (Database e), s1)
            | Inr s2 \<Rightarrow>
                (Inr (), (case old_path of
                   Some old \<Rightarrow> if old \<noteq> path_text p then unlink_texture th old s2 else s2
                 | None \<Rightarrow> s2)))))"

text \<open>\<open>u\<close> is the account the extractor resolved.\<close>

definition upload_texture :: "texture_host \<Rightarrow> string \<Rightarrow> user \<Rightarrow> multipart \<Rightarrow> unit texture_handler" where
  "upload_texture th kind u form s =
     (case kind_parse kind of
        None \<Rightarrow> (Inl (NotFound ''unknown texture''), s)
      | Some kind \<Rightarrow>
          (case accepted_texture kind form of
             Inl e \<Rightarrow> (Inl e, s)
           | Inr (file, variant) \<Rightarrow>
               (case u_profile_uuid u of
                  None \<Rightarrow> (Inl Forbidden, s)
                | Some profile_uuid \<Rightarrow> store_texture th u kind profile_uuid file variant s)))"

section \<open>Deletion\<close>

text \<open>\<^verbatim>\<open>DELETE ... RETURNING file_path\<close>\<close>

definition delete_by_user :: "texture_kind \<Rightarrow> uuid \<Rightarrow> texture_store \<Rightarrow> string option \<times> texture_store" where
  "delete_by_user kind user_id s =
     (map_option ut_file_path (sql_find (texture_at user_id kind) (tx_rows s)),
      s\<lparr>tx_rows := sql_delete (texture_at user_id kind) (tx_rows s)\<rparr>)"

definition drop_texture :: "texture_host \<Rightarrow> texture_kind \<Rightarrow> uuid \<Rightarrow> texture_store \<Rightarrow> bool \<times> texture_store" where
  "drop_texture th kind user_id s =
     (case delete_by_user kind user_id s of
        (Some t, s') \<Rightarrow> (True, unlink_texture th t s')
      | (None, s') \<Rightarrow> (False, s'))"

definition delete_texture :: "texture_host \<Rightarrow> string \<Rightarrow> user \<Rightarrow> unit texture_handler" where
  "delete_texture th kind u s =
     (case kind_parse kind of
        None \<Rightarrow> (Inl (NotFound ''unknown texture''), s)
      | Some kind \<Rightarrow> (Inr (), snd (drop_texture th kind (u_id u) s)))"

section \<open>Moderation\<close>

definition admin_delete_texture :: "texture_host \<Rightarrow> texture_kind \<Rightarrow> string \<Rightarrow> bool texture_handler" where
  "admin_delete_texture th kind user_id s =
     (case ho_parse_uuid (th_host th) user_id of
        None \<Rightarrow> (Inl (BadRequest ''invalid user id''), s)
      | Some x \<Rightarrow> let (removed, s') = drop_texture th kind x s in (Inr removed, s'))"

text \<open>\<^verbatim>\<open>ILIKE\<close> over ASCII; the search text goes into the pattern as it is.\<close>

definition ilike :: "string \<Rightarrow> string \<Rightarrow> bool" where
  "ilike pattern t \<longleftrightarrow> like (to_ascii_lowercase pattern) (to_ascii_lowercase t)"

definition texture_hit :: "texture_kind \<Rightarrow> string \<Rightarrow> user_texture \<Rightarrow> bool" where
  "texture_hit kind search r \<longleftrightarrow> ut_kind r = kind_as_str kind
     \<and> (search = [] \<or> ilike (''%'' @ search @ ''%'') (ut_username r)
        \<or> ilike (''%'' @ search @ ''%'') (ut_profile_uuid r))"

definition admin_list ::
  "texture_kind \<Rightarrow> string \<Rightarrow> int \<Rightarrow> int \<Rightarrow> texture_store \<Rightarrow> user_texture list app_result" where
  "admin_list kind search max_rows offset s =
     (if offset < 0 then Inl (Database OutOfRange)
      else Inr (limit max_rows (drop (nat offset)
        (newest_first ut_updated_at (filter (texture_hit kind search) (tx_rows s))))))"

definition admin_count :: "texture_kind \<Rightarrow> string \<Rightarrow> texture_store \<Rightarrow> nat" where
  "admin_count kind search s = sql_affected (texture_hit kind search) (tx_rows s)"

definition TEXTURE_PAGE_SIZE :: int where
  "TEXTURE_PAGE_SIZE = 20"

text \<open>\<^verbatim>\<open>i64\<close> arithmetic wraps in a release build.\<close>

definition list_textures ::
  "texture_kind \<Rightarrow> string option \<Rightarrow> int option \<Rightarrow> texture_store
    \<Rightarrow> (user_texture list \<times> int \<times> int \<times> int) app_result" where
  "list_textures kind q page s =
     (let search = unwrap_or [] q; page = max (unwrap_or 1 page) 1;
          offset = sint (word_of_int ((page - 1) * TEXTURE_PAGE_SIZE) :: 64 word) in
      (case admin_list kind search TEXTURE_PAGE_SIZE offset s of
         Inl e \<Rightarrow> Inl e
       | Inr rows \<Rightarrow>
           let n = int (admin_count kind search s) in
           Inr (rows, page, n, if n > 0 then (n + TEXTURE_PAGE_SIZE - 1) div TEXTURE_PAGE_SIZE else 0)))"

definition admin_fetch_all :: "texture_kind \<Rightarrow> texture_store \<Rightarrow> user_texture list app_result" where
  "admin_fetch_all kind s = admin_list kind [] (2 ^ 63 - 1) 0 s"

definition metadata_ok :: "texture_host \<Rightarrow> fs \<Rightarrow> path \<Rightarrow> bool" where
  "metadata_ok th fs p \<longleftrightarrow> path_exists fs p \<and> io_ok (ho_io (th_host th)) (Stat p)"

definition collect_orphans :: "texture_host \<Rightarrow> texture_kind \<Rightarrow> texture_store \<Rightarrow> user_texture list app_result" where
  "collect_orphans th kind s =
     (case admin_fetch_all kind s of
        Inl e \<Rightarrow> Inl e
      | Inr rows \<Rightarrow> Inr (filter (\<lambda>r. \<not> metadata_ok th (tx_disk s) (text_path (ut_file_path r))) rows))"

definition orphans :: "texture_host \<Rightarrow> texture_store \<Rightarrow> (user_texture list \<times> user_texture list) app_result" where
  "orphans th s =
     (case (collect_orphans th SkinTexture s, collect_orphans th CapeTexture s) of
        (Inr skins, Inr capes) \<Rightarrow> Inr (skins, capes) | (Inl e, _) \<Rightarrow> Inl e | (_, Inl e) \<Rightarrow> Inl e)"

text \<open>The rows go, one statement each, with the identifier read back from its text; the files are not touched.\<close>

definition purge_row :: "texture_host \<Rightarrow> texture_kind \<Rightarrow> user_texture \<Rightarrow> nat \<times> texture_store \<Rightarrow> nat \<times> texture_store" where
  "purge_row th kind r acc =
     (case ho_parse_uuid (th_host th) (ho_uuid_text (th_host th) (ut_user_id r)) of
        None \<Rightarrow> acc
      | Some x \<Rightarrow> (fst acc + 1, snd (delete_by_user kind x (snd acc))))"

definition purge_kind :: "texture_host \<Rightarrow> texture_kind \<Rightarrow> nat texture_handler" where
  "purge_kind th kind s =
     (case collect_orphans th kind s of
        Inl e \<Rightarrow> (Inl e, s)
      | Inr rows \<Rightarrow> let (purged, s') = fold (purge_row th kind) rows (0, s) in (Inr purged, s'))"

definition purge_missing :: "texture_host \<Rightarrow> (nat \<times> nat) texture_handler" where
  "purge_missing th s =
     (case purge_kind th SkinTexture s of
        (Inl e, s1) \<Rightarrow> (Inl e, s1)
      | (Inr skins, s1) \<Rightarrow>
          (case purge_kind th CapeTexture s1 of
             (Inl e, s2) \<Rightarrow> (Inl e, s2)
           | (Inr capes, s2) \<Rightarrow> (Inr (skins, capes), s2)))"

section \<open>Stored paths\<close>

definition plain_segment :: "string \<Rightarrow> bool" where
  "plain_segment x \<longleftrightarrow> x \<noteq> [] \<and> x \<noteq> ''.'' \<and> slash \<notin> set x"

lemma text_path_text:
  assumes "list_all plain_segment p"
  shows "text_path (path_text p) = p"
proof (cases "p = []")
  case False
  with assms have "split_on slash (join_with slash p) = p"
    by (intro split_join_with) (auto simp: plain_segment_def list_all_iff)
  with assms show ?thesis by (auto simp: text_path_def path_text_def plain_segment_def list_all_iff intro!: filter_True)
qed (simp add: text_path_def path_text_def)

text \<open>A deployment whose storage root and drawn revision are free of separators.\<close>

definition plain_host :: "texture_host \<Rightarrow> bool" where
  "plain_host th \<longleftrightarrow> list_all plain_segment (th_root th) \<and> slash \<notin> set (revision_hex (ho_env (th_host th)))"

lemma plain_new_path:
  assumes "plain_host th" "slash \<notin> set profile_uuid"
  shows "list_all plain_segment (new_path th kind profile_uuid)" "new_path th kind profile_uuid \<noteq> []"
  using assms by (cases kind; simp add: plain_host_def new_path_def texture_disk_path_def plain_segment_def)+

section \<open>The disk\<close>

lemma write_file_stat:
  assumes "write_file io p bytes fs = (r, fs')"
  shows "stat fs q = Some (Regular c) \<Longrightarrow> q \<noteq> p \<Longrightarrow> stat fs' q = Some (Regular c)"
    and "r = Inr u \<Longrightarrow> stat fs' p = Some (Regular bytes)"
proof -
  obtain r1 fs1 where d: "create_dir_all io (butlast p) fs = (r1, fs1)" by fastforce
  note keep = stat_create_dir_all [OF d, of q]
  show "stat fs q = Some (Regular c) \<Longrightarrow> q \<noteq> p \<Longrightarrow> stat fs' q = Some (Regular c)"
    using assms keep d by (cases r1) (auto simp: write_file_def write_path_def stat_put split: if_splits)
  show "r = Inr u \<Longrightarrow> stat fs' p = Some (Regular bytes)"
    using assms d by (cases r1) (auto simp: write_file_def write_path_def stat_put split: if_splits)
qed

lemma fs_wf_write_file: "write_file io p bytes fs = (r, fs') \<Longrightarrow> fs_wf fs \<Longrightarrow> fs_wf fs'"
  by (auto simp: write_file_def split: prod.splits sum.splits dest: fs_wf_create_dir_all fs_wf_write_path)

lemma stat_unlink_quiet: "q \<noteq> p \<Longrightarrow> stat (unlink_quiet io p fs) q = stat fs q"
  by (cases "p = []") (auto simp: unlink_quiet_def remove_file_def stat_drop split: option.split entry.split)

lemma fs_wf_unlink_quiet: "fs_wf fs \<Longrightarrow> fs_wf (unlink_quiet io p fs)"
  using fs_wf_remove_file [of io p fs] by (cases "remove_file io p fs") (simp add: unlink_quiet_def)

section \<open>Registry and disk agree\<close>

text \<open>
  One row per user and kind, no file shared between rows, every row's owner exists, skins and only
  skins carry a variant, and behind every row lies a file.
\<close>

definition backed :: "fs \<Rightarrow> user_texture \<Rightarrow> bool" where
  "backed fs r \<longleftrightarrow> (case stat fs (text_path (ut_file_path r)) of Some (Regular _) \<Rightarrow> True | _ \<Rightarrow> False)"

abbreviation texture_key :: "user_texture \<Rightarrow> uuid \<times> string" where
  "texture_key r \<equiv> (ut_user_id r, ut_kind r)"

abbreviation texture_file :: "user_texture \<Rightarrow> path" where
  "texture_file r \<equiv> text_path (ut_file_path r)"

definition texture_rows_wf :: "user list \<Rightarrow> user_texture list \<Rightarrow> bool" where
  "texture_rows_wf us rows \<longleftrightarrow> unique_index always texture_key rows \<and> unique_index always texture_file rows
     \<and> fk ut_user_id (map u_id us) rows \<and> list_all (\<lambda>r. variant_fits r \<and> kind_parse (ut_kind r) \<noteq> None) rows"

definition textures_wf :: "texture_store \<Rightarrow> bool" where
  "textures_wf s \<longleftrightarrow> fs_wf (tx_disk s) \<and> texture_rows_wf (tx_users s) (tx_rows s)
     \<and> list_all (backed (tx_disk s)) (tx_rows s)"

lemma texture_at_key: "texture_at x kind r \<longleftrightarrow> texture_key r = (x, kind_as_str kind)"
  by (auto simp: texture_at_def)

lemma kind_parse_str [simp]: "kind_parse (kind_as_str kind) = Some kind"
  by (cases kind) (simp_all add: kind_parse_def)

lemma kind_as_str_eq [simp]: "kind_as_str k = kind_as_str kind \<longleftrightarrow> k = kind"
  by (cases k; cases kind) simp_all

lemma backed_iff: "backed fs r \<longleftrightarrow> (\<exists>c. stat fs (texture_file r) = Some (Regular c))"
  by (auto simp: backed_def split: option.split entry.split)

lemma rewritten_simps [simp]:
  "ut_user_id (rewritten new r) = ut_user_id r" "ut_kind (rewritten new r) = ut_kind r"
  "ut_file_path (rewritten new r) = ut_file_path new" "ut_variant (rewritten new r) = ut_variant new"
  by (simp_all add: rewritten_def)

lemma texture_row_simps [simp]:
  "ut_user_id (texture_row env u kind profile_uuid p file variant) = u_id u"
  "ut_kind (texture_row env u kind profile_uuid p file variant) = kind_as_str kind"
  "ut_file_path (texture_row env u kind profile_uuid p file variant) = path_text p"
  by (simp_all add: texture_row_def)

text \<open>An upsert that succeeds touches the row of its key only.\<close>

lemma upsert_texture_effect:
  assumes "upsert_texture new s = Inr s'"
  shows "tx_users s' = tx_users s" "tx_disk s' = tx_disk s" "variant_fits new"
    and "r \<in> set (tx_rows s') \<Longrightarrow> texture_key r = texture_key new \<and> ut_file_path r = ut_file_path new
      \<or> r \<in> set (tx_rows s) \<and> texture_key r \<noteq> texture_key new"
    and "\<exists>r. sql_find (\<lambda>r. texture_key r = texture_key new) (tx_rows s') = Some r \<and> ut_file_path r = ut_file_path new"
proof -
  let ?here = "\<lambda>r. ut_user_id r = ut_user_id new \<and> ut_kind r = ut_kind new"
  have s': "s' = s\<lparr>tx_rows := (if sql_exists ?here (tx_rows s) then sql_update ?here (rewritten new) (tx_rows s)
                               else tx_rows s @ [new])\<rparr>"
    and fits: "variant_fits new"
    using assms by (auto simp: upsert_texture_def Let_def split: if_splits)
  show "tx_users s' = tx_users s" "tx_disk s' = tx_disk s" "variant_fits new" using fits by (simp_all add: s')
  show only: "texture_key r = texture_key new \<and> ut_file_path r = ut_file_path new
      \<or> r \<in> set (tx_rows s) \<and> texture_key r \<noteq> texture_key new" if "r \<in> set (tx_rows s')" for r
    using that by (auto simp: s' set_sql_update sql_exists_iff split: if_splits)
  have "\<exists>r \<in> set (tx_rows s'). texture_key r = texture_key new"
  proof (cases "sql_exists ?here (tx_rows s)")
    case True
    then obtain r where "r \<in> set (tx_rows s)" "?here r" by (auto simp: sql_exists_iff)
    with True show ?thesis
      by (auto simp: s' set_sql_update intro!: bexI [of _ "rewritten new r"] image_eqI [of _ _ r])
  qed (simp add: s')
  then obtain r where r: "sql_find (\<lambda>r. texture_key r = texture_key new) (tx_rows s') = Some r"
    using sql_find_SomeI [of _ "tx_rows s'" "\<lambda>r. texture_key r = texture_key new"] by blast
  with sql_find_SomeD [OF r] only [of r]
  show "\<exists>r. sql_find (\<lambda>r. texture_key r = texture_key new) (tx_rows s') = Some r \<and> ut_file_path r = ut_file_path new"
    by blast
qed

lemma texture_rows_wf_upsert:
  assumes "upsert_texture new s = Inr s'" "texture_rows_wf (tx_users s) (tx_rows s)"
    and "\<And>r. r \<in> set (tx_rows s) \<Longrightarrow> texture_file r \<noteq> texture_file new" "kind_parse (ut_kind new) \<noteq> None"
  shows "texture_rows_wf (tx_users s') (tx_rows s')"
proof -
  let ?here = "\<lambda>r. ut_user_id r = ut_user_id new \<and> ut_kind r = ut_kind new"
  note wf = assms(2) [unfolded texture_rows_wf_def]
  have us: "tx_users s' = tx_users s" and fits: "variant_fits new"
    using upsert_texture_effect [OF assms(1)] by simp_all
  show ?thesis
  proof (cases "sql_exists ?here (tx_rows s)")
    case True
    then have rows: "tx_rows s' = sql_update ?here (rewritten new) (tx_rows s)"
      using assms(1) by (auto simp: upsert_texture_def Let_def split: if_splits)
    have key: "?here = (\<lambda>r. texture_key r = texture_key new)" by auto
    have free: "\<not> sql_exists (\<lambda>r. texture_key r \<noteq> texture_key new \<and> texture_file r = texture_file new) (tx_rows s)"
      using assms(3) by (auto simp: sql_exists_iff)
    have "unique_index always texture_file (tx_rows s')"
      unfolding rows key by (rule unique_index_new_value [OF _ _ _ free]) (use wf in simp_all)
    moreover have "variant_fits (rewritten new r)" if "?here r" for r
      using fits that by (simp add: variant_fits_def)
    ultimately show ?thesis
      using wf unfolding texture_rows_wf_def us
      by (auto simp: rows list_all_iff set_sql_update intro!: unique_index_update fk_update)
  next
    case False
    then have "tx_rows s' = tx_rows s @ [new]" "ut_user_id new \<in> set (map u_id (tx_users s))"
      using assms(1) by (auto simp: upsert_texture_def Let_def split: if_splits)
    with wf fits False assms(3,4) show ?thesis
      unfolding texture_rows_wf_def us by (auto simp: unique_violation_def sql_exists_iff fk_def)
  qed
qed

lemma list_all_backed_unlink:
  assumes "list_all (backed fs) rows" "\<And>r. r \<in> set rows \<Longrightarrow> texture_file r \<noteq> p"
  shows "list_all (backed (unlink_quiet io p fs)) rows"
  using assms by (auto simp: list_all_iff backed_iff stat_unlink_quiet)

lemma textures_wf_unlink:
  assumes "textures_wf s" "\<And>r. r \<in> set (tx_rows s) \<Longrightarrow> texture_file r \<noteq> text_path t"
  shows "textures_wf (unlink_texture th t s)"
  using assms by (simp add: textures_wf_def unlink_texture_def fs_wf_unlink_quiet list_all_backed_unlink)

lemma textures_wf_delete_rows:
  assumes "textures_wf s"
  shows "textures_wf (s\<lparr>tx_rows := sql_delete p (tx_rows s)\<rparr>)"
  using assms by (auto simp: textures_wf_def texture_rows_wf_def)

lemma textures_wf_drop:
  assumes "textures_wf s"
  shows "textures_wf (snd (drop_texture th kind x s))"
proof (cases "sql_find (texture_at x kind) (tx_rows s)")
  case (Some r)
  note r = sql_find_SomeD [OF Some]
  have "texture_file r' \<noteq> texture_file r" if "r' \<in> set (tx_rows s)" "\<not> texture_at x kind r'" for r'
    using unique_indexD [of always texture_file "tx_rows s" r' r] assms r that
    by (auto simp: textures_wf_def texture_rows_wf_def)
  then show ?thesis
    using textures_wf_delete_rows [OF assms]
    by (auto simp: drop_texture_def delete_by_user_def Some intro!: textures_wf_unlink)
qed (simp add: drop_texture_def delete_by_user_def textures_wf_delete_rows assms)

lemma textures_wf_written:
  assumes "textures_wf s" "write_file io p file (tx_disk s) = (r, fs)" "\<And>r. r \<in> set (tx_rows s) \<Longrightarrow> texture_file r \<noteq> p"
  shows "textures_wf (s\<lparr>tx_disk := fs\<rparr>)"
  using assms fs_wf_write_file [OF assms(2)] write_file_stat(1) [OF assms(2)]
  by (auto simp: textures_wf_def list_all_iff backed_iff)

text \<open>The row that names the new file, stored, and the old file gone.\<close>

lemma textures_wf_upsert:
  assumes "textures_wf s" "upsert_texture new s = Inr s'" "kind_parse (ut_kind new) \<noteq> None"
    and "stat (tx_disk s) (texture_file new) = Some (Regular file)" "\<And>r. r \<in> set (tx_rows s) \<Longrightarrow> texture_file r \<noteq> texture_file new"
  shows "textures_wf s'"
    and "sql_find (\<lambda>r. texture_key r = texture_key new) (tx_rows s) = Some old \<Longrightarrow> textures_wf (unlink_texture th (ut_file_path old) s')"
proof -
  note effect = upsert_texture_effect [OF assms(2)]
  have "backed (tx_disk s') r" if "r \<in> set (tx_rows s')" for r
    using effect(4) [OF that] assms(1,4) by (auto simp: effect(2) backed_iff textures_wf_def list_all_iff)
  with assms(1) texture_rows_wf_upsert [OF assms(2) _ assms(5,3)] show wf: "textures_wf s'"
    by (simp add: textures_wf_def effect(2) list_all_iff)
  assume "sql_find (\<lambda>r. texture_key r = texture_key new) (tx_rows s) = Some old"
  note old = sql_find_SomeD [OF this]
  have "texture_file r \<noteq> texture_file old" if "r \<in> set (tx_rows s')" for r
  proof -
    have "texture_file r = texture_file new \<or> r \<in> set (tx_rows s) \<and> r \<noteq> old"
      using effect(4) [OF that] old(2) by auto
    then show ?thesis
      using assms(1,5) old(1) unique_indexD [of always texture_file "tx_rows s" r old]
      by (metis textures_wf_def texture_rows_wf_def)
  qed
  with wf show "textures_wf (unlink_texture th (ut_file_path old) s')" by (intro textures_wf_unlink)
qed

text \<open>No row names the file that the next upload writes.\<close>

definition fresh_file :: "texture_host \<Rightarrow> texture_kind \<Rightarrow> string \<Rightarrow> texture_store \<Rightarrow> bool" where
  "fresh_file th kind profile_uuid s \<longleftrightarrow> list_all (\<lambda>r. texture_file r \<noteq> new_path th kind profile_uuid) (tx_rows s)"

lemma store_texture_cases:
  assumes "store_texture th u kind profile_uuid file variant s = (r, s')"
  obtains (failed) e r1 fs where "write_file (ho_io (th_host th)) (new_path th kind profile_uuid) file (tx_disk s) = (r1, fs)"
      "r = Inl e" "s' = s\<lparr>tx_disk := fs\<rparr>"
  | (stored) fs s2 where "write_file (ho_io (th_host th)) (new_path th kind profile_uuid) file (tx_disk s) = (Inr (), fs)"
      "upsert_texture (texture_row (ho_env (th_host th)) u kind profile_uuid (new_path th kind profile_uuid) file variant)
         (s\<lparr>tx_disk := fs\<rparr>) = Inr s2" "r = Inr ()"
      "s' = (case map_option ut_file_path (sql_find (texture_at (u_id u) kind) (tx_rows s)) of
               Some old \<Rightarrow> if old \<noteq> path_text (new_path th kind profile_uuid) then unlink_texture th old s2 else s2
             | None \<Rightarrow> s2)"
proof -
  obtain r1 fs where w: "write_file (ho_io (th_host th)) (new_path th kind profile_uuid) file (tx_disk s) = (r1, fs)"
    by fastforce
  show ?thesis
  proof (cases r1)
    case (Inl e)
    with assms w show ?thesis by (intro failed [of r1 fs]) (auto simp: store_texture_def Let_def)
  next
    case (Inr x)
    show ?thesis
    proof (cases "upsert_texture (texture_row (ho_env (th_host th)) u kind profile_uuid (new_path th kind profile_uuid) file variant)
         (s\<lparr>tx_disk := fs\<rparr>)")
      case (Inl e)
      with assms w Inr show ?thesis by (intro failed [of r1 fs]) (auto simp: store_texture_def Let_def)
    next
      case (Inr s2)
      with assms w \<open>r1 = Inr x\<close> show ?thesis by (intro stored [of fs s2]) (auto simp: store_texture_def Let_def)
    qed
  qed
qed

lemma textures_wf_store:
  assumes "store_texture th u kind profile_uuid file variant s = (r, s')" "textures_wf s"
    and "plain_host th" "slash \<notin> set profile_uuid" "fresh_file th kind profile_uuid s"
  shows "textures_wf s'"
proof -
  let ?p = "new_path th kind profile_uuid"
  have p: "text_path (path_text ?p) = ?p" using plain_new_path [OF assms(3,4)] by (simp add: text_path_text)
  have fresh: "texture_file r \<noteq> ?p" if "r \<in> set (tx_rows s)" for r
    using assms(5) that by (simp add: fresh_file_def list_all_iff)
  from assms(1) show ?thesis
  proof (cases rule: store_texture_cases)
    case (failed e r1 fs)
    with textures_wf_written [OF assms(2) failed(1) fresh] show ?thesis by simp
  next
    case (stored fs s2)
    have written: "textures_wf (s\<lparr>tx_disk := fs\<rparr>)" by (rule textures_wf_written [OF assms(2) stored(1) fresh])
    have at: "texture_at (u_id u) kind = (\<lambda>r. texture_key r = (u_id u, kind_as_str kind))"
      by (simp add: fun_eq_iff texture_at_key)
    have disk: "stat fs ?p = Some (Regular file)" using write_file_stat(2) [OF stored(1)] by simp
    have upsert: "textures_wf s2" "sql_find (texture_at (u_id u) kind) (tx_rows s) = Some old
        \<Longrightarrow> textures_wf (unlink_texture th (ut_file_path old) s2)" for old
      using textures_wf_upsert [OF written stored(2), of "file"] fresh by (simp_all add: p disk at)
    show ?thesis
      using upsert by (auto simp: stored(4) split: option.split)
  qed
qed

lemma upload_texture_cases:
  assumes "upload_texture th t u form s = (r, s')"
  obtains (refused) e where "r = Inl e" "s' = s"
  | (accepted) kind bytes variant profile_uuid where "kind_parse t = Some kind"
      "accepted_texture kind form = Inr (bytes, variant)" "u_profile_uuid u = Some profile_uuid"
      "store_texture th u kind profile_uuid bytes variant s = (r, s')"
  using assms by (auto simp: upload_texture_def split: option.splits sum.splits)

lemma purge_rows_invariant:
  assumes "P (snd acc)" "\<And>kind x s. P s \<Longrightarrow> P (snd (delete_by_user kind x s))"
  shows "P (snd (fold (purge_row th kind) rows acc))"
  using assms(1) by (induction rows arbitrary: acc) (auto simp: purge_row_def assms(2) split: option.split)

lemma purge_missing_invariant:
  assumes "P s" "\<And>kind x s. P s \<Longrightarrow> P (snd (delete_by_user kind x s))"
  shows "P (snd (purge_missing th s))"
proof -
  have kind: "P (snd (purge_kind th kind s'))" if "P s'" for kind s'
    using purge_rows_invariant [of P "(0, s')", OF _ assms(2)] that
    by (auto simp: purge_kind_def Let_def split_beta split: sum.split)
  show ?thesis
    using kind [OF assms(1), of SkinTexture] kind [of "snd (purge_kind th SkinTexture s)" CapeTexture]
    by (auto simp: purge_missing_def split: sum.split prod.split)
qed

text \<open>
  C23. The registry of skins and capes and the files below the storage root stay in step: after any
  upload, deletion, moderation or purge, successful or not, each row still names a file of its own
  that exists, no user has two rows of a kind and skins alone carry a variant. Uploads assume a root
  and a revision free of separators, and a revision that no row of the profile names yet.
\<close>

theorem textures_stay_backed:
  assumes "textures_wf s" "plain_host th"
    and "\<And>kind profile_uuid. u_profile_uuid u = Some profile_uuid \<Longrightarrow>
           slash \<notin> set profile_uuid \<and> fresh_file th kind profile_uuid s"
  shows "textures_wf (snd (upload_texture th t u form s)) \<and> textures_wf (snd (delete_texture th t u s))
    \<and> textures_wf (snd (admin_delete_texture th kind user_id s)) \<and> textures_wf (snd (purge_missing th s))"
proof (intro conjI)
  show "textures_wf (snd (upload_texture th t u form s))"
  proof (cases rule: upload_texture_cases [OF surjective_pairing, of th t u form s])
    case (2 kind bytes variant profile_uuid)
    with textures_wf_store [OF 2(4) assms(1,2)] assms(3) show ?thesis by blast
  qed (simp add: assms(1))
  show "textures_wf (snd (delete_texture th t u s))"
    using assms(1) by (auto simp: delete_texture_def textures_wf_drop split: option.split)
  show "textures_wf (snd (admin_delete_texture th kind user_id s))"
    using assms(1) textures_wf_drop [of s th kind]
    by (auto simp: admin_delete_texture_def split: option.split prod.split) (metis snd_conv)
  show "textures_wf (snd (purge_missing th s))"
    by (rule purge_missing_invariant [of textures_wf]) (simp_all add: assms(1) delete_by_user_def textures_wf_delete_rows)
qed

section \<open>What is served\<close>

lemma sql_find_key:
  assumes "unique_index always k rs" "r \<in> set rs" "k r = x"
  shows "sql_find (\<lambda>r. k r = x) rs = Some r"
proof -
  obtain r' where "sql_find (\<lambda>r. k r = x) rs = Some r'" using sql_find_SomeI [OF assms(2), of "\<lambda>r. k r = x"] assms(3) by blast
  with sql_find_SomeD [OF this] unique_indexD [OF assms(1), of r' r] assms(2,3) show ?thesis by auto
qed

lemma upsert_texture_other:
  assumes "upsert_texture new s = Inr s'" "x \<noteq> texture_key new"
  shows "sql_find (\<lambda>r. texture_key r = x) (tx_rows s') = sql_find (\<lambda>r. texture_key r = x) (tx_rows s)"
proof -
  have "sql_find (\<lambda>r. texture_key r = x) (sql_update (\<lambda>r. ut_user_id r = ut_user_id new \<and> ut_kind r = ut_kind new)
      (rewritten new) rs) = sql_find (\<lambda>r. texture_key r = x) rs" for rs
    using assms(2) by (induction rs) (auto simp: sql_find_def)
  moreover have "sql_find (\<lambda>r. texture_key r = x) (rs @ [new]) = sql_find (\<lambda>r. texture_key r = x) rs" for rs
    using assms(2) by (auto simp: sql_find_append split: option.split)
  ultimately show ?thesis using assms(1) by (auto simp: upsert_texture_def Let_def split: if_splits)
qed

text \<open>The lookups of a successful upload.\<close>

lemma store_texture_find:
  assumes "store_texture th u kind profile_uuid bytes variant s = (Inr x, s')" "textures_wf s"
    and "plain_host th" "slash \<notin> set profile_uuid" "fresh_file th kind profile_uuid s"
  shows "tx_users s' = tx_users s"
    and "\<exists>r. sql_find (texture_at (u_id u) kind) (tx_rows s') = Some r \<and> texture_file r = new_path th kind profile_uuid"
    and "stat (tx_disk s') (new_path th kind profile_uuid) = Some (Regular bytes)"
    and "(y, k) \<noteq> (u_id u, kind) \<Longrightarrow> sql_find (texture_at y k) (tx_rows s') = sql_find (texture_at y k) (tx_rows s)"
    and "r \<in> set (tx_rows s) \<Longrightarrow> texture_key r \<noteq> (u_id u, kind_as_str kind)
      \<Longrightarrow> stat (tx_disk s') (texture_file r) = stat (tx_disk s) (texture_file r)"
proof -
  let ?p = "new_path th kind profile_uuid"
  have p: "text_path (path_text ?p) = ?p" using plain_new_path [OF assms(3,4)] by (simp add: text_path_text)
  have fresh: "texture_file r \<noteq> ?p" if "r \<in> set (tx_rows s)" for r
    using assms(5) that by (simp add: fresh_file_def list_all_iff)
  have at: "texture_at y k = (\<lambda>r. texture_key r = (y, kind_as_str k))" for y k
    by (simp add: fun_eq_iff texture_at_key)
  from assms(1) obtain fs s2 where w: "write_file (ho_io (th_host th)) ?p bytes (tx_disk s) = (Inr (), fs)"
    and up: "upsert_texture (texture_row (ho_env (th_host th)) u kind profile_uuid ?p bytes variant) (s\<lparr>tx_disk := fs\<rparr>) = Inr s2"
    and s': "s' = (case map_option ut_file_path (sql_find (texture_at (u_id u) kind) (tx_rows s)) of
               Some old \<Rightarrow> if old \<noteq> path_text ?p then unlink_texture th old s2 else s2 | None \<Rightarrow> s2)"
    by (cases rule: store_texture_cases) auto
  note effect = upsert_texture_effect [OF up, simplified]
  have rows: "tx_rows s' = tx_rows s2" "tx_users s' = tx_users s2"
    by (simp_all add: s' unlink_texture_def split: option.split)
  show "tx_users s' = tx_users s" by (simp add: rows effect(1))
  show "\<exists>r. sql_find (texture_at (u_id u) kind) (tx_rows s') = Some r \<and> texture_file r = ?p"
    using effect(5) by (auto simp: rows at p)
  show "sql_find (texture_at y k) (tx_rows s') = sql_find (texture_at y k) (tx_rows s)" if "(y, k) \<noteq> (u_id u, kind)"
    unfolding at rows by (rule upsert_texture_other [OF up, simplified]) (use that in auto)
  have disk: "stat (tx_disk s') q = stat fs q"
    if "\<And>old. sql_find (texture_at (u_id u) kind) (tx_rows s) = Some old \<Longrightarrow> texture_file old \<noteq> q" for q
    using that by (auto simp: s' unlink_texture_def effect(2) stat_unlink_quiet split: option.split)
  have "stat (tx_disk s') ?p = stat fs ?p"
    by (rule disk) (metis fresh sql_find_SomeD(1))
  then show "stat (tx_disk s') ?p = Some (Regular bytes)" using write_file_stat(2) [OF w] by simp
  assume r: "r \<in> set (tx_rows s)" "texture_key r \<noteq> (u_id u, kind_as_str kind)"
  have "texture_file old \<noteq> texture_file r" if "sql_find (texture_at (u_id u) kind) (tx_rows s) = Some old" for old
    using sql_find_SomeD [OF that] r assms(2) unique_indexD [of always texture_file "tx_rows s" r old]
    by (auto simp: textures_wf_def texture_rows_wf_def at)
  with disk have "stat (tx_disk s') (texture_file r) = stat fs (texture_file r)" by blast
  moreover have "backed (tx_disk s) r" using assms(2) r(1) by (simp add: textures_wf_def list_all_iff)
  ultimately show "stat (tx_disk s') (texture_file r) = stat (tx_disk s) (texture_file r)"
    using write_file_stat(1) [OF w _ fresh [OF r(1)]] by (auto simp: backed_iff)
qed

text \<open>The account and the kind that an address of the read route names.\<close>

definition addressed :: "texture_store \<Rightarrow> string \<Rightarrow> string \<Rightarrow> (uuid \<times> texture_kind) option" where
  "addressed s uuid t =
     (case (kind_parse t, undash_uuid uuid) of
        (Some kind, Inr profile_uuid) \<Rightarrow> map_option (\<lambda>x. (x, kind)) (resolve_user_id s profile_uuid)
      | _ \<Rightarrow> None)"

lemma addressed_cong:
  assumes "tx_users s' = tx_users s"
  shows "addressed s' b k = addressed s b k"
proof -
  have eq: "resolve_user_id s' = resolve_user_id s" by (simp add: fun_eq_iff resolve_user_id_def assms)
  show ?thesis unfolding addressed_def eq by (rule refl)
qed

definition served_file :: "texture_host \<Rightarrow> texture_store \<Rightarrow> uuid \<times> texture_kind \<Rightarrow> string app_result" where
  "served_file th s a =
     (case sql_find (texture_at (fst a) (snd a)) (tx_rows s) of
        None \<Rightarrow> Inl (NotFound ''texture not found'')
      | Some r \<Rightarrow>
          (case read_path (ho_io (th_host th)) (texture_file r) (tx_disk s) of
             Inl e \<Rightarrow> Inl (NotFound ''texture file missing'') | Inr bytes \<Rightarrow> Inr bytes))"

lemma read_png_addressed: "addressed s uuid t = Some a \<Longrightarrow> read_png th s uuid t = served_file th s a"
  by (auto simp: addressed_def read_png_def served_file_def split: option.splits sum.splits)

lemma read_png_unaddressed:
  "addressed s uuid t = None \<Longrightarrow> tx_users s' = tx_users s \<Longrightarrow> read_png th s' uuid t = read_png th s uuid t"
  by (auto simp: addressed_def read_png_def resolve_user_id_def split: option.splits sum.splits)

lemma read_path_cong: "stat fs' p = stat fs p \<Longrightarrow> read_path io p fs' = read_path io p fs"
  by (simp add: read_path_def)

lemma served_file_other:
  assumes "store_texture th u kind profile_uuid bytes variant s = (Inr x, s')" "textures_wf s"
    and "plain_host th" "slash \<notin> set profile_uuid" "fresh_file th kind profile_uuid s" "a \<noteq> (u_id u, kind)"
  shows "served_file th s' a = served_file th s a"
proof -
  note store = store_texture_find [OF assms(1-5)]
  have find: "sql_find (texture_at (fst a) (snd a)) (tx_rows s') = sql_find (texture_at (fst a) (snd a)) (tx_rows s)"
    by (rule store(4)) (use assms(6) in simp)
  show ?thesis
  proof (cases "sql_find (texture_at (fst a) (snd a)) (tx_rows s)")
    case (Some r)
    have "texture_key r \<noteq> (u_id u, kind_as_str kind)"
      using sql_find_SomeD(2) [OF Some] assms(6) by (auto simp: texture_at_key prod_eq_iff)
    with sql_find_SomeD(1) [OF Some] have same: "stat (tx_disk s') (texture_file r) = stat (tx_disk s) (texture_file r)"
      by (rule store(5))
    show ?thesis by (simp add: served_file_def find Some read_path_cong [OF same])
  qed (simp add: served_file_def find)
qed

text \<open>
  C24. A texture that was uploaded is the one that is served: after a successful upload the read route
  of the account's profile identifier, in either spelling, answers with exactly the uploaded bytes,
  and every address that names another account or the other kind answers as it did before.
\<close>

theorem upload_then_read:
  assumes "upload_texture th t u form s = (Inr x, s')" "kind_parse t = Some kind"
    and "accepted_texture kind form = Inr (bytes, variant)" "addressed s uuid t = Some (u_id u, kind)"
    and "textures_wf s" "plain_host th" "u_profile_uuid u = Some profile_uuid" "slash \<notin> set profile_uuid"
    and "fresh_file th kind profile_uuid s" "io_ok (ho_io (th_host th)) (Read (new_path th kind profile_uuid))"
  shows "read_png th s' uuid t = Inr bytes
    \<and> (\<forall>uuid' t'. addressed s uuid' t' \<noteq> Some (u_id u, kind) \<longrightarrow> read_png th s' uuid' t' = read_png th s uuid' t')"
proof -
  have stored: "store_texture th u kind profile_uuid bytes variant s = (Inr x, s')"
    using assms(1-3,7) by (simp add: upload_texture_def)
  note store = store_texture_find [OF stored assms(5,6,8,9)]
  have same: "addressed s' b k = addressed s b k" for b k
    by (rule addressed_cong [OF store(1)])
  have "served_file th s' (u_id u, kind) = Inr bytes"
    using store(2,3) assms(10) by (auto simp: served_file_def read_path_def)
  then have "read_png th s' uuid t = Inr bytes"
    using assms(4) same by (simp add: read_png_addressed)
  moreover have "read_png th s' b k = read_png th s b k" if "addressed s b k \<noteq> Some (u_id u, kind)" for b k
  proof (cases "addressed s b k")
    case None
    then show ?thesis by (rule read_png_unaddressed) (rule store(1))
  next
    case (Some a)
    with that served_file_other [OF stored assms(5,6,8,9), of a] same [of b k] show ?thesis
      by (simp add: read_png_addressed)
  qed
  ultimately show ?thesis by blast
qed

section \<open>Sample\<close>

text \<open>An account with a skin of an earlier revision, and a second account with a cape.\<close>

definition demo_textures_host :: texture_host where
  "demo_textures_host =
     \<lparr>th_host = demo_host (\<lambda>_. Inl ''no archive''), th_root = [''t''], th_public_url = ''https://h/ygg''\<rparr>"

definition demo_profile :: "char \<Rightarrow> string" where
  "demo_profile c = replicate 32 c"

lemma demo_profile_plain: "slash \<notin> set (demo_profile CHR ''a'')"
  by (simp add: demo_profile_def)

definition demo_account :: "uuid \<Rightarrow> char \<Rightarrow> user" where
  "demo_account x c = (sample_user x ''steve'')\<lparr>u_profile_uuid := Some (demo_profile c)\<rparr>"

definition demo_row :: "uuid \<Rightarrow> texture_kind \<Rightarrow> char \<Rightarrow> user_texture" where
  "demo_row x kind c =
     texture_row sample_env (demo_account x c) kind (demo_profile c)
       (texture_disk_path [''t''] kind (demo_profile c) ''old'') ''png''
       (case kind of SkinTexture \<Rightarrow> Some ''SLIM'' | CapeTexture \<Rightarrow> None)"

definition demo_textures :: texture_store where
  "demo_textures =
     \<lparr>tx_users = [demo_account 1 CHR ''a'', demo_account 2 CHR ''b''],
      tx_rows = [demo_row 1 SkinTexture CHR ''a'', demo_row 2 CapeTexture CHR ''b''],
      tx_disk = [([''t''], Directory), ([''t'', ''skins''], Directory), ([''t'', ''capes''], Directory),
        (texture_disk_path [''t''] SkinTexture (demo_profile CHR ''a'') ''old'', Regular ''first''),
        (texture_disk_path [''t''] CapeTexture (demo_profile CHR ''b'') ''old'', Regular ''cape'')]\<rparr>"

definition demo_png :: string where
  "demo_png = map (\<lambda>b. char_of (unat b)) (png_header 64 64)"

definition demo_form :: multipart where
  "demo_form = [Inr \<lparr>uf_name = Some ''file'', uf_file_name = None, uf_chunks = [Inr demo_png]\<rparr>]"

lemma demo_textures_wf: "textures_wf demo_textures"
  by code_simp

lemma demo_textures_fresh: "fresh_file demo_textures_host kind (demo_profile CHR ''a'') demo_textures"
proof -
  have "list_all (\<lambda>k. fresh_file demo_textures_host k (demo_profile CHR ''a'') demo_textures) [SkinTexture, CapeTexture]"
    by code_simp
  then show ?thesis by (cases kind) simp_all
qed

lemma bytes_of_chars: "bytes_of (map (\<lambda>b. char_of (unat b)) bs) = bs"
proof -
  have "of_char (char_of (unat b) :: char) = b" for b :: byte
    using of_nat_of_char [of "char_of (unat b)", symmetric, where 'a = "8 word"] unsigned_less [of b, where 'a = nat]
    by (simp add: mod_less)
  then show ?thesis by (simp add: bytes_of_def comp_def map_idI)
qed

lemma demo_form_accepted: "accepted_texture SkinTexture demo_form = Inr (demo_png, Some ''CLASSIC'')"
proof -
  have "length demo_png = 24" by (simp add: demo_png_def png_header_def PNG_SIGNATURE_def IHDR_TYPE_def to_be_bytes_def)
  then have "read_capped_upload MAX_TEXTURE_BYTES ''variant'' (None, None) demo_form = Inr (Some demo_png, None)"
    by (simp add: demo_form_def MAX_TEXTURE_BYTES_def)
  moreover have "validate_skin (bytes_of demo_png) = Inr (64, 64)"
    using parse_png_header_iff [of "png_header 64 64" 64 64]
    by (simp add: demo_png_def bytes_of_chars validate_skin_def validate_png_def)
  ultimately show ?thesis by (simp add: accepted_texture_def variant_str_def unwrap_or_def)
qed

lemma demo_textures_stored:
  "fst (store_texture demo_textures_host (demo_account 1 CHR ''a'') SkinTexture (demo_profile CHR ''a'') bytes (Some ''CLASSIC'')
     demo_textures) = Inr ()"
  by code_simp

lemma demo_textures_upload:
  "fst (upload_texture demo_textures_host ''skin'' (demo_account 1 CHR ''a'') demo_form demo_textures) = Inr ()"
  "addressed demo_textures (demo_profile CHR ''a'') ''skin'' = Some (1, SkinTexture)"
  "plain_host demo_textures_host"
proof -
  have "u_profile_uuid (demo_account 1 CHR ''a'') = Some (demo_profile CHR ''a'')" by (simp add: demo_account_def)
  then show "fst (upload_texture demo_textures_host ''skin'' (demo_account 1 CHR ''a'') demo_form demo_textures) = Inr ()"
    by (simp add: upload_texture_def kind_parse_def demo_form_accepted demo_textures_stored)
  show "addressed demo_textures (demo_profile CHR ''a'') ''skin'' = Some (1, SkinTexture)" by code_simp
  show "plain_host demo_textures_host" by code_simp
qed

theorem textures_stay_backed_witness:
  "textures_wf (snd (upload_texture demo_textures_host ''skin'' (demo_account 1 CHR ''a'') demo_form demo_textures))
    \<and> textures_wf (snd (delete_texture demo_textures_host ''skin'' (demo_account 1 CHR ''a'') demo_textures))
    \<and> textures_wf (snd (admin_delete_texture demo_textures_host CapeTexture ''2'' demo_textures))
    \<and> textures_wf (snd (purge_missing demo_textures_host demo_textures))"
  by (rule textures_stay_backed [OF demo_textures_wf demo_textures_upload(3)])
    (auto simp: demo_account_def demo_textures_fresh demo_profile_plain)

theorem upload_then_read_witness:
  "\<exists>s'. read_png demo_textures_host s' (demo_profile CHR ''a'') ''skin'' = Inr demo_png
    \<and> (\<forall>uuid' t'. addressed demo_textures uuid' t' \<noteq> Some (u_id (demo_account 1 CHR ''a''), SkinTexture)
        \<longrightarrow> read_png demo_textures_host s' uuid' t' = read_png demo_textures_host demo_textures uuid' t')"
proof -
  obtain r s' where up: "upload_texture demo_textures_host ''skin'' (demo_account 1 CHR ''a'') demo_form demo_textures = (r, s')"
    by fastforce
  with demo_textures_upload(1) have "r = Inr ()" by simp
  note result = up [unfolded this]
  show ?thesis
    by (rule exI, rule upload_then_read [OF result _ demo_form_accepted _ demo_textures_wf demo_textures_upload(3) _ _ demo_textures_fresh])
      (simp_all add: kind_parse_def demo_textures_upload demo_profile_plain demo_account_def sample_user_def demo_textures_host_def
        demo_host_def working_def)
qed

end
