(* ===== verification/Request_Log.thy ===== *)
theory Request_Log
  imports Client_Ip Cleanup Config_Env "HOL-Library.Sublist" "HOL-Library.Multiset"
begin

text \<open>
  \<^verbatim>\<open>core/src/request_log.rs\<close> and \<^verbatim>\<open>server/src/request_log_capture.rs\<close>: every served request leaves
  a record in a ring of the latest ones and, through a bounded channel, in the table
  \<^verbatim>\<open>request_logs\<close> (migration 0012), which one background task fills in batches. The channel is the
  queue of the records not received yet; the task and everything that touches the table are steps of
  a relation.
\<close>

section \<open>Records\<close>

record request_log =
  rl_ts :: timestamp
  rl_method :: string
  rl_path :: string
  rl_status :: int
  rl_latency_ms :: int
  rl_user_id :: "uuid option"
  rl_auth_kind :: string
  rl_ip :: "string option"
  rl_user_agent :: "string option"
  rl_bytes_out :: "int option"

record log_row =
  lr_id :: int
  lr_log :: request_log

text \<open>The table and the next value of its \<^verbatim>\<open>BIGSERIAL\<close>.\<close>

record log_table =
  lt_rows :: "log_row list"
  lt_next :: int

definition RING_CAPACITY :: nat where
  "RING_CAPACITY = 500"

definition CHANNEL_CAPACITY :: nat where
  "CHANNEL_CAPACITY = 4096"

definition BATCH_MAX :: nat where
  "BATCH_MAX = 256"

section \<open>Who made a request\<close>

text \<open>The write-once slot of the extractor.\<close>

definition slot_set :: "resolved_principal \<Rightarrow> resolved_principal option \<Rightarrow> resolved_principal option" where
  "slot_set p slot = (case slot of None \<Rightarrow> Some p | Some q \<Rightarrow> Some q)"

definition resolve_principal :: "env \<Rightarrow> (string \<Rightarrow> string option) \<Rightarrow> string \<Rightarrow> db \<Rightarrow> resolved_principal" where
  "resolve_principal env headers cookie_name d =
     (case session_token_from_headers headers cookie_name of
        None \<Rightarrow> anon_principal
      | Some token \<Rightarrow>
          (case user_of_hash env (hash_token env token) d of
             None \<Rightarrow> anon_principal
           | Some u \<Rightarrow> \<lparr>rp_user_id = Some (u_id u), rp_auth_kind = (if u_is_admin u then ''admin'' else ''session'')\<rparr>))"

section \<open>The sink\<close>

record log_sink =
  sk_ring :: "request_log list"
  sk_queue :: "request_log list"

definition push_ring :: "request_log \<Rightarrow> request_log list \<Rightarrow> request_log list" where
  "push_ring log ring = (if length ring = RING_CAPACITY then tl ring else ring) @ [log]"

text \<open>\<^verbatim>\<open>try_send\<close>: a full channel refuses the record, and the record is dropped.\<close>

definition try_send :: "request_log \<Rightarrow> request_log list \<Rightarrow> request_log list" where
  "try_send log queue = (if length queue < CHANNEL_CAPACITY then queue @ [log] else queue)"

text \<open>The lock covers the push alone: the two halves of \<^verbatim>\<open>record\<close> are steps of their own.\<close>

definition push_log :: "request_log \<Rightarrow> log_sink \<Rightarrow> log_sink" where
  "push_log log sink = sink\<lparr>sk_ring := push_ring log (sk_ring sink)\<rparr>"

definition send_log :: "request_log \<Rightarrow> log_sink \<Rightarrow> log_sink" where
  "send_log log sink = sink\<lparr>sk_queue := try_send log (sk_queue sink)\<rparr>"

definition record_log :: "request_log \<Rightarrow> log_sink \<Rightarrow> log_sink" where
  "record_log log sink = send_log log (push_log log sink)"

definition recent_logs :: "nat \<Rightarrow> log_sink \<Rightarrow> request_log list" where
  "recent_logs n sink = take n (rev (sk_ring sink))"

definition numbered :: "int \<Rightarrow> request_log list \<Rightarrow> log_row list" where
  "numbered start batch = map (\<lambda>(k, log). \<lparr>lr_id = start + int k, lr_log = log\<rparr>) (enumerate 0 batch)"

text \<open>
  One statement for the whole batch: a record that names an account that is gone fails all of it,
  and the numbers it drew are spent.
\<close>

definition insert_batch :: "uuid list \<Rightarrow> request_log list \<Rightarrow> log_table \<Rightarrow> (db_error + unit) \<times> log_table" where
  "insert_batch accounts batch t =
     (if batch = [] then (Inr (), t)
      else
        let t1 = t\<lparr>lt_next := lt_next t + int (length batch)\<rparr> in
        if fk_opt rl_user_id accounts batch
        then (Inr (), t1\<lparr>lt_rows := lt_rows t @ numbered (lt_next t) batch\<rparr>)
        else (Inl (ForeignKeyViolation ''request_logs_user_id_fkey''), t1))"

definition delete_request_logs_older_than :: "env \<Rightarrow> int \<Rightarrow> log_table \<Rightarrow> nat app_result \<times> log_table" where
  "delete_request_logs_older_than env retention_days t =
     (if \<not> in_int4 retention_days then (Inl (Database OutOfRange), t)
      else
        let aged = (\<lambda>r. rl_ts (lr_log r) < cutoff env retention_days) in
        (Inr (sql_affected aged (lt_rows t)), t\<lparr>lt_rows := sql_delete aged (lt_rows t)\<rparr>))"

text \<open>\<^verbatim>\<open>ON DELETE SET NULL\<close>\<close>

definition forget_account :: "uuid \<Rightarrow> log_table \<Rightarrow> log_table" where
  "forget_account x t =
     t\<lparr>lt_rows := sql_update (\<lambda>r. rl_user_id (lr_log r) = Some x)
        (\<lambda>r. r\<lparr>lr_log := (lr_log r)\<lparr>rl_user_id := None\<rparr>\<rparr>) (lt_rows t)\<rparr>"

section \<open>Capture\<close>

definition is_excluded :: "string \<Rightarrow> bool" where
  "is_excluded p \<longleftrightarrow> p = ''/health'' \<or> p = ''/metrics'' \<or> p = ''/signaling'' \<or> starts_with ''/relay'' p"

definition content_length :: "(string \<Rightarrow> string option) \<Rightarrow> int option" where
  "content_length headers = Option.bind (headers ''content-length'') (parse_num True 64)"

definition header_string :: "(string \<Rightarrow> string option) \<Rightarrow> string \<Rightarrow> string option" where
  "header_string headers name =
     Option.bind (headers name) (\<lambda>v. if v = [] then None else Some v)"

record http_response =
  hr_status :: nat
  hr_header :: "string \<Rightarrow> string option"

record served_request =
  sr_matched :: "string option"
  sr_path :: string
  sr_request :: request
  sr_peer :: "ip_addr option"

text \<open>
  \<open>next\<close> is the rest of the service: its answer, what the extractor left in the slot, and the state
  after it; \<open>elapsed\<close> is the time it took in milliseconds and \<open>env\<close> the clock after it.
\<close>

definition capture ::
  "(string \<Rightarrow> ip_addr option) \<Rightarrow> (ip_addr \<Rightarrow> string) \<Rightarrow> bool \<Rightarrow> env \<Rightarrow> config \<Rightarrow> nat
    \<Rightarrow> (app_state \<Rightarrow> http_response \<times> resolved_principal option \<times> app_state) \<Rightarrow> served_request
    \<Rightarrow> app_state \<times> log_sink \<Rightarrow> http_response \<times> app_state \<times> log_sink" where
  "capture parse_ip show_ip trusted_proxy env cfg elapsed next_handler rq st =
     (let (s, sink) = st; p = coalesce_or (sr_matched rq) (sr_path rq);
          headers = rq_header (sr_request rq);
          (response, slot, s') = next_handler s in
      if is_excluded p then (response, s', sink)
      else
        let principal = (case slot of
              Some resolved \<Rightarrow> resolved
            | None \<Rightarrow> resolve_principal env headers (cf_cookie_name cfg) (st_db s')) in
        (response, s', record_log
          \<lparr>rl_ts = e_utc env, rl_method = rq_method (sr_request rq), rl_path = p,
           rl_status = sint (of_nat (hr_status response) :: 16 word),
           rl_latency_ms = int (min elapsed (2 ^ 31 - 1)),
           rl_user_id = rp_user_id principal, rl_auth_kind = rp_auth_kind principal,
           rl_ip = map_option show_ip (client_ip parse_ip headers (sr_peer rq) trusted_proxy),
           rl_user_agent = header_string headers ''user-agent'',
           rl_bytes_out = content_length (hr_header response)\<rparr> sink))"

section \<open>Attribution\<close>

lemma session_token_plain:
  "session_token_from_headers headers cookie_name = map_option fst (session_token headers cookie_name)"
  by (simp add: session_token_from_headers_def session_token_def option.map_comp comp_def option.map_ident split: option.split)

text \<open>What the extractor publishes is what the fallback query answers.\<close>

lemma published_principal:
  "snd (auth_user env cfg rq d) = Some p \<Longrightarrow> resolve_principal env (rq_header rq) (cf_cookie_name cfg) d = p"
  by (auto simp: auth_user_def resolve_principal_def session_token_plain user_from_token_def ok_or_def
      split: option.splits sum.splits if_splits prod.splits)

text \<open>A route behind the extractor: a refused request never reaches the handler \<open>run\<close>.\<close>

definition guarded_route ::
  "env \<Rightarrow> config \<Rightarrow> request \<Rightarrow> (app_error \<Rightarrow> http_response) \<Rightarrow> (user \<Rightarrow> app_state \<Rightarrow> http_response \<times> app_state)
    \<Rightarrow> app_state \<Rightarrow> http_response \<times> resolved_principal option \<times> app_state" where
  "guarded_route env cfg rq refusal run s =
     (case auth_user env cfg rq (st_db s) of
        (Inl e, slot) \<Rightarrow> (refusal e, slot, s)
      | (Inr u, slot) \<Rightarrow> let (response, s') = run u s in (response, slot, s'))"

lemma guarded_route_slot:
  assumes "guarded_route env cfg rq refusal run s = (r, slot, s')"
  shows "(case slot of Some p \<Rightarrow> p | None \<Rightarrow> resolve_principal env (rq_header rq) (cf_cookie_name cfg) (st_db s'))
    = resolve_principal env (rq_header rq) (cf_cookie_name cfg) (st_db s)"
proof (cases slot)
  case None
  have "snd (auth_user env cfg rq (st_db s)) \<noteq> None" if "fst (auth_user env cfg rq (st_db s)) = Inr u" for u
    using that by (auto simp: auth_user_def split: option.splits sum.splits if_splits prod.splits)
  with assms None have "s' = s"
    by (auto simp: guarded_route_def Let_def split: prod.splits sum.splits)
  with None show ?thesis by simp
next
  case (Some p)
  with assms have "snd (auth_user env cfg rq (st_db s)) = Some p"
    by (auto simp: guarded_route_def Let_def split: prod.splits sum.splits)
  with Some published_principal show ?thesis by simp
qed

text \<open>
  C26. Every recorded request of a guarded route names the account that its credential resolved to
  when it arrived, or nobody: the record is the same whether the extractor published the principal,
  refused the credential, or refused a cookie without its anti-forgery header and left the query to
  the middleware. The response and the state are those of the handler, and a probe or a socket leaves
  no record.
\<close>

theorem capture_attributes:
  "case capture parse_ip show_ip trusted_proxy env cfg elapsed
      (guarded_route env cfg (sr_request rq) refusal run) rq (s, sink) of (r, s', sink') \<Rightarrow>
    (\<exists>slot. guarded_route env cfg (sr_request rq) refusal run s = (r, slot, s')) \<and>
    (if is_excluded (coalesce_or (sr_matched rq) (sr_path rq)) then sink' = sink
     else \<exists>log. sink' = record_log log sink \<and>
       \<lparr>rp_user_id = rl_user_id log, rp_auth_kind = rl_auth_kind log\<rparr>
         = resolve_principal env (rq_header (sr_request rq)) (cf_cookie_name cfg) (st_db s))"
proof -
  obtain r slot s' where n: "guarded_route env cfg (sr_request rq) refusal run s = (r, slot, s')"
    by (cases "guarded_route env cfg (sr_request rq) refusal run s") auto
  show ?thesis
    using guarded_route_slot [OF n] by (auto simp: capture_def Let_def n split: option.splits)
qed

section \<open>The run of the sink\<close>

text \<open>
  The background task waits for a first record, fills a batch until it is full, its time is up or
  the senders are gone, and writes it. \<open>lw_sending\<close> holds the records between the two halves of
  \<^verbatim>\<open>record\<close>. The last four fields are not part of the service: everything pushed onto the ring since
  the start, everything offered to the channel, how much of that will never be, or is no longer, in
  the table, and the first number that this run can draw.
\<close>

datatype writer = Idle | Filling "request_log list" | Ended

record log_world =
  lw_sink :: log_sink
  lw_sending :: "request_log list"
  lw_closed :: bool
  lw_writer :: writer
  lw_table :: log_table
  lw_accounts :: "uuid list"
  lw_recorded :: "request_log list"
  lw_offered :: "request_log list"
  lw_lost :: nat
  lw_first :: int

definition since_start :: "log_world \<Rightarrow> log_row list" where
  "since_start w = filter (\<lambda>r. lw_first w \<le> lr_id r) (lt_rows (lw_table w))"

definition push_step :: "request_log \<Rightarrow> log_world \<Rightarrow> log_world" where
  "push_step log w =
     w\<lparr>lw_sink := push_log log (lw_sink w), lw_sending := lw_sending w @ [log], lw_recorded := lw_recorded w @ [log]\<rparr>"

definition send_step :: "request_log \<Rightarrow> log_world \<Rightarrow> log_world" where
  "send_step log w =
     w\<lparr>lw_sink := send_log log (lw_sink w), lw_sending := remove1 log (lw_sending w), lw_offered := lw_offered w @ [log],
       lw_lost := lw_lost w + (if length (sk_queue (lw_sink w)) < CHANNEL_CAPACITY then 0 else 1)\<rparr>"

definition receive_step :: "request_log list \<Rightarrow> request_log \<Rightarrow> request_log list \<Rightarrow> log_world \<Rightarrow> log_world" where
  "receive_step batch log queue w =
     w\<lparr>lw_sink := (lw_sink w)\<lparr>sk_queue := queue\<rparr>, lw_writer := Filling (batch @ [log])\<rparr>"

definition flush_step :: "request_log list \<Rightarrow> log_world \<Rightarrow> log_world" where
  "flush_step batch w =
     (case insert_batch (lw_accounts w) batch (lw_table w) of
        (Inr _, t) \<Rightarrow> w\<lparr>lw_table := t, lw_writer := Idle\<rparr>
      | (Inl _, t) \<Rightarrow> w\<lparr>lw_table := t, lw_writer := Idle, lw_lost := lw_lost w + length batch\<rparr>)"

definition sweep_step :: "env \<Rightarrow> int \<Rightarrow> log_world \<Rightarrow> log_world" where
  "sweep_step env retention_days w =
     (let w' = w\<lparr>lw_table := snd (delete_request_logs_older_than env retention_days (lw_table w))\<rparr> in
      w'\<lparr>lw_lost := lw_lost w + (length (since_start w) - length (since_start w'))\<rparr>)"

text \<open>\<open>unreachable\<close>: the statement fails for another reason, having drawn some numbers or none.\<close>

inductive log_step :: "log_world \<Rightarrow> log_world \<Rightarrow> bool" where
  push: "\<not> lw_closed w \<Longrightarrow> log_step w (push_step log w)"
| send: "log \<in> set (lw_sending w) \<Longrightarrow> log_step w (send_step log w)"
| close: "lw_sending w = [] \<Longrightarrow> log_step w (w\<lparr>lw_closed := True\<rparr>)"
| receive_first: "lw_writer w = Idle \<Longrightarrow> sk_queue (lw_sink w) = log # queue
    \<Longrightarrow> log_step w (receive_step [] log queue w)"
| end_writer: "lw_writer w = Idle \<Longrightarrow> sk_queue (lw_sink w) = [] \<Longrightarrow> lw_closed w
    \<Longrightarrow> log_step w (w\<lparr>lw_writer := Ended\<rparr>)"
| receive: "lw_writer w = Filling batch \<Longrightarrow> length batch < BATCH_MAX \<Longrightarrow> sk_queue (lw_sink w) = log # queue
    \<Longrightarrow> log_step w (receive_step batch log queue w)"
| flush: "lw_writer w = Filling batch \<Longrightarrow> log_step w (flush_step batch w)"
| unreachable: "lw_writer w = Filling batch \<Longrightarrow> log_step w (w\<lparr>lw_writer := Idle, lw_lost := lw_lost w + length batch,
      lw_table := (lw_table w)\<lparr>lt_next := lt_next (lw_table w) + int drawn\<rparr>\<rparr>)"
| sweep: "log_step w (sweep_step env retention_days w)"
| account: "log_step w (w\<lparr>lw_accounts := x # lw_accounts w\<rparr>)"
| account_deleted: "log_step w (w\<lparr>lw_accounts := filter (\<lambda>y. y \<noteq> x) (lw_accounts w),
      lw_table := forget_account x (lw_table w)\<rparr>)"

text \<open>The service starts over a table that earlier runs filled.\<close>

definition log_start :: "log_table \<Rightarrow> uuid list \<Rightarrow> log_world" where
  "log_start t accounts =
     \<lparr>lw_sink = \<lparr>sk_ring = [], sk_queue = []\<rparr>, lw_sending = [], lw_closed = False, lw_writer = Idle, lw_table = t,
      lw_accounts = accounts, lw_recorded = [], lw_offered = [], lw_lost = 0, lw_first = lt_next t\<rparr>"

definition log_table_wf :: "uuid list \<Rightarrow> log_table \<Rightarrow> bool" where
  "log_table_wf accounts t \<longleftrightarrow> sorted_wrt (<) (map lr_id (lt_rows t)) \<and> list_all (\<lambda>r. lr_id r < lt_next t) (lt_rows t)
     \<and> fk_opt (\<lambda>r. rl_user_id (lr_log r)) accounts (lt_rows t)"

inductive log_reachable :: "log_world \<Rightarrow> bool" where
  start: "log_table_wf accounts t \<Longrightarrow> log_reachable (log_start t accounts)"
| step: "log_reachable w \<Longrightarrow> log_step w w' \<Longrightarrow> log_reachable w'"

section \<open>Invariant\<close>

fun batch_of :: "writer \<Rightarrow> request_log list" where
  "batch_of (Filling batch) = batch"
| "batch_of _ = []"

definition in_flight :: "log_world \<Rightarrow> request_log list" where
  "in_flight w = batch_of (lw_writer w) @ sk_queue (lw_sink w)"

text \<open>A row holds its record; the account may have been deleted since.\<close>

definition holds :: "log_row \<Rightarrow> request_log \<Rightarrow> bool" where
  "holds r log \<longleftrightarrow> lr_log r = log \<or> lr_log r = log\<lparr>rl_user_id := None\<rparr>"

definition traced :: "log_world \<Rightarrow> bool" where
  "traced w \<longleftrightarrow> (\<exists>logs. list_all2 holds (since_start w) logs \<and> subseq (logs @ in_flight w) (lw_offered w)
     \<and> length (logs @ in_flight w) + lw_lost w = length (lw_offered w))"

definition sink_wf :: "log_world \<Rightarrow> bool" where
  "sink_wf w \<longleftrightarrow> sk_ring (lw_sink w) = drop (length (lw_recorded w) - RING_CAPACITY) (lw_recorded w)
     \<and> mset (lw_offered w) + mset (lw_sending w) = mset (lw_recorded w)
     \<and> (lw_closed w \<longrightarrow> lw_sending w = []) \<and> length (sk_queue (lw_sink w)) \<le> CHANNEL_CAPACITY
     \<and> (case lw_writer w of Filling batch \<Rightarrow> batch \<noteq> [] \<and> length batch \<le> BATCH_MAX
          | Ended \<Rightarrow> lw_closed w \<and> sk_queue (lw_sink w) = [] | Idle \<Rightarrow> True)"

definition table_wf :: "log_world \<Rightarrow> bool" where
  "table_wf w \<longleftrightarrow> log_table_wf (lw_accounts w) (lw_table w) \<and> lw_first w \<le> lt_next (lw_table w)"

lemma push_ring_latest:
  "push_ring log (drop (length xs - RING_CAPACITY) xs) = drop (length (xs @ [log]) - RING_CAPACITY) (xs @ [log])"
proof (cases "length xs < RING_CAPACITY")
  case True
  then show ?thesis by (auto simp: push_ring_def)
next
  case False
  moreover have "0 < RING_CAPACITY" by (simp add: RING_CAPACITY_def)
  ultimately show ?thesis by (auto simp: push_ring_def Suc_diff_le drop_Suc tl_drop)
qed

lemma sink_wf_step: "log_step w w' \<Longrightarrow> sink_wf w \<Longrightarrow> sink_wf w'"
proof (induction rule: log_step.induct)
  case (push w log)
  then show ?case
    by (auto simp: sink_wf_def push_step_def push_log_def push_ring_latest split: writer.splits)
next
  case (send log w)
  have "add_mset log (mset (lw_offered w) + (mset (lw_sending w) - {#log#})) = mset (lw_offered w) + mset (lw_sending w)"
    using send(1) by (simp flip: union_mset_add_mset_right)
  with send show ?case
    by (auto simp: sink_wf_def send_step_def send_log_def try_send_def split: writer.splits)
next
  case (flush w batch)
  then show ?case
    by (auto simp: sink_wf_def flush_step_def split: prod.split sum.split)
qed (auto simp: sink_wf_def receive_step_def sweep_step_def Let_def BATCH_MAX_def split: writer.splits)

section \<open>The table\<close>

lemma numbered_simps [simp]:
  "numbered start [] = []"
  "numbered start (log # logs) = \<lparr>lr_id = start, lr_log = log\<rparr> # numbered (start + 1) logs"
proof -
  have "enumerate (Suc n) logs = map (\<lambda>(k, log). (Suc k, log)) (enumerate n logs)" for n
    by (induction logs arbitrary: n) simp_all
  then show "numbered start (log # logs) = \<lparr>lr_id = start, lr_log = log\<rparr> # numbered (start + 1) logs"
    by (simp add: numbered_def case_prod_unfold)
qed (simp add: numbered_def)

lemma numbered_ids:
  "r \<in> set (numbered start logs) \<Longrightarrow> start \<le> lr_id r \<and> lr_id r < start + int (length logs) \<and> lr_log r \<in> set logs"
  by (induction logs arbitrary: start) fastforce+

lemma numbered_sorted: "sorted_wrt (<) (map lr_id (numbered start logs))"
proof (induction logs arbitrary: start)
  case (Cons log logs)
  then show ?case using numbered_ids [of _ "start + 1" logs] by fastforce
qed simp

lemma holds_numbered: "list_all2 holds (numbered start logs) logs"
  by (induction logs arbitrary: start) (simp_all add: holds_def)

lemma log_table_wf_insert:
  assumes "insert_batch accounts batch t = (x, t')" "log_table_wf accounts t"
  shows "log_table_wf accounts t' \<and> lt_next t \<le> lt_next t'"
proof -
  have "sorted_wrt (<) (map lr_id (lt_rows t @ numbered (lt_next t) batch))"
    using assms(2) numbered_sorted [of "lt_next t" batch] numbered_ids [of _ "lt_next t" batch]
    by (fastforce simp: sorted_wrt_append log_table_wf_def list_all_iff)
  with assms numbered_ids [of _ "lt_next t" batch] show ?thesis
    by (fastforce simp: insert_batch_def Let_def log_table_wf_def list_all_iff fk_opt_def split: if_splits)
qed

lemma sorted_wrt_map_filter: "sorted_wrt P (map f xs) \<Longrightarrow> sorted_wrt P (map f (filter q xs))"
  by (induction xs) auto

lemma log_table_wf_delete: "log_table_wf accounts t \<Longrightarrow> log_table_wf accounts (t\<lparr>lt_rows := sql_delete p (lt_rows t)\<rparr>)"
  by (auto simp: log_table_wf_def sql_delete_def list_all_iff fk_opt_def intro: sorted_wrt_map_filter)

lemma log_table_wf_forget:
  assumes "log_table_wf accounts t"
  shows "log_table_wf (filter (\<lambda>y. y \<noteq> x) accounts) (forget_account x t)"
proof -
  have "map lr_id (lt_rows (forget_account x t)) = map lr_id (lt_rows t)"
    by (simp add: forget_account_def map_sql_update)
  with assms show ?thesis
    by (auto simp: log_table_wf_def list_all_iff fk_opt_def forget_account_def set_sql_update)
qed

lemma table_wf_step: "log_step w w' \<Longrightarrow> table_wf w \<Longrightarrow> table_wf w'"
proof (induction rule: log_step.induct)
  case (flush w batch)
  obtain x t where t: "insert_batch (lw_accounts w) batch (lw_table w) = (x, t)" by fastforce
  with flush log_table_wf_insert [OF t] show ?case
    by (cases x) (auto simp: table_wf_def flush_step_def)
next
  case (unreachable w batch drawn)
  then show ?case by (auto simp: table_wf_def log_table_wf_def list_all_iff)
next
  case (sweep w env retention_days)
  then show ?case
    by (auto simp: table_wf_def sweep_step_def Let_def delete_request_logs_older_than_def log_table_wf_delete)
next
  case (account w x)
  then show ?case by (auto simp: table_wf_def log_table_wf_def fk_opt_def list_all_iff)
next
  case (account_deleted w x)
  then show ?case by (auto simp: table_wf_def log_table_wf_forget) (simp add: forget_account_def)
qed (simp_all add: table_wf_def push_step_def send_step_def receive_step_def)

section \<open>Nothing is invented, repeated or reordered\<close>

lemma traced_intro:
  assumes "list_all2 holds (since_start w) logs" "subseq (logs @ in_flight w) (lw_offered w)"
    and "length (logs @ in_flight w) + lw_lost w = length (lw_offered w)"
  shows "traced w"
  using assms by (auto simp: traced_def)

lemma list_all2_filter:
  assumes "list_all2 P xs ys"
  shows "\<exists>zs. list_all2 P (filter q xs) zs \<and> subseq zs ys"
  using assms
proof (induction rule: list_all2_induct)
  case (Cons x xs y ys)
  then obtain zs where zs: "list_all2 P (filter q xs) zs" "subseq zs ys" by blast
  show ?case
  proof (cases "q x")
    case True
    with zs Cons(1) show ?thesis by (intro exI [of _ "y # zs"]) simp
  next
    case False
    with zs show ?thesis by (intro exI [of _ zs]) (simp add: list_emb.intros)
  qed
qed auto

lemma subseq_skip: "subseq (a @ c) (a @ b @ c)"
  by (intro list_emb_append_mono) auto

lemma traced_send: "traced w \<Longrightarrow> traced (send_step log w)"
proof -
  assume "traced w"
  then obtain logs where l: "list_all2 holds (since_start w) logs" "subseq (logs @ in_flight w) (lw_offered w)"
    "length (logs @ in_flight w) + lw_lost w = length (lw_offered w)" by (auto simp: traced_def)
  have "subseq ((logs @ in_flight w) @ [log]) (lw_offered w @ [log])" using l(2) by (rule list_emb_append_mono) simp
  with l show ?thesis
    by (intro traced_intro [of _ logs])
      (auto simp: since_start_def send_step_def send_log_def try_send_def in_flight_def
        intro: subseq_order.trans [OF _ subseq_rev_drop_many])
qed

lemma traced_flush:
  assumes "traced w" "table_wf w" "lw_writer w = Filling batch"
  shows "traced (flush_step batch w)"
proof -
  from assms(1) obtain logs where l: "list_all2 holds (since_start w) logs" "subseq (logs @ in_flight w) (lw_offered w)"
    "length (logs @ in_flight w) + lw_lost w = length (lw_offered w)" by (auto simp: traced_def)
  obtain x t where t: "insert_batch (lw_accounts w) batch (lw_table w) = (x, t)" by fastforce
  show ?thesis
  proof (cases x)
    case (Inl e)
    then have "since_start (flush_step batch w) = since_start w"
      using t by (auto simp: since_start_def flush_step_def insert_batch_def Let_def split: if_splits)
    moreover have "subseq (logs @ sk_queue (lw_sink w)) (lw_offered w)"
      using l(2) by (rule subseq_order.trans [rotated]) (simp add: in_flight_def assms(3) subseq_skip)
    ultimately show ?thesis
      using l t Inl by (intro traced_intro [of _ logs]) (auto simp: flush_step_def in_flight_def assms(3))
  next
    case (Inr u)
    have "filter (\<lambda>r. lw_first w \<le> lr_id r) (numbered (lt_next (lw_table w)) batch) = numbered (lt_next (lw_table w)) batch"
      using assms(2) by (auto simp: filter_id_conv table_wf_def dest: numbered_ids)
    then have "since_start (flush_step batch w) = since_start w @ numbered (lt_next (lw_table w)) batch"
      using t Inr by (auto simp: since_start_def flush_step_def insert_batch_def Let_def split: if_splits)
    with l t Inr holds_numbered show ?thesis
      by (intro traced_intro [of _ "logs @ batch"]) (auto simp: flush_step_def in_flight_def assms(3) list_all2_appendI)
  qed
qed

lemma traced_sweep: "traced w \<Longrightarrow> traced (sweep_step env retention_days w)"
proof -
  assume "traced w"
  then obtain logs where l: "list_all2 holds (since_start w) logs" "subseq (logs @ in_flight w) (lw_offered w)"
    "length (logs @ in_flight w) + lw_lost w = length (lw_offered w)" by (auto simp: traced_def)
  let ?w = "sweep_step env retention_days w"
  obtain q where q: "since_start ?w = filter q (since_start w)"
  proof
    show "since_start ?w = filter (if in_int4 retention_days then (\<lambda>r. \<not> rl_ts (lr_log r) < cutoff env retention_days) else always)
        (since_start w)"
      by (auto simp: since_start_def sweep_step_def Let_def delete_request_logs_older_than_def sql_delete_def conj_commute)
  qed
  from list_all2_filter [OF l(1), of q] obtain zs where zs: "list_all2 holds (since_start ?w) zs" "subseq zs logs"
    by (auto simp: q)
  have flight: "in_flight ?w = in_flight w" "lw_offered ?w = lw_offered w"
    by (simp_all add: sweep_step_def Let_def in_flight_def)
  have lost: "lw_lost ?w = lw_lost w + (length (since_start w) - length (since_start ?w))"
    by (simp add: sweep_step_def Let_def since_start_def)
  have "subseq (zs @ in_flight w) (lw_offered w)"
    using list_emb_append_mono [OF zs(2) subseq_order.order_refl] l(2) by (rule subseq_order.trans)
  moreover have "length (since_start ?w) \<le> length (since_start w)" by (simp add: q)
  ultimately show ?thesis
    using zs(1) l(3) list_all2_lengthD [OF l(1)] list_all2_lengthD [OF zs(1)]
    by (intro traced_intro [of _ zs]) (auto simp: flight lost)
qed

lemma traced_step: "log_step w w' \<Longrightarrow> traced w \<Longrightarrow> table_wf w \<Longrightarrow> traced w'"
proof (induction rule: log_step.induct)
  case (send log w)
  then show ?case by (simp add: traced_send)
next
  case (flush w batch)
  then show ?case by (simp add: traced_flush)
next
  case (sweep w env retention_days)
  then show ?case by (simp add: traced_sweep)
next
  case (unreachable w batch drawn)
  then obtain logs where l: "list_all2 holds (since_start w) logs" "subseq (logs @ in_flight w) (lw_offered w)"
    "length (logs @ in_flight w) + lw_lost w = length (lw_offered w)" by (auto simp: traced_def)
  have "subseq (logs @ sk_queue (lw_sink w)) (lw_offered w)"
    using l(2) by (rule subseq_order.trans [rotated]) (simp add: in_flight_def unreachable(1) subseq_skip)
  with l show ?case by (intro traced_intro [of _ logs]) (auto simp: since_start_def in_flight_def unreachable(1))
next
  case (account_deleted w x)
  then obtain logs where l: "list_all2 holds (since_start w) logs" "subseq (logs @ in_flight w) (lw_offered w)"
    "length (logs @ in_flight w) + lw_lost w = length (lw_offered w)" by (auto simp: traced_def)
  let ?f = "\<lambda>r. if rl_user_id (lr_log r) = Some x then r\<lparr>lr_log := (lr_log r)\<lparr>rl_user_id := None\<rparr>\<rparr> else r"
  let ?w = "w\<lparr>lw_accounts := filter (\<lambda>y. y \<noteq> x) (lw_accounts w), lw_table := forget_account x (lw_table w)\<rparr>"
  have "since_start ?w = map ?f (since_start w)"
    by (simp add: since_start_def forget_account_def sql_update_def filter_map comp_def if_distrib cong: if_cong)
  moreover have "list_all2 holds (map ?f (since_start w)) logs"
    unfolding list_all2_map1 by (rule list_all2_mono [OF l(1)]) (auto simp: holds_def)
  ultimately show ?case using l by (intro traced_intro [of _ logs]) (auto simp: in_flight_def)
qed (auto simp: traced_def in_flight_def since_start_def receive_step_def push_step_def push_log_def)

lemma rev_latest: "rev (drop (length xs - k) xs) = take k (rev xs)"
  by (cases "k \<le> length xs") (simp_all add: rev_drop)

text \<open>A record of an account deleted before its batch is written takes the whole batch with it.\<close>

lemma stale_account_loses_batch:
  assumes "log \<in> set batch" "rl_user_id log = Some x" "x \<notin> set accounts"
  shows "fst (insert_batch accounts batch t) = Inl (ForeignKeyViolation ''request_logs_user_id_fkey'')
    \<and> lt_rows (snd (insert_batch accounts batch t)) = lt_rows t"
  using assms by (auto simp: insert_batch_def Let_def fk_opt_def list_all_iff)

lemma log_reachable_invariant: "log_reachable w \<Longrightarrow> sink_wf w \<and> table_wf w \<and> traced w"
proof (induction rule: log_reachable.induct)
  case (start accounts t)
  then have "since_start (log_start t accounts) = []"
    by (auto simp: since_start_def log_start_def filter_empty_conv log_table_wf_def list_all_iff)
  with start show ?case
    by (auto simp: sink_wf_def table_wf_def log_start_def in_flight_def intro!: traced_intro [of _ "[]"])
next
  case (step w w')
  then show ?case using sink_wf_step table_wf_step traced_step by blast
qed

section \<open>Properties\<close>

text \<open>
  C25. Whatever the interleaving of requests, the background task, sweeps, account deletions and failing
  statements: the live tail shows exactly the latest records, newest first; the rows written since
  the start, followed by what is still on its way, are records of served requests in the order in
  which they entered the channel, none twice, and if nothing was lost they are all that did; at most
  a full channel and a full batch are on their way; no row names an account that does not exist.
\<close>

theorem request_log_sound:
  assumes "log_reachable w"
  shows "recent_logs n (lw_sink w) = take (min n RING_CAPACITY) (rev (lw_recorded w))
    \<and> (\<exists>logs. list_all2 holds (since_start w) logs \<and> subseq (logs @ in_flight w) (lw_offered w)
        \<and> (lw_lost w = 0 \<longrightarrow> logs @ in_flight w = lw_offered w))
    \<and> mset (lw_offered w) + mset (lw_sending w) = mset (lw_recorded w)
    \<and> length (in_flight w) \<le> CHANNEL_CAPACITY + BATCH_MAX
    \<and> log_table_wf (lw_accounts w) (lw_table w)"
proof -
  note inv = log_reachable_invariant [OF assms]
  have "recent_logs n (lw_sink w) = take (min n RING_CAPACITY) (rev (lw_recorded w))"
    using inv by (simp add: sink_wf_def recent_logs_def rev_latest)
  moreover from inv obtain logs where "list_all2 holds (since_start w) logs" "subseq (logs @ in_flight w) (lw_offered w)"
    "length (logs @ in_flight w) + lw_lost w = length (lw_offered w)" by (auto simp: traced_def)
  then have "\<exists>logs. list_all2 holds (since_start w) logs \<and> subseq (logs @ in_flight w) (lw_offered w)
      \<and> (lw_lost w = 0 \<longrightarrow> logs @ in_flight w = lw_offered w)"
    using subseq_same_length by (metis add_0_right)
  moreover have "length (in_flight w) \<le> CHANNEL_CAPACITY + BATCH_MAX"
    using inv by (auto simp: sink_wf_def in_flight_def split: writer.splits)
  ultimately show ?thesis using inv by (simp add: table_wf_def sink_wf_def)
qed

definition demo_log :: request_log where
  "demo_log = \<lparr>rl_ts = 0, rl_method = ''GET'', rl_path = ''/api/me'', rl_status = 200, rl_latency_ms = 3,
     rl_user_id = Some 1, rl_auth_kind = ''session'', rl_ip = None, rl_user_agent = None, rl_bytes_out = None\<rparr>"

definition demo_run :: log_world where
  "demo_run = flush_step [demo_log] (receive_step [] demo_log [] (send_step demo_log (push_step demo_log (log_start \<lparr>lt_rows = [], lt_next = 1\<rparr> [1]))))"

lemma demo_run_reachable: "log_reachable demo_run"
proof -
  have "log_reachable (log_start \<lparr>lt_rows = [], lt_next = 1\<rparr> [1])"
    by (rule log_reachable.start) (simp add: log_table_wf_def fk_opt_def)
  note r0 = log_reachable.step [OF this log_step.push [of _ demo_log]]
  note r1 = log_reachable.step [OF r0 log_step.send [of demo_log]]
  note r2 = log_reachable.step [OF r1 log_step.receive_first [of _ demo_log "[]"]]
  note r3 = log_reachable.step [OF r2 log_step.flush [of _ "[demo_log]"]]
  show ?thesis unfolding demo_run_def
    by (rule r3) (simp_all add: log_start_def push_step_def push_log_def send_step_def send_log_def try_send_def receive_step_def CHANNEL_CAPACITY_def)
qed

theorem request_log_sound_witness:
  "recent_logs 5 (lw_sink demo_run) = [demo_log] \<and> lw_lost demo_run = 0 \<and> length (since_start demo_run) = 1
    \<and> (\<exists>logs. list_all2 holds (since_start demo_run) logs \<and> logs @ in_flight demo_run = [demo_log])"
proof -
  have run: "lw_recorded demo_run = [demo_log]" "lw_offered demo_run = [demo_log]" "lw_lost demo_run = 0" "length (since_start demo_run) = 1"
    by code_simp+
  with request_log_sound [OF demo_run_reachable, of 5] show ?thesis
    by (auto simp: RING_CAPACITY_def)
qed

end
