(* ===== verification/Analytics.thy ===== *)
theory Analytics
  imports Complex_Main Request_Log Admin_Users
begin

text \<open>
  \<^verbatim>\<open>admin/src/analytics.rs\<close> and \<^verbatim>\<open>admin/src/request_logs.rs\<close>: what the operator reads from the event
  table, the presence rows and the request log. \<^verbatim>\<open>date_trunc\<close> depends on the session's time zone and
  is a parameter; an average is exact here, where the service rounds it to a double.
\<close>

section \<open>Grouping\<close>

text \<open>\<^verbatim>\<open>GROUP BY key ORDER BY key\<close>, with the rows of each group.\<close>

definition group_rows :: "('k \<Rightarrow> 'k \<Rightarrow> bool) \<Rightarrow> ('r \<Rightarrow> 'k) \<Rightarrow> 'r list \<Rightarrow> ('k \<times> 'r list) list" where
  "group_rows le key rows = map (\<lambda>k. (k, filter (\<lambda>r. key r = k) rows)) (order_by le (remdups (map key rows)))"

text \<open>\<^verbatim>\<open>coalesce(avg(x), 0)\<close>\<close>

definition average :: "int list \<Rightarrow> rat" where
  "average xs = (if xs = [] then 0 else of_int (sum_list xs) / of_nat (length xs))"

section \<open>The overview\<close>

record analytics_overview =
  ao_playing_now :: nat
  ao_online_in_network :: nat
  ao_open_worlds :: nat
  ao_active_relays :: nat
  ao_total_users :: nat

definition beating :: "env \<Rightarrow> config \<Rightarrow> presence \<Rightarrow> bool" where
  "beating env cfg p \<longleftrightarrow> pr_last_heartbeat_at p > e_now env - cf_heartbeat_timeout cfg"

definition overview :: "env \<Rightarrow> config \<Rightarrow> db \<Rightarrow> analytics_overview" where
  "overview env cfg d =
     \<lparr>ao_playing_now = sql_affected
        (\<lambda>p. pr_status p \<in> {''inWorld'', ''joinable''} \<and> beating env cfg p) (presences d),
      ao_online_in_network = sql_affected (\<lambda>p. pr_status p \<noteq> ''offline'' \<and> beating env cfg p) (presences d),
      ao_open_worlds = sql_affected (\<lambda>w. ws_status w = Open) (world_sessions d),
      ao_active_relays = sql_affected (\<lambda>r. rs_status r = ''active'') (relay_sessions d),
      ao_total_users = length (users d)\<rparr>"

section \<open>Windows\<close>

text \<open>The interval, the bucket unit and the label.\<close>

definition resolve_window :: "string \<Rightarrow> duration \<times> string \<times> string" where
  "resolve_window window =
     (if window \<in> {''24h'', ''1d'', ''day''} then (days 1, ''hour'', ''24h'')
      else if window \<in> {''30d'', ''month''} then (days 30, ''day'', ''30d'')
      else if window = ''90d'' then (days 90, ''day'', ''90d'')
      else (days 7, ''day'', ''7d''))"

definition resolve_event_metric :: "string \<Rightarrow> string \<times> string" where
  "resolve_event_metric metric =
     (if metric \<in> {''new_users'', ''newUsers'', ''signups''} then (''new_user'', ''new_users'')
      else (''bootstrap'', ''bootstraps''))"

record 'v series =
  ts_metric :: string
  ts_window :: string
  ts_points :: "(timestamp \<times> 'v) list"

definition event_timeseries ::
  "(string \<Rightarrow> timestamp \<Rightarrow> timestamp) \<Rightarrow> env \<Rightarrow> string option \<Rightarrow> string option \<Rightarrow> db \<Rightarrow> nat series" where
  "event_timeseries date_trunc env metric window d =
     (let (event_type, metric_label) = resolve_event_metric (coalesce_or metric []);
          (interval, unit, window_label) = resolve_window (coalesce_or window []);
          rows = filter (\<lambda>e. ue_event_type e = event_type \<and> ue_created_at e > e_now env - interval) (user_events d) in
      \<lparr>ts_metric = metric_label, ts_window = window_label,
       ts_points = map (\<lambda>(k, rs). (k, length rs)) (group_rows (\<le>) (\<lambda>e. date_trunc unit (ue_created_at e)) rows)\<rparr>)"

section \<open>The request log\<close>

definition LOG_PAGE_SIZE :: int where
  "LOG_PAGE_SIZE = 50"

definition TAIL_MAX :: int where
  "TAIL_MAX = 500"

definition TAIL_DEFAULT :: int where
  "TAIL_DEFAULT = 100"

definition log_tail :: "int option \<Rightarrow> log_sink \<Rightarrow> request_log list" where
  "log_tail n sink = recent_logs (nat (max 1 (min TAIL_MAX (coalesce_or n TAIL_DEFAULT)))) sink"

record log_query =
  lq_since :: "timestamp option"
  lq_until :: "timestamp option"
  lq_method :: "string option"
  lq_path :: "string option"
  lq_status :: "int option"
  lq_page :: "int option"

definition unset_or :: "('a \<Rightarrow> bool) \<Rightarrow> 'a option \<Rightarrow> bool" where
  "unset_or p v = (case v of None \<Rightarrow> True | Some x \<Rightarrow> p x)"

text \<open>The path is matched as a pattern with a percent sign behind it; nothing in it is escaped.\<close>

definition request_filter :: "log_query \<Rightarrow> log_row \<Rightarrow> bool" where
  "request_filter q r \<longleftrightarrow> unset_or (\<lambda>t. rl_ts (lr_log r) \<ge> t) (lq_since q) \<and> unset_or (\<lambda>t. rl_ts (lr_log r) \<le> t) (lq_until q)
     \<and> unset_or (\<lambda>m. rl_method (lr_log r) = m) (lq_method q)
     \<and> unset_or (\<lambda>p. like (p @ ''%'') (rl_path (lr_log r))) (lq_path q)
     \<and> unset_or (\<lambda>n. rl_status (lr_log r) = n) (lq_status q)"

definition latest_first :: "log_row list \<Rightarrow> log_row list" where
  "latest_first rows = order_by (\<lambda>a b. rl_ts (lr_log b) < rl_ts (lr_log a)
     \<or> rl_ts (lr_log a) = rl_ts (lr_log b) \<and> lr_id b \<le> lr_id a) rows"

definition log_list :: "log_query \<Rightarrow> log_table \<Rightarrow> (log_row list \<times> page_meta) app_result" where
  "log_list q t =
     (let page = max (coalesce_or (lq_page q) 1) 1;
          offset = sint (word_of_int ((page - 1) * LOG_PAGE_SIZE) :: 64 word);
          hits = filter (request_filter q) (lt_rows t);
          total = int (length hits) in
      if offset < 0 then Inl (Database OutOfRange)
      else Inr (limit LOG_PAGE_SIZE (drop (nat offset) (latest_first hits)),
        \<lparr>pm_page = page, pm_page_size = LOG_PAGE_SIZE, pm_total = total,
         pm_page_count = max ((total + LOG_PAGE_SIZE - 1) div LOG_PAGE_SIZE) 1\<rparr>))"

definition status_class :: "int \<Rightarrow> string" where
  "status_class status =
     (if status \<ge> 500 then ''5xx'' else if status \<ge> 400 then ''4xx'' else if status \<ge> 300 then ''3xx'' else ''2xx'')"

record log_summary =
  ls_window :: string
  ls_total_requests :: nat
  ls_error_rate :: rat
  ls_avg_latency_ms :: rat
  ls_status_mix :: "(string \<times> nat) list"
  ls_top_paths :: "(string \<times> nat \<times> rat) list"

definition in_window :: "env \<Rightarrow> duration \<Rightarrow> log_table \<Rightarrow> request_log list" where
  "in_window env interval t = filter (\<lambda>log. rl_ts log > e_now env - interval) (map lr_log (lt_rows t))"

definition top_first :: "env \<Rightarrow> string \<times> nat \<times> rat \<Rightarrow> string \<times> nat \<times> rat \<Rightarrow> bool" where
  "top_first env a b \<longleftrightarrow> fst (snd b) < fst (snd a) \<or> fst (snd a) = fst (snd b) \<and> e_collate_le env (fst a) (fst b)"

definition log_summary_of :: "env \<Rightarrow> string option \<Rightarrow> log_table \<Rightarrow> log_summary" where
  "log_summary_of env window t =
     (let (interval, _, label) = resolve_window (coalesce_or window []);
          logs = in_window env interval t;
          total = length logs; errors = length (filter (\<lambda>log. rl_status log \<ge> 500) logs) in
      \<lparr>ls_window = label, ls_total_requests = total,
       ls_error_rate = (if total > 0 then of_nat errors / of_nat total else 0),
       ls_avg_latency_ms = average (map rl_latency_ms logs),
       ls_status_mix = map (\<lambda>(k, rs). (k, length rs))
         (group_rows (e_collate_le env) (\<lambda>log. status_class (rl_status log)) logs),
       ls_top_paths = take 10 (order_by (top_first env)
         (map (\<lambda>(k, rs). (k, length rs, average (map rl_latency_ms rs))) (group_rows (e_collate_le env) rl_path logs)))\<rparr>)"

definition resolve_log_metric :: "string \<Rightarrow> string" where
  "resolve_log_metric metric =
     (if metric = ''errors'' then ''errors'' else if metric = ''latency'' then ''latency'' else ''requests'')"

definition metric_value :: "string \<Rightarrow> request_log list \<Rightarrow> rat" where
  "metric_value metric logs =
     (if metric = ''errors'' then of_nat (length (filter (\<lambda>log. rl_status log \<ge> 500) logs))
      else if metric = ''latency'' then average (map rl_latency_ms logs)
      else of_nat (length logs))"

definition log_timeseries ::
  "(string \<Rightarrow> timestamp \<Rightarrow> timestamp) \<Rightarrow> env \<Rightarrow> string option \<Rightarrow> string option \<Rightarrow> log_table \<Rightarrow> rat series" where
  "log_timeseries date_trunc env metric window t =
     (let (interval, unit, window_label) = resolve_window (coalesce_or window []);
          metric = resolve_log_metric (coalesce_or metric []) in
      \<lparr>ts_metric = metric, ts_window = window_label,
       ts_points = map (\<lambda>(k, rs). (k, metric_value metric rs))
         (group_rows (\<le>) (\<lambda>log. date_trunc unit (rl_ts log)) (in_window env interval t))\<rparr>)"

section \<open>The pages of the log\<close>

text \<open>The pages of a query that are answered, in order, are all the rows that match, newest first.\<close>

lemma log_pages_cover:
  fixes q :: log_query and t :: log_table
  defines "hits \<equiv> filter (request_filter q) (lt_rows t)"
  assumes "length hits < 2 ^ 60"
  shows "concat (map (\<lambda>p. case log_list (q\<lparr>lq_page := Some (int p)\<rparr>) t of Inr (rows, _) \<Rightarrow> rows | Inl _ \<Rightarrow> [])
      [1..<Suc (nat (pm_page_count (snd (projr (log_list (q\<lparr>lq_page := Some 1\<rparr>) t)))))]) = latest_first hits"
proof -
  let ?n = "nat (max ((int (length hits) + 49) div 50) 1)"
  have page: "log_list (q\<lparr>lq_page := Some (int p)\<rparr>) t = Inr (take 50 (drop ((p - 1) * 50) (latest_first hits)),
      \<lparr>pm_page = int p, pm_page_size = 50, pm_total = int (length hits), pm_page_count = int ?n\<rparr>)"
    if "1 \<le> p" "p \<le> ?n" for p
  proof -
    have "sint (word_of_int ((int p - 1) * 50) :: 64 word) = (int p - 1) * 50"
      using that assms(2) by (intro sint_small) (auto simp: max_def split: if_splits)
    moreover have "request_filter (q\<lparr>lq_page := v\<rparr>) = request_filter q" for v
      by (simp add: fun_eq_iff request_filter_def)
    ultimately show ?thesis
      using that by (simp add: log_list_def LOG_PAGE_SIZE_def Let_def limit_def hits_def coalesce_or_def max_def
        of_nat_diff left_diff_distrib diff_mult_distrib add.commute nat_diff_distrib nat_mult_distrib)
  qed
  have count: "nat (pm_page_count (snd (projr (log_list (q\<lparr>lq_page := Some 1\<rparr>) t)))) = ?n"
    using page [of 1] by simp
  define m where "m = ?n"
  have "[1..<Suc m] = map Suc [0..<m]" by (simp add: map_Suc_upt)
  then have "concat (map (\<lambda>p. case log_list (q\<lparr>lq_page := Some (int p)\<rparr>) t of Inr (rows, _) \<Rightarrow> rows | Inl _ \<Rightarrow> []) [1..<Suc m])
      = concat (map (\<lambda>k. take 50 (drop (k * 50) (latest_first hits))) [0..<m])"
    using page unfolding m_def [symmetric] by (auto simp del: of_nat_Suc intro!: arg_cong [of _ _ concat])
  also have "\<dots> = take (m * 50) (latest_first hits)" by (rule concat_pages)
  also have "\<dots> = latest_first hits" by (auto simp: latest_first_def max_def m_def)
  finally show ?thesis by (simp only: count m_def)
qed

section \<open>Sums\<close>

lemma sum_insert_by: "sum_list (map f (insert_by le x ys)) = f x + (sum_list (map f ys) :: nat)"
  by (induction ys) auto

lemma sum_order_by [simp]: "sum_list (map f (order_by le xs)) = (sum_list (map f xs) :: nat)"
  by (induction xs) (auto simp: sum_insert_by)

lemma sum_list_one: "distinct ks \<Longrightarrow> x \<in> set ks \<Longrightarrow> sum_list (map (\<lambda>k. if x = k then 1 else (0 :: nat)) ks) = 1"
proof (induction ks)
  case (Cons k ks)
  have "sum_list (map (\<lambda>k. if x = k then 1 else (0 :: nat)) ks) = 0" if "x \<notin> set ks"
    using that by (induction ks) auto
  with Cons show ?case by auto
qed simp

lemma sum_groups: "distinct ks \<Longrightarrow> set (map key rows) \<subseteq> set ks
    \<Longrightarrow> sum_list (map (\<lambda>k. length (filter (\<lambda>r. key r = k) rows)) ks) = length rows"
proof (induction rows)
  case (Cons r rows)
  have "sum_list (map (\<lambda>k. length (filter (\<lambda>r'. key r' = k) (r # rows))) ks)
      = sum_list (map (\<lambda>k. (if key r = k then 1 else 0) + length (filter (\<lambda>r'. key r' = k) rows)) ks)"
    by (rule arg_cong [of _ _ sum_list]) simp
  also have "\<dots> = sum_list (map (\<lambda>k. if key r = k then 1 else 0) ks) + length rows"
    using Cons by (simp add: sum_list_addf)
  also have "sum_list (map (\<lambda>k. if key r = k then 1 else (0 :: nat)) ks) = 1"
    using Cons(2,3) by (simp add: sum_list_one)
  finally show ?case by simp
qed simp

lemma sum_group_rows: "sum_list (map (\<lambda>(k, rs). length rs) (group_rows le key rows)) = length rows"
  using sum_groups [of "remdups (map key rows)" key rows]
  by (simp add: group_rows_def comp_def)

lemma length_in_group:
  "(k, rs) \<in> set (group_rows le key rows) \<longleftrightarrow> k \<in> key ` set rows \<and> rs = filter (\<lambda>r. key r = k) rows"
  by (auto simp: group_rows_def)

text \<open>
  The figures of a summary agree with each other: the status classes add up to the total, the error
  rate is a share, and it is the share of the class of server errors.
\<close>

lemma log_summary_adds_up:
  fixes env window t
  defines "s \<equiv> log_summary_of env window t"
  shows "sum_list (map snd (ls_status_mix s)) = ls_total_requests s"
    and "0 \<le> ls_error_rate s \<and> ls_error_rate s \<le> 1"
    and "(''5xx'', n) \<in> set (ls_status_mix s) \<Longrightarrow> ls_error_rate s = of_nat n / of_nat (ls_total_requests s)"
proof -
  obtain interval bucket label where w: "resolve_window (coalesce_or window []) = (interval, bucket, label)"
    by (cases "resolve_window (coalesce_or window [])") auto
  let ?logs = "in_window env interval t"
  have mix: "ls_status_mix s = map (\<lambda>(k, rs). (k, length rs))
      (group_rows (e_collate_le env) (\<lambda>log. status_class (rl_status log)) ?logs)"
    and total: "ls_total_requests s = length ?logs"
    and rate: "ls_error_rate s = (if length ?logs > 0
      then of_nat (length (filter (\<lambda>log. rl_status log \<ge> 500) ?logs)) / of_nat (length ?logs) else 0)"
    by (simp_all add: s_def log_summary_of_def w Let_def)
  have "map snd (ls_status_mix s) = map (\<lambda>(k, rs). length rs)
      (group_rows (e_collate_le env) (\<lambda>log. status_class (rl_status log)) ?logs)"
    by (simp add: mix case_prod_unfold)
  then show "sum_list (map snd (ls_status_mix s)) = ls_total_requests s"
    by (simp only: sum_group_rows total)
  have "length (filter (\<lambda>log. rl_status log \<ge> 500) ?logs) \<le> length ?logs" by simp
  then show "0 \<le> ls_error_rate s \<and> ls_error_rate s \<le> 1"
    unfolding rate by (auto simp: divide_le_eq_1 simp del: length_filter_le)
  assume "(''5xx'', n) \<in> set (ls_status_mix s)"
  moreover have "status_class c = ''5xx'' \<longleftrightarrow> c \<ge> 500" for c by (simp add: status_class_def)
  ultimately have "n = length (filter (\<lambda>log. rl_status log \<ge> 500) ?logs)" "?logs \<noteq> []"
    by (auto simp: mix length_in_group)
  then show "ls_error_rate s = of_nat n / of_nat (ls_total_requests s)" by (simp add: rate total)
qed

text \<open>
  The overview counts the users whose effective status is not offline, as long as no heartbeat is
  exactly as old as the timeout: the two queries draw that line differently.
\<close>

lemma overview_effective:
  assumes "e_utc env = e_now env" "cf_heartbeat_timeout cfg \<le> (2 ^ 63 - 1) * 1000"
    and "\<And>p. p \<in> set (presences d) \<Longrightarrow> e_now env - pr_last_heartbeat_at p \<noteq> cf_heartbeat_timeout cfg
      \<and> pr_status p = presence_as_str (presence_from_db (pr_status p))"
  shows "ao_online_in_network (overview env cfg d) = length (filter (\<lambda>p.
      effective_status (e_utc env) (presence_from_db (pr_status p)) (pr_last_heartbeat_at p) (cf_heartbeat_timeout cfg)
        \<noteq> Offline) (presences d))"
proof -
  have "pr_status p \<noteq> ''offline'' \<and> beating env cfg p \<longleftrightarrow>
      effective_status (e_utc env) (presence_from_db (pr_status p)) (pr_last_heartbeat_at p) (cf_heartbeat_timeout cfg)
        \<noteq> Offline" if "p \<in> set (presences d)" for p
    using assms(1,2) assms(3) [OF that]
    by (cases "presence_from_db (pr_status p)") (auto simp: effective_status_def from_std_or_def beating_def)
  then show ?thesis
    by (simp add: overview_def sql_affected_def cong: filter_cong)
qed

end
