(* ===== verification/Server.thy ===== *)
theory Server
  imports Config_Env Rate_Limit Request_Log Ygg_Tokens Admin_Users Relay
begin

text \<open>
  \<^verbatim>\<open>server/src/main.rs\<close>, \<^verbatim>\<open>server/src/infra.rs\<close>, the middleware of \<^verbatim>\<open>server/src/ratelimit.rs\<close> and
  \<^verbatim>\<open>core/src/db.rs\<close>: what happens around the handlers, at start-up, before and beside them. The router is
  that of the web framework; of it the mount point of the Yggdrasil routes is modelled, on which the
  throttled paths depend.
\<close>

section \<open>Start-up\<close>

definition reconcile_after_restart :: "env \<Rightarrow> db \<Rightarrow> db" where
  "reconcile_after_restart env d =
     d\<lparr>relay_sessions := sql_update (\<lambda>r. rs_status r \<noteq> ''closed'')
         (\<lambda>r. r\<lparr>rs_status := ''closed'', rs_closed_at := Some (e_now env)\<rparr>) (relay_sessions d),
       world_sessions := sql_update ws_open (\<lambda>w. w\<lparr>ws_current_players := 0\<rparr>) (world_sessions d)\<rparr>"

definition yggdrasil_api_suffix :: "string \<Rightarrow> string" where
  "yggdrasil_api_suffix address =
     (case strip_prefix ''/api'' (trim_end_matches (CHR ''/'') (snd (parse_public_url address))) of
        Some tail \<Rightarrow> if tail \<noteq> [] then tail else ''/yggdrasil''
      | None \<Rightarrow> ''/yggdrasil'')"

definition yggdrasil_mount_prefix :: "string \<Rightarrow> string" where
  "yggdrasil_mount_prefix api_suffix = ''/api'' @ api_suffix"

definition texture_urls_will_be_absolute :: "string \<Rightarrow> bool" where
  "texture_urls_will_be_absolute address \<longleftrightarrow> fst (parse_public_url address) \<noteq> None"

text \<open>The limiter that \<^verbatim>\<open>build_router\<close> configures.\<close>

definition configured_limiter :: "server_config \<Rightarrow> limiter" where
  "configured_limiter c =
     new_limiter (nat (sv_max_attempts c)) (sv_window c) (sv_trusted_proxy c)
       (yggdrasil_mount_prefix (yggdrasil_api_suffix (cf_yggdrasil_public_url (sv_config c))))"

text \<open>\<^verbatim>\<open>parse\<close> of a header value, which the \<^verbatim>\<open>http\<close> crate refuses for a control character, is a parameter.\<close>

record cors_policy =
  cp_any :: bool
  cp_origins :: "string list"
  cp_credentials :: bool
  cp_methods :: "string list"
  cp_headers :: "string list"

definition build_cors :: "(string \<Rightarrow> bool) \<Rightarrow> string list \<Rightarrow> cors_policy" where
  "build_cors header_value allowed_origins =
     (let base = \<lparr>cp_any = False, cp_origins = [], cp_credentials = False,
            cp_methods = [''GET'', ''POST'', ''PATCH'', ''DELETE'', ''OPTIONS''],
            cp_headers = [''authorization'', ''content-type'', ''x-csrf-token'']\<rparr> in
      if list_ex (\<lambda>origin. origin = ''*'') allowed_origins then base\<lparr>cp_any := True\<rparr>
      else base\<lparr>cp_origins := filter header_value allowed_origins, cp_credentials := True\<rparr>)"

section \<open>The throttle\<close>

text \<open>The middleware in front of a handler: what it hands on, and what it answers itself.\<close>

definition throttled_route ::
  "(int \<Rightarrow> int \<Rightarrow> int option) \<Rightarrow> (string \<Rightarrow> ip_addr option) \<Rightarrow> limiter \<Rightarrow> int \<Rightarrow> string
    \<Rightarrow> (string \<Rightarrow> string option) \<Rightarrow> ip_addr option \<Rightarrow> ('s \<Rightarrow> 'r \<times> 's) \<Rightarrow> (buckets \<times> int list) \<times> 's
    \<Rightarrow> (app_error + 'r) \<times> (buckets \<times> int list) \<times> 's" where
  "throttled_route checked_sub parse_ip li now p headers peer handler st =
     (case rate_limit_middleware checked_sub parse_ip li p headers peer now (fst st) of
        (False, l) \<Rightarrow> (Inl TooManyRequests, l, snd st)
      | (True, l) \<Rightarrow> let (r, s') = handler (snd st) in (Inr r, l, s'))"

section \<open>The hourly tick\<close>

text \<open>A failing sweep is logged and the next one runs; \<open>None\<close> only if the sweep never returned.\<close>

definition cleanup_tick :: "env \<Rightarrow> server_config \<Rightarrow> db \<times> log_table \<Rightarrow> (db \<times> log_table) option" where
  "cleanup_tick env c st =
     (let (d, t) = st;
          d1 = snd (cleanup_expired_yggdrasil env d);
          d2 = snd (cleanup_expired_sessions env d1);
          t1 = snd (delete_request_logs_older_than env (sv_log_retention_days c) t) in
      (case cleanup_stale_join_state env (cf_event_retention_days (sv_config c)) d2 of
         None \<Rightarrow> None
       | Some (_, d3) \<Rightarrow> Some (d3, t1)))"

section \<open>Health and metrics\<close>

definition health :: "bool \<Rightarrow> nat \<times> string \<times> string" where
  "health database_up =
     (if database_up then 200 else 503, if database_up then ''ok'' else ''degraded'',
      if database_up then ''up'' else ''down'')"

text \<open>The session route is the extractor of the administrators on a request of method GET.\<close>

definition authorize_metrics ::
  "env \<Rightarrow> server_config \<Rightarrow> (string \<Rightarrow> string option) \<Rightarrow> db \<Rightarrow> unit app_result" where
  "authorize_metrics env c headers d =
     (if (case (sv_metrics_token c, bearer_token_from_headers headers) of
            (Some expected, Some presented) \<Rightarrow> constant_time_eq expected presented | _ \<Rightarrow> False)
      then Inr ()
      else (case fst (admin_user env (sv_config c) \<lparr>rq_method = ''GET'', rq_header = headers\<rparr> d) of
              Inl e \<Rightarrow> Inl e | Inr _ \<Rightarrow> Inr ()))"

definition metric_lines :: "string \<Rightarrow> string \<Rightarrow> string \<Rightarrow> string" where
  "metric_lines name kind value =
     ''# TYPE '' @ name @ '' '' @ kind @ [CHR 0x0A] @ name @ '' '' @ value @ [CHR 0x0A]"

definition metrics_handler ::
  "env \<Rightarrow> server_config \<Rightarrow> (string \<Rightarrow> string option) \<Rightarrow> uuid relay_hub \<Rightarrow> app_state \<Rightarrow> string app_result" where
  "metrics_handler env c headers hub s =
     (case authorize_metrics env c headers (st_db s) of
        Inl e \<Rightarrow> Inl e
      | Inr _ \<Rightarrow>
          let m = st_metrics s in
          Inr (concat (map (\<lambda>(name, counter). metric_lines name ''counter'' (decimal (unat counter)))
                 [(''loontail_bootstraps_total'', m_bootstraps m), (''loontail_heartbeats_total'', m_heartbeats m),
                  (''loontail_friend_requests_created_total'', m_friend_requests_created m),
                  (''loontail_join_tickets_issued_total'', m_join_tickets_issued m),
                  (''loontail_relay_sessions_opened_total'', m_relay_sessions_opened m),
                  (''loontail_relay_bytes_forwarded_total'', m_relay_bytes_forwarded m),
                  (''loontail_signaling_connections_total'', m_signaling_connections m)])
               @ metric_lines ''loontail_relay_active'' ''gauge'' (decimal (unat (rh_active hub)))
               @ metric_lines ''loontail_signaling_active'' ''gauge'' (decimal (connected_users (st_signaling s)))))"

section \<open>After a restart\<close>

text \<open>
  No relay survives a restart: nobody counts as a guest, every open world is empty, and worlds,
  accounts and the relays that had ended are as they were.
\<close>

lemma restart_reconciles:
  fixes env
  assumes "db_wf d"
  defines "d' \<equiv> reconcile_after_restart env d"
  shows "db_wf d'" "\<And>r. r \<in> set (relay_sessions d') \<Longrightarrow> rs_status r = ''closed''"
    "\<And>r. r \<in> set (relay_sessions d) \<Longrightarrow> rs_status r = ''closed'' \<Longrightarrow> r \<in> set (relay_sessions d')"
    "guest_world d' uid = None" "\<And>w. w \<in> set (world_sessions d') \<Longrightarrow> ws_open w \<Longrightarrow> ws_current_players w = 0"
    "map ws_id (world_sessions d') = map ws_id (world_sessions d)" "users d' = users d"
proof -
  have "db_wf (d\<lparr>relay_sessions := sql_update (\<lambda>r. rs_status r \<noteq> ''closed'')
         (\<lambda>r. r\<lparr>rs_status := ''closed'', rs_closed_at := Some (e_now env)\<rparr>) (relay_sessions d)\<rparr>)" (is "db_wf ?d1")
    by (rule db_wf_update_relay_sessions [OF assms(1)]) auto
  then have "db_wf (?d1\<lparr>world_sessions := sql_update ws_open (\<lambda>w. w\<lparr>ws_current_players := 0\<rparr>) (world_sessions ?d1)\<rparr>)"
    by (rule db_wf_update_world_sessions) (auto simp: ws_open_def)
  then show "db_wf d'" by (simp add: d'_def reconcile_after_restart_def)
  show closed: "rs_status r = ''closed''" if "r \<in> set (relay_sessions d')" for r
    using that by (auto simp: d'_def reconcile_after_restart_def set_sql_update)
  show "r \<in> set (relay_sessions d')" if "r \<in> set (relay_sessions d)" "rs_status r = ''closed''" for r
    using that by (auto simp: d'_def reconcile_after_restart_def set_sql_update intro!: image_eqI [of _ _ r])
  have "filter (\<lambda>r. rs_guest_user_id r = Some uid \<and> rs_status r = ''active'' \<and> fof_world d' (rs_world_session_id r))
      (relay_sessions d') = []"
    using closed by (auto simp: filter_empty_conv)
  then show "guest_world d' uid = None" by (simp add: guest_world_def newest_first_def)
  show "ws_current_players w = 0" if "w \<in> set (world_sessions d')" "ws_open w" for w
    using that by (auto simp: d'_def reconcile_after_restart_def set_sql_update ws_open_def)
  show "map ws_id (world_sessions d') = map ws_id (world_sessions d)" "users d' = users d"
    by (simp_all add: d'_def reconcile_after_restart_def map_sql_update)
qed

section \<open>The mount point\<close>

text \<open>The credential endpoints of the mounted routes are throttled, wherever they are mounted.\<close>

lemma credential_paths_throttled:
  "is_throttled_path (configured_limiter c)
     (yggdrasil_mount_prefix (yggdrasil_api_suffix (cf_yggdrasil_public_url (sv_config c))) @ ''/authserver/authenticate'')"
  "is_throttled_path (configured_limiter c)
     (yggdrasil_mount_prefix (yggdrasil_api_suffix (cf_yggdrasil_public_url (sv_config c))) @ ''/authserver/refresh'')"
  by (simp_all add: is_throttled_path_def configured_limiter_def new_limiter_def throttled_paths_def)

text \<open>A path that merely starts with the letters of the subtree gives a suffix that is no path.\<close>

lemma suffix_cuts_segment: "yggdrasil_api_suffix ''https://h/apiary/ygg'' = ''ary/ygg''"
  by code_simp

lemma suffix_of_segment:
  "snd (parse_public_url address) = ''/api/'' @ rest @ [c] \<Longrightarrow> c \<noteq> CHR ''/''
    \<Longrightarrow> yggdrasil_api_suffix address = CHR ''/'' # rest @ [c]"
  by (simp add: yggdrasil_api_suffix_def trim_end_matches_def)

section \<open>Cross-origin callers\<close>

lemma cors_credentials_listed:
  "cp_credentials (build_cors hv origins) \<longleftrightarrow> \<not> cp_any (build_cors hv origins)"
  "set (cp_origins (build_cors hv origins)) \<subseteq> set origins"
  by (auto simp: build_cors_def Let_def)

section \<open>The throttle in front of the handlers\<close>

text \<open>A refused request leaves the state of the service alone; one that is not throttled costs nothing.\<close>

lemma middleware_refused:
  "throttled_route checked_sub parse_ip li now p headers peer handler (l, s) = (Inl e, l', s') \<Longrightarrow>
     e = TooManyRequests \<and> s' = s \<and> is_throttled_path li p"
  by (auto simp: throttled_route_def rate_limit_middleware_def Let_def split: prod.splits if_splits option.splits bool.splits)

lemma middleware_passed:
  "throttled_route checked_sub parse_ip li now p headers peer handler (l, s) = (Inr r, l', s') \<Longrightarrow>
     handler s = (r, s') \<and> (\<not> is_throttled_path li p \<longrightarrow> l' = l)"
  by (auto simp: throttled_route_def rate_limit_middleware_def Let_def split: prod.splits if_splits option.splits bool.splits)

section \<open>The tick\<close>

lemma swept_users [simp]: "users (swept env n d) = users d" "sessions (swept env n d) = sessions d"
  "yggdrasil_tokens (swept env n d) = yggdrasil_tokens d"
  by (simp_all add: swept_def Let_def delete_terminal_def delete_join_tickets_def expire_lapsed_def)

text \<open>
  Every hour, whatever the retention windows are: the tick returns, and every session and game token
  that was live still resolves to the same account.
\<close>

lemma user_of_hash_cong: "users d = users d' \<Longrightarrow> sessions d = sessions d' \<Longrightarrow> user_of_hash env h d = user_of_hash env h d'"
  unfolding user_of_hash_def find_user_def by simp

lemma cleanup_stale_keeps:
  assumes "db_wf d"
  shows "\<exists>r d'. cleanup_stale_join_state env n d = Some (r, d') \<and> db_wf d' \<and> users d' = users d \<and> sessions d' = sessions d
    \<and> yggdrasil_tokens d' = yggdrasil_tokens d"
proof (cases "in_int4 n")
  case True
  with cleanup_result [OF assms True, of env] db_wf_swept [OF assms] show ?thesis by force
next
  case False
  then have "cleanup_stale_join_state env n d = Some (Inl (Database OutOfRange), expire_lapsed env d)"
    by (simp add: cleanup_stale_join_state_def Let_def)
  with db_wf_expire_lapsed [OF assms] show ?thesis by (simp add: expire_lapsed_def)
qed

lemma cleanup_tick_effect:
  assumes "db_wf d"
  shows "\<exists>d' t'. cleanup_tick env c (d, t) = Some (d', t') \<and> db_wf d' \<and> users d' = users d
    \<and> (\<forall>h. user_of_hash env h d' = user_of_hash env h d) \<and> (\<forall>k. owner_of_hash env k d' = owner_of_hash env k d)"
proof -
  define d1 where "d1 = snd (cleanup_expired_yggdrasil env d)"
  define d2 where "d2 = snd (cleanup_expired_sessions env d1)"
  have d1: "users d1 = users d" "sessions d1 = sessions d" "db_wf d1"
    using assms by (simp_all add: d1_def cleanup_expired_yggdrasil_def db_wf_delete_tokens)
  have d2: "users d2 = users d1" "yggdrasil_tokens d2 = yggdrasil_tokens d1" "db_wf d2"
    using d1(3) by (simp_all add: d2_def cleanup_expired_sessions_def Let_def db_wf_delete_simple)
  obtain r d3 where d3: "cleanup_stale_join_state env (cf_event_retention_days (sv_config c)) d2 = Some (r, d3)" "db_wf d3"
    "users d3 = users d2" "sessions d3 = sessions d2" "yggdrasil_tokens d3 = yggdrasil_tokens d2"
    using cleanup_stale_keeps [OF d2(3)] by blast
  have "user_of_hash env h d3 = user_of_hash env h d" for h
  proof -
    have "user_of_hash env h d3 = user_of_hash env h d2" by (rule user_of_hash_cong) (simp_all add: d3)
    also have "\<dots> = user_of_hash env h d1" unfolding d2_def by (rule se.resolve_purge)
    also have "\<dots> = user_of_hash env h d" by (rule user_of_hash_cong) (simp_all add: d1)
    finally show ?thesis .
  qed
  moreover have "owner_of_hash env k d3 = owner_of_hash env k d" for k
  proof -
    have "owner_of_hash env k d3 = owner_of_hash env k d1" by (rule owner_of_hash_cong) (simp_all add: d3 d2)
    also have "\<dots> = owner_of_hash env k d" unfolding d1_def by (rule yt.resolve_purge)
    finally show ?thesis .
  qed
  moreover have "cleanup_tick env c (d, t) = Some (d3, snd (delete_request_logs_older_than env (sv_log_retention_days c) t))"
    by (simp add: cleanup_tick_def Let_def d1_def [symmetric] d2_def [symmetric] d3(1))
  ultimately show ?thesis using d1(1) d2(1) d3(2,3) by auto
qed

end
