(* ===== verification/Spec2Isabelle.thy ===== *)
theory Spec2Isabelle
  imports Protocol_Uuid Users Friends Cleanup Relay_Run Rights Yggdrasil Rate_Limit Bundle_Sync Catalog_Safety
    Textures Analytics Server
begin

text \<open>
  A verification of the launcher and network backend under \<^verbatim>\<open>src/crates\<close>: a Rust service over one
  Postgres database and a few directories. It keeps accounts and their sessions, answers the Mojang
  (Yggdrasil) handshake, keeps friendships, presence, hosted worlds, join requests, tickets and
  invites, pairs two web sockets into a relay tunnel, serves the launcher catalog and the game
  bundles it installs, and stores skins and capes. File names below are relative to \<^verbatim>\<open>src/crates\<close>.

  \<^bold>\<open>How the program is modelled.\<close> A handler is a function from the request and the shared
  state to its answer, \<open>app_error + 'a\<close>, and the next state; every early return is a branch. The state
  is the \<open>app_state\<close> (database, signaling hub, counters) for accounts and the network, the \<open>store\<close>
  (catalog and bundle tables, disk) for the launcher, the \<open>texture_store\<close> for textures. A statement
  outside a transaction keeps its effect when a later one fails, a transaction does not; what was
  done to the disk stays in either case. Tables are lists of records in insertion order; insertions
  check keys, unique indexes, checks and foreign keys and return the violated constraint by its
  Postgres name. An \<open>env\<close> carries what a request draws from outside: the database clock
  \<open>e_now\<close>, the process clock \<open>e_utc\<close> (both constant during one request), random bytes and
  identifiers indexed by the draw, SHA-256 and hex, and the collation; a \<open>host\<close> adds the file-system
  behaviour, the storage roots, the text of identifiers and the decoder of archives. The file system
  (\<open>Files\<close>) is a list of paths with their content, on which every operation may also fail. Widths
  are kept: ids are 128-bit words, counters wrap at 64 bits, image dimensions are 32-bit words,
  \<^verbatim>\<open>i32\<close> and \<^verbatim>\<open>i64\<close> arguments that can overflow have the check or the wrap written out.

  \<^bold>\<open>Theories.\<close>
  \<^item> \<open>Prelude\<close>, \<open>Text\<close>, \<open>Queries\<close>, \<open>User_Rows\<close>, \<open>Simulation\<close>: SQL statements on lists, Rust's
    \<^verbatim>\<open>str\<close>, lookups, and the simulation contract \<open>timed_simulation\<close>.
  \<^item> \<open>App_Error\<close>, \<open>Models\<close>, \<open>Realtime\<close>, \<open>Config_Env\<close>: \<^verbatim>\<open>core/src/error.rs\<close>, \<^verbatim>\<open>models.rs\<close>,
    \<^verbatim>\<open>realtime.rs\<close> (the signaling hub and the relay rendezvous hub) and \<^verbatim>\<open>config.rs\<close>.
  \<^item> \<open>Database\<close>, \<open>Schema\<close>: the tables of \<^verbatim>\<open>../migrations\<close>, the invariant \<open>db_wf\<close>, and that every
    insertion, update and deletion of the handlers keeps it.
  \<^item> \<open>Sessions\<close>, \<open>Ygg_Tokens\<close>: \<^verbatim>\<open>core/src/auth\<close>, the two token stores, both instances of one locale
    \<open>token_store\<close>; the extractors with the CSRF check.
  \<^item> \<open>Identity\<close>, \<open>Users\<close>, \<open>Accounts\<close>, \<open>Admin_Users\<close>: \<^verbatim>\<open>core/src/identity.rs\<close>,
    \<^verbatim>\<open>network/src/users.rs\<close>, \<^verbatim>\<open>yggdrasil/src/account.rs\<close>, and \<^verbatim>\<open>users.rs\<close>, \<^verbatim>\<open>auth.rs\<close>,
    \<^verbatim>\<open>startup.rs\<close> of \<^verbatim>\<open>admin/src\<close>.
  \<^item> \<open>Presence\<close>, \<open>Lifecycle\<close>, \<open>Friends\<close>, \<open>Worlds\<close>, \<open>Join\<close>, \<open>Invites\<close>, \<open>Cleanup\<close>: the files of
    \<^verbatim>\<open>network/src\<close> of the same names; \<open>lifecycle\<close> is the locale of the conditional status update
    that guards friend requests, join requests and invites.
  \<^item> \<open>Relay\<close>, \<open>Relay_Run\<close>: \<^verbatim>\<open>network/src/relay.rs\<close> and \<^verbatim>\<open>signaling.rs\<close>; the ticket gate, admission, the
    byte pump, and the rendezvous of all connections of one relay session as a step relation.
  \<^item> \<open>Protocol_Uuid\<close>, \<open>Protocol_Png\<close>, \<open>Protocol_Payload\<close>: \<^verbatim>\<open>yggdrasil-protocol/src\<close>.
  \<^item> \<open>Profiles\<close>, \<open>Join_Sessions\<close>, \<open>Yggdrasil\<close>: \<^verbatim>\<open>yggdrasil/src\<close>, profiles with textures, the join
    store and the endpoints of the auth and session servers.
  \<^item> \<open>Files\<close>, \<open>Launcher_Store\<close>: the file system, and the tables and disk of the launcher.
  \<^item> \<open>Bundle_Paths\<close>, \<open>Bundle_Manifest\<close>, \<open>Bundle_Repo\<close>, \<open>Bundle_Archive\<close>, \<open>Bundle_Admin\<close>: \<^verbatim>\<open>storage.rs\<close>,
    \<^verbatim>\<open>manifest.rs\<close>, \<^verbatim>\<open>repo.rs\<close>, \<^verbatim>\<open>archive.rs\<close>, and \<^verbatim>\<open>admin.rs\<close> with \<^verbatim>\<open>public.rs\<close> of \<^verbatim>\<open>bundles/src\<close>;
    \<open>Bundle_Sync\<close> relates the rows of a build to the tree on disk.
  \<^item> \<open>Catalog_Read\<close>, \<open>Catalog_Admin\<close>, \<open>Catalog_Safety\<close>: \<^verbatim>\<open>catalog/src\<close> and \<^verbatim>\<open>core/src/storage.rs\<close>, the
    public documents, the administration, and what it preserves.
  \<^item> \<open>Textures\<close>: \<^verbatim>\<open>textures/src\<close>, skins and capes and the files behind their rows.
  \<^item> \<open>Request_Log\<close>, \<open>Analytics\<close>: \<^verbatim>\<open>core/src/request_log.rs\<close> and \<^verbatim>\<open>server/src/request_log_capture.rs\<close>
    with the background writer as a step relation; \<^verbatim>\<open>analytics.rs\<close> and \<^verbatim>\<open>request_logs.rs\<close> of
    \<^verbatim>\<open>admin/src\<close>.
  \<^item> \<open>Client_Ip\<close>, \<open>Rate_Limit\<close>, \<open>Server\<close>: \<^verbatim>\<open>ip.rs\<close>, \<^verbatim>\<open>ratelimit.rs\<close>, and \<^verbatim>\<open>main.rs\<close> with \<^verbatim>\<open>infra.rs\<close> of
    \<^verbatim>\<open>server/src\<close>: the throttle, the mount point, start-up, the hourly tick, health and metrics.
  \<^item> \<open>Service\<close>, \<open>Rights\<close>: the network and account endpoints as one step relation; reachable states.
  \<^item> \<open>Sample\<close>: a small deployment on which the properties are instantiated.

  \<^bold>\<open>What is shown.\<close> Every reachable state satisfies the schema and only administrators change rights
  (\<open>Service\<close>, \<open>Rights\<close>). Nobody enters a world without the friendship, invite or approval the
  endpoints ask for, tickets are minted once and used once, and a free slot is never overbooked by
  admissions (\<open>Join\<close>, \<open>Invites\<close>, \<open>Relay\<close>). Relay pairs always join a host and a guest of one session
  (\<open>Relay_Run\<close>). A session or game token stops resolving once revoked, rotated or reset (\<open>Sessions\<close>,
  \<open>Ygg_Tokens\<close>, \<open>Accounts\<close>, \<open>Admin_Users\<close>), and the hourly tick ends none that is live (\<open>Server\<close>). A
  registered player can sign in and reach a server, and a server only admits a player who announced
  the join with a valid token (\<open>Identity\<close>, \<open>Yggdrasil\<close>). The limiter and the join store refine a log
  of past operations (\<open>Rate_Limit\<close>, \<open>Join_Sessions\<close>). Every operation of the catalog keeps its keys
  and references, a renamed client keeps its bundle, and the batch loading answers what assembling
  each client on its own would (\<open>Catalog_Safety\<close>, \<open>Catalog_Read\<close>). An archive never writes outside the
  build, supplied paths stay below their root, and uploads, deletions and moves leave the rows of a
  build in step with its files (\<open>Bundle_Paths\<close>, \<open>Bundle_Archive\<close>, \<open>Bundle_Sync\<close>). Every texture row has
  its own file on disk, and an uploaded texture is the one that is served (\<open>Textures\<close>). The request
  log shows the latest requests and loses, repeats or reorders nothing beyond the losses it counts;
  a request is attributed to the account its credential named (\<open>Request_Log\<close>).

  \<^bold>\<open>Loops.\<close> The chunked deletion of \<^verbatim>\<open>cleanup.rs\<close> is a partial function in the option monad and is
  proved to return whenever the chunk is positive. The directory walk of \<^verbatim>\<open>archive.rs\<close>, the batches of
  rows of \<^verbatim>\<open>bundles/src/repo.rs\<close> and SQL's \<^verbatim>\<open>LIKE\<close> recurse on a measure that decreases; the log writer,
  which never ends, is a step relation; every other loop is structural. No fuel is used.

  \<^bold>\<open>Not modelled.\<close> Argon2, SHA-256, RSA, base64, JSON and ZIP coding, random sources, address
  parsing and time-zone arithmetic are libraries and parameters. The router, header layers, tracing,
  cookies, the listener, the free-space query and the embedded static panel are the framework's or
  the system's. Concurrent requests interleave at the granularity of handlers, except in \<open>Relay_Run\<close>
  and \<open>Request_Log\<close> and in the named race lemmas of \<open>Relay\<close> and \<open>Friends\<close>, which interleave their
  atomic steps. Links and permissions of the file system are outside \<open>Files\<close>.
\<close>

end
